(* ===== verification/Prelude.thy ===== *)
theory Prelude
  imports Main "HOL-Library.Word" "HOL-Library.Sublist"
begin

text \<open>
  Shared vocabulary of the development: the machine types of the C++ sources, the
  conversion between \<open>std::string\<close> characters and bytes, generic facts on lists and
  words, the collections of automation the component theories extend, and the two
  contracts every component shares: \<open>step_system\<close> (an invariant that the steps of
  a component keep holds after every run) and \<open>frame_stream\<close> (what the two frame
  codecs promise to the TCP server and to the socket worker).
\<close>

section \<open>Machine types\<close>

type_synonym u8 = "8 word"
type_synonym u16 = "16 word"
type_synonym u32 = "32 word"
type_synonym u64 = "64 word"
type_synonym bytes = "8 word list"

named_theorems codec_simps \<open>executable facts on bytes and frames\<close>
named_theorems text_simps \<open>facts on searching and scanning strings\<close>
named_theorems grid_simps \<open>facts on the occupancy grid\<close>
named_theorems robot_frame \<open>which fields an operation of the robot leaves alone\<close>

section \<open>Characters and bytes\<close>

definition byte_of_char :: "char \<Rightarrow> u8" where
  "byte_of_char c = word_of_nat (of_char c)"

definition char_of_byte :: "u8 \<Rightarrow> char" where
  "char_of_byte b = char_of (unat b)"

lemma of_char_lt_256: "(of_char c :: nat) < 256"
  by (metis of_char_mod_256 mod_less_divisor zero_less_numeral)

lemma char_byte_char [simp, codec_simps]: "char_of_byte (byte_of_char c) = c"
  using of_char_lt_256 [of c]
  by (simp add: char_of_byte_def byte_of_char_def unat_of_nat)

lemma byte_char_byte [simp, codec_simps]: "byte_of_char (char_of_byte b) = b"
proof -
  have "unat b < 256" using unsigned_less [of b, where ?'a = nat] by simp
  then show ?thesis
    by (simp add: char_of_byte_def byte_of_char_def)
qed

lemma map_char_byte [simp]: "map (char_of_byte \<circ> byte_of_char) s = s"
  by (induction s) simp_all

section \<open>Lists\<close>

lemma strict_prefix_length_less: "strict_prefix xs ys \<Longrightarrow> length xs < length ys"
  by (auto simp: strict_prefix_def prefix_def)

lemma drop_take_append: "length xs = a \<Longrightarrow> drop a (take (a + n) (xs @ ys)) = take n ys"
  by simp

text \<open>
  A prefix of a concatenation either lies inside the first part or covers it.
\<close>

lemma prefix_append_cases:
  assumes "prefix p (xs @ ys)"
  obtains "strict_prefix p xs" | q where "p = xs @ q" and "prefix q ys"
proof (cases "prefix p xs \<and> p \<noteq> xs")
  case True
  then show ?thesis using that(1) by (simp add: strict_prefix_def)
next
  case False
  with assms have "\<exists>q. p = xs @ q \<and> prefix q ys"
    by (auto simp: prefix_append)
  then show ?thesis using that(2) by blast
qed

section \<open>Runs of a component\<close>

text \<open>
  A component takes steps from a list of events; a step that does not return ends the run
  without a result. Where every admissible step returns and keeps an invariant, every
  admissible run does.
\<close>

fun run_steps :: "('s \<Rightarrow> 'e \<Rightarrow> 's option) \<Rightarrow> 's \<Rightarrow> 'e list \<Rightarrow> 's option" where
  "run_steps step s [] = Some s"
| "run_steps step s (e # es) = (case step s e of None \<Rightarrow> None | Some s' \<Rightarrow> run_steps step s' es)"

lemma run_steps_append:
  "run_steps step s (es @ fs) = (case run_steps step s es of None \<Rightarrow> None | Some s' \<Rightarrow> run_steps step s' fs)"
  by (induction es arbitrary: s) (auto split: option.split)

locale step_system =
  fixes step :: "'s \<Rightarrow> 'e \<Rightarrow> 's option"
    and inv :: "'s \<Rightarrow> bool"
    and admissible :: "'e \<Rightarrow> bool"
  assumes step_inv: "inv s \<Longrightarrow> admissible e \<Longrightarrow> \<exists>s'. step s e = Some s' \<and> inv s'"
begin

lemma run_inv: "inv s \<Longrightarrow> list_all admissible es \<Longrightarrow> \<exists>s'. run_steps step s es = Some s' \<and> inv s'"
proof (induction es arbitrary: s)
  case (Cons e es)
  then obtain s1 where "step s e = Some s1" "inv s1" using step_inv by fastforce
  with Cons.IH [of s1] Cons.prems(2) show ?case by simp
qed simp

end

section \<open>Framed byte streams\<close>

text \<open>
  A receiver appends every chunk it reads to its buffer and takes frames off the buffer
  until none is complete (\<open>drain\<close>). \<open>feed_all\<close> is the receiver's whole
  life: the frames it has taken after a list of chunks and what is left in its buffer.
\<close>

fun feed_all :: "(bytes \<Rightarrow> 'f list \<times> bytes) \<Rightarrow> bytes \<Rightarrow> bytes list \<Rightarrow> 'f list \<times> bytes" where
  "feed_all drain buf [] = ([], buf)"
| "feed_all drain buf (c # cs) =
     (let (fs, buf1) = drain (buf @ c); (gs, buf2) = feed_all drain buf1 cs
      in (fs @ gs, buf2))"

locale frame_stream =
  fixes enc :: "'f \<Rightarrow> bytes"
    and nxt :: "bytes \<Rightarrow> bytes \<times> 'f option"
    and drain :: "bytes \<Rightarrow> 'f list \<times> bytes"
    and ok :: "'f \<Rightarrow> bool"
  assumes nxt_enc: "ok f \<Longrightarrow> nxt (enc f @ rest) = (rest, Some f)"
    and nxt_partial: "ok f \<Longrightarrow> strict_prefix p (enc f) \<Longrightarrow> nxt p = (p, None)"
    and enc_nonempty: "enc f \<noteq> []"
    and drain_eq: "drain buf =
      (case nxt buf of (buf', None) \<Rightarrow> ([], buf')
       | (buf', Some f) \<Rightarrow> (let (fs, r) = drain buf' in (f # fs, r)))"
begin

lemma drain_frame: "ok f \<Longrightarrow> drain (enc f @ rest) = (let (fs, r) = drain rest in (f # fs, r))"
  by (subst drain_eq) (simp add: nxt_enc)

lemma drain_partial: "ok f \<Longrightarrow> strict_prefix p (enc f) \<Longrightarrow> drain p = ([], p)"
  by (subst drain_eq) (simp add: nxt_partial)

lemma drain_stream:
  "list_all ok fs \<Longrightarrow> ok g \<Longrightarrow> strict_prefix p (enc g) \<Longrightarrow>
    drain (concat (map enc fs) @ p) = (fs, p)"
  by (induction fs) (simp_all add: drain_partial drain_frame)

text \<open>
  Whatever part of a stream of frames has arrived, the receiver has taken exactly the
  complete frames of that part; what it holds back starts the next frame and holds no
  complete one.
\<close>

lemma drain_prefix:
  assumes "list_all ok fs" and "ok g" and "strict_prefix p (enc g)"
    and "prefix q (concat (map enc fs) @ p)"
  shows "\<exists>fs1 fs2 r. fs = fs1 @ fs2 \<and> q = concat (map enc fs1) @ r \<and> drain q = (fs1, r)
    \<and> drain r = ([], r)"
  using assms(1,4)
proof (induction fs arbitrary: q)
  case Nil
  then have "prefix q p" by simp
  with assms(3) have "strict_prefix q (enc g)"
    by (meson prefix_order.le_less_trans)
  then have "drain q = ([], q)" by (rule drain_partial [OF assms(2)])
  then show ?case by simp
next
  case (Cons f fs)
  have okf: "ok f" and okfs: "list_all ok fs" using Cons.prems(1) by simp_all
  have "prefix q (enc f @ (concat (map enc fs) @ p))" using Cons.prems(2) by simp
  then show ?case
  proof (cases rule: prefix_append_cases)
    case 1
    then have "drain q = ([], q)" by (rule drain_partial [OF okf])
    moreover have "f # fs = [] @ (f # fs) \<and> q = concat (map enc []) @ q" by simp
    ultimately show ?thesis by blast
  next
    case (2 q')
    from Cons.IH [OF okfs 2(2)] obtain fs1 fs2 r where IH: "fs = fs1 @ fs2"
      "q' = concat (map enc fs1) @ r" "drain q' = (fs1, r)" "drain r = ([], r)" by blast
    have "drain q = (f # fs1, r)" using IH(3) by (simp add: 2(1) drain_frame [OF okf])
    moreover have "f # fs = (f # fs1) @ fs2 \<and> q = concat (map enc (f # fs1)) @ r"
      using IH(1,2) 2(1) by simp
    ultimately show ?thesis using IH(4) by blast
  qed
qed

text \<open>
  Fragmentation does not matter: however the stream is cut into chunks, the receiver
  takes the frames that were sent, in order, and holds the unfinished frame.
\<close>

lemma feed_all_stream:
  assumes "list_all ok fs" and "ok g" and "strict_prefix p (enc g)"
    and "buf @ concat chunks = concat (map enc fs) @ p" and "drain buf = ([], buf)"
  shows "feed_all drain buf chunks = (fs, p)"
  using assms(1,4,5)
proof (induction chunks arbitrary: fs buf)
  case Nil
  then have "drain (concat (map enc fs) @ p) = ([], buf)" by simp
  with Nil show ?case using drain_stream [OF _ assms(2,3)] by simp
next
  case (Cons c cs)
  have "(buf @ c) @ concat cs = concat (map enc fs) @ p" using Cons.prems(2) by simp
  then have "prefix (buf @ c) (concat (map enc fs) @ p)" by (rule prefixI [OF sym])
  from drain_prefix [OF Cons.prems(1) assms(2,3) this]
  obtain fs1 fs2 r where fs: "fs = fs1 @ fs2" and bc: "buf @ c = concat (map enc fs1) @ r"
    and dr: "drain (buf @ c) = (fs1, r)" and r: "drain r = ([], r)" by blast
  have "concat (map enc fs1) @ r @ concat cs = concat (map enc fs) @ p"
    using Cons.prems(2) bc by (metis append.assoc concat.simps(2))
  then have rest: "r @ concat cs = concat (map enc fs2) @ p" by (simp add: fs)
  have ok2: "list_all ok fs2" using Cons.prems(1) fs by simp
  from Cons.IH [OF ok2 rest r] show ?case by (simp add: dr fs)
qed

lemma stream_prefix:
  "list_all ok fs \<Longrightarrow> ok g0 \<Longrightarrow> prefix q (concat (map enc fs)) \<Longrightarrow>
    \<exists>fs1 fs2 g p. fs = fs1 @ fs2 \<and> ok g \<and> strict_prefix p (enc g) \<and> q = concat (map enc fs1) @ p"
proof (induction fs arbitrary: q)
  case Nil
  then have "strict_prefix q (enc g0)" using enc_nonempty [of g0] by (simp add: strict_prefix_def)
  with Nil(2) show ?case by (intro exI [of _ "[]"] exI [of _ g0] exI [of _ q]) simp
next
  case (Cons f fs)
  have f: "ok f" "list_all ok fs" and "prefix q (enc f @ concat (map enc fs))" using Cons.prems(1,3) by simp_all
  from this(3) show ?case
  proof (cases rule: prefix_append_cases)
    case 1
    with f(1) show ?thesis
      by (intro exI [of _ "[]"] exI [of _ "f # fs"] exI [of _ f] exI [of _ q]) simp
  next
    case (2 q')
    from Cons.IH [OF f(2) Cons.prems(2) 2(2)] obtain fs1 fs2 g p where
      "fs = fs1 @ fs2" "ok g" "strict_prefix p (enc g)" "q' = concat (map enc fs1) @ p" by blast
    with 2(1) show ?thesis
      by (intro exI [of _ "f # fs1"] exI [of _ fs2] exI [of _ g] exI [of _ p]) simp
  qed
qed

text \<open>Of a part of a stream of frames, cut in any way, the receiver takes the first frames.\<close>

lemma feed_all_prefix:
  assumes "list_all ok fs" and "ok g0" and "prefix (concat chunks) (concat (map enc fs))"
  shows "\<exists>fs1 fs2 r. fs = fs1 @ fs2 \<and> feed_all drain [] chunks = (fs1, r)"
proof -
  obtain fs1 fs2 g p where s: "fs = fs1 @ fs2" "ok g" "strict_prefix p (enc g)" "concat chunks = concat (map enc fs1) @ p"
    using stream_prefix [OF assms] by blast
  have "drain [] = ([], [])"
    using drain_partial [OF assms(2), of "[]"] enc_nonempty [of g0] by (simp add: strict_prefix_def)
  with feed_all_stream [of fs1 g p "[]" chunks] s assms(1) have "feed_all drain [] chunks = (fs1, p)" by simp
  with s(1) show ?thesis by blast
qed

end

end
