(* ===== verification/Frame_Codec.thy ===== *)
theory Frame_Codec
  imports Prelude
begin

unbundle bit_operations_syntax

text \<open>
  The bridge's frame codec (\<open>bridge/src/frame_codec.cpp\<close>) over 32-bit length words:
  \<open>encode_frame\<close>, the decoder's \<open>append\<close>, \<open>next\<close> and \<open>clear\<close> on its
  byte buffer, and the receive loop that takes every complete frame
  (\<open>decoder_drain\<close>, the inner loop of \<open>TcpServer::client_loop\<close>). The lemmas give
  the round trip, the rejection of hostile lengths, the bound of the buffer and, by
  interpreting \<open>frame_stream\<close>, the independence from TCP fragmentation.
\<close>

section \<open>Frames and the encoder\<close>

record frame =
  ftype :: u8
  fflags :: u8
  fseq :: u16
  fpayload :: string

definition kMinFrameLength :: u32 where
  "kMinFrameLength = 4"

definition kMaxFrameLength :: u32 where
  "kMaxFrameLength = 64 * 1024"

definition encode_frame :: "u8 \<Rightarrow> u8 \<Rightarrow> u16 \<Rightarrow> string \<Rightarrow> bytes" where
  "encode_frame ty flags sq payload =
     (let len = 4 + (word_of_nat (length payload) :: u32)
      in [ucast (len AND 0xFF),
          ucast (drop_bit 8 len AND 0xFF),
          ucast (drop_bit 16 len AND 0xFF),
          ucast (drop_bit 24 len AND 0xFF),
          ty,
          flags,
          ucast (sq AND 0xFF),
          ucast (drop_bit 8 sq AND 0xFF)] @ map byte_of_char payload)"

section \<open>The decoder\<close>

text \<open>
  The decoder's state is its buffer. \<open>next\<close> returns the new buffer and the frame it
  took, if any; a length outside the protocol's range empties the buffer.
\<close>

definition decoder_append :: "bytes \<Rightarrow> bytes \<Rightarrow> bytes" where
  "decoder_append buf data = (if data = [] then buf else buf @ data)"

definition frame_length_of :: "bytes \<Rightarrow> u32" where
  "frame_length_of buf =
     ucast (buf ! 0) OR push_bit 8 (ucast (buf ! 1)) OR
     push_bit 16 (ucast (buf ! 2)) OR push_bit 24 (ucast (buf ! 3))"

definition decoder_next :: "bytes \<Rightarrow> bytes \<times> frame option" where
  "decoder_next buf =
     (if length buf < 4 then (buf, None)
      else let len = frame_length_of buf in
        if len < kMinFrameLength \<or> len > kMaxFrameLength then ([], None)
        else if length buf < unat (4 + len) then (buf, None)
        else (drop (4 + unat len) buf,
              Some \<lparr>ftype = buf ! 4, fflags = buf ! 5,
                    fseq = ucast (buf ! 6) OR push_bit 8 (ucast (buf ! 7)),
                    fpayload = map char_of_byte (drop 8 (take (4 + unat len) buf))\<rparr>))"

definition decoder_clear :: "bytes \<Rightarrow> bytes" where
  "decoder_clear buf = []"

lemma kMin_unat [simp]: "unat kMinFrameLength = 4"
  by (simp add: kMinFrameLength_def)

lemma kMax_unat [simp]: "unat kMaxFrameLength = 65536"
  by (simp add: kMaxFrameLength_def)

lemma unat_four_plus: "len \<le> kMaxFrameLength \<Longrightarrow> unat (4 + len :: u32) = 4 + unat len"
  using unat_mono [of kMaxFrameLength len]
  by (simp add: unat_word_ariths word_le_nat_alt)

lemma decoder_next_shrinks: "decoder_next buf = (buf', Some f) \<Longrightarrow> length buf' < length buf"
  by (auto simp: decoder_next_def Let_def split: if_splits)

text \<open>\<open>while (decoder.next(frame)) batch.push_back(frame);\<close>\<close>

function decoder_drain :: "bytes \<Rightarrow> frame list \<times> bytes" where
  "decoder_drain buf =
     (case decoder_next buf of
        (buf', None) \<Rightarrow> ([], buf')
      | (buf', Some f) \<Rightarrow> (let (fs, r) = decoder_drain buf' in (f # fs, r)))"
  by pat_completeness auto
termination
  by (relation "measure length") (auto dest: decoder_next_shrinks [OF sym])

declare decoder_drain.simps [simp del]

section \<open>Round trip\<close>

definition frame_ok :: "frame \<Rightarrow> bool" where
  "frame_ok f \<longleftrightarrow> length (fpayload f) \<le> 65532"

definition encode :: "frame \<Rightarrow> bytes" where
  "encode f = encode_frame (ftype f) (fflags f) (fseq f) (fpayload f)"

lemma length_encode_frame [simp]: "length (encode_frame t fl sq p) = 8 + length p"
  by (simp add: encode_frame_def Let_def)

lemma byte_mask: "(0xFF :: 'a::len word) = mask 8"
  by (simp add: mask_eq_exp_minus_1)

lemma u32_of_bytes:
  "(ucast (ucast (x AND 0xFF) :: u8) :: u32) OR
   push_bit 8 (ucast (ucast (drop_bit 8 x AND 0xFF) :: u8)) OR
   push_bit 16 (ucast (ucast (drop_bit 16 x AND 0xFF) :: u8)) OR
   push_bit 24 (ucast (ucast (drop_bit 24 x AND 0xFF) :: u8)) = (x :: u32)"
proof (rule bit_word_eqI)
  fix n
  assume "n < LENGTH(32)"
  then consider "n < 8" | "8 \<le> n" "n < 16" | "16 \<le> n" "n < 24" | "24 \<le> n" "n < 32"
    by fastforce
  then show "bit ((ucast (ucast (x AND 0xFF) :: u8) :: u32) OR
   push_bit 8 (ucast (ucast (drop_bit 8 x AND 0xFF) :: u8)) OR
   push_bit 16 (ucast (ucast (drop_bit 16 x AND 0xFF) :: u8)) OR
   push_bit 24 (ucast (ucast (drop_bit 24 x AND 0xFF) :: u8))) n = bit x n"
    by cases (auto simp: byte_mask bit_simps)
qed

lemma u16_of_bytes:
  "(ucast (ucast (x AND 0xFF) :: u8) :: u16) OR
   push_bit 8 (ucast (ucast (drop_bit 8 x AND 0xFF) :: u8)) = (x :: u16)"
proof (rule bit_word_eqI)
  fix n
  assume "n < LENGTH(16)"
  then consider "n < 8" | "8 \<le> n" "n < 16" by fastforce
  then show "bit ((ucast (ucast (x AND 0xFF) :: u8) :: u16) OR
   push_bit 8 (ucast (ucast (drop_bit 8 x AND 0xFF) :: u8))) n = bit x n"
    by cases (auto simp: byte_mask bit_simps)
qed

lemma frame_length_encode:
  "frame_length_of (encode_frame t fl sq p @ rest) = 4 + word_of_nat (length p)"
  by (simp add: frame_length_of_def encode_frame_def Let_def u32_of_bytes)

lemma decoder_next_encode:
  assumes "frame_ok f"
  shows "decoder_next (encode f @ rest) = (rest, Some f)"
proof -
  let ?len = "4 + word_of_nat (length (fpayload f)) :: u32"
  let ?buf = "encode f @ rest"
  have n: "unat (word_of_nat (length (fpayload f)) :: u32) = length (fpayload f)"
    using assms by (simp add: frame_ok_def unat_of_nat)
  have len: "unat ?len = 4 + length (fpayload f)"
    using assms n by (simp add: frame_ok_def unat_word_ariths)
  have bounds: "\<not> ?len < kMinFrameLength" "\<not> ?len > kMaxFrameLength"
    using assms len by (simp_all add: word_less_nat_alt frame_ok_def)
  then have len4: "unat (4 + ?len) = 8 + length (fpayload f)"
    using len by (subst unat_four_plus) (simp_all add: not_less)
  have buf_len: "frame_length_of ?buf = ?len"
    by (simp add: encode_def frame_length_encode)
  have enc: "?buf = [ucast (?len AND 0xFF), ucast (drop_bit 8 ?len AND 0xFF),
      ucast (drop_bit 16 ?len AND 0xFF), ucast (drop_bit 24 ?len AND 0xFF),
      ftype f, fflags f, ucast (fseq f AND 0xFF), ucast (drop_bit 8 (fseq f) AND 0xFF)]
      @ map byte_of_char (fpayload f) @ rest"
    by (simp add: encode_def encode_frame_def Let_def)
  have "fseq f = ucast (?buf ! 6) OR push_bit 8 (ucast (?buf ! 7))"
    by (simp add: enc u16_of_bytes)
  moreover have "length ?buf = 8 + length (fpayload f) + length rest"
    by (simp add: encode_def)
  moreover have "drop (4 + unat ?len) ?buf = rest"
    by (simp add: len encode_def)
  moreover have "map char_of_byte (drop 8 (take (4 + unat ?len) ?buf)) = fpayload f"
  proof -
    have "drop 8 (take (8 + length (fpayload f)) ?buf)
        = take (length (fpayload f)) (map byte_of_char (fpayload f) @ rest)"
      by (subst enc, rule drop_take_append) simp
    then show ?thesis by (simp add: len)
  qed
  moreover have "?buf ! 4 = ftype f" "?buf ! 5 = fflags f" by (simp_all add: enc)
  ultimately show ?thesis
    using bounds len4 by (simp add: decoder_next_def buf_len)
qed

text \<open>
  A proper part of a frame is kept: nothing is taken and nothing is lost.
\<close>

lemma decoder_next_partial:
  assumes "frame_ok f" and "strict_prefix p (encode f)"
  shows "decoder_next p = (p, None)"
proof (cases "length p < 4")
  case True
  then show ?thesis by (simp add: decoder_next_def)
next
  case False
  from assms(2) obtain q where q: "encode f = p @ q" and "q \<noteq> []"
    by (auto elim: strict_prefixE')
  then have short: "length p < 8 + length (fpayload f)"
    by (metis encode_def length_append length_encode_frame length_greater_0_conv less_add_same_cancel1)
  have "frame_length_of p = frame_length_of (encode f @ [])"
    using False by (auto simp: frame_length_of_def q nth_append)
  then have len: "frame_length_of p = 4 + word_of_nat (length (fpayload f))"
    by (simp only: encode_def frame_length_encode)
  have n: "unat (frame_length_of p) = 4 + length (fpayload f)"
    using assms(1) by (simp add: len frame_ok_def unat_word_ariths unat_of_nat)
  then have "frame_length_of p \<le> kMaxFrameLength" "kMinFrameLength \<le> frame_length_of p"
    using assms(1) by (simp_all add: word_le_nat_alt frame_ok_def)
  with short n show ?thesis
    by (auto simp: decoder_next_def Let_def unat_four_plus dest: leD)
qed

interpretation bridge_codec: frame_stream encode decoder_next decoder_drain frame_ok
proof
  fix f and rest :: bytes
  show "frame_ok f \<Longrightarrow> decoder_next (encode f @ rest) = (rest, Some f)"
    by (rule decoder_next_encode)
next
  fix f and p :: bytes
  show "frame_ok f \<Longrightarrow> strict_prefix p (encode f) \<Longrightarrow> decoder_next p = (p, None)"
    by (rule decoder_next_partial)
next
  fix f
  show "encode f \<noteq> []" by (simp add: encode_def encode_frame_def Let_def)
next
  fix buf
  show "decoder_drain buf =
    (case decoder_next buf of (buf', None) \<Rightarrow> ([], buf')
     | (buf', Some f) \<Rightarrow> (let (fs, r) = decoder_drain buf' in (f # fs, r)))"
    by (rule decoder_drain.simps)
qed

section \<open>The buffer stays bounded\<close>

text \<open>
  After a drain the buffer holds less than one frame of the largest length.
\<close>

lemma decoder_next_None_bound:
  "decoder_next buf = (buf', None) \<Longrightarrow> length buf' < 4 + 65536 \<and> decoder_next buf' = (buf', None)"
proof -
  assume a: "decoder_next buf = (buf', None)"
  show ?thesis
  proof (cases "buf' = []")
    case True
    then show ?thesis by (simp add: decoder_next_def)
  next
    case False
    then have "buf' = buf" and "length buf < 4 \<or>
      (frame_length_of buf \<le> kMaxFrameLength \<and> length buf < unat (4 + frame_length_of buf))"
      using a by (auto simp: decoder_next_def Let_def not_less split: if_splits)
    then show ?thesis using a by (auto simp: unat_four_plus word_le_nat_alt)
  qed
qed

lemma decoder_drain_bound:
  "length (snd (decoder_drain buf)) < 4 + 65536
    \<and> decoder_next (snd (decoder_drain buf)) = (snd (decoder_drain buf), None)"
proof (induction buf rule: decoder_drain.induct)
  case (1 buf)
  show ?case
  proof (cases "decoder_next buf")
    case (Pair buf' fo)
    show ?thesis
    proof (cases fo)
      case None
      with Pair show ?thesis
        using decoder_next_None_bound [of buf buf'] by (simp add: decoder_drain.simps [of buf])
    next
      case (Some f)
      with Pair "1.IH" [of buf' fo f] show ?thesis
        by (auto simp: decoder_drain.simps [of buf] split: prod.split)
    qed
  qed
qed

section \<open>Properties\<close>

text \<open>Decoding the bytes of \<open>encode_frame\<close> gives back the type, the flags, the sequence
  number and the payload, and leaves exactly the bytes that follow the frame in the buffer, for
  every payload the protocol allows (at most 65532 bytes).\<close>

theorem frame_round_trip:
  assumes "length p \<le> 65532"
  shows "decoder_next (encode_frame ty fl sq p @ rest) =
    (rest, Some \<lparr>ftype = ty, fflags = fl, fseq = sq, fpayload = p\<rparr>)"
  using decoder_next_encode [of "\<lparr>ftype = ty, fflags = fl, fseq = sq, fpayload = p\<rparr>" rest] assms
  by (simp add: frame_ok_def encode_def)

theorem frame_round_trip_witness:
  "decoder_next (encode_frame 0x01 0 7 ''{}'' @ [9]) =
    ([9], Some \<lparr>ftype = 0x01, fflags = 0, fseq = 7, fpayload = ''{}''\<rparr>)"
  by (rule frame_round_trip) simp

text \<open>However TCP cuts a stream of frames into chunks, the decoder hands out exactly the
  frames that were sent, in their order, and keeps the bytes of the frame that is not complete.\<close>

lemma frames_survive_fragmentation:
  assumes "list_all frame_ok fs" and "frame_ok g" and "strict_prefix p (encode g)"
    and "concat chunks = concat (map encode fs) @ p"
  shows "feed_all decoder_drain (decoder_clear buf) chunks = (fs, p)"
proof -
  have "decoder_drain [] = ([], [])"
    by (subst decoder_drain.simps) (simp add: decoder_next_def)
  with assms(4) show ?thesis
    unfolding decoder_clear_def
    by (intro bridge_codec.feed_all_stream [OF assms(1-3)]) simp_all
qed

lemma frames_survive_fragmentation_witness:
  "feed_all decoder_drain (decoder_clear [1, 2]) [[6], [0, 0, 0, 0x04, 0, 3], [0, 0x68, 0x69, 6, 0]] =
    ([\<lparr>ftype = 0x04, fflags = 0, fseq = 3, fpayload = ''hi''\<rparr>], [6, 0])"
proof -
  let ?f = "\<lparr>ftype = 0x04, fflags = 0, fseq = 3, fpayload = ''hi''\<rparr>"
  have e: "encode ?f = [6, 0, 0, 0, 0x04, 0, 3, 0, 0x68, 0x69]"
    by (simp add: encode_def encode_frame_def byte_of_char_def of_char_def)
  show ?thesis
    using frames_survive_fragmentation
        [of "[?f]" ?f "[6, 0]" "[[6], [0, 0, 0, 0x04, 0, 3], [0, 0x68, 0x69, 6, 0]]" "[1, 2]"]
    by (simp add: e frame_ok_def)
qed

lemma feed_all_bounded:
  "length buf < 65540 \<and> decoder_next buf = (buf, None) \<Longrightarrow>
    length (snd (feed_all decoder_drain buf cs)) < 65540 \<and>
    decoder_next (snd (feed_all decoder_drain buf cs)) = (snd (feed_all decoder_drain buf cs), None)"
proof (induction cs arbitrary: buf)
  case (Cons c cs)
  obtain fs r where d: "decoder_drain (buf @ c) = (fs, r)" by fastforce
  with decoder_drain_bound [of "buf @ c"] have "length r < 65540 \<and> decoder_next r = (r, None)" by simp
  from Cons.IH [OF this] d show ?case by (simp add: case_prod_beta)
qed simp

text \<open>Whatever bytes a peer sends, however they are cut, after the receive loop has run the
  decoder holds less than one frame of the largest length, and no complete frame.\<close>

lemma decoder_buffer_bounded:
  shows "length (snd (feed_all decoder_drain (decoder_clear buf) chunks)) < 65540 \<and>
    decoder_next (snd (feed_all decoder_drain (decoder_clear buf) chunks)) =
      (snd (feed_all decoder_drain (decoder_clear buf) chunks), None)"
  unfolding decoder_clear_def
  by (rule feed_all_bounded) (simp add: decoder_next_def)

text \<open>A length field below 4 or above 65536 is never waited for: the decoder empties its
  buffer at once and gives no frame, so a hostile length cannot make it allocate or stall.\<close>

theorem hostile_length_resets:
  assumes "4 \<le> length buf"
    and "frame_length_of buf < kMinFrameLength \<or> frame_length_of buf > kMaxFrameLength"
  shows "decoder_next buf = ([], None)"
  using assms by (simp add: decoder_next_def Let_def)

theorem hostile_length_resets_witness: "decoder_next [0xFF, 0xFF, 0xFF, 0xFF, 1, 0, 0, 0] = ([], None)"
  by (rule hostile_length_resets) (simp_all add: frame_length_of_def kMaxFrameLength_def kMinFrameLength_def)

end
