(* ===== verification/Ieee_Float.thy ===== *)
theory Ieee_Float
  imports Complex_Main
begin

text \<open>
  The floating-point numbers of the C++ sources, IEEE 754 binary64 (\<open>double\<close>) and
  binary32 (\<open>float\<close>), computed exactly: every operation computes its exact result as a
  ratio of integers times a power of two and rounds it once, to nearest, ties to even.
  Signed zeros, infinities and NaN are values, comparisons are those of C++ (false on
  NaN). A number is a sign and a magnitude, the magnitude being what the low 63 (31) bits
  of the machine representation spell: consecutive magnitudes are consecutive numbers,
  the infinity is the magnitude after the largest finite one, everything above it is NaN.
  The lemmas say what the programs rely on: rounding never crosses a representable number,
  so it keeps every bound that is itself a number of the format.
\<close>

section \<open>Formats and numbers\<close>

record fmt =
  mbits :: nat
  ebits :: nat

definition binary64 :: fmt where
  "binary64 = \<lparr>mbits = 52, ebits = 11\<rparr>"

definition binary32 :: fmt where
  "binary32 = \<lparr>mbits = 23, ebits = 8\<rparr>"

text \<open>The magnitude of infinity, and the exponent of the smallest number, negated.\<close>

definition top_mag :: "fmt \<Rightarrow> nat" where
  "top_mag f = (2 ^ ebits f - 1) * 2 ^ mbits f"

definition kmin :: "fmt \<Rightarrow> nat" where
  "kmin f = 2 ^ (ebits f - 1) + mbits f - 2"

datatype fp = Fp (fneg: bool) (fmag: nat)

type_synonym double = fp
type_synonym float32 = fp

text \<open>The NaN an invalid operation makes, and the one of two operands that is kept.\<close>

definition fp_nan :: "fmt \<Rightarrow> fp" where
  "fp_nan f = Fp True (Suc (top_mag f))"

definition fp_inf :: "fmt \<Rightarrow> bool \<Rightarrow> fp" where
  "fp_inf f s = Fp s (top_mag f)"

definition is_nan :: "fmt \<Rightarrow> fp \<Rightarrow> bool" where
  "is_nan f x \<longleftrightarrow> top_mag f < fmag x"

definition is_inf :: "fmt \<Rightarrow> fp \<Rightarrow> bool" where
  "is_inf f x \<longleftrightarrow> fmag x = top_mag f"

definition nan_of :: "fmt \<Rightarrow> fp \<Rightarrow> fp \<Rightarrow> fp" where
  "nan_of f x y = (if is_nan f x then x else y)"

definition is_fin :: "fmt \<Rightarrow> fp \<Rightarrow> bool" where
  "is_fin f x \<longleftrightarrow> fmag x < top_mag f"

text \<open>The value of a finite number is \<open>fp_man * 2 ^ fp_exp\<close>, with its sign.\<close>

definition fp_man :: "fmt \<Rightarrow> fp \<Rightarrow> nat" where
  "fp_man f x = (if fmag x < 2 ^ mbits f then fmag x else 2 ^ mbits f + fmag x mod 2 ^ mbits f)"

definition fp_exp :: "fmt \<Rightarrow> fp \<Rightarrow> int" where
  "fp_exp f x = (if fmag x < 2 ^ mbits f then - int (kmin f)
                 else int (fmag x div 2 ^ mbits f) - 1 - int (kmin f))"

definition fp_sman :: "fmt \<Rightarrow> fp \<Rightarrow> int" where
  "fp_sman f x = (if fneg x then - int (fp_man f x) else int (fp_man f x))"

section \<open>Rounding\<close>

text \<open>The number of bits of a natural, and the binary logarithm of a ratio.\<close>

fun nbits :: "nat \<Rightarrow> nat" where
  "nbits n = (if n = 0 then 0 else Suc (nbits (n div 2)))"

declare nbits.simps [simp del]

definition ratio_log :: "nat \<Rightarrow> nat \<Rightarrow> int" where
  "ratio_log n d =
     (let k = int (nbits n) - int (nbits d)
      in if d * 2 ^ nat k \<le> n * 2 ^ nat (- k) then k else k - 1)"

text \<open>The magnitude nearest to \<open>n / d * 2 ^ e\<close>, ties to the even magnitude.\<close>

definition round_mag :: "fmt \<Rightarrow> nat \<Rightarrow> nat \<Rightarrow> int \<Rightarrow> nat" where
  "round_mag f n d e =
     (if n = 0 then 0
      else let q = max (ratio_log n d + e - int (mbits f)) (- int (kmin f));
               num = n * 2 ^ nat (e - q);
               den = d * 2 ^ nat (q - e);
               t = num div den;
               r = num mod den;
               u = (if den < 2 * r \<or> (den = 2 * r \<and> odd t) then t + 1 else t)
           in min (top_mag f) (nat (q + int (kmin f)) * 2 ^ mbits f + u))"

section \<open>Operations\<close>

definition fp_neg :: "fp \<Rightarrow> fp" where
  "fp_neg x = Fp (\<not> fneg x) (fmag x)"

definition fp_abs :: "fp \<Rightarrow> fp" where
  "fp_abs x = Fp False (fmag x)"

definition fp_add :: "fmt \<Rightarrow> fp \<Rightarrow> fp \<Rightarrow> fp" where
  "fp_add f x y =
     (if is_nan f x \<or> is_nan f y then nan_of f x y
      else if is_inf f x then (if is_inf f y \<and> fneg x \<noteq> fneg y then fp_nan f else x)
      else if is_inf f y then y
      else let e = min (fp_exp f x) (fp_exp f y);
               a = fp_sman f x * 2 ^ nat (fp_exp f x - e) + fp_sman f y * 2 ^ nat (fp_exp f y - e)
           in if a = 0 then Fp (fneg x \<and> fneg y) 0
              else Fp (a < 0) (round_mag f (nat \<bar>a\<bar>) 1 e))"

definition fp_sub :: "fmt \<Rightarrow> fp \<Rightarrow> fp \<Rightarrow> fp" where
  "fp_sub f x y =
     (if is_nan f x \<or> is_nan f y then nan_of f x y else fp_add f x (fp_neg y))"

definition fp_mul :: "fmt \<Rightarrow> fp \<Rightarrow> fp \<Rightarrow> fp" where
  "fp_mul f x y =
     (if is_nan f x \<or> is_nan f y then nan_of f x y
      else if is_inf f x then (if fmag y = 0 then fp_nan f else fp_inf f (fneg x \<noteq> fneg y))
      else if is_inf f y then (if fmag x = 0 then fp_nan f else fp_inf f (fneg x \<noteq> fneg y))
      else Fp (fneg x \<noteq> fneg y)
             (round_mag f (fp_man f x * fp_man f y) 1 (fp_exp f x + fp_exp f y)))"

definition fp_div :: "fmt \<Rightarrow> fp \<Rightarrow> fp \<Rightarrow> fp" where
  "fp_div f x y =
     (if is_nan f x \<or> is_nan f y then nan_of f x y
      else if is_inf f x then (if is_inf f y then fp_nan f else fp_inf f (fneg x \<noteq> fneg y))
      else if is_inf f y then Fp (fneg x \<noteq> fneg y) 0
      else if fmag y = 0 then (if fmag x = 0 then fp_nan f else fp_inf f (fneg x \<noteq> fneg y))
      else Fp (fneg x \<noteq> fneg y)
             (round_mag f (fp_man f x) (fp_man f y) (fp_exp f x - fp_exp f y)))"

text \<open>The integer square root, and the correctly rounded square root.\<close>

fun isqrt :: "nat \<Rightarrow> nat" where
  "isqrt n = (if n = 0 then 0
     else let r = 2 * isqrt (n div 4) in if (r + 1) * (r + 1) \<le> n then r + 1 else r)"

declare isqrt.simps [simp del]

text \<open>
  The mantissa is scaled by an even power of two so that its integer square root has at
  least three bits more than the format keeps; the bit appended below it says whether the
  root was exact, so the final rounding sees every tie as it is.
\<close>

definition fp_sqrt :: "fmt \<Rightarrow> fp \<Rightarrow> fp" where
  "fp_sqrt f x =
     (if is_nan f x then x
      else if fmag x = 0 then x
      else if fneg x then fp_nan f
      else if is_inf f x then x
      else let e = fp_exp f x;
               h = 2 * (int (mbits f) + 3) + e mod 2;
               m = fp_man f x * 2 ^ nat h;
               r = isqrt m
           in Fp False (round_mag f (2 * r + (if r * r = m then 0 else 1)) 1 ((e - h) div 2 - 1)))"

text \<open>Comparisons: by the signed magnitude, false when either side is NaN.\<close>

definition fkey :: "fp \<Rightarrow> int" where
  "fkey x = (if fneg x then - int (fmag x) else int (fmag x))"

definition fp_lt :: "fmt \<Rightarrow> fp \<Rightarrow> fp \<Rightarrow> bool" where
  "fp_lt f x y \<longleftrightarrow> \<not> is_nan f x \<and> \<not> is_nan f y \<and> fkey x < fkey y"

definition fp_le :: "fmt \<Rightarrow> fp \<Rightarrow> fp \<Rightarrow> bool" where
  "fp_le f x y \<longleftrightarrow> \<not> is_nan f x \<and> \<not> is_nan f y \<and> fkey x \<le> fkey y"

definition fp_eq :: "fmt \<Rightarrow> fp \<Rightarrow> fp \<Rightarrow> bool" where
  "fp_eq f x y \<longleftrightarrow> \<not> is_nan f x \<and> \<not> is_nan f y \<and> fkey x = fkey y"

text \<open>\<open>std::max\<close> and \<open>std::min\<close> return the first argument unless the second wins.\<close>

definition fp_max :: "fmt \<Rightarrow> fp \<Rightarrow> fp \<Rightarrow> fp" where
  "fp_max f x y = (if fp_lt f x y then y else x)"

definition fp_min :: "fmt \<Rightarrow> fp \<Rightarrow> fp \<Rightarrow> fp" where
  "fp_min f x y = (if fp_lt f y x then y else x)"

text \<open>Conversions: decimal literals, integers, \<open>floor\<close>, \<open>ceil\<close>.\<close>

definition fp_lit :: "fmt \<Rightarrow> nat \<Rightarrow> nat \<Rightarrow> fp" where
  "fp_lit f n d = Fp False (round_mag f n d 0)"

definition fp_of_int :: "fmt \<Rightarrow> int \<Rightarrow> fp" where
  "fp_of_int f i = Fp (i < 0) (round_mag f (nat \<bar>i\<bar>) 1 0)"

definition int_floor :: "fmt \<Rightarrow> fp \<Rightarrow> int" where
  "int_floor f x = (if 0 \<le> fp_exp f x then fp_sman f x * 2 ^ nat (fp_exp f x)
                    else fp_sman f x div 2 ^ nat (- fp_exp f x))"

definition fp_floor :: "fmt \<Rightarrow> fp \<Rightarrow> fp" where
  "fp_floor f x =
     (if \<not> is_fin f x \<or> 0 \<le> fp_exp f x then x
      else let i = int_floor f x
           in Fp (fneg x) (round_mag f (nat \<bar>i\<bar>) 1 0))"

definition fp_ceil :: "fmt \<Rightarrow> fp \<Rightarrow> fp" where
  "fp_ceil f x = fp_neg (fp_floor f (fp_neg x))"

text \<open>
  \<open>static_cast<int>\<close> of a double: truncation towards zero. Outside the range of
  \<open>int\<close>, and for NaN, C++ leaves the result undefined; the model takes what the
  program's platform (x86-64, \<open>cvttsd2si\<close>) returns, the smallest \<open>int\<close>.
\<close>

definition int_trunc :: "fmt \<Rightarrow> fp \<Rightarrow> int" where
  "int_trunc f x = (if fneg x then - int_floor f (fp_abs x) else int_floor f x)"

definition fp_to_int32 :: "fmt \<Rightarrow> fp \<Rightarrow> int" where
  "fp_to_int32 f x =
     (if is_fin f x \<and> - (2 ^ 31) \<le> int_trunc f x \<and> int_trunc f x < 2 ^ 31
      then int_trunc f x else - (2 ^ 31))"

text \<open>Evaluation of one rounding, from its intermediate values.\<close>

lemma round_mag_eval:
  assumes "n \<noteq> 0" and "max (ratio_log n d + e - int (mbits f)) (- int (kmin f)) = q"
    and "n * 2 ^ nat (e - q) = num" and "d * 2 ^ nat (q - e) = den"
    and "num div den = t" and "num mod den = r"
  shows "round_mag f n d e = min (top_mag f) (nat (q + int (kmin f)) * 2 ^ mbits f +
    (if den < 2 * r \<or> (den = 2 * r \<and> odd t) then t + 1 else t))"
  using assms by (simp add: round_mag_def Let_def)

lemma nbits_eval:
  "nbits (numeral n) = Suc (nbits (numeral n div 2))" "nbits 1 = 1" "nbits (Suc 0) = 1"
  by (simp_all add: nbits.simps)

lemma fmt_eval [simp]:
  "mbits binary64 = 52" "mbits binary32 = 23" "kmin binary64 = 1074" "kmin binary32 = 149"
  "top_mag binary64 = 9218868437227405312" "top_mag binary32 = 2139095040"
  by (simp_all add: binary64_def binary32_def kmin_def top_mag_def)

section \<open>Values of magnitudes\<close>

text \<open>\<open>mag_int f k\<close> is the value of magnitude \<open>k\<close> in units of the smallest number.\<close>

definition mag_int :: "fmt \<Rightarrow> nat \<Rightarrow> nat" where
  "mag_int f k = (if k < 2 ^ mbits f then k
                  else (2 ^ mbits f + k mod 2 ^ mbits f) * 2 ^ (k div 2 ^ mbits f - 1))"

lemma mag_int_scaled:
  assumes "t \<le> 2 ^ Suc (mbits f)" and "s = 0 \<or> 2 ^ mbits f \<le> t"
  shows "mag_int f (s * 2 ^ mbits f + t) = t * 2 ^ s"
proof -
  let ?M = "2 ^ mbits f :: nat"
  have M: "0 < ?M" by simp
  consider "t < ?M" "s = 0" | "?M \<le> t" "t < 2 * ?M" | "t = 2 * ?M"
    using assms by fastforce
  then show ?thesis
  proof cases
    case 1
    then show ?thesis by (simp add: mag_int_def)
  next
    case 2
    define u where "u = t - ?M"
    have t: "t = ?M + u" and u: "u < ?M" using 2 by (simp_all add: u_def)
    have k: "s * ?M + t = u + Suc s * ?M" by (simp add: t)
    have "(s * ?M + t) div ?M = Suc s" "(s * ?M + t) mod ?M = u"
      unfolding k using u M by (simp_all only: div_mult_self1 mod_mult_self1) simp_all
    moreover have "\<not> s * ?M + t < ?M" using 2 by simp
    ultimately show ?thesis by (simp add: mag_int_def t)
  next
    case 3
    have k: "s * ?M + t = 0 + Suc (Suc s) * ?M" by (simp add: 3)
    have "(s * ?M + t) div ?M = Suc (Suc s)" "(s * ?M + t) mod ?M = 0"
      unfolding k using M by (simp_all only: div_mult_self1 mod_mult_self1) simp_all
    moreover have "\<not> s * ?M + t < ?M" using 3 by simp
    ultimately show ?thesis by (simp add: mag_int_def 3)
  qed
qed

lemma mag_split:
  obtains s t :: nat where "k = s * 2 ^ mbits f + t" and "t < 2 ^ Suc (mbits f)"
    and "s = 0 \<or> 2 ^ mbits f \<le> t"
proof (cases "k < (2::nat) ^ mbits f")
  case True
  then show ?thesis using that [of 0 k] by simp
next
  case False
  let ?M = "2 ^ mbits f :: nat"
  have "1 \<le> k div ?M" using False by (simp add: div_greater_zero_iff Suc_le_eq)
  then have "k = (k div ?M - 1) * ?M + (?M + k mod ?M)"
    by (metis add.assoc add_mult_distrib div_mult_mod_eq le_add_diff_inverse2 mult_1)
  then show ?thesis using that [of "k div ?M - 1" "?M + k mod ?M"] by simp
qed

lemma mag_int_less_Suc: "mag_int f k < mag_int f (Suc k)"
proof -
  obtain s t where k: "k = s * 2 ^ mbits f + t" and "t < 2 ^ Suc (mbits f)"
    and "s = 0 \<or> 2 ^ mbits f \<le> t" by (rule mag_split)
  moreover from this have "s = 0 \<or> 2 ^ mbits f \<le> Suc t" "Suc t \<le> 2 ^ Suc (mbits f)"
    by auto
  ultimately have "mag_int f k = t * 2 ^ s" "mag_int f (s * 2 ^ mbits f + Suc t) = Suc t * 2 ^ s"
    using mag_int_scaled [of t f s] mag_int_scaled [of "Suc t" f s] by simp_all
  then show ?thesis by (simp add: k)
qed

text \<open>The gap after a magnitude is at most one unit in the last place.\<close>

lemma mag_int_Suc_le: "mag_int f (Suc k) \<le> mag_int f k + 2 ^ (k div 2 ^ mbits f)"
proof -
  obtain s t where k: "k = s * 2 ^ mbits f + t" and t: "t < 2 ^ Suc (mbits f)"
    and c: "s = 0 \<or> 2 ^ mbits f \<le> t" by (rule mag_split)
  moreover from this have "s = 0 \<or> 2 ^ mbits f \<le> Suc t" "Suc t \<le> 2 ^ Suc (mbits f)"
    by auto
  ultimately have "mag_int f k = t * 2 ^ s" "mag_int f (Suc k) = Suc t * 2 ^ s"
    using mag_int_scaled [of t f s] mag_int_scaled [of "Suc t" f s] by simp_all
  moreover have "s \<le> k div 2 ^ mbits f" by (simp add: k)
  then have "(2::nat) ^ s \<le> 2 ^ (k div 2 ^ mbits f)" by (intro power_increasing) simp_all
  ultimately show ?thesis by simp
qed

lemma mag_int_strict_mono: "strict_mono (mag_int f)"
  by (simp add: strict_mono_Suc_iff mag_int_less_Suc)

lemma mag_int_less_iff [simp]: "mag_int f a < mag_int f b \<longleftrightarrow> a < b"
  by (rule strict_mono_less [OF mag_int_strict_mono])

lemma mag_int_le_iff [simp]: "mag_int f a \<le> mag_int f b \<longleftrightarrow> a \<le> b"
  by (rule strict_mono_less_eq [OF mag_int_strict_mono])

lemma mag_int_eq_iff [simp]: "mag_int f a = mag_int f b \<longleftrightarrow> a = b"
  by (rule strict_mono_eq [OF mag_int_strict_mono])

lemma mag_int_0 [simp]: "mag_int f 0 = 0"
  by (simp add: mag_int_def)

section \<open>Rounding never crosses a number of the format\<close>

lemma nbits_0 [simp]: "nbits 0 = 0"
  by (simp add: nbits.simps)

lemma nbits_upper: "n < 2 ^ nbits n"
proof (induction n rule: nbits.induct)
  case (1 n)
  show ?case
  proof (cases "n = 0")
    case False
    then have "n div 2 < 2 ^ nbits (n div 2)" by (rule "1.IH")
    then have "n < 2 * 2 ^ nbits (n div 2)" by simp
    with False show ?thesis by (simp add: nbits.simps [of n])
  qed simp
qed

lemma nbits_lower: "0 < n \<Longrightarrow> 2 ^ nbits n \<le> 2 * n"
proof (induction n rule: nbits.induct)
  case (1 n)
  show ?case
  proof (cases "n div 2 = 0")
    case True
    with "1.prems" have "n = 1" by simp
    then show ?thesis by (simp add: nbits.simps)
  next
    case False
    with "1.IH" "1.prems" have "2 ^ nbits (n div 2) \<le> 2 * (n div 2)" by simp
    then have "2 * 2 ^ nbits (n div 2) \<le> 2 * n" by linarith
    with "1.prems" show ?thesis by (simp add: nbits.simps [of n])
  qed
qed

lemma real_less: "a < b \<Longrightarrow> real a < real b"
  by (simp only: of_nat_less_iff)

lemma real_le: "a \<le> b \<Longrightarrow> real a \<le> real b"
  by (simp only: of_nat_le_iff)

lemma powi_nat_diff: "2 powi (int a - int b) = (2::real) ^ a / 2 ^ b"
  by (simp add: power_int_diff)

lemma powi_2_pos [simp]: "(0::real) < 2 powi k"
  by simp

lemma powi_2_Suc: "2 powi (k + 1) = 2 * (2::real) powi k"
  by (simp add: power_int_add)

text \<open>\<open>2 powi k\<close> compared through the natural powers that evaluate.\<close>

lemma powi_le_iff: "real d * 2 powi k \<le> real n \<longleftrightarrow> d * 2 ^ nat k \<le> n * 2 ^ nat (- k)"
proof (cases k)
  case (nonneg m)
  then have "real d * 2 powi k = real (d * 2 ^ nat k)" by simp
  then show ?thesis by (simp only: nonneg of_nat_le_iff) simp
next
  case (neg m)
  have "2 powi k = (1::real) / 2 ^ Suc m"
    by (simp only: neg power_int_minus power_int_of_nat inverse_eq_divide)
  then have "real d * 2 powi k \<le> real n \<longleftrightarrow> real d / 2 ^ Suc m \<le> real n" by simp
  also have "\<dots> \<longleftrightarrow> real d \<le> real (n * 2 ^ Suc m)"
    by (subst pos_divide_le_eq) simp_all
  also have "\<dots> \<longleftrightarrow> d \<le> n * 2 ^ Suc m" by (simp only: of_nat_le_iff)
  finally show ?thesis by (simp add: neg nat_add_distrib)
qed

lemma ratio_log_spec:
  assumes "0 < n" and "0 < d"
  shows "real d * 2 powi ratio_log n d \<le> real n"
    and "real n < 2 * (real d * 2 powi ratio_log n d)"
proof -
  define k where "k = int (nbits n) - int (nbits d)"
  have nu: "real n < 2 ^ nbits n" and du: "real d < 2 ^ nbits d"
    using nbits_upper [of n, THEN real_less] nbits_upper [of d, THEN real_less] by simp_all
  have nl: "2 ^ nbits n \<le> 2 * real n" and dl: "2 ^ nbits d \<le> 2 * real d"
    using nbits_lower [OF assms(1), THEN real_le] nbits_lower [OF assms(2), THEN real_le] by simp_all
  have k: "2 powi k * 2 ^ nbits d = (2::real) ^ nbits n"
    by (simp add: k_def powi_nat_diff)
  have p: "(0::real) < 2 powi k" by simp
  have up: "real n < 2 * (real d * 2 powi k)"
  proof -
    have "real n < 2 powi k * 2 ^ nbits d" using nu k by simp
    also have "\<dots> \<le> 2 powi k * (2 * real d)" using dl p by (intro mult_left_mono) simp_all
    finally show ?thesis by (simp add: mult_ac)
  qed
  have lo: "real d * 2 powi k < 2 * real n"
  proof -
    have "2 powi k * real d < 2 powi k * 2 ^ nbits d" using du p by (rule mult_strict_left_mono)
    then show ?thesis using nl k by (simp add: mult_ac)
  qed
  have k1: "2 * (2 powi (k - 1)) = (2::real) powi k"
    using powi_2_Suc [of "k - 1"] by simp
  have "real d * 2 powi ratio_log n d \<le> real n \<and> real n < 2 * (real d * 2 powi ratio_log n d)"
  proof (cases "d * 2 ^ nat k \<le> n * 2 ^ nat (- k)")
    case True
    then have "ratio_log n d = k" by (simp add: ratio_log_def k_def)
    with True up show ?thesis by (simp add: powi_le_iff [symmetric])
  next
    case False
    then have L: "ratio_log n d = k - 1" by (simp add: ratio_log_def k_def)
    have "real n < real d * 2 powi k"
      using False by (simp add: powi_le_iff [symmetric] not_le)
    moreover have "2 * (real d * 2 powi (k - 1)) = real d * 2 powi k"
      by (simp only: k1 [symmetric] mult.left_commute)
    ultimately show ?thesis using lo unfolding L by (intro conjI; linarith)
  qed
  then show "real d * 2 powi ratio_log n d \<le> real n"
    and "real n < 2 * (real d * 2 powi ratio_log n d)" by simp_all
qed

lemma powi_nat_ratio: "(2::real) ^ nat i / 2 ^ nat (- i) = 2 powi i"
proof (cases i)
  case (nonneg m)
  then show ?thesis by simp
next
  case (neg m)
  have "2 powi i = (1::real) / 2 ^ Suc m"
    by (simp only: neg power_int_minus power_int_of_nat inverse_eq_divide)
  moreover have "nat i = 0" "nat (- i) = Suc m" using neg by simp_all
  ultimately show ?thesis by simp
qed

lemma div_bounds_real:
  assumes "0 < den"
  shows "real (num div den) * real den \<le> real num"
    and "real num < (real (num div den) + 1) * real den"
proof -
  have "num div den * den \<le> num" by (rule div_times_less_eq_dividend)
  then show "real (num div den) * real den \<le> real num"
    by (simp only: of_nat_mult [symmetric] of_nat_le_iff)
  have "num < Suc (num div den) * den"
    using assms by (metis dividend_less_div_times mult.commute mult_Suc add.commute)
  then have "real num < real (Suc (num div den) * den)" by (simp only: of_nat_less_iff)
  then show "real num < (real (num div den) + 1) * real den" by (simp add: algebra_simps)
qed

text \<open>
  The quotient \<open>t\<close> that \<open>round_mag\<close> computes places the exact value between two
  neighbouring magnitudes.
\<close>

lemma round_mag_brackets:
  fixes f n d e
  defines "q \<equiv> max (ratio_log n d + e - int (mbits f)) (- int (kmin f))"
  defines "num \<equiv> n * 2 ^ nat (e - q)" and "den \<equiv> d * 2 ^ nat (q - e)"
  defines "s \<equiv> nat (q + int (kmin f))" and "t \<equiv> num div den"
  assumes "0 < n" and "0 < d"
  shows "real n / real d * 2 powi (e + int (kmin f)) = real num / real den * 2 ^ s"
    and "mag_int f (s * 2 ^ mbits f + t) = t * 2 ^ s"
    and "mag_int f (s * 2 ^ mbits f + Suc t) = Suc t * 2 ^ s"
proof -
  have den: "0 < den" using assms(7) by (simp add: den_def)
  have qs: "q + int (kmin f) = int s" by (simp add: s_def q_def max_def)
  have ratio: "real num / real den = real n / real d * 2 powi (e - q)"
    using powi_nat_ratio [of "e - q"] by (simp add: num_def den_def field_simps)
  have "2 powi (e - q) * 2 powi (q + int (kmin f)) = (2::real) powi (e + int (kmin f))"
    by (simp flip: power_int_add)
  then show "real n / real d * 2 powi (e + int (kmin f)) = real num / real den * 2 ^ s"
    unfolding ratio qs by simp
  let ?L = "ratio_log n d"
  have lo: "2 powi ?L \<le> real n / real d" and hi: "real n / real d < 2 powi (?L + 1)"
    using ratio_log_spec [OF assms(6,7)] assms(7)
    unfolding powi_2_Suc by (simp_all add: field_simps)
  have t_hi: "t < 2 ^ Suc (mbits f)"
  proof -
    have "real num / real den < 2 powi (?L + 1) * 2 powi (e - q)"
      unfolding ratio using hi by (intro mult_strict_right_mono) simp_all
    also have "\<dots> = 2 powi (?L + 1 + e - q)" by (simp flip: power_int_add add: algebra_simps)
    also have "\<dots> \<le> 2 powi (int (Suc (mbits f)))"
      by (rule power_int_increasing) (simp_all add: q_def)
    also have "\<dots> = 2 ^ Suc (mbits f)" by (rule power_int_of_nat)
    finally have "real num < 2 ^ Suc (mbits f) * real den"
      using den by (simp add: divide_less_eq)
    then have "real num < real (2 ^ Suc (mbits f) * den)" by simp
    then have "num < 2 ^ Suc (mbits f) * den" by (simp only: of_nat_less_iff)
    then show ?thesis unfolding t_def by (simp add: less_mult_imp_div_less)
  qed
  have t_lo: "s = 0 \<or> 2 ^ mbits f \<le> t"
  proof (cases "q = - int (kmin f)")
    case True
    then show ?thesis by (simp add: s_def)
  next
    case False
    then have q: "q = ?L + e - int (mbits f)" by (simp add: q_def max_def split: if_splits)
    have "2 ^ mbits f = 2 powi ?L * (2 powi (e - q) :: real)"
      by (simp add: q flip: power_int_add)
    also have "\<dots> \<le> real num / real den"
      unfolding ratio using lo by (intro mult_right_mono) simp_all
    finally have "2 ^ mbits f * real den \<le> real num"
      using den by (simp add: le_divide_eq)
    then have "real (2 ^ mbits f * den) \<le> real num" by simp
    then have "2 ^ mbits f * den \<le> num" by (simp only: of_nat_le_iff)
    then show ?thesis unfolding t_def using den by (simp add: less_eq_div_iff_mult_less_eq)
  qed
  show "mag_int f (s * 2 ^ mbits f + t) = t * 2 ^ s"
    using t_hi t_lo by (intro mag_int_scaled) auto
  show "mag_int f (s * 2 ^ mbits f + Suc t) = Suc t * 2 ^ s"
    using t_hi t_lo by (intro mag_int_scaled) auto
qed

text \<open>The exact value of \<open>n / d * 2 ^ e\<close>, in the units of \<open>mag_int\<close>.\<close>

definition exact :: "fmt \<Rightarrow> nat \<Rightarrow> nat \<Rightarrow> int \<Rightarrow> real" where
  "exact f n d e = real n / real d * 2 powi (e + int (kmin f))"

lemma exact_0 [simp]: "exact f 0 d e = 0"
  by (simp add: exact_def)

lemma round_mag_0 [simp]: "round_mag f 0 d e = 0"
  by (simp add: round_mag_def)

lemma round_mag_cases:
  assumes "0 < n" and "0 < d"
  obtains j where "real (mag_int f j) \<le> exact f n d e" and "exact f n d e < real (mag_int f (Suc j))"
    and "round_mag f n d e = min (top_mag f) j \<or>
      (round_mag f n d e = min (top_mag f) (Suc j) \<and> real (mag_int f j) < exact f n d e)"
proof -
  define q where "q = max (ratio_log n d + e - int (mbits f)) (- int (kmin f))"
  define num where "num = n * 2 ^ nat (e - q)"
  define den where "den = d * 2 ^ nat (q - e)"
  define s where "s = nat (q + int (kmin f))"
  define t where "t = num div den"
  define r where "r = num mod den"
  note B = round_mag_brackets [where f = f and e = e, OF assms, folded q_def, folded num_def den_def s_def,
      folded t_def]
  have den: "0 < den" using assms(2) by (simp add: den_def)
  have num: "num = t * den + r" by (simp add: t_def r_def)
  have X: "exact f n d e = real num / real den * 2 ^ s"
    unfolding exact_def by (rule B(1))
  let ?j = "s * 2 ^ mbits f + t"
  have "real t \<le> real num / real den"
    using div_bounds_real(1) [OF den, of num] den by (simp add: t_def le_divide_eq)
  then have 1: "real (mag_int f ?j) \<le> exact f n d e"
    using mult_right_mono [of "real t" "real num / real den" "2 ^ s"] by (simp add: X B(2))
  have "real num / real den < real t + 1"
    using div_bounds_real(2) [OF den, of num] den by (simp add: t_def divide_less_eq)
  then have 2: "exact f n d e < real (mag_int f (Suc ?j))"
    using mult_strict_right_mono [of "real num / real den" "real t + 1" "2 ^ s"] B(3)
    by (simp add: X add.commute distrib_right)
  have rm: "round_mag f n d e = min (top_mag f)
      (s * 2 ^ mbits f + (if den < 2 * r \<or> (den = 2 * r \<and> odd t) then t + 1 else t))"
    unfolding round_mag_def Let_def q_def num_def den_def s_def t_def r_def
    using assms(1) by (simp only: neq0_conv [symmetric] if_False)
  have 3: "round_mag f n d e = min (top_mag f) ?j \<or>
      (round_mag f n d e = min (top_mag f) (Suc ?j) \<and> real (mag_int f ?j) < exact f n d e)"
  proof (cases "den < 2 * r \<or> (den = 2 * r \<and> odd t)")
    case True
    then have "0 < r" using den by auto
    then have "t * den < num" using num by linarith
    then have "real t * real den < real num" by (simp only: of_nat_mult [symmetric] of_nat_less_iff)
    then have "real t < real num / real den" using den by (simp add: less_divide_eq)
    then have "real (mag_int f ?j) < exact f n d e"
      using mult_strict_right_mono [of "real t" "real num / real den" "2 ^ s"] by (simp add: X B(2))
    with True rm show ?thesis by simp
  next
    case False
    with rm show ?thesis by simp
  qed
  from that [OF 1 2 3] show ?thesis .
qed

lemma round_mag_ge:
  assumes "0 < d" and "real (mag_int f a) \<le> exact f n d e" and "a \<le> top_mag f"
  shows "a \<le> round_mag f n d e"
proof (cases "n = 0")
  case True
  with assms(2) have "mag_int f a \<le> mag_int f 0" by simp
  then have "a \<le> 0" by (simp only: mag_int_le_iff)
  then show ?thesis by simp
next
  case False
  then have "0 < n" by simp
  then obtain j where "exact f n d e < real (mag_int f (Suc j))"
    and j: "round_mag f n d e = min (top_mag f) j \<or> round_mag f n d e = min (top_mag f) (Suc j)"
    using round_mag_cases [OF _ assms(1)] by metis
  with assms(2) have "mag_int f a < mag_int f (Suc j)" by linarith
  then have "a \<le> j" by simp
  with j assms(3) show ?thesis by auto
qed

lemma round_mag_le:
  assumes "0 < d" and "exact f n d e \<le> real (mag_int f b)"
  shows "round_mag f n d e \<le> b"
proof (cases "n = 0")
  case True
  then show ?thesis by (simp add: round_mag_def)
next
  case False
  then have "0 < n" by simp
  then obtain j where lo: "real (mag_int f j) \<le> exact f n d e"
    and j: "round_mag f n d e = min (top_mag f) j \<or>
      (round_mag f n d e = min (top_mag f) (Suc j) \<and> real (mag_int f j) < exact f n d e)"
    using round_mag_cases [OF _ assms(1)] by metis
  from lo assms(2) have "mag_int f j \<le> mag_int f b" by linarith
  then have jb: "j \<le> b" by simp
  from j show ?thesis
  proof
    assume "round_mag f n d e = min (top_mag f) j"
    with jb show ?thesis by simp
  next
    assume a: "round_mag f n d e = min (top_mag f) (Suc j) \<and> real (mag_int f j) < exact f n d e"
    with assms(2) have "mag_int f j < mag_int f b" by linarith
    with a show ?thesis by simp
  qed
qed

lemma round_mag_exact:
  "0 < d \<Longrightarrow> exact f n d e = real (mag_int f k) \<Longrightarrow> k \<le> top_mag f \<Longrightarrow> round_mag f n d e = k"
  by (intro antisym round_mag_le round_mag_ge) simp_all

lemma round_mag_top: "round_mag f n d e \<le> top_mag f"
  by (simp add: round_mag_def Let_def)

section \<open>Order and rounding of signed numbers\<close>

text \<open>The value of a number, in units of the smallest number of the format.\<close>

definition fp_val :: "fmt \<Rightarrow> fp \<Rightarrow> real" where
  "fp_val f x = (if fneg x then - real (mag_int f (fmag x)) else real (mag_int f (fmag x)))"

lemma fkey_le_iff: "fkey x \<le> fkey y \<longleftrightarrow> fp_val f x \<le> fp_val f y"
proof -
  have "real (mag_int f a) \<le> - real (mag_int f b) \<longleftrightarrow> a = 0 \<and> b = 0" for a b
  proof -
    have "real (mag_int f a) \<le> - real (mag_int f b) \<longleftrightarrow> mag_int f a \<le> mag_int f 0 \<and> mag_int f b \<le> mag_int f 0"
      by (auto simp del: mag_int_le_iff)
    then show ?thesis by (simp only: mag_int_le_iff le_zero_eq)
  qed
  note mixed = this
  show ?thesis
  proof (cases "fneg x"; cases "fneg y")
    assume "\<not> fneg x" and "fneg y"
    moreover have "int (fmag x) \<le> - int (fmag y) \<longleftrightarrow> fmag x = 0 \<and> fmag y = 0" by arith
    ultimately show ?thesis by (simp add: fkey_def fp_val_def mixed)
  qed (simp_all add: fkey_def fp_val_def order_trans [where y = 0])
qed

lemma mag_int_man_exp: "real (mag_int f (fmag x)) = real (fp_man f x) * 2 powi (fp_exp f x + int (kmin f))"
proof (cases "fmag x < 2 ^ mbits f")
  case True
  then show ?thesis by (simp add: mag_int_def fp_man_def fp_exp_def)
next
  case False
  then have "1 \<le> fmag x div 2 ^ mbits f" by (simp add: div_greater_zero_iff Suc_le_eq)
  then have "fp_exp f x + int (kmin f) = int (fmag x div 2 ^ mbits f - 1)"
    using False by (simp add: fp_exp_def of_nat_diff)
  with False show ?thesis by (simp add: mag_int_def fp_man_def)
qed

lemma fp_val_sman_exp: "fp_val f x = real_of_int (fp_sman f x) * 2 powi (fp_exp f x + int (kmin f))"
  by (simp add: fp_val_def fp_sman_def mag_int_man_exp)

definition fp_round :: "fmt \<Rightarrow> int \<Rightarrow> int \<Rightarrow> fp" where
  "fp_round f a e = Fp (a < 0) (round_mag f (nat \<bar>a\<bar>) 1 e)"

lemma fp_round_exact: "exact f (nat \<bar>a\<bar>) 1 e = \<bar>real_of_int a * 2 powi (e + int (kmin f))\<bar>"
  by (simp add: exact_def abs_mult)

lemma fp_round_le:
  assumes "real_of_int a * 2 powi (e + int (kmin f)) \<le> fp_val f z" and "fmag z \<le> top_mag f"
  shows "fkey (fp_round f a e) \<le> fkey z"
proof (cases "0 \<le> a")
  case True
  then have "0 \<le> fp_val f z" using assms(1) by (meson dual_order.trans mult_nonneg_nonneg of_int_0_le_iff zero_le_power_int zero_le_numeral)
  then have z: "fp_val f z = real (mag_int f (fmag z))" by (simp add: fp_val_def split: if_splits)
  have "round_mag f (nat \<bar>a\<bar>) 1 e \<le> fmag z"
  proof (rule round_mag_le)
    show "exact f (nat \<bar>a\<bar>) 1 e \<le> real (mag_int f (fmag z))"
      unfolding fp_round_exact using assms(1) True by (simp add: z)
  qed simp
  moreover have "\<not> fneg z \<or> fmag z = 0"
    using \<open>0 \<le> fp_val f z\<close> mag_int_le_iff [of f "fmag z" 0] by (auto simp: fp_val_def simp del: mag_int_le_iff)
  ultimately show ?thesis using True by (auto simp: fp_round_def fkey_def)
next
  case False
  show ?thesis
  proof (cases "fneg z")
    case True
    then have "real (mag_int f (fmag z)) \<le> exact f (nat \<bar>a\<bar>) 1 e"
      unfolding fp_round_exact using assms(1) False by (simp add: fp_val_def)
    then have "fmag z \<le> round_mag f (nat \<bar>a\<bar>) 1 e"
      using assms(2) by (intro round_mag_ge) simp_all
    with True False show ?thesis by (simp add: fp_round_def fkey_def)
  next
    case F: False
    with False show ?thesis by (simp add: fp_round_def fkey_def)
  qed
qed

lemma fkey_neg [simp]: "fkey (fp_neg x) = - fkey x"
  by (simp add: fkey_def fp_neg_def)

lemma fp_val_neg [simp]: "fp_val f (fp_neg x) = - fp_val f x"
  by (simp add: fp_val_def fp_neg_def)

lemma fmag_neg [simp]: "fmag (fp_neg x) = fmag x"
  by (simp add: fp_neg_def)

lemma fkey_round_neg: "fkey (fp_round f (- a) e) = - fkey (fp_round f a e)"
proof (cases "a = 0")
  case True
  then show ?thesis by (simp add: fp_round_def fkey_def)
next
  case False
  then show ?thesis by (auto simp: fp_round_def fkey_def)
qed

lemma fp_round_ge:
  assumes "fp_val f z \<le> real_of_int a * 2 powi (e + int (kmin f))" and "fmag z \<le> top_mag f"
  shows "fkey z \<le> fkey (fp_round f a e)"
  using fp_round_le [of "- a" e f "fp_neg z"] assms by (simp add: fkey_round_neg)

text \<open>The sum of two finite numbers is the rounding of the exact sum, up to the zero's sign.\<close>

lemma fp_add_fin:
  assumes "is_fin f x" and "is_fin f y"
  obtains a e where "real_of_int a * 2 powi (e + int (kmin f)) = fp_val f x + fp_val f y"
    and "fkey (fp_add f x y) = fkey (fp_round f a e)" and "fmag (fp_add f x y) \<le> top_mag f"
proof -
  define e where "e = min (fp_exp f x) (fp_exp f y)"
  define a where "a = fp_sman f x * 2 ^ nat (fp_exp f x - e) + fp_sman f y * 2 ^ nat (fp_exp f y - e)"
  have p: "2 ^ nat (k - e) * 2 powi (e + int (kmin f)) = (2::real) powi (k + int (kmin f))"
    if "e \<le> k" for k
  proof -
    have "(2::real) ^ nat (k - e) = 2 powi (k - e)" using that by (simp add: power_int_def)
    then show ?thesis by (simp flip: power_int_add)
  qed
  have "real_of_int a * 2 powi (e + int (kmin f)) = fp_val f x + fp_val f y"
    using p [of "fp_exp f x"] p [of "fp_exp f y"]
    by (simp add: a_def fp_val_sman_exp e_def distrib_right mult.assoc)
  moreover have "fp_add f x y = (if a = 0 then Fp (fneg x \<and> fneg y) 0 else fp_round f a e)"
    using assms by (simp add: fp_add_def is_fin_def is_nan_def is_inf_def Let_def a_def e_def fp_round_def)
  moreover from this have "fkey (fp_add f x y) = fkey (fp_round f a e)"
    by (simp add: fp_round_def fkey_def)
  moreover have "fmag (fp_add f x y) \<le> top_mag f"
    using calculation(2) by (simp add: fp_round_def round_mag_top)
  ultimately show ?thesis using that by blast
qed

lemma fp_add_le:
  assumes "is_fin f x" and "is_fin f y" and "fp_val f x + fp_val f y \<le> fp_val f z"
    and "fmag z \<le> top_mag f"
  shows "fp_le f (fp_add f x y) z"
proof -
  from fp_add_fin [OF assms(1,2)] obtain a e
    where "real_of_int a * 2 powi (e + int (kmin f)) = fp_val f x + fp_val f y"
      and k: "fkey (fp_add f x y) = fkey (fp_round f a e)" "fmag (fp_add f x y) \<le> top_mag f"
    by blast
  with assms(3,4) have "fkey (fp_round f a e) \<le> fkey z" by (intro fp_round_le) simp_all
  with k assms(4) show ?thesis by (simp add: fp_le_def is_nan_def)
qed

lemma fp_add_ge:
  assumes "is_fin f x" and "is_fin f y" and "fp_val f z \<le> fp_val f x + fp_val f y"
    and "fmag z \<le> top_mag f"
  shows "fp_le f z (fp_add f x y)"
proof -
  from fp_add_fin [OF assms(1,2)] obtain a e
    where "real_of_int a * 2 powi (e + int (kmin f)) = fp_val f x + fp_val f y"
      and k: "fkey (fp_add f x y) = fkey (fp_round f a e)" "fmag (fp_add f x y) \<le> top_mag f"
    by blast
  with assms(3,4) have "fkey z \<le> fkey (fp_round f a e)" by (intro fp_round_ge) simp_all
  with k assms(4) show ?thesis by (simp add: fp_le_def is_nan_def)
qed

text \<open>What the robot's bookkeeping rests on: adding or taking away a non-negative amount.\<close>

lemma is_fin_le_top: "is_fin f x \<Longrightarrow> fmag x \<le> top_mag f"
  by (simp add: is_fin_def)

lemma fp_val_nonneg_iff: "0 \<le> fp_val f x \<longleftrightarrow> 0 \<le> fkey x"
proof -
  have "0 \<le> fkey x \<longleftrightarrow> fkey (Fp False 0) \<le> fkey x" by (simp add: fkey_def)
  also have "\<dots> \<longleftrightarrow> fp_val f (Fp False 0) \<le> fp_val f x" by (rule fkey_le_iff)
  finally show ?thesis by (simp add: fp_val_def)
qed

lemma fp_add_nonneg_ge:
  "is_fin f x \<Longrightarrow> is_fin f y \<Longrightarrow> 0 \<le> fkey y \<Longrightarrow> fp_le f x (fp_add f x y)"
  by (rule fp_add_ge) (simp_all add: fp_val_nonneg_iff is_fin_le_top)

lemma is_fin_neg [simp]: "is_fin f (fp_neg x) = is_fin f x"
  by (simp add: is_fin_def)

lemma is_fin_not_nan: "is_fin f x \<Longrightarrow> \<not> is_nan f x"
  by (simp add: is_fin_def is_nan_def)

lemma fp_sub_fin: "is_fin f x \<Longrightarrow> is_fin f y \<Longrightarrow> fp_sub f x y = fp_add f x (fp_neg y)"
  by (simp add: fp_sub_def is_fin_not_nan)

lemma fp_sub_nonneg_le:
  "is_fin f x \<Longrightarrow> is_fin f y \<Longrightarrow> 0 \<le> fkey y \<Longrightarrow> fp_le f (fp_sub f x y) x"
  by (simp add: fp_sub_fin) (rule fp_add_le, simp_all add: fp_val_nonneg_iff is_fin_le_top)

lemma is_fin_between:
  assumes "fp_le f a x" and "fp_le f x b" and "is_fin f a" and "is_fin f b"
  shows "is_fin f x"
  using assms by (auto simp: fp_le_def is_fin_def fkey_def split: if_splits)

lemma fp_le_refl: "\<not> is_nan f x \<Longrightarrow> fp_le f x x"
  by (simp add: fp_le_def)

lemma fp_le_trans [trans]: "fp_le f x y \<Longrightarrow> fp_le f y z \<Longrightarrow> fp_le f x z"
  by (auto simp: fp_le_def)

lemma fp_lt_imp_le: "fp_lt f x y \<Longrightarrow> fp_le f x y"
  by (simp add: fp_lt_def fp_le_def)

lemma fp_lt_le_trans [trans]: "fp_lt f x y \<Longrightarrow> fp_le f y z \<Longrightarrow> fp_lt f x z"
  by (auto simp: fp_lt_def fp_le_def)

lemma fp_le_lt_trans [trans]: "fp_le f x y \<Longrightarrow> fp_lt f y z \<Longrightarrow> fp_lt f x z"
  by (auto simp: fp_lt_def fp_le_def)

lemma fp_lt_irrefl: "\<not> fp_lt f x x"
  by (simp add: fp_lt_def)

lemma not_fp_lt: "\<not> is_nan f x \<Longrightarrow> \<not> is_nan f y \<Longrightarrow> \<not> fp_lt f x y \<longleftrightarrow> fp_le f y x"
  by (auto simp: fp_lt_def fp_le_def)

section \<open>Products and quotients\<close>

lemma fp_mul_fin:
  "is_fin f x \<Longrightarrow> is_fin f y \<Longrightarrow> fp_mul f x y = Fp (fneg x \<noteq> fneg y)
     (round_mag f (fp_man f x * fp_man f y) 1 (fp_exp f x + fp_exp f y))"
  by (simp add: fp_mul_def is_fin_def is_nan_def is_inf_def)

text \<open>A factor of magnitude at most one does not enlarge the other one.\<close>

lemma fp_mul_le_one:
  assumes "is_fin f x" and "is_fin f y" and one: "real (fp_man f x) * 2 powi fp_exp f x \<le> 1"
  shows "fmag (fp_mul f x y) \<le> fmag y"
proof -
  have "exact f (fp_man f x * fp_man f y) 1 (fp_exp f x + fp_exp f y) =
      real (fp_man f x) * 2 powi fp_exp f x * real (mag_int f (fmag y))"
    by (simp add: exact_def mag_int_man_exp power_int_add algebra_simps)
  also have "\<dots> \<le> 1 * real (mag_int f (fmag y))"
    by (rule mult_right_mono [OF one]) simp
  finally show ?thesis
    using round_mag_le [of 1 f "fp_man f x * fp_man f y" "fp_exp f x + fp_exp f y" "fmag y"] assms(1,2)
    by (simp add: fp_mul_fin)
qed

lemma fp_div_not_nan: "is_fin f x \<Longrightarrow> \<not> is_nan f y \<Longrightarrow> fmag y \<noteq> 0 \<Longrightarrow> \<not> is_nan f (fp_div f x y)"
  by (auto simp: fp_div_def is_fin_def is_nan_def is_inf_def not_less intro: round_mag_top)

lemma fp_max_ge: "\<not> is_nan f x \<Longrightarrow> fp_le f x (fp_max f x y)"
  by (simp add: fp_max_def fp_le_refl fp_lt_imp_le)

lemma fkey_pos_mag: "0 < fkey x \<Longrightarrow> fmag x \<noteq> 0"
  by (auto simp: fkey_def split: if_splits)

text \<open>Numbers of magnitude at most that of \<open>1.0\<close>.\<close>

lemma below_one_64:
  assumes "fmag x \<le> 4607182418800017408"
  shows "real (fp_man binary64 x) * 2 powi fp_exp binary64 x \<le> 1"
proof -
  have "real (fp_man binary64 x) * 2 powi (fp_exp binary64 x + 1074) = real (mag_int binary64 (fmag x))"
    by (simp add: mag_int_man_exp)
  also have "\<dots> \<le> real (mag_int binary64 (fmag (Fp False 4607182418800017408)))"
    using assms by simp
  also have "\<dots> = 2 powi 1074"
    unfolding mag_int_man_exp by (simp add: fp_man_def fp_exp_def)
  finally show ?thesis by (simp add: power_int_add)
qed

lemma fp_add_neg_neg:
  assumes "is_fin f x" and "is_fin f y"
  shows "fkey (fp_add f (fp_neg x) (fp_neg y)) = - fkey (fp_add f x y)"
    and "fmag (fp_add f (fp_neg x) (fp_neg y)) = fmag (fp_add f x y)"
proof -
  define e where "e = min (fp_exp f x) (fp_exp f y)"
  define a where "a = fp_sman f x * 2 ^ nat (fp_exp f x - e) + fp_sman f y * 2 ^ nat (fp_exp f y - e)"
  have exps: "fp_exp f (fp_neg z) = fp_exp f z" for z by (simp add: fp_exp_def fp_neg_def)
  have smans: "fp_sman f (fp_neg z) = - fp_sman f z" for z
    by (simp add: fp_sman_def fp_man_def fp_neg_def)
  have nn: "\<not> is_nan f x" "\<not> is_inf f x" "\<not> is_nan f y" "\<not> is_inf f y"
    "\<not> is_nan f (fp_neg x)" "\<not> is_inf f (fp_neg x)" "\<not> is_nan f (fp_neg y)" "\<not> is_inf f (fp_neg y)"
    using assms by (simp_all add: is_fin_def is_nan_def is_inf_def)
  have p: "fp_add f x y = (if a = 0 then Fp (fneg x \<and> fneg y) 0
       else Fp (a < 0) (round_mag f (nat \<bar>a\<bar>) 1 e))"
    using nn by (simp add: fp_add_def a_def e_def Let_def)
  have "- fp_sman f x * 2 ^ nat (fp_exp f x - e) + - fp_sman f y * 2 ^ nat (fp_exp f y - e) = - a"
    by (simp add: a_def)
  then have q: "fp_add f (fp_neg x) (fp_neg y) = (if a = 0 then Fp (fneg (fp_neg x) \<and> fneg (fp_neg y)) 0
       else Fp (- a < 0) (round_mag f (nat \<bar>a\<bar>) 1 e))"
    using nn by (simp add: fp_add_def exps smans Let_def flip: e_def)
  show "fkey (fp_add f (fp_neg x) (fp_neg y)) = - fkey (fp_add f x y)"
    unfolding p q by (auto simp: fkey_def)
  show "fmag (fp_add f (fp_neg x) (fp_neg y)) = fmag (fp_add f x y)"
    unfolding p q by simp
qed

lemma is_nan_mag: "fmag x = fmag y \<Longrightarrow> is_nan f x = is_nan f y"
  by (simp add: is_nan_def)

end
