(* ===== verification/C_Library.thy ===== *)
theory C_Library
  imports Prelude Ieee_Float
begin

text \<open>
  The parts of the C and C++ standard library that the sources use on text:
  \<open>std::string::find\<close>, \<open>isspace\<close>, \<open>isdigit\<close>, \<open>strtoll\<close>, \<open>strtod\<close>
  (decimal, hexadecimal, infinities and NaN), \<open>std::to_string\<close> and stream insertion
  of numbers (\<open>%f\<close> and \<open>%g\<close> with the default precision 6). A position in a
  string is the suffix that starts there, so a search returns the text after the match.
  The clocks and the transcendental functions, whose results the standard leaves to the
  implementation, are parameters: \<open>libm\<close>.
\<close>

section \<open>Searching\<close>

text \<open>The text after the first occurrence of \<open>nd\<close>: \<open>s.find(nd) + nd.size()\<close>.\<close>

fun find_after :: "string \<Rightarrow> string \<Rightarrow> string option" where
  "find_after nd [] = (if nd = [] then Some [] else None)"
| "find_after nd (c # cs) =
     (if prefix nd (c # cs) then Some (drop (length nd) (c # cs)) else find_after nd cs)"

definition contains :: "string \<Rightarrow> string \<Rightarrow> bool" where
  "contains s nd \<longleftrightarrow> find_after nd s \<noteq> None"

lemma find_after_length: "find_after nd s = Some r \<Longrightarrow> length r + length nd \<le> length s"
  by (induction s) (auto split: if_splits dest: prefix_length_le)

lemma find_after_suffix: "find_after nd s = Some r \<Longrightarrow> \<exists>p. s = p @ nd @ r"
proof (induction s)
  case Nil
  then show ?case by (simp split: if_splits)
next
  case (Cons c cs)
  show ?case
  proof (cases "prefix nd (c # cs)")
    case True
    with Cons.prems have "c # cs = [] @ nd @ r" by (auto simp: prefix_def)
    then show ?thesis by blast
  next
    case False
    with Cons.prems Cons.IH obtain p where "cs = p @ nd @ r" by auto
    then have "c # cs = (c # p) @ nd @ r" by simp
    then show ?thesis by blast
  qed
qed

text \<open>A search passes over a part in which the needle does not start.\<close>

lemma find_after_skip [text_simps]:
  "nd \<noteq> [] \<Longrightarrow> hd nd \<notin> set pre \<Longrightarrow> find_after nd (pre @ s) = find_after nd s"
  by (induction pre) (auto simp: prefix_Cons neq_Nil_conv)

lemma find_after_here [text_simps]: "nd \<noteq> [] \<Longrightarrow> find_after nd (nd @ s) = Some s"
  by (cases nd) simp_all

section \<open>Character classes (C locale)\<close>

definition is_space :: "char \<Rightarrow> bool" where
  "is_space c \<longleftrightarrow> (let n = (of_char c :: nat) in n = 32 \<or> (9 \<le> n \<and> n \<le> 13))"

definition is_digit :: "char \<Rightarrow> bool" where
  "is_digit c \<longleftrightarrow> (let n = (of_char c :: nat) in 48 \<le> n \<and> n \<le> 57)"

definition digit_val :: "char \<Rightarrow> nat" where
  "digit_val c = of_char c - 48"

definition to_lower :: "char \<Rightarrow> char" where
  "to_lower c = (let n = (of_char c :: nat) in if 65 \<le> n \<and> n \<le> 90 then char_of (n + 32) else c)"

definition is_xdigit :: "char \<Rightarrow> bool" where
  "is_xdigit c \<longleftrightarrow> is_digit c \<or> (let n = (of_char (to_lower c) :: nat) in 97 \<le> n \<and> n \<le> 102)"

definition xdigit_val :: "char \<Rightarrow> nat" where
  "xdigit_val c = (if is_digit c then digit_val c else of_char (to_lower c) - 87)"

section \<open>\<open>strtoll\<close> and \<open>strtod\<close>\<close>

fun digits_val :: "nat \<Rightarrow> nat \<Rightarrow> string \<Rightarrow> nat" where
  "digits_val base acc [] = acc"
| "digits_val base acc (c # cs) = digits_val base (base * acc + xdigit_val c) cs"

text \<open>An optional sign: whether it is a minus, and the text after it.\<close>

definition take_sign :: "string \<Rightarrow> bool \<times> string" where
  "take_sign s = (case s of [] \<Rightarrow> (False, [])
     | c # cs \<Rightarrow> if c = CHR ''-'' then (True, cs) else if c = CHR ''+'' then (False, cs) else (False, s))"

definition clamp_ll :: "int \<Rightarrow> int" where
  "clamp_ll i = max (- (2 ^ 63)) (min (2 ^ 63 - 1) i)"

text \<open>\<open>None\<close>: no conversion (\<open>end\<close> is the start).\<close>

definition strtoll :: "string \<Rightarrow> int option" where
  "strtoll s =
     (let (neg, t) = take_sign (dropWhile is_space s);
          ds = takeWhile is_digit t
      in if ds = [] then None
         else Some (clamp_ll (if neg then - int (digits_val 10 0 ds) else int (digits_val 10 0 ds))))"

text \<open>The exponent part \<open>e+12\<close>, if it is one; otherwise the number ends before it.\<close>

definition take_exponent :: "char \<Rightarrow> string \<Rightarrow> int" where
  "take_exponent mark s =
     (case s of [] \<Rightarrow> 0
      | c # cs \<Rightarrow> if to_lower c = mark
          then let (neg, t) = take_sign cs; ds = takeWhile is_digit t
               in if neg then - int (digits_val 10 0 ds) else int (digits_val 10 0 ds)
          else 0)"

text \<open>Digits with an optional point: the integer they spell, how many follow the point, the rest.\<close>

definition take_mantissa :: "(char \<Rightarrow> bool) \<Rightarrow> string \<Rightarrow> string \<times> nat \<times> string" where
  "take_mantissa dig s =
     (let ip = takeWhile dig s; r = dropWhile dig s
      in case r of
           c # cs \<Rightarrow> if c = CHR ''.''
             then let fr = takeWhile dig cs in (ip @ fr, length fr, dropWhile dig cs)
             else (ip, 0, r)
         | [] \<Rightarrow> (ip, 0, r))"

definition scaled_ratio :: "bool \<Rightarrow> nat \<Rightarrow> nat \<Rightarrow> int \<Rightarrow> int \<Rightarrow> fp" where
  "scaled_ratio neg n base e e2 =
     Fp neg (round_mag binary64 (n * base ^ nat e) (base ^ nat (- e)) e2)"

definition strtod :: "string \<Rightarrow> double option" where
  "strtod s0 =
     (let (neg, s) = take_sign (dropWhile is_space s0);
          low = map to_lower s
      in if prefix ''inf'' low then Some (Fp neg (top_mag binary64))
         else if prefix ''nan'' low then Some (Fp neg (Suc (top_mag binary64)))
         else
           let hex = (case take_mantissa is_xdigit (drop 2 s) of (ds, _, _) \<Rightarrow>
                        prefix ''0x'' low \<and> ds \<noteq> []) in
           if hex then
             (case take_mantissa is_xdigit (drop 2 s) of (ds, k, r) \<Rightarrow>
                Some (scaled_ratio neg (digits_val 16 0 ds) 2 0
                        (take_exponent (CHR ''p'') r - 4 * int k)))
           else
             (case take_mantissa is_digit s of (ds, k, r) \<Rightarrow>
                if ds = [] then None
                else Some (scaled_ratio neg (digits_val 10 0 ds) 10
                             (take_exponent (CHR ''e'') r - int k) 0)))"

section \<open>Printing\<close>

definition digit_char :: "nat \<Rightarrow> char" where
  "digit_char d = char_of (48 + d)"

fun dec_nat :: "nat \<Rightarrow> string" where
  "dec_nat n = (if n < 10 then [digit_char n] else dec_nat (n div 10) @ [digit_char (n mod 10)])"

declare dec_nat.simps [simp del]

definition dec_int :: "int \<Rightarrow> string" where
  "dec_int i = (if i < 0 then ''-'' @ dec_nat (nat (- i)) else dec_nat (nat i))"

text \<open>Exactly \<open>k\<close> digits, with leading zeros.\<close>

definition dec_pad :: "nat \<Rightarrow> nat \<Rightarrow> string" where
  "dec_pad k n = (let s = dec_nat n in replicate (k - length s) (CHR ''0'') @ s)"

definition div_rne :: "nat \<Rightarrow> nat \<Rightarrow> nat" where
  "div_rne a b = (let t = a div b; r = a mod b
     in if b < 2 * r \<or> (b = 2 * r \<and> odd t) then t + 1 else t)"

definition abs_num :: "double \<Rightarrow> nat" where
  "abs_num x = fp_man binary64 x * 2 ^ nat (fp_exp binary64 x)"

definition abs_den :: "double \<Rightarrow> nat" where
  "abs_den x = 2 ^ nat (- fp_exp binary64 x)"

definition sign_str :: "double \<Rightarrow> string" where
  "sign_str x = (if fneg x then ''-'' else [])"

text \<open>\<open>std::to_string(double)\<close>: \<open>%f\<close>.\<close>

definition to_string_f :: "double \<Rightarrow> string" where
  "to_string_f x =
     (if is_nan binary64 x then sign_str x @ ''nan''
      else if is_inf binary64 x then sign_str x @ ''inf''
      else let n = div_rne (abs_num x * 10 ^ 6) (abs_den x)
           in sign_str x @ dec_nat (n div 10 ^ 6) @ ''.'' @ dec_pad 6 (n mod 10 ^ 6))"

text \<open>The decimal exponent of a positive ratio.\<close>

function log10_up :: "nat \<Rightarrow> nat \<Rightarrow> nat" where
  "log10_up n d = (if 0 < d \<and> 10 * d \<le> n then Suc (log10_up n (10 * d)) else 0)"
  by pat_completeness auto
termination
  by (relation "measure (\<lambda>(n, d). n - d)") auto

function log10_down :: "nat \<Rightarrow> nat \<Rightarrow> nat" where
  "log10_down n d = (if 0 < n \<and> n < d then Suc (log10_down (10 * n) d) else 0)"
  by pat_completeness auto
termination
  by (relation "measure (\<lambda>(n, d). d - n)") auto

declare log10_up.simps [simp del]
declare log10_down.simps [simp del]

definition dec_exponent :: "nat \<Rightarrow> nat \<Rightarrow> int" where
  "dec_exponent n d = (if d \<le> n then int (log10_up n d) else - int (log10_down n d))"

text \<open>Trailing zeros, and a point left bare by them, are dropped.\<close>

definition strip_zeros :: "string \<Rightarrow> string" where
  "strip_zeros s = rev (dropWhile (\<lambda>c. c = CHR ''0'') (rev s))"

definition point_frac :: "string \<Rightarrow> string" where
  "point_frac fr = (let s = strip_zeros fr in if s = [] then [] else ''.'' @ s)"

text \<open>\<open>oss << double\<close>: \<open>%g\<close> with precision 6.\<close>

definition to_string_g :: "double \<Rightarrow> string" where
  "to_string_g x =
     (if is_nan binary64 x then sign_str x @ ''nan''
      else if is_inf binary64 x then sign_str x @ ''inf''
      else if fmag x = 0 then sign_str x @ ''0''
      else
        let n = abs_num x; d = abs_den x; e0 = dec_exponent n d;
            m0 = div_rne (n * 10 ^ nat (5 - e0)) (d * 10 ^ nat (e0 - 5));
            (e, m) = (if m0 = 10 ^ 6 then (e0 + 1, 10 ^ 5) else (e0, m0))
        in sign_str x @
           (if - 4 \<le> e \<and> e < 6
            then let k = nat (5 - e) in dec_nat (m div 10 ^ k) @ point_frac (dec_pad k (m mod 10 ^ k))
            else dec_nat (m div 10 ^ 5) @ point_frac (dec_pad 5 (m mod 10 ^ 5)) @ ''e'' @
                 (if e < 0 then ''-'' else ''+'') @ dec_pad 2 (nat \<bar>e\<bar>)))"

section \<open>The mathematical library\<close>

text \<open>
  The standard fixes neither the rounding nor the exact results of these functions: a
  model of the program takes them as arguments.
\<close>

record libm =
  m_sin :: "double \<Rightarrow> double"
  m_cos :: "double \<Rightarrow> double"
  m_atan2 :: "double \<Rightarrow> double \<Rightarrow> double"
  m_hypot :: "double \<Rightarrow> double \<Rightarrow> double"

end
