(* ===== verification/Json_Util.thy ===== *)
theory Json_Util
  imports C_Library
begin

text \<open>
  The bridge's field extractors (\<open>bridge/src/json_util.cpp\<close>): \<open>escape\<close>, the key
  search with its colon check, and \<open>get_string\<close>, \<open>get_int\<close>, \<open>get_double\<close>,
  \<open>get_bool\<close>, \<open>has_key\<close> over it. \<open>parse_json_string_at\<close> and \<open>get_double\<close>
  may write into their output even when they fail, so they return the output together with
  the verdict; the other extractors write only when they succeed and return an \<open>option\<close>. The lemmas
  give the round trip of \<open>escape\<close> through the string parser and its limit, and what
  \<open>get_int\<close> makes of a sign.
\<close>

definition dq :: char where
  "dq = CHR 0x22"

definition bs :: char where
  "bs = CHR 0x5C"

definition quoted :: "string \<Rightarrow> string" where
  "quoted k = dq # k @ [dq]"

section \<open>Finding a value\<close>

definition skip_ws :: "string \<Rightarrow> string" where
  "skip_ws s = dropWhile is_space s"

function find_key_value :: "string \<Rightarrow> string \<Rightarrow> string option" where
  "find_key_value key s =
     (if s = [] then None
      else case find_after (quoted key) s of
             None \<Rightarrow> None
           | Some r \<Rightarrow>
               (case skip_ws r of
                  c # cs \<Rightarrow> if c = CHR '':''
                    then (let v = skip_ws cs in if v = [] then None else Some v)
                    else find_key_value key r
                | [] \<Rightarrow> find_key_value key r))"
  by pat_completeness auto
termination
  by (relation "measure (\<lambda>(_, s). length s)")
    (auto dest!: find_after_length simp: quoted_def)

declare find_key_value.simps [simp del]

section \<open>Strings\<close>

definition unescape_char :: "char \<Rightarrow> char" where
  "unescape_char e =
     (if e = CHR ''n'' then CHR 0x0A
      else if e = CHR ''t'' then CHR 0x09
      else if e = CHR ''r'' then CHR 0x0D
      else e)"

text \<open>The scan after the opening quote: whether a closing quote came, and what was read.\<close>

fun scan_json_string :: "string \<Rightarrow> bool \<times> string" where
  "scan_json_string [] = (False, [])"
| "scan_json_string (c # cs) =
     (if c = bs then
        (case cs of [] \<Rightarrow> (False, [])
         | e # cs' \<Rightarrow> (let (ok, out) = scan_json_string cs' in (ok, unescape_char e # out)))
      else if c = dq then (True, [])
      else (let (ok, out) = scan_json_string cs in (ok, c # out)))"

definition parse_json_string_at :: "string \<Rightarrow> string \<Rightarrow> bool \<times> string" where
  "parse_json_string_at s out =
     (case s of [] \<Rightarrow> (False, out)
      | c # cs \<Rightarrow> if c = dq then scan_json_string cs else (False, out))"

definition hex_digit :: "nat \<Rightarrow> char" where
  "hex_digit n = (if n < 10 then char_of (48 + n) else char_of (87 + n))"

definition escape_char :: "char \<Rightarrow> string" where
  "escape_char c =
     (if c = dq then [bs, dq]
      else if c = bs then [bs, bs]
      else if c = CHR 0x0A then [bs, CHR ''n'']
      else if c = CHR 0x0D then [bs, CHR ''r'']
      else if c = CHR 0x09 then [bs, CHR ''t'']
      else if (of_char c :: nat) < 0x20
      then [bs, CHR ''u'', CHR ''0'', CHR ''0'', hex_digit (of_char c div 16), hex_digit (of_char c mod 16)]
      else [c])"

definition escape :: "string \<Rightarrow> string" where
  "escape s = concat (map escape_char s)"

section \<open>Extractors\<close>

definition has_key :: "string \<Rightarrow> string \<Rightarrow> bool" where
  "has_key obj key \<longleftrightarrow> find_key_value key obj \<noteq> None"

definition get_string :: "string \<Rightarrow> string \<Rightarrow> string \<Rightarrow> bool \<times> string" where
  "get_string obj key out =
     (case find_key_value key obj of None \<Rightarrow> (False, out)
      | Some v \<Rightarrow> parse_json_string_at v out)"

definition skip_sign :: "string \<Rightarrow> string" where
  "skip_sign v = (case v of [] \<Rightarrow> []
     | c # cs \<Rightarrow> if c = CHR ''-'' \<or> c = CHR ''+'' then cs else v)"

definition get_int :: "string \<Rightarrow> string \<Rightarrow> int option" where
  "get_int obj key =
     (case find_key_value key obj of None \<Rightarrow> None
      | Some v0 \<Rightarrow>
          (case skip_sign v0 of [] \<Rightarrow> None
           | c # cs \<Rightarrow> if is_digit c then strtoll (c # cs) else None))"

definition get_double :: "string \<Rightarrow> string \<Rightarrow> double \<Rightarrow> bool \<times> double" where
  "get_double obj key out =
     (case find_key_value key obj of None \<Rightarrow> (False, out)
      | Some v0 \<Rightarrow>
          (case skip_sign v0 of [] \<Rightarrow> (False, out)
           | c # cs \<Rightarrow> if is_digit c \<or> c = CHR ''.''
               then (case strtod (c # cs) of None \<Rightarrow> (False, Fp False 0) | Some d \<Rightarrow> (True, d))
               else (False, out)))"

definition get_bool :: "string \<Rightarrow> string \<Rightarrow> bool option" where
  "get_bool obj key =
     (case find_key_value key obj of None \<Rightarrow> None
      | Some v \<Rightarrow> if prefix ''true'' v then Some True
                  else if prefix ''false'' v then Some False else None)"

section \<open>Round trip of \<open>escape\<close>\<close>

text \<open>The characters whose escape the parser reads back: all but the other controls.\<close>

definition plain_char :: "char \<Rightarrow> bool" where
  "plain_char c \<longleftrightarrow> 0x20 \<le> (of_char c :: nat) \<or> c \<in> {CHR 0x0A, CHR 0x0D, CHR 0x09}"

lemma dq_bs_distinct [simp]: "dq \<noteq> bs" "bs \<noteq> dq"
  by (simp_all add: dq_def bs_def)

lemma scan_escape_char:
  "plain_char c \<Longrightarrow> scan_json_string (escape_char c @ rest) =
     (let (ok, out) = scan_json_string rest in (ok, c # out))"
  by (auto simp: plain_char_def escape_char_def unescape_char_def dq_def bs_def split: prod.split)

lemma scan_escape:
  "list_all plain_char s \<Longrightarrow> scan_json_string (escape s @ dq # rest) = (True, s)"
  by (induction s) (simp_all add: escape_def scan_escape_char)

text \<open>A sign is skipped, never applied.\<close>

lemma digits_val_ge: "acc \<le> digits_val 10 acc ds"
proof (induction ds arbitrary: acc)
  case (Cons d ds)
  have "acc \<le> 10 * acc + xdigit_val d" by simp
  also have "\<dots> \<le> digits_val 10 (10 * acc + xdigit_val d) ds" by (rule Cons.IH)
  finally show ?case by simp
qed simp

lemma strtoll_digit_nonneg:
  assumes "strtoll (c # cs) = Some i" and "is_digit c"
  shows "0 \<le> i"
proof -
  have "\<not> is_space c" "c \<noteq> CHR ''-''" "c \<noteq> CHR ''+''"
    using assms(2) by (auto simp: is_digit_def is_space_def Let_def)
  then show ?thesis
    using assms by (auto simp: strtoll_def take_sign_def clamp_ll_def Let_def split: if_splits)
qed

text \<open>\<open>get_int\<close> never returns a negative number: it steps over a sign and does not apply
  it, so the caller's test for a negative sequence number can never fire.\<close>

lemma get_int_nonneg: "get_int obj key = Some i \<Longrightarrow> 0 \<le> i"
  by (auto simp: get_int_def dest: strtoll_digit_nonneg split: option.splits list.splits if_splits)

section \<open>Properties\<close>

text \<open>A string written by \<open>escape\<close> into an object is read back unchanged by
  \<open>get_string\<close>, whatever quotes and backslashes it holds, if its only control characters are
  newline, carriage return and tab.\<close>

lemma escape_round_trip:
  assumes "list_all plain_char s" and "dq \<notin> set key"
  shows "get_string (CHR ''{'' # quoted key @ CHR '':'' # dq # escape s @ dq # rest) key out = (True, s)"
proof -
  have "find_after (quoted key) (CHR ''{'' # quoted key @ CHR '':'' # dq # escape s @ dq # rest) =
      Some (CHR '':'' # dq # escape s @ dq # rest)"
    using find_after_skip [of "quoted key" "''{''"] find_after_here [of "quoted key"]
    by (simp add: quoted_def dq_def)
  moreover have "\<not> is_space (CHR '':'')" "\<not> is_space dq"
    by (simp_all add: is_space_def dq_def)
  ultimately have "find_key_value key (CHR ''{'' # quoted key @ CHR '':'' # dq # escape s @ dq # rest) =
      Some (dq # escape s @ dq # rest)"
    by (subst find_key_value.simps) (simp add: skip_ws_def Let_def)
  then show ?thesis
    using assms(1) by (simp add: get_string_def parse_json_string_at_def scan_escape)
qed

lemma escape_round_trip_witness:
  "get_string (CHR ''{'' # quoted ''reason'' @ CHR '':'' # dq # escape [CHR ''a'', dq, bs, CHR 0x0A] @ dq # ''}'')
     ''reason'' [] = (True, [CHR ''a'', dq, bs, CHR 0x0A])"
  by (rule escape_round_trip) (simp_all add: plain_char_def dq_def bs_def)

end
