(* ===== verification/Protocol.thy ===== *)
theory Protocol
  imports Prelude
begin

text \<open>
  The message types, flags and times of protocol v0.1
  (\<open>bridge/include/botcockpit_bridge/protocol.hpp\<close>) and \<open>msg_type_name\<close>. The console's
  copy of the constants (\<open>ui/botcockpit/src/protocol.hpp\<close>) has the same values.
\<close>

definition MSG_HEARTBEAT :: u8 where "MSG_HEARTBEAT = 0x01"
definition MSG_HELLO :: u8 where "MSG_HELLO = 0x02"
definition MSG_HELLO_ACK :: u8 where "MSG_HELLO_ACK = 0x03"
definition MSG_STATE_SNAPSHOT :: u8 where "MSG_STATE_SNAPSHOT = 0x10"
definition MSG_STATE_DELTA :: u8 where "MSG_STATE_DELTA = 0x11"
definition MSG_CMD_MODE :: u8 where "MSG_CMD_MODE = 0x20"
definition MSG_CMD_TASK :: u8 where "MSG_CMD_TASK = 0x21"
definition MSG_CMD_ESTOP :: u8 where "MSG_CMD_ESTOP = 0x22"
definition MSG_CMD_RESET :: u8 where "MSG_CMD_RESET = 0x23"
definition MSG_CMD_ACK :: u8 where "MSG_CMD_ACK = 0x2F"
definition MSG_EVENT_FAULT :: u8 where "MSG_EVENT_FAULT = 0x30"
definition MSG_PARAM_GET :: u8 where "MSG_PARAM_GET = 0x40"
definition MSG_PARAM_SET :: u8 where "MSG_PARAM_SET = 0x41"
definition MSG_PARAM_ACK :: u8 where "MSG_PARAM_ACK = 0x42"

lemmas msg_defs = MSG_HEARTBEAT_def MSG_HELLO_def MSG_HELLO_ACK_def MSG_STATE_SNAPSHOT_def
  MSG_STATE_DELTA_def MSG_CMD_MODE_def MSG_CMD_TASK_def MSG_CMD_ESTOP_def MSG_CMD_RESET_def
  MSG_CMD_ACK_def MSG_EVENT_FAULT_def MSG_PARAM_GET_def MSG_PARAM_SET_def MSG_PARAM_ACK_def

definition FLAG_NEED_ACK :: u8 where "FLAG_NEED_ACK = 0x01"
definition FLAG_URGENT :: u8 where "FLAG_URGENT = 0x02"

definition HB_INTERVAL_MS :: int where "HB_INTERVAL_MS = 1000"
definition HB_TIMEOUT_MS :: int where "HB_TIMEOUT_MS = 3000"
definition ACK_TIMEOUT_MS :: int where "ACK_TIMEOUT_MS = 2000"

definition PROTO_VERSION :: string where "PROTO_VERSION = ''0.1''"
definition SERVER_NAME :: string where "SERVER_NAME = ''botcockpit_bridge/0.1.0''"

definition msg_type_name :: "u8 \<Rightarrow> string" where
  "msg_type_name ty =
     (if ty = MSG_HEARTBEAT then ''HEARTBEAT''
      else if ty = MSG_HELLO then ''HELLO''
      else if ty = MSG_HELLO_ACK then ''HELLO_ACK''
      else if ty = MSG_STATE_SNAPSHOT then ''STATE_SNAPSHOT''
      else if ty = MSG_STATE_DELTA then ''STATE_DELTA''
      else if ty = MSG_CMD_MODE then ''CMD_MODE''
      else if ty = MSG_CMD_TASK then ''CMD_TASK''
      else if ty = MSG_CMD_ESTOP then ''CMD_ESTOP''
      else if ty = MSG_CMD_RESET then ''CMD_RESET''
      else if ty = MSG_CMD_ACK then ''CMD_ACK''
      else if ty = MSG_EVENT_FAULT then ''EVENT_FAULT''
      else if ty = MSG_PARAM_GET then ''PARAM_GET''
      else if ty = MSG_PARAM_SET then ''PARAM_SET''
      else if ty = MSG_PARAM_ACK then ''PARAM_ACK''
      else ''UNKNOWN'')"

lemma msg_type_name_commands [simp]:
  "msg_type_name MSG_CMD_MODE = ''CMD_MODE''" "msg_type_name MSG_CMD_TASK = ''CMD_TASK''"
  "msg_type_name MSG_CMD_ESTOP = ''CMD_ESTOP''" "msg_type_name MSG_CMD_RESET = ''CMD_RESET''"
  "msg_type_name MSG_PARAM_GET = ''PARAM_GET''" "msg_type_name MSG_PARAM_SET = ''PARAM_SET''"
  by (simp_all add: msg_type_name_def msg_defs)

text \<open>Only the type of an emergency stop carries its name, so the name decides the urgent path.\<close>

lemma msg_type_name_estop: "msg_type_name ty = ''CMD_ESTOP'' \<longleftrightarrow> ty = MSG_CMD_ESTOP"
  by (simp add: msg_type_name_def msg_defs)

end
