(* ===== verification/Tcp_Server.thy ===== *)
theory Tcp_Server
  imports Frame_Codec Json_Util Protocol
begin

text \<open>
  The bridge's TCP server (\<open>bridge/src/tcp_server.cpp\<close>, class \<open>TcpServer\<close>). Its threads
  share the clients, the command queue and the flags; a step of the model is what one thread does
  between two points where another may run: one \<open>recv\<close> with its batch, one frame of the batch,
  one job of the command worker, one round of the watchdog. The three callbacks are the record
  \<open>callbacks\<close> over the host's own state, the field \<open>s_host\<close>; the only constructor call
  passes all three, so the tests for an empty callback are always true. Each call of \<open>now_ms\<close>
  reads the next value of the system clock and each \<open>send\<close> asks the next answer of the kernel:
  how many of the bytes it took, or an error if that is not positive. Log output is not modelled.
\<close>

section \<open>State\<close>

record client =
  c_fd :: int
  c_decoder :: bytes
  c_last_rx_ms :: u64
  c_last_hb_rx_ms :: u64
  c_hello_ok :: bool
  c_batch :: "frame list"
  c_running :: bool
  c_shut :: bool
  c_sent :: bytes

record job =
  j_client :: nat
  j_seq :: u16
  j_cmd :: string
  j_payload :: string

text \<open>
  \<open>s_objs\<close> holds the client objects ever made, by number; \<open>s_clients\<close> is the vector
  \<open>clients_\<close>. An object outlives its place in the vector, as the shared pointers of the
  client thread and of queued jobs keep it. \<open>c_batch\<close> and \<open>c_running\<close> are the local batch
  of the client's thread and whether that thread is still in its loop; \<open>c_sent\<close> is what the
  kernel took for the client and \<open>c_shut\<close> says that the socket was shut down.
  \<open>s_waiting\<close> is the job the command worker waits for, if any.
\<close>

record ('b, 'w) server =
  s_running :: bool
  s_listen_fd :: int
  s_port :: int
  s_objs :: "client list"
  s_clients :: "nat list"
  s_queue :: "job list"
  s_waiting :: "(job \<times> 'w) option"
  s_last_tx :: u64
  s_reads :: nat
  s_sends :: nat
  s_host :: 'b

record platform =
  p_clock :: "nat \<Rightarrow> u64"
  p_send :: "nat \<Rightarrow> nat \<Rightarrow> int"

text \<open>
  What the server is given: the state provider and the start of the command handler read the clock
  (they get the number of the next reading and return the one after), the urgent handler does not
  block, and the command handler, called at a steady time, answers at once or waits.
\<close>

record ('b, 'w) callbacks =
  cb_state :: "(nat \<Rightarrow> u64) \<Rightarrow> nat \<Rightarrow> 'b \<Rightarrow> string \<times> nat"
  cb_urgent :: "string \<Rightarrow> u16 \<Rightarrow> string \<Rightarrow> 'b \<Rightarrow> 'b"
  cb_cmd :: "(nat \<Rightarrow> u64) \<Rightarrow> nat \<Rightarrow> int \<Rightarrow> string \<Rightarrow> u16 \<Rightarrow> string \<Rightarrow> 'b \<Rightarrow> (string + 'w) \<times> nat \<times> 'b"
  cb_poll :: "int \<Rightarrow> 'w \<Rightarrow> 'b \<Rightarrow> string option \<times> 'b"

definition client_of :: "('b, 'w) server \<Rightarrow> nat \<Rightarrow> client" where
  "client_of s c = s_objs s ! c"

definition set_client :: "nat \<Rightarrow> (client \<Rightarrow> client) \<Rightarrow> ('b, 'w) server \<Rightarrow> ('b, 'w) server" where
  "set_client c f s = s\<lparr>s_objs := (s_objs s)[c := f (s_objs s ! c)]\<rparr>"

definition s_now :: "platform \<Rightarrow> ('b, 'w) server \<Rightarrow> u64 \<times> ('b, 'w) server" where
  "s_now P s = (p_clock P (s_reads s), s\<lparr>s_reads := Suc (s_reads s)\<rparr>)"

section \<open>Sending\<close>

text \<open>The send loop: what the kernel took, whether all was taken, and the calls made.\<close>

function send_bytes :: "platform \<Rightarrow> nat \<Rightarrow> bytes \<Rightarrow> bytes \<times> bool \<times> nat" where
  "send_bytes P k xs =
     (if xs = [] then ([], True, k)
      else let n = p_send P k (length xs) in
        if n \<le> 0 then ([], False, Suc k)
        else (case send_bytes P (Suc k) (drop (nat n) xs) of
                (taken, ok, k') \<Rightarrow> (take (nat n) xs @ taken, ok, k')))"
  by pat_completeness auto
termination
  by (relation "measure (\<lambda>(P, k, xs). length xs)") auto

declare send_bytes.simps [simp del]

definition send_frame :: "platform \<Rightarrow> nat \<Rightarrow> u8 \<Rightarrow> u8 \<Rightarrow> u16 \<Rightarrow> string \<Rightarrow> ('b, 'w) server \<Rightarrow> bool \<times> ('b, 'w) server" where
  "send_frame P c ty flags sq payload s =
     (if c_fd (client_of s c) < 0 then (False, s)
      else case send_bytes P (s_sends s) (encode_frame ty flags sq payload) of
        (taken, ok, k) \<Rightarrow>
          (ok, set_client c (\<lambda>cl. cl\<lparr>c_sent := c_sent cl @ taken\<rparr>) (s\<lparr>s_sends := k\<rparr>)))"

text \<open>The callers ignore the result.\<close>

definition send_to :: "platform \<Rightarrow> nat \<Rightarrow> u8 \<Rightarrow> u16 \<Rightarrow> string \<Rightarrow> ('b, 'w) server \<Rightarrow> ('b, 'w) server" where
  "send_to P c ty sq payload s = snd (send_frame P c ty 0 sq payload s)"

definition send_to_all :: "platform \<Rightarrow> u8 \<Rightarrow> u16 \<Rightarrow> string \<Rightarrow> ('b, 'w) server \<Rightarrow> ('b, 'w) server" where
  "send_to_all P ty sq payload s =
     fold (\<lambda>c s'. if c_hello_ok (client_of s' c) \<and> c_fd (client_of s' c) \<ge> 0
                  then send_to P c ty sq payload s' else s') (s_clients s) s"

section \<open>Messages\<close>

definition inject_runtime_fields :: "string \<Rightarrow> string \<Rightarrow> string" where
  "inject_runtime_fields state_json conn_value =
     (if state_json \<noteq> [] \<and> contains state_json (quoted ''conn'') then state_json
      else
        let b0 = (if state_json = [] \<or> hd state_json \<noteq> CHR ''{'' then ''{}'' else state_json);
            b1 = (if b0 \<noteq> [] \<and> last b0 = CHR ''}'' then butlast b0 else b0);
            b2 = (if b1 \<noteq> [] \<and> last b1 \<noteq> CHR '','' \<and> last b1 \<noteq> CHR ''{'' then b1 @ '','' else b1)
        in b2 @ quoted ''conn'' @ '':'' @ dq # escape conn_value @ [dq] @
           '','' @ quoted ''heartbeat_rtt_ms'' @ '':0}'')"

definition rejection :: "u16 \<Rightarrow> string \<Rightarrow> string \<Rightarrow> string" where
  "rejection sq cmd reason =
     ''{'' @ quoted ''seq'' @ '':'' @ dec_nat (unat sq) @ '','' @ quoted ''ok'' @ '':false,'' @
     quoted ''cmd'' @ '':'' @ dq # cmd @ [dq] @ '','' @
     quoted ''status'' @ '':'' @ quoted ''REJECTED'' @ '','' @
     quoted ''reason'' @ '':'' @ quoted reason @ ''}''"

definition hello_ok_json :: string where
  "hello_ok_json = ''{'' @ quoted ''ok'' @ '':true,'' @ quoted ''proto'' @ '':'' @ quoted PROTO_VERSION @
     '','' @ quoted ''server'' @ '':'' @ quoted SERVER_NAME @ ''}''"

definition hello_bad_json :: string where
  "hello_bad_json = ''{'' @ quoted ''ok'' @ '':false,'' @ quoted ''reason'' @ '':'' @ quoted ''proto_unsupported'' @ ''}''"

definition heartbeat_json :: "u64 \<Rightarrow> string" where
  "heartbeat_json t = ''{'' @ quoted ''ts_ms'' @ '':'' @ dec_nat (unat t) @ '','' @
     quoted ''role'' @ '':'' @ quoted ''bridge'' @ ''}''"

section \<open>Frames\<close>

definition call_state :: "platform \<Rightarrow> ('b, 'w) callbacks \<Rightarrow> ('b, 'w) server \<Rightarrow> string \<times> ('b, 'w) server" where
  "call_state P C s = (case cb_state C (p_clock P) (s_reads s) (s_host s) of (raw, k) \<Rightarrow> (raw, s\<lparr>s_reads := k\<rparr>))"

definition proto_supported :: "string \<Rightarrow> bool" where
  "proto_supported payload \<longleftrightarrow>
     (let lo = snd (get_string payload ''proto_min'' []); hi = snd (get_string payload ''proto_max'' [])
      in lo = PROTO_VERSION \<or> hi = PROTO_VERSION \<or> (lo = [] \<and> hi = []))"

definition handle_hello :: "platform \<Rightarrow> ('b, 'w) callbacks \<Rightarrow> nat \<Rightarrow> frame \<Rightarrow> ('b, 'w) server \<Rightarrow> ('b, 'w) server" where
  "handle_hello P C c f s =
     (if proto_supported (fpayload f)
      then let s1 = send_to P c MSG_HELLO_ACK (fseq f) hello_ok_json s;
               s2 = set_client c (\<lambda>cl. cl\<lparr>c_hello_ok := True\<rparr>) s1;
               (raw, s3) = call_state P C s2
           in send_to P c MSG_STATE_SNAPSHOT 0 (inject_runtime_fields raw ''OFFLINE'') s3
      else send_to P c MSG_HELLO_ACK (fseq f) hello_bad_json s)"

definition handle_heartbeat :: "platform \<Rightarrow> nat \<Rightarrow> frame \<Rightarrow> ('b, 'w) server \<Rightarrow> ('b, 'w) server" where
  "handle_heartbeat P c f s =
     (let (t1, s1) = s_now P s;
          s2 = set_client c (\<lambda>cl. cl\<lparr>c_last_hb_rx_ms := t1\<rparr>) s1;
          (t2, s3) = s_now P s2
      in send_to P c MSG_HEARTBEAT (fseq f) (heartbeat_json t2) s3)"

definition enqueue_cmd :: "('b, 'w) callbacks \<Rightarrow> nat \<Rightarrow> frame \<Rightarrow> string \<Rightarrow> ('b, 'w) server \<Rightarrow> ('b, 'w) server" where
  "enqueue_cmd C c f cmd s =
     (if ftype f \<noteq> MSG_CMD_ESTOP
      then s\<lparr>s_queue := s_queue s @ [\<lparr>j_client = c, j_seq = fseq f, j_cmd = cmd, j_payload = fpayload f\<rparr>]\<rparr>
      else s\<lparr>s_host := cb_urgent C cmd (fseq f) (fpayload f) (s_host s)\<rparr>)"

definition command_types :: "u8 list" where
  "command_types = [MSG_CMD_MODE, MSG_CMD_TASK, MSG_CMD_ESTOP, MSG_CMD_RESET, MSG_PARAM_GET, MSG_PARAM_SET]"

definition handle_frame :: "platform \<Rightarrow> ('b, 'w) callbacks \<Rightarrow> nat \<Rightarrow> frame \<Rightarrow> ('b, 'w) server \<Rightarrow> ('b, 'w) server" where
  "handle_frame P C c f s =
     (if ftype f = MSG_HELLO then handle_hello P C c f s
      else if ftype f = MSG_HEARTBEAT then handle_heartbeat P c f s
      else if ftype f \<in> set command_types then enqueue_cmd C c f (msg_type_name (ftype f)) s
      else s)"

section \<open>The client's thread\<close>

text \<open>
  \<open>remove_client\<close> erases the first entry that is the given client or has the given
  descriptor.
\<close>

fun erase_first :: "('a \<Rightarrow> bool) \<Rightarrow> 'a list \<Rightarrow> 'a list" where
  "erase_first p [] = []"
| "erase_first p (x # xs) = (if p x then xs else x # erase_first p xs)"

definition remove_client :: "int \<Rightarrow> nat option \<Rightarrow> ('b, 'w) server \<Rightarrow> ('b, 'w) server" where
  "remove_client fd client s = s\<lparr>s_clients := erase_first
     (\<lambda>c. client = Some c \<or> (fd \<ge> 0 \<and> c_fd (client_of s c) = fd)) (s_clients s)\<rparr>"

text \<open>The end of the thread: the descriptor is closed and the client removed.\<close>

definition client_exit :: "nat \<Rightarrow> ('b, 'w) server \<Rightarrow> ('b, 'w) server" where
  "client_exit c s = remove_client (- 1) (Some c)
     (set_client c (\<lambda>cl. cl\<lparr>c_fd := - 1, c_running := False, c_batch := []\<rparr>) s)"

text \<open>\<open>while (running_.load())\<close> and the test of the descriptor before the next \<open>recv\<close>.\<close>

definition loop_test :: "nat \<Rightarrow> ('b, 'w) server \<Rightarrow> ('b, 'w) server" where
  "loop_test c s = (if \<not> s_running s \<or> c_fd (client_of s c) < 0 then client_exit c s else s)"

text \<open>The batch of one \<open>recv\<close>: emergency stops first, the order otherwise kept.\<close>

definition estop_first :: "frame list \<Rightarrow> frame list" where
  "estop_first fs = sort_key (\<lambda>f. if ftype f = MSG_CMD_ESTOP then 0 else 1 :: nat) fs"

text \<open>\<open>recv\<close> returned \<open>n\<close> with \<open>data\<close>.\<close>

definition client_recv :: "platform \<Rightarrow> nat \<Rightarrow> int \<Rightarrow> bytes \<Rightarrow> ('b, 'w) server \<Rightarrow> ('b, 'w) server" where
  "client_recv P c n data s =
     (if n = 0 then client_exit c s
      else if n < 0 then
        (if \<not> s_running s \<or> c_fd (client_of s c) < 0 then client_exit c s else loop_test c s)
      else
        let (t, s1) = s_now P s;
            (fs, buf) = decoder_drain (decoder_append (c_decoder (client_of s c)) data);
            s2 = set_client c (\<lambda>cl. cl\<lparr>c_last_rx_ms := t, c_decoder := buf, c_batch := estop_first fs\<rparr>) s1
        in if fs = [] then loop_test c s2 else s2)"

text \<open>One frame of the batch; the thread leaves the batch when its descriptor is gone.\<close>

definition client_frame :: "platform \<Rightarrow> ('b, 'w) callbacks \<Rightarrow> nat \<Rightarrow> ('b, 'w) server \<Rightarrow> ('b, 'w) server" where
  "client_frame P C c s =
     (case c_batch (client_of s c) of
        [] \<Rightarrow> s
      | f # fs \<Rightarrow>
          let s1 = handle_frame P C c f (set_client c (\<lambda>cl. cl\<lparr>c_batch := fs\<rparr>) s)
          in if c_fd (client_of s1 c) < 0 \<or> fs = []
             then loop_test c (set_client c (\<lambda>cl. cl\<lparr>c_batch := []\<rparr>) s1) else s1)"

definition new_client :: "int \<Rightarrow> u64 \<Rightarrow> client" where
  "new_client fd t = \<lparr>c_fd = fd, c_decoder = [], c_last_rx_ms = t, c_last_hb_rx_ms = t, c_hello_ok = False,
     c_batch = [], c_running = True, c_shut = False, c_sent = []\<rparr>"

text \<open>\<open>accept\<close> returned \<open>fd\<close>; the new client's thread makes its first test at once.\<close>

definition accept_client :: "platform \<Rightarrow> int \<Rightarrow> ('b, 'w) server \<Rightarrow> ('b, 'w) server" where
  "accept_client P fd s =
     (if fd < 0 then s
      else let (t, s1) = s_now P s; c = length (s_objs s1)
           in loop_test c (s1\<lparr>s_objs := s_objs s1 @ [new_client fd t], s_clients := s_clients s1 @ [c]\<rparr>))"

section \<open>The command worker\<close>

definition worker_take :: "platform \<Rightarrow> ('b, 'w) callbacks \<Rightarrow> int \<Rightarrow> ('b, 'w) server \<Rightarrow> ('b, 'w) server" where
  "worker_take P C t s =
     (case s_queue s of
        [] \<Rightarrow> s
      | j # js \<Rightarrow>
          let s1 = s\<lparr>s_queue := js\<rparr>
          in if c_fd (client_of s1 (j_client j)) < 0 then s1
             else if \<not> c_hello_ok (client_of s1 (j_client j))
             then send_to P (j_client j) MSG_CMD_ACK (j_seq j) (rejection (j_seq j) (j_cmd j) ''proto_error'') s1
             else case cb_cmd C (p_clock P) (s_reads s1) t (j_cmd j) (j_seq j) (j_payload j) (s_host s1) of
               (Inl ack, k, b) \<Rightarrow>
                 send_to P (j_client j) MSG_CMD_ACK (j_seq j) ack (s1\<lparr>s_reads := k, s_host := b\<rparr>)
             | (Inr w, k, b) \<Rightarrow> s1\<lparr>s_reads := k, s_host := b, s_waiting := Some (j, w)\<rparr>)"

text \<open>One round of the wait in the command handler, at the steady time \<open>t\<close>.\<close>

definition worker_poll :: "platform \<Rightarrow> ('b, 'w) callbacks \<Rightarrow> int \<Rightarrow> ('b, 'w) server \<Rightarrow> ('b, 'w) server" where
  "worker_poll P C t s =
     (case s_waiting s of
        None \<Rightarrow> s
      | Some (j, w) \<Rightarrow>
          (case cb_poll C t w (s_host s) of
             (None, b) \<Rightarrow> s\<lparr>s_host := b\<rparr>
           | (Some ack, b) \<Rightarrow>
               send_to P (j_client j) MSG_CMD_ACK (j_seq j) ack (s\<lparr>s_host := b, s_waiting := None\<rparr>)))"

definition worker_step :: "platform \<Rightarrow> ('b, 'w) callbacks \<Rightarrow> int \<Rightarrow> ('b, 'w) server \<Rightarrow> ('b, 'w) server" where
  "worker_step P C t s = (if s_waiting s = None then worker_take P C t s else worker_poll P C t s)"

section \<open>Calls from the node, the watchdog, start and stop\<close>

definition complete_async_ack :: "platform \<Rightarrow> u16 \<Rightarrow> string \<Rightarrow> ('b, 'w) server \<Rightarrow> ('b, 'w) server" where
  "complete_async_ack P sq ack s = send_to_all P MSG_CMD_ACK sq ack s"

definition broadcast_state_delta :: "platform \<Rightarrow> ('b, 'w) callbacks \<Rightarrow> ('b, 'w) server \<Rightarrow> ('b, 'w) server" where
  "broadcast_state_delta P C s =
     (if \<not> s_running s then s
      else let (raw, s1) = call_state P C s
           in send_to_all P MSG_STATE_DELTA 0 (inject_runtime_fields raw ''OFFLINE'') s1)"

definition client_count :: "('b, 'w) server \<Rightarrow> nat" where
  "client_count s = length (filter (\<lambda>c. c_fd (client_of s c) \<ge> 0 \<and> c_hello_ok (client_of s c)) (s_clients s))"

definition hb_expired :: "u64 \<Rightarrow> client \<Rightarrow> bool" where
  "hb_expired now cl \<longleftrightarrow>
     (let ref = (if c_hello_ok cl then c_last_hb_rx_ms cl else c_last_rx_ms cl);
          limit = (if c_hello_ok cl then word_of_int HB_TIMEOUT_MS else word_of_int (HB_TIMEOUT_MS * 2))
      in ref > 0 \<and> now - ref > limit)"

definition watchdog :: "platform \<Rightarrow> ('b, 'w) server \<Rightarrow> ('b, 'w) server" where
  "watchdog P s =
     (if \<not> s_running s then s
      else let (now, s1) = s_now P s;
               s2 = (if now - s_last_tx s1 \<ge> word_of_int HB_INTERVAL_MS
                     then send_to_all P MSG_HEARTBEAT 0 (heartbeat_json now) (s1\<lparr>s_last_tx := now\<rparr>) else s1)
           in fold (\<lambda>c s'. if c_fd (client_of s' c) \<ge> 0 \<and> hb_expired now (client_of s' c)
                           then set_client c (\<lambda>cl. cl\<lparr>c_shut := True\<rparr>) s' else s') (s_clients s2) s2)"

text \<open>\<open>start\<close>, with the answers of \<open>socket\<close>, \<open>bind\<close> and \<open>listen\<close>.\<close>

definition start_server :: "int \<Rightarrow> bool \<Rightarrow> bool \<Rightarrow> int \<Rightarrow> ('b, 'w) server \<Rightarrow> bool \<times> ('b, 'w) server" where
  "start_server sock bound listening port s =
     (if s_running s then (True, s)
      else if sock < 0 then (False, s\<lparr>s_listen_fd := sock\<rparr>)
      else if \<not> bound \<or> \<not> listening then (False, s\<lparr>s_listen_fd := - 1\<rparr>)
      else (True, s\<lparr>s_listen_fd := sock, s_port := port, s_running := True, s_last_tx := 0\<rparr>))"

text \<open>\<open>stop\<close> up to the joins, and after them.\<close>

definition stop_begin :: "('b, 'w) server \<Rightarrow> ('b, 'w) server" where
  "stop_begin s = fold (\<lambda>c. set_client c (\<lambda>cl. cl\<lparr>c_fd := - 1, c_shut := c_shut cl \<or> c_fd cl \<ge> 0\<rparr>))
     (s_clients s) (s\<lparr>s_running := False, s_listen_fd := - 1\<rparr>)"

definition stop_end :: "('b, 'w) server \<Rightarrow> ('b, 'w) server" where
  "stop_end s = s\<lparr>s_clients := []\<rparr>"

section \<open>What a send leaves alone\<close>

named_theorems server_frame \<open>which parts of the server an operation leaves alone\<close>

lemma set_client_frame [simp, server_frame]:
  "s_running (set_client c f s) = s_running s" "s_clients (set_client c f s) = s_clients s"
  "s_queue (set_client c f s) = s_queue s" "s_waiting (set_client c f s) = s_waiting s"
  "s_host (set_client c f s) = s_host s" "s_reads (set_client c f s) = s_reads s"
  "s_last_tx (set_client c f s) = s_last_tx s" "length (s_objs (set_client c f s)) = length (s_objs s)"
  by (simp_all add: set_client_def)

lemma client_of_set [simp]:
  "c < length (s_objs s) \<Longrightarrow> client_of (set_client d f s) c = (if d = c then f (client_of s c) else client_of s c)"
  by (auto simp: client_of_def set_client_def)

lemma client_of_fields [simp]:
  "client_of (s\<lparr>s_host := b\<rparr>) c = client_of s c" "client_of (s\<lparr>s_reads := k\<rparr>) c = client_of s c"
  "client_of (s\<lparr>s_queue := q\<rparr>) c = client_of s c" "client_of (s\<lparr>s_waiting := w\<rparr>) c = client_of s c"
  "client_of (s\<lparr>s_last_tx := t\<rparr>) c = client_of s c" "client_of (s\<lparr>s_clients := cs\<rparr>) c = client_of s c"
  by (simp_all add: client_of_def)

text \<open>Two states that differ only in what was sent to the clients, the clock and the kernel calls.\<close>

definition sent_more :: "client \<Rightarrow> client \<Rightarrow> bool" where
  "sent_more cl cl' \<longleftrightarrow> cl'\<lparr>c_sent := []\<rparr> = cl\<lparr>c_sent := []\<rparr> \<and> prefix (c_sent cl) (c_sent cl')"

lemma sent_more_fields:
  "sent_more cl cl' \<Longrightarrow> c_fd cl' = c_fd cl \<and> c_decoder cl' = c_decoder cl \<and> c_hello_ok cl' = c_hello_ok cl \<and>
     c_batch cl' = c_batch cl \<and> c_running cl' = c_running cl \<and> c_shut cl' = c_shut cl \<and>
     c_last_rx_ms cl' = c_last_rx_ms cl \<and> c_last_hb_rx_ms cl' = c_last_hb_rx_ms cl"
  by (cases cl; cases cl') (simp add: sent_more_def)

lemma sent_more_refl [simp]: "sent_more cl cl"
  by (simp add: sent_more_def)

lemma sent_more_trans: "sent_more a b \<Longrightarrow> sent_more b c \<Longrightarrow> sent_more a c"
  by (auto simp: sent_more_def)

definition only_sent :: "('b, 'w) server \<Rightarrow> ('b, 'w) server \<Rightarrow> bool" where
  "only_sent s s' \<longleftrightarrow> s_running s' = s_running s \<and> s_clients s' = s_clients s \<and> s_queue s' = s_queue s \<and>
     s_waiting s' = s_waiting s \<and> s_host s' = s_host s \<and> s_last_tx s' = s_last_tx s \<and> s_reads s' = s_reads s \<and>
     list_all2 sent_more (s_objs s) (s_objs s')"

lemma only_sent_refl [simp]: "only_sent s s"
  by (simp add: only_sent_def list.rel_refl)

lemma only_sent_trans [trans]:
  assumes "only_sent a b" and "only_sent b c"
  shows "only_sent a c"
proof -
  have "list_all2 sent_more (s_objs a) (s_objs c)"
    by (rule list_all2_trans [where ?P1.0 = sent_more and ?P2.0 = sent_more, of sent_more _ "s_objs b"])
      (use assms sent_more_trans in \<open>auto simp: only_sent_def\<close>)
  with assms show ?thesis by (simp add: only_sent_def)
qed

lemma only_sent_client:
  "only_sent s s' \<Longrightarrow> c < length (s_objs s) \<Longrightarrow> sent_more (client_of s c) (client_of s' c)"
  by (simp add: only_sent_def client_of_def list_all2_nthD)

lemma only_sent_length: "only_sent s s' \<Longrightarrow> length (s_objs s') = length (s_objs s)"
  unfolding only_sent_def using list_all2_lengthD by fastforce

lemma only_sent_send [simp]: "only_sent s (send_to P c ty sq payload s)"
proof -
  have "list_all2 sent_more xs (xs[c := (xs ! c)\<lparr>c_sent := c_sent (xs ! c) @ m\<rparr>])" for xs m
  proof (rule list_all2_all_nthI)
    fix i
    assume "i < length xs"
    then show "sent_more (xs ! i) (xs[c := (xs ! c)\<lparr>c_sent := c_sent (xs ! c) @ m\<rparr>] ! i)"
      by (cases "c = i") (simp_all add: sent_more_def)
  qed simp
  then show ?thesis
    by (auto simp: send_to_def send_frame_def only_sent_def set_client_def list.rel_refl split: prod.split)
qed

lemma only_sent_all [simp]: "only_sent s (send_to_all P ty sq payload s)"
proof -
  have "only_sent s (fold (\<lambda>c s'. if c_hello_ok (client_of s' c) \<and> c_fd (client_of s' c) \<ge> 0
      then send_to P c ty sq payload s' else s') cs s)" for cs
  proof (induction cs arbitrary: s)
    case (Cons c cs)
    show ?case using only_sent_trans [OF only_sent_send Cons.IH] Cons.IH by simp
  qed simp
  then show ?thesis by (simp add: send_to_all_def)
qed

lemma send_frame_rules [simp, server_frame]:
  "s_running (send_to P c ty sq payload s) = s_running s" "s_clients (send_to P c ty sq payload s) = s_clients s"
  "s_queue (send_to P c ty sq payload s) = s_queue s" "s_waiting (send_to P c ty sq payload s) = s_waiting s"
  "s_host (send_to P c ty sq payload s) = s_host s" "s_reads (send_to P c ty sq payload s) = s_reads s"
  "length (s_objs (send_to P c ty sq payload s)) = length (s_objs s)"
  using only_sent_send [of s P c ty sq payload] only_sent_length [OF only_sent_send]
  by (simp_all add: only_sent_def)

lemma send_all_rules [simp, server_frame]:
  "s_running (send_to_all P ty sq payload s) = s_running s" "s_clients (send_to_all P ty sq payload s) = s_clients s"
  "s_queue (send_to_all P ty sq payload s) = s_queue s" "s_waiting (send_to_all P ty sq payload s) = s_waiting s"
  "s_host (send_to_all P ty sq payload s) = s_host s" "s_reads (send_to_all P ty sq payload s) = s_reads s"
  "length (s_objs (send_to_all P ty sq payload s)) = length (s_objs s)"
  using only_sent_all [of s P ty sq payload] only_sent_length [OF only_sent_all]
  by (simp_all add: only_sent_def)

section \<open>The batch\<close>

lemma insort_two:
  assumes "\<And>x. x \<in> set ys \<Longrightarrow> p x" "\<And>x. x \<in> set zs \<Longrightarrow> \<not> p x"
  shows "insort_key (\<lambda>x. if p x then 0 else 1 :: nat) a (ys @ zs) = (if p a then a # ys @ zs else ys @ a # zs)"
  using assms
proof (induction ys)
  case Nil
  then show ?case by (cases zs) auto
qed auto

lemma estop_first_eq:
  "estop_first fs = filter (\<lambda>f. ftype f = MSG_CMD_ESTOP) fs @ filter (\<lambda>f. ftype f \<noteq> MSG_CMD_ESTOP) fs"
proof (induction fs)
  case (Cons f fs)
  have "estop_first (f # fs) = insort_key (\<lambda>f. if ftype f = MSG_CMD_ESTOP then 0 else 1 :: nat) f (estop_first fs)"
    by (simp only: estop_first_def sort_key_simps)
  also have "\<dots> = (if ftype f = MSG_CMD_ESTOP
      then f # filter (\<lambda>f. ftype f = MSG_CMD_ESTOP) fs @ filter (\<lambda>f. ftype f \<noteq> MSG_CMD_ESTOP) fs
      else filter (\<lambda>f. ftype f = MSG_CMD_ESTOP) fs @ f # filter (\<lambda>f. ftype f \<noteq> MSG_CMD_ESTOP) fs)"
    unfolding Cons by (rule insort_two) auto
  finally show ?case by (cases "ftype f = MSG_CMD_ESTOP") simp_all
qed (simp add: estop_first_def)

section \<open>Steps and the host\<close>

lemma loop_test_frame [simp, server_frame]:
  "s_host (client_exit c s) = s_host s" "s_queue (client_exit c s) = s_queue s"
  "s_waiting (client_exit c s) = s_waiting s" "s_host (loop_test c s) = s_host s"
  "s_queue (loop_test c s) = s_queue s" "s_waiting (loop_test c s) = s_waiting s"
  by (simp_all add: loop_test_def client_exit_def remove_client_def)

lemma s_now_frame [simp, server_frame]:
  "s_host (snd (s_now P s)) = s_host s" "s_queue (snd (s_now P s)) = s_queue s"
  "s_waiting (snd (s_now P s)) = s_waiting s" "s_clients (snd (s_now P s)) = s_clients s"
  "s_running (snd (s_now P s)) = s_running s" "s_objs (snd (s_now P s)) = s_objs s"
  by (simp_all add: s_now_def)

lemma call_state_frame [simp, server_frame]:
  "s_host (snd (call_state P C s)) = s_host s" "s_queue (snd (call_state P C s)) = s_queue s"
  "s_waiting (snd (call_state P C s)) = s_waiting s" "s_clients (snd (call_state P C s)) = s_clients s"
  "s_running (snd (call_state P C s)) = s_running s" "s_objs (snd (call_state P C s)) = s_objs s"
  by (simp_all add: call_state_def split: prod.split)

lemma hello_heartbeat_frame [simp, server_frame]:
  "s_host (handle_hello P C c f s) = s_host s" "s_queue (handle_hello P C c f s) = s_queue s"
  "s_waiting (handle_hello P C c f s) = s_waiting s" "s_host (handle_heartbeat P c f s) = s_host s"
  "s_queue (handle_heartbeat P c f s) = s_queue s" "s_waiting (handle_heartbeat P c f s) = s_waiting s"
  by (simp_all add: handle_hello_def handle_heartbeat_def split_beta Let_def)

lemma recv_frame [simp, server_frame]:
  "s_host (client_recv P c n data s) = s_host s" "s_queue (client_recv P c n data s) = s_queue s"
  "s_waiting (client_recv P c n data s) = s_waiting s"
  by (simp_all add: client_recv_def split_beta Let_def)

lemma accept_client_frame [simp, server_frame]:
  "s_host (accept_client P fd s) = s_host s" "s_queue (accept_client P fd s) = s_queue s"
  "s_waiting (accept_client P fd s) = s_waiting s"
  by (simp_all add: accept_client_def split_beta Let_def)

lemma fold_set_client [simp, server_frame]:
  "s_host (fold (\<lambda>c s'. if p c s' then set_client c (g c) s' else s') cs s) = s_host s"
  "s_queue (fold (\<lambda>c s'. if p c s' then set_client c (g c) s' else s') cs s) = s_queue s"
  "s_waiting (fold (\<lambda>c s'. if p c s' then set_client c (g c) s' else s') cs s) = s_waiting s"
  by (induction cs arbitrary: s) simp_all

lemma watchdog_frame [simp, server_frame]:
  "s_host (watchdog P s) = s_host s" "s_queue (watchdog P s) = s_queue s" "s_waiting (watchdog P s) = s_waiting s"
  by (simp_all add: watchdog_def split_beta Let_def)

lemma fold_set_all [simp, server_frame]:
  "s_host (fold (\<lambda>c. set_client c (g c)) cs s) = s_host s" "s_queue (fold (\<lambda>c. set_client c (g c)) cs s) = s_queue s"
  "s_waiting (fold (\<lambda>c. set_client c (g c)) cs s) = s_waiting s"
  by (induction cs arbitrary: s) simp_all

lemma start_stop_frame [simp, server_frame]:
  "s_host (snd (start_server k bd li port s)) = s_host s" "s_queue (snd (start_server k bd li port s)) = s_queue s"
  "s_waiting (snd (start_server k bd li port s)) = s_waiting s"
  "s_host (stop_begin s) = s_host s" "s_queue (stop_begin s) = s_queue s" "s_waiting (stop_begin s) = s_waiting s"
  "s_host (stop_end s) = s_host s" "s_queue (stop_end s) = s_queue s" "s_waiting (stop_end s) = s_waiting s"
  by (simp_all add: start_server_def stop_begin_def stop_end_def)

lemma broadcast_frame [simp, server_frame]:
  "s_host (broadcast_state_delta P C s) = s_host s" "s_queue (broadcast_state_delta P C s) = s_queue s"
  "s_waiting (broadcast_state_delta P C s) = s_waiting s"
  by (simp_all add: broadcast_state_delta_def split_beta Let_def)

text \<open>One frame: what reaches the host at once, and what is queued.\<close>

lemma handle_frame_effect:
  "s_host (handle_frame P C c f s) =
     (if ftype f = MSG_CMD_ESTOP then cb_urgent C ''CMD_ESTOP'' (fseq f) (fpayload f) (s_host s) else s_host s)"
  "s_queue (handle_frame P C c f s) = s_queue s @
     (if ftype f \<in> set command_types \<and> ftype f \<noteq> MSG_CMD_ESTOP
      then [\<lparr>j_client = c, j_seq = fseq f, j_cmd = msg_type_name (ftype f), j_payload = fpayload f\<rparr>] else [])"
  "s_waiting (handle_frame P C c f s) = s_waiting s"
  by (auto simp: handle_frame_def enqueue_cmd_def command_types_def msg_defs)
    (simp_all add: msg_type_name_def msg_defs)

lemma client_frame_effect:
  assumes "c_batch (client_of s c) = f # fs"
  shows "s_host (client_frame P C c s) =
     (if ftype f = MSG_CMD_ESTOP then cb_urgent C ''CMD_ESTOP'' (fseq f) (fpayload f) (s_host s) else s_host s)"
    and "s_queue (client_frame P C c s) = s_queue s @
     (if ftype f \<in> set command_types \<and> ftype f \<noteq> MSG_CMD_ESTOP
      then [\<lparr>j_client = c, j_seq = fseq f, j_cmd = msg_type_name (ftype f), j_payload = fpayload f\<rparr>] else [])"
    and "s_waiting (client_frame P C c s) = s_waiting s"
  using assms by (simp_all add: client_frame_def Let_def handle_frame_effect)

section \<open>The contract with the host\<close>

text \<open>
  What the server relies on: the urgent handler publishes its command at once; the command handler
  publishes a command it will wait for, and no other; a round of the wait publishes nothing, and
  at its deadline it ends.
\<close>

locale command_host =
  fixes C :: "('b, 'w) callbacks"
    and published :: "'b \<Rightarrow> 'p list"
    and forward :: "string \<Rightarrow> u16 \<Rightarrow> string \<Rightarrow> 'p"
    and deadline :: "'w \<Rightarrow> int"
  assumes urgent_publishes: "cmd \<noteq> [] \<Longrightarrow> published (cb_urgent C cmd sq payload b) = published b @ [forward cmd sq payload]"
    and cmd_publishes: "cmd \<noteq> ''CMD_ESTOP'' \<Longrightarrow> cb_cmd C clk k t cmd sq payload b = (r, k', b') \<Longrightarrow>
      published b' = published b @ (case r of Inl a \<Rightarrow> [] | Inr w \<Rightarrow> [forward cmd sq payload])"
    and poll_publishes: "published (snd (cb_poll C t w b)) = published b"
    and poll_ends: "deadline w \<le> t \<Longrightarrow> fst (cb_poll C t w b) \<noteq> None"
begin

lemma frame_publishes:
  "c_batch (client_of s c) = f # fs \<Longrightarrow> published (s_host (client_frame P C c s)) =
     published (s_host s) @ (if ftype f = MSG_CMD_ESTOP then [forward ''CMD_ESTOP'' (fseq f) (fpayload f)] else [])"
  by (simp add: client_frame_effect urgent_publishes)

lemma idle_frame: "c_batch (client_of s c) = [] \<Longrightarrow> client_frame P C c s = s"
  by (simp add: client_frame_def)

text \<open>The worker publishes at most the command at the head of the queue, of a client that is
  connected and has said hello.\<close>

lemma worker_publishes:
  assumes "\<forall>j \<in> set (s_queue s). j_cmd j \<noteq> ''CMD_ESTOP''"
  shows "published (s_host (worker_step P C t s)) = published (s_host s) \<or>
    (\<exists>j js. s_queue s = j # js \<and> s_waiting s = None \<and> c_fd (client_of s (j_client j)) \<ge> 0 \<and>
       c_hello_ok (client_of s (j_client j)) \<and>
       (\<exists>k' b' w. cb_cmd C (p_clock P) (s_reads s) t (j_cmd j) (j_seq j) (j_payload j) (s_host s) = (Inr w, k', b')) \<and>
       published (s_host (worker_step P C t s)) =
         published (s_host s) @ [forward (j_cmd j) (j_seq j) (j_payload j)])"
proof (cases "s_waiting s")
  case (Some jw)
  obtain j w where "jw = (j, w)" by fastforce
  with Some poll_publishes [of t w "s_host s"] show ?thesis
    by (auto simp: worker_step_def worker_poll_def split: prod.splits option.splits)
next
  case None
  show ?thesis
  proof (cases "s_queue s")
    case Nil
    with None show ?thesis by (simp add: worker_step_def worker_take_def)
  next
    case (Cons j js)
    obtain r k' b' where h: "cb_cmd C (p_clock P) (s_reads s) t (j_cmd j) (j_seq j) (j_payload j) (s_host s) = (r, k', b')"
      by (metis prod_cases3)
    have "client_of (s\<lparr>s_queue := js\<rparr>) i = client_of s i" for i by (simp add: client_of_def)
    with None Cons h cmd_publishes [OF _ h] assms show ?thesis
      by (cases r) (auto simp: worker_step_def worker_take_def Let_def)
  qed
qed

text \<open>The wait ends with its deadline, with an answer to the client that asked.\<close>

lemma wait_ends:
  assumes "s_waiting s = Some (j, w)" and "deadline w \<le> t"
  shows "s_waiting (worker_step P C t s) = None"
    and "\<exists>ack b. worker_step P C t s = send_to P (j_client j) MSG_CMD_ACK (j_seq j) ack (s\<lparr>s_host := b, s_waiting := None\<rparr>)"
proof -
  obtain ack b where "cb_poll C t w (s_host s) = (Some ack, b)"
    using poll_ends [OF assms(2), of "s_host s"] by (metis not_Some_eq prod.collapse)
  with assms(1) show "s_waiting (worker_step P C t s) = None"
    and "\<exists>ack b. worker_step P C t s = send_to P (j_client j) MSG_CMD_ACK (j_seq j) ack (s\<lparr>s_host := b, s_waiting := None\<rparr>)"
    by (auto simp: worker_step_def worker_poll_def)
qed

end

end
