(* ===== verification/Bridge_Node.thy ===== *)
theory Bridge_Node
  imports Tcp_Server
begin

text \<open>
  The bridge's ROS node (\<open>bridge/src/bridge_node.cpp\<close>, class \<open>BridgeNode\<close>): the robot
  state it relays, the commands it publishes, the pending table that routes results to the waiting
  command worker, and the urgent path of the emergency stop. The publishers are made in the
  constructor and never reset, so the tests for a missing one are always false and are left out.
  \<open>b_cmds\<close> and \<open>b_console\<close> collect what was published. The wait for a result is split into
  the rounds of its loop, with the readings of the steady clock (in milliseconds) as arguments;
  the condition variable only shortens a round.
\<close>

section \<open>State\<close>

record pending_cmd =
  pc_done :: bool
  pc_ack_json :: string

record bridge =
  b_state_json :: string
  b_last_state_ms :: u64
  b_pending :: "u16 \<rightharpoonup> pending_cmd"
  b_estop_raised :: bool
  b_async_valid :: bool
  b_async_seq :: u16
  b_cmds :: "string list"
  b_console :: "string list"

definition init_bridge :: bridge where
  "init_bridge = \<lparr>b_state_json = ''{}'', b_last_state_ms = 0, b_pending = Map.empty, b_estop_raised = False,
     b_async_valid = False, b_async_seq = 0, b_cmds = [], b_console = []\<rparr>"

section \<open>Robot state\<close>

text \<open>The clock is read only when a state was received at all.\<close>

definition robot_state_fresh :: "(nat \<Rightarrow> u64) \<Rightarrow> nat \<Rightarrow> bridge \<Rightarrow> bool \<times> nat" where
  "robot_state_fresh clk k b =
     (if b_last_state_ms b > 0 then (clk k - b_last_state_ms b < word_of_int HB_TIMEOUT_MS, Suc k) else (False, k))"

definition offline_json :: "u64 \<Rightarrow> string" where
  "offline_json t = ''{'' @ quoted ''ts_ms'' @ '':'' @ dec_nat (unat t) @
     '','' @ quoted ''conn'' @ '':'' @ quoted ''OFFLINE'' @ '','' @ quoted ''mode'' @ '':'' @ quoted ''TELEOP'' @
     '','' @ quoted ''phase'' @ '':'' @ quoted ''BOOT'' @
     '','' @ quoted ''heartbeat_rtt_ms'' @ '':0,'' @ quoted ''nodes'' @ '':[]'' @
     '','' @ quoted ''pose'' @ '':{'' @ quoted ''x'' @ '':0,'' @ quoted ''y'' @ '':0,'' @ quoted ''yaw'' @ '':0},'' @
     quoted ''battery'' @ '':0'' @
     '','' @ quoted ''task'' @ '':{'' @ quoted ''id'' @ '':null,'' @ quoted ''type'' @ '':null,'' @
     quoted ''status'' @ '':'' @ quoted ''NONE'' @ ''}'' @
     '','' @ quoted ''faults'' @ '':[],'' @ quoted ''estop'' @ '':false,'' @ quoted ''control_enabled'' @ '':false}''"

definition state_for_tcp :: "(nat \<Rightarrow> u64) \<Rightarrow> nat \<Rightarrow> bridge \<Rightarrow> string \<times> nat" where
  "state_for_tcp clk k b =
     (case robot_state_fresh clk k b of
        (False, k1) \<Rightarrow> (offline_json (clk k1), Suc k1)
      | (True, k1) \<Rightarrow> (b_state_json b, k1))"

definition on_robot_state :: "u64 \<Rightarrow> string \<Rightarrow> bridge \<Rightarrow> bridge" where
  "on_robot_state now data b = b\<lparr>b_state_json := data, b_last_state_ms := now\<rparr>"

section \<open>Commands\<close>

definition envelope :: "string \<Rightarrow> u16 \<Rightarrow> string \<Rightarrow> string" where
  "envelope cmd sq payload = ''{'' @ quoted ''seq'' @ '':'' @ dec_nat (unat sq) @ '','' @ quoted ''cmd'' @ '':'' @
     dq # escape cmd @ [dq] @ '','' @ quoted ''payload'' @ '':'' @ (if payload = [] then ''null'' else payload) @ ''}''"

definition publish_cmd_envelope :: "string \<Rightarrow> u16 \<Rightarrow> string \<Rightarrow> bridge \<Rightarrow> bridge" where
  "publish_cmd_envelope cmd sq payload b = b\<lparr>b_cmds := b_cmds b @ [envelope cmd sq payload]\<rparr>"

definition urgent_estop :: "string \<Rightarrow> u16 \<Rightarrow> string \<Rightarrow> bridge \<Rightarrow> bridge" where
  "urgent_estop cmd sq payload b =
     publish_cmd_envelope (if cmd = [] then ''CMD_ESTOP'' else cmd) sq payload
       (b\<lparr>b_estop_raised := True, b_async_seq := sq, b_async_valid := True,
          b_pending := (b_pending b)(sq \<mapsto> \<lparr>pc_done = False, pc_ack_json = []\<rparr>)\<rparr>)"

text \<open>What the command worker waits for, and until when.\<close>

record wait =
  w_seq :: u16
  w_cmd :: string
  w_deadline :: int

definition estop_executing :: "u16 \<Rightarrow> string" where
  "estop_executing sq = ''{'' @ quoted ''seq'' @ '':'' @ dec_nat (unat sq) @ '','' @ quoted ''ok'' @ '':true,'' @
     quoted ''cmd'' @ '':'' @ quoted ''CMD_ESTOP'' @ '','' @ quoted ''status'' @ '':'' @ quoted ''EXECUTING'' @ '','' @
     quoted ''reason'' @ '':null}''"

definition estop_guarded :: "string \<Rightarrow> string \<Rightarrow> bool" where
  "estop_guarded cmd payload \<longleftrightarrow>
     cmd = ''CMD_TASK'' \<or> (cmd = ''CMD_MODE'' \<and> contains payload (quoted ''AUTO''))"

definition handle_command ::
  "(nat \<Rightarrow> u64) \<Rightarrow> nat \<Rightarrow> int \<Rightarrow> string \<Rightarrow> u16 \<Rightarrow> string \<Rightarrow> bridge \<Rightarrow> (string + wait) \<times> nat \<times> bridge" where
  "handle_command clk k t cmd sq payload b =
     (if cmd = ''CMD_ESTOP'' then (Inl (estop_executing sq), k, urgent_estop cmd sq payload b)
      else let (fresh, k1) = robot_state_fresh clk k b in
        if \<not> fresh then (Inl (rejection sq cmd ''timeout''), k1, b)
        else if estop_guarded cmd payload \<and> get_bool (b_state_json b) ''estop'' = Some True
        then (Inl (rejection sq cmd ''estop_active''), k1, b)
        else (Inr \<lparr>w_seq = sq, w_cmd = cmd, w_deadline = t + ACK_TIMEOUT_MS\<rparr>, k1,
              publish_cmd_envelope cmd sq payload
                (b\<lparr>b_pending := (b_pending b)(sq \<mapsto> \<lparr>pc_done = False, pc_ack_json = []\<rparr>)\<rparr>)))"

text \<open>One round of \<open>wait_cmd_result\<close> at the steady time \<open>t\<close>: the answer, if the wait is over.\<close>

definition forget :: "u16 \<Rightarrow> bridge \<Rightarrow> bridge" where
  "forget sq b = b\<lparr>b_pending := (b_pending b)(sq := None)\<rparr>"

definition wait_round :: "int \<Rightarrow> wait \<Rightarrow> bridge \<Rightarrow> string option \<times> bridge" where
  "wait_round t w b =
     (if t < w_deadline w
      then if b_estop_raised b
           then (Some (rejection (w_seq w) (w_cmd w) ''estop_active''), forget (w_seq w) b)
           else (case b_pending b (w_seq w) of
                   Some pc \<Rightarrow> if pc_done pc then (Some (pc_ack_json pc), forget (w_seq w) b) else (None, b)
                 | None \<Rightarrow> (None, b))
      else (Some (rejection (w_seq w) (w_cmd w) ''timeout''), forget (w_seq w) b))"

text \<open>\<open>on_cmd_result\<close>: the new state and the asynchronous ACK to send, if this is one.\<close>

definition on_cmd_result :: "string \<Rightarrow> bridge \<Rightarrow> bridge \<times> (u16 \<times> string) option" where
  "on_cmd_result data b =
     (case get_int data ''seq'' of
        None \<Rightarrow> (b, None)
      | Some i \<Rightarrow>
          if i < 0 then (b, None)
          else let sq = word_of_int i :: u16 in
            if b_async_valid b \<and> b_async_seq b = sq
            then (b\<lparr>b_estop_raised := False, b_async_valid := False\<rparr>, Some (sq, data))
            else (case b_pending b sq of
                    None \<Rightarrow> (b, None)
                  | Some pc \<Rightarrow> (b\<lparr>b_pending := (b_pending b)(sq \<mapsto> pc\<lparr>pc_ack_json := data, pc_done := True\<rparr>)\<rparr>, None)))"

definition console_json :: "bool \<Rightarrow> string" where
  "console_json online = ''{'' @ quoted ''online'' @ '':'' @ (if online then ''true'' else ''false'') @ ''}''"

section \<open>The bridge process\<close>

text \<open>\<open>start_tcp\<close> gives the server the node's methods.\<close>

definition node_callbacks :: "(bridge, wait) callbacks" where
  "node_callbacks = \<lparr>cb_state = state_for_tcp, cb_urgent = urgent_estop, cb_cmd = handle_command, cb_poll = wait_round\<rparr>"

interpretation bridge_host: command_host node_callbacks b_cmds envelope w_deadline
proof
  fix cmd sq payload b
  show "cmd \<noteq> [] \<Longrightarrow> b_cmds (cb_urgent node_callbacks cmd sq payload b) = b_cmds b @ [envelope cmd sq payload]"
    by (simp add: node_callbacks_def urgent_estop_def publish_cmd_envelope_def)
next
  fix cmd :: string and clk k t sq payload b r k' b'
  assume "cmd \<noteq> ''CMD_ESTOP''" and "cb_cmd node_callbacks clk k t cmd sq payload b = (r, k', b')"
  then show "b_cmds b' = b_cmds b @ (case r of Inl a \<Rightarrow> [] | Inr w \<Rightarrow> [envelope cmd sq payload])"
    by (auto simp: node_callbacks_def handle_command_def publish_cmd_envelope_def split: prod.splits if_splits)
next
  fix t w b
  show "b_cmds (snd (cb_poll node_callbacks t w b)) = b_cmds b"
    by (simp add: node_callbacks_def wait_round_def forget_def split: option.split)
  show "w_deadline w \<le> t \<Longrightarrow> fst (cb_poll node_callbacks t w b) \<noteq> None"
    by (simp add: node_callbacks_def wait_round_def)
qed

definition init_server :: "(bridge, wait) server" where
  "init_server = \<lparr>s_running = False, s_listen_fd = - 1, s_port = 0, s_objs = [], s_clients = [], s_queue = [],
     s_waiting = None, s_last_tx = 0, s_reads = 0, s_sends = 0, s_host = init_bridge\<rparr>"

definition ros_state :: "platform \<Rightarrow> string \<Rightarrow> (bridge, wait) server \<Rightarrow> (bridge, wait) server" where
  "ros_state P data s = (let (t, s1) = s_now P s in s1\<lparr>s_host := on_robot_state t data (s_host s1)\<rparr>)"

definition ros_result :: "platform \<Rightarrow> string \<Rightarrow> (bridge, wait) server \<Rightarrow> (bridge, wait) server" where
  "ros_result P data s =
     (case on_cmd_result data (s_host s) of
        (b, None) \<Rightarrow> s\<lparr>s_host := b\<rparr>
      | (b, Some (sq, ack)) \<Rightarrow> complete_async_ack P sq ack (s\<lparr>s_host := b\<rparr>))"

definition delta_timer_cb :: "platform \<Rightarrow> (bridge, wait) server \<Rightarrow> (bridge, wait) server" where
  "delta_timer_cb P s =
     (let s1 = broadcast_state_delta P node_callbacks s
      in s1\<lparr>s_host := (s_host s1)\<lparr>b_console := b_console (s_host s1) @ [console_json (client_count s1 > 0)]\<rparr>\<rparr>)"

text \<open>
  What can happen to the process: start and stop of the server, the threads of the server (a \<open>recv\<close> that returns, a frame
  of a batch, the worker at a steady time, the watchdog, the accept thread) and the callbacks of the
  node. The scheduler chooses the order. A client's thread only takes part while it runs, and
  receives again only when its batch is done.
\<close>

datatype bridge_event = Start int bool bool int | Stop | Joined | Accept int | Recv nat int bytes | Frame nat | Worker int | Watchdog
  | Robot_State string | Cmd_Result string | Delta_Timer

definition thread_of :: "nat \<Rightarrow> ('b, 'w) server \<Rightarrow> bool" where
  "thread_of c s \<longleftrightarrow> c < length (s_objs s) \<and> c_running (client_of s c)"

definition bridge_step :: "platform \<Rightarrow> (bridge, wait) server \<Rightarrow> bridge_event \<Rightarrow> (bridge, wait) server" where
  "bridge_step P s ev =
     (case ev of
        Start sock bound listening port \<Rightarrow> snd (start_server sock bound listening port s)
      | Stop \<Rightarrow> stop_begin s
      | Joined \<Rightarrow> if s_running s then s else stop_end s
      | Accept fd \<Rightarrow> if s_running s then accept_client P fd s else s
      | Recv c n data \<Rightarrow> if thread_of c s \<and> c_batch (client_of s c) = [] then client_recv P c n data s else s
      | Frame c \<Rightarrow> if thread_of c s then client_frame P node_callbacks c s else s
      | Worker t \<Rightarrow> worker_step P node_callbacks t s
      | Watchdog \<Rightarrow> watchdog P s
      | Robot_State data \<Rightarrow> ros_state P data s
      | Cmd_Result data \<Rightarrow> ros_result P data s
      | Delta_Timer \<Rightarrow> delta_timer_cb P s)"

end
