(* ===== verification/Bridge_Props.thy ===== *)
theory Bridge_Props
  imports Bridge_Node
begin

text \<open>
  The properties of the bridge process: the invariant of every run (the vector of clients, the
  bound of every receive buffer, the jobs of the queue), which steps publish a command and under
  which conditions, the path of an emergency stop past everything that waits, the bound of the
  wait for a result and the entry of the pending table that it keeps, and the emergency stop flag that outlives a lost result.
\<close>

section \<open>The invariant\<close>

definition decoder_ok :: "client \<Rightarrow> bool" where
  "decoder_ok cl \<longleftrightarrow> length (c_decoder cl) < 65540 \<and> decoder_next (c_decoder cl) = (c_decoder cl, None)"

definition bridge_inv :: "(bridge, wait) server \<Rightarrow> bool" where
  "bridge_inv s \<longleftrightarrow> distinct (s_clients s) \<and> (\<forall>c \<in> set (s_clients s). c < length (s_objs s)) \<and>
     (\<forall>cl \<in> set (s_objs s). decoder_ok cl) \<and>
     (\<forall>j \<in> set (s_queue s). j_client j < length (s_objs s) \<and> j_cmd j \<noteq> ''CMD_ESTOP'')"

lemma init_bridge_inv: "bridge_inv init_server"
  by (simp add: bridge_inv_def init_server_def)

text \<open>The part of the state the invariant reads.\<close>

lemma bridge_inv_cong:
  "s_clients s' = s_clients s \<Longrightarrow> s_queue s' = s_queue s \<Longrightarrow>
   list_all2 (\<lambda>a b. c_decoder b = c_decoder a) (s_objs s) (s_objs s') \<Longrightarrow> bridge_inv s' = bridge_inv s"
proof -
  assume e: "s_clients s' = s_clients s" "s_queue s' = s_queue s"
    "list_all2 (\<lambda>a b. c_decoder b = c_decoder a) (s_objs s) (s_objs s')"
  have "length (s_objs s') = length (s_objs s)" using e(3) list_all2_lengthD by fastforce
  moreover have "(\<forall>cl \<in> set (s_objs s'). decoder_ok cl) \<longleftrightarrow> (\<forall>cl \<in> set (s_objs s). decoder_ok cl)"
    using e(3) by (auto simp: decoder_ok_def list_all2_conv_all_nth all_set_conv_all_nth)
  ultimately show ?thesis by (simp add: bridge_inv_def e(1,2))
qed

lemma bridge_inv_sent: "only_sent s s' \<Longrightarrow> bridge_inv s' = bridge_inv s"
proof (rule bridge_inv_cong)
  assume o: "only_sent s s'"
  then show "s_clients s' = s_clients s" "s_queue s' = s_queue s" by (simp_all add: only_sent_def)
  show "list_all2 (\<lambda>a b. c_decoder b = c_decoder a) (s_objs s) (s_objs s')"
    using o unfolding only_sent_def by (auto elim!: list_all2_mono dest: sent_more_fields)
qed

lemma bridge_inv_sends [simp]:
  "bridge_inv (send_to P c ty sq payload s) = bridge_inv s" "bridge_inv (send_to_all P ty sq payload s) = bridge_inv s"
  by (simp_all add: bridge_inv_sent [OF only_sent_send] bridge_inv_sent [OF only_sent_all])

lemma bridge_inv_set_client:
  assumes "\<And>cl. c_decoder (f cl) = c_decoder cl"
  shows "bridge_inv (set_client c f s) = bridge_inv s"
proof (rule bridge_inv_cong)
  show "list_all2 (\<lambda>a b. c_decoder b = c_decoder a) (s_objs s) (s_objs (set_client c f s))"
  proof (rule list_all2_all_nthI)
    fix i
    assume "i < length (s_objs s)"
    then show "c_decoder (s_objs (set_client c f s) ! i) = c_decoder (s_objs s ! i)"
      by (cases "c = i") (simp_all add: set_client_def assms)
  qed simp
qed simp_all

lemma bridge_inv_fields [simp]:
  "bridge_inv (s\<lparr>s_host := b\<rparr>) = bridge_inv s" "bridge_inv (s\<lparr>s_reads := k\<rparr>) = bridge_inv s"
  "bridge_inv (s\<lparr>s_waiting := w\<rparr>) = bridge_inv s" "bridge_inv (s\<lparr>s_last_tx := t\<rparr>) = bridge_inv s"
  by (simp_all add: bridge_inv_def)

lemma erase_first_sub: "set (erase_first p xs) \<subseteq> set xs" "distinct xs \<Longrightarrow> distinct (erase_first p xs)"
  by (induction xs) auto

lemma bridge_inv_exit: "bridge_inv s \<Longrightarrow> bridge_inv (client_exit c s)"
proof -
  assume "bridge_inv s"
  then have i: "bridge_inv (set_client c (\<lambda>cl. cl\<lparr>c_fd := - 1, c_running := False, c_batch := []\<rparr>) s)"
    by (subst bridge_inv_set_client) simp_all
  show ?thesis using i erase_first_sub
    by (fastforce simp: client_exit_def remove_client_def bridge_inv_def)
qed

lemma bridge_inv_loop_test: "bridge_inv s \<Longrightarrow> bridge_inv (loop_test c s)"
  by (simp add: loop_test_def bridge_inv_exit)

lemma bridge_inv_now: "bridge_inv (snd (s_now P s)) = bridge_inv s"
  by (simp add: s_now_def)

lemma bridge_inv_recv:
  assumes "bridge_inv s"
  shows "bridge_inv (client_recv P c n data s)"
proof -
  obtain fs buf where d: "decoder_drain (decoder_append (c_decoder (client_of s c)) data) = (fs, buf)" by fastforce
  have ok: "length buf < 65540 \<and> decoder_next buf = (buf, None)"
    using decoder_drain_bound [of "decoder_append (c_decoder (client_of s c)) data"] by (simp add: d)
  let ?f = "\<lambda>cl. cl\<lparr>c_last_rx_ms := fst (s_now P s), c_decoder := buf, c_batch := estop_first fs\<rparr>"
  have "bridge_inv (snd (s_now P s))" using assms by (simp add: bridge_inv_now)
  then have "bridge_inv (set_client c ?f (snd (s_now P s)))"
    using ok set_update_subset_insert [of "s_objs s" c]
    by (fastforce simp: bridge_inv_def set_client_def decoder_ok_def)
  then show ?thesis using assms
    by (auto simp: client_recv_def d split_beta Let_def bridge_inv_exit bridge_inv_loop_test)
qed

lemma bridge_inv_accept: "bridge_inv s \<Longrightarrow> bridge_inv (accept_client P fd s)"
proof -
  assume "bridge_inv s"
  moreover have "decoder_ok (new_client fd t)" for t by (simp add: decoder_ok_def new_client_def decoder_next_def)
  ultimately have "bridge_inv (snd (s_now P s)\<lparr>s_objs := s_objs s @ [new_client fd (fst (s_now P s))],
      s_clients := s_clients s @ [length (s_objs s)]\<rparr>)"
    by (fastforce simp: bridge_inv_def s_now_def)
  then show ?thesis using \<open>bridge_inv s\<close>
    by (simp add: accept_client_def split_beta Let_def bridge_inv_loop_test)
qed

lemma bridge_inv_frame:
  assumes "bridge_inv s" and "c < length (s_objs s)"
  shows "bridge_inv (client_frame P C c s)"
proof (cases "c_batch (client_of s c)")
  case Nil
  with assms show ?thesis by (simp add: client_frame_def)
next
  case (Cons f fs)
  let ?s0 = "set_client c (\<lambda>cl. cl\<lparr>c_batch := fs\<rparr>) s"
  have i0: "bridge_inv ?s0" using assms(1) by (subst bridge_inv_set_client) simp_all
  have "bridge_inv (handle_hello P C c f ?s0)" "bridge_inv (handle_heartbeat P c f ?s0)"
    using i0 by (simp_all add: handle_hello_def handle_heartbeat_def call_state_def s_now_def split_beta Let_def
        bridge_inv_set_client)
  moreover have "bridge_inv (enqueue_cmd C c f (msg_type_name (ftype f)) ?s0)"
    using i0 assms(2) msg_type_name_estop [of "ftype f"]
    by (auto simp: enqueue_cmd_def bridge_inv_def)
  ultimately have "bridge_inv (handle_frame P C c f ?s0)" using i0 by (simp add: handle_frame_def)
  then show ?thesis
    by (simp add: client_frame_def Cons Let_def bridge_inv_loop_test bridge_inv_set_client)
qed

lemma bridge_inv_worker: "bridge_inv s \<Longrightarrow> bridge_inv (worker_step P C t s)"
proof (cases "s_waiting s")
  case (Some jw)
  then show "bridge_inv s \<Longrightarrow> ?thesis"
    by (auto simp: worker_step_def worker_poll_def split: prod.splits option.splits)
next
  case None
  assume i: "bridge_inv s"
  show ?thesis
  proof (cases "s_queue s")
    case Nil
    with i None show ?thesis by (simp add: worker_step_def worker_take_def)
  next
    case (Cons j js)
    then have "bridge_inv (s\<lparr>s_queue := js\<rparr>)" using i by (simp add: bridge_inv_def)
    with None Cons show ?thesis
      by (auto simp: worker_step_def worker_take_def Let_def split: prod.split sum.split)
  qed
qed

lemma bridge_inv_fold:
  "(\<And>c cl. c_decoder (g c cl) = c_decoder cl) \<Longrightarrow>
    bridge_inv (fold (\<lambda>c s'. if p c s' then set_client c (g c) s' else s') cs s) = bridge_inv s"
  by (induction cs arbitrary: s) (simp_all add: bridge_inv_set_client)

lemma bridge_inv_watchdog: "bridge_inv s \<Longrightarrow> bridge_inv (watchdog P s)"
  by (simp add: watchdog_def s_now_def split_beta Let_def bridge_inv_fold)

lemma bridge_inv_stop: "bridge_inv s \<Longrightarrow> bridge_inv (stop_begin s)" "bridge_inv s \<Longrightarrow> bridge_inv (stop_end s)"
  "bridge_inv s \<Longrightarrow> bridge_inv (snd (start_server k bd li port s))"
proof -
  assume "bridge_inv s"
  then have "bridge_inv (s\<lparr>s_running := False, s_listen_fd := - 1\<rparr>)" by (simp add: bridge_inv_def)
  then show "bridge_inv (stop_begin s)"
    using bridge_inv_fold [of "\<lambda>c cl. cl\<lparr>c_fd := - 1, c_shut := c_shut cl \<or> c_fd cl \<ge> 0\<rparr>" "\<lambda>_ _. True"]
    by (simp add: stop_begin_def)
qed (simp_all add: bridge_inv_def stop_end_def start_server_def)

lemma bridge_inv_step:
  assumes "bridge_inv s"
  shows "bridge_inv (bridge_step P s ev)"
proof -
  have "bridge_inv (ros_result P data s)" for data
    using assms by (simp add: ros_result_def complete_async_ack_def split: prod.split option.split)
  moreover have "bridge_inv (delta_timer_cb P s)"
    using assms by (simp add: delta_timer_cb_def broadcast_state_delta_def call_state_def split_beta Let_def)
  moreover have "bridge_inv (ros_state P data s)" for data
    using assms by (simp add: ros_state_def s_now_def)
  ultimately show ?thesis using assms
    by (cases ev) (simp_all add: bridge_step_def thread_of_def bridge_inv_recv bridge_inv_accept bridge_inv_frame
        bridge_inv_worker bridge_inv_watchdog bridge_inv_stop)
qed

abbreviation bridge_run :: "platform \<Rightarrow> (bridge, wait) server \<Rightarrow> bridge_event list \<Rightarrow> (bridge, wait) server option" where
  "bridge_run P \<equiv> run_steps (\<lambda>s e. Some (bridge_step P s e))"

interpretation bridge_runs: step_system "\<lambda>s e. Some (bridge_step P s e)" bridge_inv "\<lambda>_. True" for P
  by unfold_locales (simp add: bridge_inv_step)

lemma bridge_run_inv: "bridge_run P init_server es = Some s \<Longrightarrow> bridge_inv s"
  using bridge_runs.run_inv [OF init_bridge_inv, of es P] by (auto simp: list_all_iff)

text \<open>C17: After every run of the bridge, whatever its clients send and however its threads
  interleave: the vector of clients has no duplicates, the receive buffer of every client ever
  accepted holds less than one largest frame and no complete one, and the queue holds no emergency
  stop and only jobs of known clients.\<close>

theorem bridge_invariant:
  assumes "run_steps (\<lambda>s e. Some (bridge_step P s e)) init_server es = Some s"
  shows "distinct (s_clients s) \<and> (\<forall>c \<in> set (s_clients s). c < length (s_objs s)) \<and>
    (\<forall>cl \<in> set (s_objs s). length (c_decoder cl) < 65540 \<and> snd (decoder_next (c_decoder cl)) = None) \<and>
    (\<forall>j \<in> set (s_queue s). j_client j < length (s_objs s) \<and> j_cmd j \<noteq> ''CMD_ESTOP'')"
  using bridge_run_inv [OF assms] by (simp add: bridge_inv_def decoder_ok_def)

section \<open>What is published\<close>

lemma ros_cmds [simp]:
  "b_cmds (s_host (ros_state P data s)) = b_cmds (s_host s)"
  "b_cmds (s_host (ros_result P data s)) = b_cmds (s_host s)"
  "b_cmds (s_host (delta_timer_cb P s)) = b_cmds (s_host s)"
proof -
  show "b_cmds (s_host (ros_state P data s)) = b_cmds (s_host s)"
    by (simp add: ros_state_def on_robot_state_def split_beta Let_def)
  have "b_cmds (fst (on_cmd_result data b)) = b_cmds b" for b
    by (simp add: on_cmd_result_def Let_def split: option.split)
  from this [of "s_host s"] show "b_cmds (s_host (ros_result P data s)) = b_cmds (s_host s)"
    by (cases "on_cmd_result data (s_host s)")
      (auto simp: ros_result_def complete_async_ack_def split: option.split)
  show "b_cmds (s_host (delta_timer_cb P s)) = b_cmds (s_host s)"
    by (simp add: delta_timer_cb_def Let_def)
qed

lemma waits_only_if_admitted:
  assumes "handle_command clk k t cmd sq payload b = (Inr w, k', b')"
  shows "fst (robot_state_fresh clk k b)" and "\<not> (estop_guarded cmd payload \<and> get_bool (b_state_json b) ''estop'' = Some True)"
    and "w = \<lparr>w_seq = sq, w_cmd = cmd, w_deadline = t + ACK_TIMEOUT_MS\<rparr>"
    and "b' = publish_cmd_envelope cmd sq payload (b\<lparr>b_pending := (b_pending b)(sq \<mapsto> \<lparr>pc_done = False, pc_ack_json = []\<rparr>)\<rparr>)"
  using assms by (auto simp: handle_command_def split: prod.splits if_splits)

text \<open>C14: The bridge forwards a command to the robot for two reasons only. An emergency stop is
  forwarded by the step that handles its frame. Any other command is forwarded by the command
  worker, when its client is connected and has said hello, the robot state is fresh, and, for a
  task or a switch to AUTO, the last robot state does not report an emergency stop.\<close>

theorem forwards_only_admitted:
  assumes "bridge_inv s"
  shows "b_cmds (s_host (bridge_step P s ev)) = b_cmds (s_host s) \<or>
    (\<exists>c f fs. ev = Frame c \<and> c_batch (client_of s c) = f # fs \<and> ftype f = MSG_CMD_ESTOP \<and>
       b_cmds (s_host (bridge_step P s ev)) = b_cmds (s_host s) @ [envelope ''CMD_ESTOP'' (fseq f) (fpayload f)]) \<or>
    (\<exists>t j js. ev = Worker t \<and> s_queue s = j # js \<and> c_fd (client_of s (j_client j)) \<ge> 0 \<and>
       c_hello_ok (client_of s (j_client j)) \<and> fst (robot_state_fresh (p_clock P) (s_reads s) (s_host s)) \<and>
       \<not> (estop_guarded (j_cmd j) (j_payload j) \<and> get_bool (b_state_json (s_host s)) ''estop'' = Some True) \<and>
       b_cmds (s_host (bridge_step P s ev)) = b_cmds (s_host s) @ [envelope (j_cmd j) (j_seq j) (j_payload j)])"
proof (cases ev)
  case (Frame c)
  then show ?thesis
    using bridge_host.frame_publishes [of s c _ _ P] bridge_host.idle_frame [of s c P]
    by (cases "c_batch (client_of s c)") (auto simp: bridge_step_def)
next
  case (Worker t)
  have q: "\<forall>j \<in> set (s_queue s). j_cmd j \<noteq> ''CMD_ESTOP''" using assms by (simp add: bridge_inv_def)
  have st: "bridge_step P s ev = worker_step P node_callbacks t s" by (simp add: Worker bridge_step_def)
  from bridge_host.worker_publishes [where s = s and P = P and t = t, OF q] show ?thesis
  proof (elim disjE exE conjE)
    fix j js k' b' w
    assume a: "s_queue s = j # js" "0 \<le> c_fd (client_of s (j_client j))" "c_hello_ok (client_of s (j_client j))"
      "cb_cmd node_callbacks (p_clock P) (s_reads s) t (j_cmd j) (j_seq j) (j_payload j) (s_host s) = (Inr w, k', b')"
      "b_cmds (s_host (worker_step P node_callbacks t s)) = b_cmds (s_host s) @ [envelope (j_cmd j) (j_seq j) (j_payload j)]"
    from a(4) have "handle_command (p_clock P) (s_reads s) t (j_cmd j) (j_seq j) (j_payload j) (s_host s) = (Inr w, k', b')"
      by (simp add: node_callbacks_def)
    note waits_only_if_admitted(1,2) [OF this]
    with a(1-3,5) Worker show ?thesis unfolding st by blast
  qed (simp add: st)
qed (simp_all add: bridge_step_def)

section \<open>The batch and the emergency stop\<close>

text \<open>C34: One \<open>recv\<close> of any piece of a client's stream takes exactly the frames it completes, puts
  the emergency stops before everything else that arrived with them, keeps the order otherwise,
  and holds back the unfinished frame.\<close>

theorem recv_batches_estop_first:
  assumes "c < length (s_objs s)" and "data \<noteq> []" and "list_all frame_ok fs" and "fs \<noteq> []" and "frame_ok g"
    and "strict_prefix p (encode g)" and "c_decoder (client_of s c) @ data = concat (map encode fs) @ p"
  shows "let cl = client_of (client_recv P c (int (length data)) data s) c in
    c_batch cl = filter (\<lambda>f. ftype f = MSG_CMD_ESTOP) fs @ filter (\<lambda>f. ftype f \<noteq> MSG_CMD_ESTOP) fs \<and> c_decoder cl = p"
proof -
  have "decoder_drain (decoder_append (c_decoder (client_of s c)) data) = (fs, p)"
    using assms(2,7) bridge_codec.drain_stream [OF assms(3,5,6)] by (simp add: decoder_append_def)
  moreover have "c < length (s_objs (snd (s_now P s)))" using assms(1) by simp
  ultimately show ?thesis
    using assms(2,4) by (simp add: client_recv_def split_beta Let_def estop_first_eq)
qed

text \<open>C12: An emergency stop never waits. The step that handles its frame publishes it, whatever is
  queued, whatever the command worker waits for and even if the client never said hello; it
  queues nothing; and the next round of a wait in progress gives up, so the worker is free.\<close>

theorem estop_never_waits:
  assumes "thread_of c s" and "c_batch (client_of s c) = f # fs" and "ftype f = MSG_CMD_ESTOP"
    and "s_waiting s = Some (j, w)"
  shows "let s1 = bridge_step P s (Frame c); s2 = bridge_step P s1 (Worker t) in
    b_cmds (s_host s1) = b_cmds (s_host s) @ [envelope ''CMD_ESTOP'' (fseq f) (fpayload f)] \<and>
    s_queue s1 = s_queue s \<and> s_waiting s2 = None"
proof -
  define s1 where "s1 = bridge_step P s (Frame c)"
  have s1: "s1 = client_frame P node_callbacks c s" using assms(1) by (simp add: s1_def bridge_step_def)
  note e = client_frame_effect [OF assms(2), of P node_callbacks, folded s1]
  have w: "s_waiting s1 = Some (j, w)" using e(3) assms(4) by simp
  have "b_estop_raised (s_host s1)" using e(1) assms(3)
    by (simp add: node_callbacks_def urgent_estop_def publish_cmd_envelope_def)
  then have "fst (wait_round t w (s_host s1)) \<noteq> None" by (simp add: wait_round_def)
  then have "s_waiting (bridge_step P s1 (Worker t)) = None"
    by (auto simp: bridge_step_def worker_step_def worker_poll_def w node_callbacks_def split: prod.split)
  moreover have "b_cmds (s_host s1) = b_cmds (s_host s) @ [envelope ''CMD_ESTOP'' (fseq f) (fpayload f)]"
    using bridge_host.frame_publishes [OF assms(2), of P, folded s1] assms(3) by simp
  moreover have "s_queue s1 = s_queue s" using e(2) assms(3) by simp
  ultimately show ?thesis by (simp add: Let_def flip: s1_def)
qed

section \<open>The wait for a result\<close>

lemma other_steps_wait:
  "(\<forall>t. ev \<noteq> Worker t) \<Longrightarrow> s_waiting (bridge_step P s ev) = s_waiting s"
proof (cases ev)
  case (Frame c)
  then show ?thesis
    by (cases "c_batch (client_of s c)") (simp_all add: bridge_step_def client_frame_effect bridge_host.idle_frame)
next
  case (Cmd_Result data)
  then show ?thesis
    by (simp add: bridge_step_def ros_result_def complete_async_ack_def split: prod.split option.split)
qed (simp_all add: bridge_step_def ros_state_def delta_timer_cb_def Let_def split_beta)

lemma worker_keeps_waiting:
  "s_waiting s = Some (j, w) \<Longrightarrow> s_waiting (worker_step P C t s) \<in> {None, Some (j, w)}"
  by (auto simp: worker_step_def worker_poll_def split: prod.split option.split)

text \<open>A command that the worker waits for has an entry in the pending table, whatever happens meanwhile.\<close>

definition wait_inv :: "(bridge, wait) server \<Rightarrow> bool" where
  "wait_inv s \<longleftrightarrow> bridge_inv s \<and> (\<forall>j w. s_waiting s = Some (j, w) \<longrightarrow> j_client j < length (s_objs s) \<and>
     w_seq w = j_seq j \<and> w_cmd w = j_cmd j \<and> b_pending (s_host s) (j_seq j) \<noteq> None)"

lemma objs_grow: "length (s_objs s) \<le> length (s_objs (bridge_step P s e))"
proof -
  have exit: "length (s_objs (client_exit c s)) = length (s_objs s)" "length (s_objs (loop_test c s)) = length (s_objs s)" for c and s :: "(bridge, wait) server"
    by (simp_all add: loop_test_def client_exit_def remove_client_def)
  have fold: "length (s_objs (fold (\<lambda>c s'. if p c s' then set_client c (g c) s' else s') cs s)) = length (s_objs s)"
    for p g cs and s :: "(bridge, wait) server" by (induction cs arbitrary: s) simp_all
  have frame: "length (s_objs (client_frame P node_callbacks c s)) = length (s_objs s)" for c
    by (simp add: client_frame_def handle_frame_def handle_hello_def handle_heartbeat_def enqueue_cmd_def Let_def exit s_now_def
        split_beta split: list.split)
  show ?thesis
    using fold [of "\<lambda>_ _. True" "\<lambda>c cl. cl\<lparr>c_fd := - 1, c_shut := c_shut cl \<or> c_fd cl \<ge> 0\<rparr>"]
    by (cases e) (simp_all add: bridge_step_def start_server_def stop_begin_def stop_end_def accept_client_def client_recv_def
        worker_step_def worker_take_def worker_poll_def watchdog_def ros_state_def ros_result_def complete_async_ack_def
        delta_timer_cb_def broadcast_state_delta_def s_now_def exit fold frame split_beta Let_def
        split: list.split prod.split sum.split option.split)
qed

lemma wait_inv_start: "bridge_inv s \<Longrightarrow> s_waiting s = None \<Longrightarrow> wait_inv s"
  by (simp add: wait_inv_def)

text \<open>What the other threads do to the pending table: they add entries and fill them in.\<close>

lemma pending_kept:
  assumes "\<forall>t. e \<noteq> Worker t" and "b_pending (s_host s) sq \<noteq> None"
  shows "b_pending (s_host (bridge_step P s e)) sq \<noteq> None"
proof (cases e)
  case (Frame c)
  have "b_pending (s_host (client_frame P node_callbacks c s)) sq \<noteq> None"
  proof (cases "c_batch (client_of s c)")
    case (Cons f fs)
    then show ?thesis using assms(2)
      by (auto simp: client_frame_effect(1) node_callbacks_def urgent_estop_def publish_cmd_envelope_def)
  qed (use assms(2) in \<open>simp add: bridge_host.idle_frame\<close>)
  then show ?thesis using Frame assms(2) by (simp add: bridge_step_def)
next
  case (Cmd_Result d)
  then show ?thesis using assms(2)
    by (auto simp: bridge_step_def ros_result_def on_cmd_result_def complete_async_ack_def Let_def split: prod.splits option.splits)
qed (use assms in \<open>simp_all add: bridge_step_def start_server_def ros_state_def on_robot_state_def delta_timer_cb_def Let_def split_beta\<close>)

lemma wait_inv_step:
  assumes "wait_inv s"
  shows "wait_inv (bridge_step P s e)"
proof -
  have inv: "bridge_inv s" using assms by (simp add: wait_inv_def)
  have "j_client j < length (s_objs (bridge_step P s e)) \<and> w_seq w = j_seq j \<and> w_cmd w = j_cmd j \<and>
      b_pending (s_host (bridge_step P s e)) (j_seq j) \<noteq> None"
    if w: "s_waiting (bridge_step P s e) = Some (j, w)" for j w
  proof (cases "s_waiting s = Some (j, w)")
    case True
    then have old: "j_client j < length (s_objs s)" "w_seq w = j_seq j" "w_cmd w = j_cmd j" "b_pending (s_host s) (j_seq j) \<noteq> None"
      using assms by (simp_all add: wait_inv_def)
    have "b_pending (s_host (bridge_step P s e)) (j_seq j) \<noteq> None"
    proof (cases "\<exists>t. e = Worker t")
      case work: True
      then show ?thesis using True w old(4)
        by (auto simp: bridge_step_def worker_step_def worker_poll_def node_callbacks_def wait_round_def split: prod.splits option.splits if_splits)
    qed (use pending_kept old(4) in blast)
    with old objs_grow [of s P e] show ?thesis by simp
  next
    case False
    then obtain t where e: "e = Worker t" using other_steps_wait [of e P s] w by auto
    have "s_waiting s = None"
    proof (rule ccontr)
      assume "s_waiting s \<noteq> None"
      then obtain i v where "s_waiting s = Some (i, v)" by auto
      with worker_keeps_waiting [OF this, of P node_callbacks t] False w e show False by (simp add: bridge_step_def)
    qed
    with e w obtain js k b where q: "s_queue s = j # js" and
      h: "handle_command (p_clock P) (s_reads s) t (j_cmd j) (j_seq j) (j_payload j) (s_host s) = (Inr w, k, b)" and
      st: "s_host (bridge_step P s e) = b"
      by (auto simp: bridge_step_def worker_step_def worker_take_def node_callbacks_def Let_def
          split: list.splits if_splits prod.splits sum.splits)
    have "j_client j < length (s_objs s)" using inv q by (simp add: bridge_inv_def)
    then show ?thesis using waits_only_if_admitted(3,4) [OF h] objs_grow [of s P e] st
      by (simp add: publish_cmd_envelope_def)
  qed
  then show ?thesis using bridge_inv_step [OF inv] by (simp add: wait_inv_def)
qed

interpretation wait_runs: step_system "\<lambda>s e. Some (bridge_step P s e)" wait_inv "\<lambda>_. True" for P
  by unfold_locales (simp add: wait_inv_step)

lemma wait_run: "wait_inv s \<Longrightarrow> run_steps (\<lambda>s e. Some (bridge_step P s e)) s es = Some s' \<Longrightarrow> wait_inv s'"
  using wait_runs.run_inv [of s es P] by (auto simp: list_all_iff)


text \<open>C28: The command worker never waits for ever: as soon as it gets the processor once at or after
  the deadline, two seconds after the command was sent, the wait is over, whatever the other
  threads, the robot and the clients do in between.\<close>

theorem wait_is_bounded:
  assumes "s_waiting s = Some (j, w)" and "Worker t \<in> set es" and "w_deadline w \<le> t"
  shows "\<exists>es1 es2 s1. es = es1 @ es2 \<and> es1 \<noteq> [] \<and>
    run_steps (\<lambda>s e. Some (bridge_step P s e)) s es1 = Some s1 \<and> s_waiting s1 = None"
  using assms(1,2)
proof (induction es arbitrary: s)
  case (Cons e es)
  show ?case
  proof (cases "s_waiting (bridge_step P s e) = None")
    case True
    then show ?thesis by (intro exI [of _ "[e]"] exI [of _ es]) simp
  next
    case False
    have w: "s_waiting (bridge_step P s e) = Some (j, w)"
    proof (cases "\<exists>t. e = Worker t")
      case True
      then obtain t' where "e = Worker t'" by blast
      with False worker_keeps_waiting [OF Cons.prems(1), of P node_callbacks t'] show ?thesis
        by (auto simp: bridge_step_def)
    qed (use Cons.prems(1) other_steps_wait in auto)
    moreover have "e \<noteq> Worker t"
      using False bridge_host.wait_ends(1) [OF Cons.prems(1) assms(3)] by (auto simp: bridge_step_def)
    ultimately obtain es1 es2 s1 where "es = es1 @ es2"
      "run_steps (\<lambda>s e. Some (bridge_step P s e)) (bridge_step P s e) es1 = Some s1" "s_waiting s1 = None"
      using Cons.IH [OF w] Cons.prems(2) by auto
    then show ?thesis by (intro exI [of _ "e # es1"] exI [of _ es2] exI [of _ s1]) simp
  qed
qed simp

section \<open>A lost emergency stop result\<close>

text \<open>C35: Once the flag of the emergency stop is up it turns every later command into a wrong answer:
  the worker forwards the command to the robot and then, at its first round, tells the client
  REJECTED with reason \<open>estop_active\<close>, even when the robot's own result has arrived by then. Only the
  result of the emergency stop itself takes the flag down; when that is lost, the reset that would
  release the robot is also answered with a rejection.\<close>

theorem raised_flag_misreports:
  assumes "b_estop_raised (s_host s)" and "s_waiting s = None" and "s_queue s = j # js"
    and "c_fd (client_of s (j_client j)) \<ge> 0" and "c_hello_ok (client_of s (j_client j))"
    and "j_cmd j = ''CMD_RESET''" and "fst (robot_state_fresh (p_clock P) (s_reads s) (s_host s))"
    and "s1 = bridge_step P s (Worker t)" and "s2 = bridge_step P s1 (Cmd_Result data)"
    and "b_estop_raised (s_host s2)" and "t' < t + ACK_TIMEOUT_MS"
  shows "b_cmds (s_host s1) = b_cmds (s_host s) @ [envelope ''CMD_RESET'' (j_seq j) (j_payload j)] \<and>
    (\<exists>s3. bridge_step P s2 (Worker t') =
       send_to P (j_client j) MSG_CMD_ACK (j_seq j) (rejection (j_seq j) ''CMD_RESET'' ''estop_active'') s3)"
proof -
  obtain k1 where fr: "robot_state_fresh (p_clock P) (s_reads s) (s_host s) = (True, k1)"
    using assms(7) by (metis prod.collapse)
  define b1 where "b1 = publish_cmd_envelope ''CMD_RESET'' (j_seq j) (j_payload j)
    ((s_host s)\<lparr>b_pending := (b_pending (s_host s))(j_seq j \<mapsto> \<lparr>pc_done = False, pc_ack_json = []\<rparr>)\<rparr>)"
  define w where "w = \<lparr>w_seq = j_seq j, w_cmd = ''CMD_RESET'', w_deadline = t + ACK_TIMEOUT_MS\<rparr>"
  have h: "handle_command (p_clock P) (s_reads s) t (j_cmd j) (j_seq j) (j_payload j) (s_host s) = (Inr w, k1, b1)"
    by (simp add: handle_command_def fr assms(6) estop_guarded_def b1_def w_def)
  have "client_of (s\<lparr>s_queue := js\<rparr>) i = client_of s i" for i by (simp add: client_of_def)
  then have s1: "s1 = s\<lparr>s_queue := js, s_reads := k1, s_host := b1, s_waiting := Some (j, w)\<rparr>"
    using assms(2-5,8) h by (simp add: bridge_step_def worker_step_def worker_take_def node_callbacks_def)
  have w2: "s_waiting s2 = Some (j, w)" using assms(9) other_steps_wait [of "Cmd_Result data" P s1] by (simp add: s1)
  have "wait_round t' w (s_host s2) =
      (Some (rejection (j_seq j) ''CMD_RESET'' ''estop_active''), forget (j_seq j) (s_host s2))"
    using assms(10,11) by (simp add: wait_round_def w_def)
  then have "bridge_step P s2 (Worker t') = send_to P (j_client j) MSG_CMD_ACK (j_seq j)
      (rejection (j_seq j) ''CMD_RESET'' ''estop_active'') (s2\<lparr>s_host := forget (j_seq j) (s_host s2), s_waiting := None\<rparr>)"
    by (simp add: bridge_step_def worker_step_def worker_poll_def w2 node_callbacks_def)
  moreover have "b_cmds (s_host s1) = b_cmds (s_host s) @ [envelope ''CMD_RESET'' (j_seq j) (j_payload j)]"
    by (simp add: s1 b1_def publish_cmd_envelope_def)
  ultimately show ?thesis by blast
qed

section \<open>Witnesses\<close>

definition demo_platform :: platform where
  "demo_platform = \<lparr>p_clock = (\<lambda>k. 100000), p_send = (\<lambda>k n. int n)\<rparr>"

definition demo_frame :: "u8 \<Rightarrow> u16 \<Rightarrow> frame" where
  "demo_frame ty sq = \<lparr>ftype = ty, fflags = 1, fseq = sq, fpayload = ''{}''\<rparr>"

definition demo_bridge :: "frame list \<Rightarrow> (bridge, wait) server" where
  "demo_bridge fs = init_server\<lparr>s_running := True, s_clients := [0],
     s_objs := [(new_client 5 99000)\<lparr>c_hello_ok := True, c_batch := fs\<rparr>],
     s_queue := [\<lparr>j_client = 0, j_seq = 9, j_cmd = ''CMD_RESET'', j_payload = ''{}''\<rparr>],
     s_host := init_bridge\<lparr>b_last_state_ms := 99500, b_estop_raised := True\<rparr>\<rparr>"

lemma demo_bridge_inv: "bridge_inv (demo_bridge fs)"
  by (simp add: bridge_inv_def demo_bridge_def decoder_ok_def new_client_def decoder_next_def)

theorem bridge_invariant_witness:
  "distinct (s_clients (bridge_step demo_platform init_server (Start 3 True True 8765)))"
  using bridge_invariant [of demo_platform "[Start 3 True True 8765]"] by simp

theorem forwards_only_admitted_witness:
  "\<exists>j. s_queue (demo_bridge []) = [j] \<and> c_hello_ok (client_of (demo_bridge []) (j_client j)) \<and>
     fst (robot_state_fresh (p_clock demo_platform) (s_reads (demo_bridge [])) (s_host (demo_bridge []))) \<and>
     b_cmds (s_host (bridge_step demo_platform (demo_bridge []) (Worker 0))) =
       b_cmds (s_host (demo_bridge [])) @ [envelope (j_cmd j) (j_seq j) (j_payload j)]"
proof -
  have "b_cmds (s_host (bridge_step demo_platform (demo_bridge []) (Worker 0))) \<noteq> b_cmds (s_host (demo_bridge []))"
    by (simp add: bridge_step_def worker_step_def worker_take_def demo_bridge_def Let_def init_server_def client_of_def new_client_def
        node_callbacks_def handle_command_def robot_state_fresh_def demo_platform_def HB_TIMEOUT_MS_def estop_guarded_def
        publish_cmd_envelope_def)
  moreover have "s_queue (demo_bridge []) = [\<lparr>j_client = 0, j_seq = 9, j_cmd = ''CMD_RESET'', j_payload = ''{}''\<rparr>]"
    by (simp add: demo_bridge_def)
  ultimately show ?thesis using forwards_only_admitted [OF demo_bridge_inv, of demo_platform "[]" "Worker 0"] by auto
qed

theorem recv_batches_estop_first_witness:
  "c_batch (client_of (client_recv demo_platform 0
      (int (length (encode (demo_frame MSG_CMD_MODE 1) @ encode (demo_frame MSG_CMD_ESTOP 2))))
      (encode (demo_frame MSG_CMD_MODE 1) @ encode (demo_frame MSG_CMD_ESTOP 2)) (demo_bridge [])) 0) =
    [demo_frame MSG_CMD_ESTOP 2, demo_frame MSG_CMD_MODE 1]"
proof -
  define a where "a = demo_frame MSG_CMD_MODE 1"
  define b where "b = demo_frame MSG_CMD_ESTOP 2"
  have "ftype a \<noteq> MSG_CMD_ESTOP" "ftype b = MSG_CMD_ESTOP" "frame_ok a" "frame_ok b"
    by (simp_all add: a_def b_def demo_frame_def msg_defs frame_ok_def)
  moreover have "encode a \<noteq> []" by (rule bridge_codec.enc_nonempty)
  moreover from this have "strict_prefix [] (encode a)" by (simp add: strict_prefix_def)
  moreover have "0 < length (s_objs (demo_bridge []))" "c_decoder (client_of (demo_bridge []) 0) = []"
    by (simp_all add: demo_bridge_def client_of_def new_client_def)
  ultimately show ?thesis
    unfolding a_def [symmetric] b_def [symmetric]
    using recv_batches_estop_first [of 0 "demo_bridge []" "encode a @ encode b" "[a, b]" a "[]" demo_platform]
    by (simp add: Let_def)
qed

theorem estop_never_waits_witness:
  "s_waiting (bridge_step demo_platform (bridge_step demo_platform
     (demo_bridge [demo_frame MSG_CMD_ESTOP 2]\<lparr>s_waiting := Some (\<lparr>j_client = 0, j_seq = 1, j_cmd = ''CMD_MODE'', j_payload = []\<rparr>,
        \<lparr>w_seq = 1, w_cmd = ''CMD_MODE'', w_deadline = 2000\<rparr>)\<rparr>) (Frame 0)) (Worker 10)) = None"
proof -
  let ?j = "\<lparr>j_client = 0, j_seq = 1, j_cmd = ''CMD_MODE'', j_payload = []\<rparr>"
  let ?w = "\<lparr>w_seq = 1, w_cmd = ''CMD_MODE'', w_deadline = 2000\<rparr>"
  let ?s = "demo_bridge [demo_frame MSG_CMD_ESTOP 2]\<lparr>s_waiting := Some (?j, ?w)\<rparr>"
  have "thread_of 0 ?s" "c_batch (client_of ?s 0) = demo_frame MSG_CMD_ESTOP 2 # []"
    "ftype (demo_frame MSG_CMD_ESTOP 2) = MSG_CMD_ESTOP" "s_waiting ?s = Some (?j, ?w)"
    by (simp_all add: thread_of_def demo_bridge_def client_of_def new_client_def demo_frame_def)
  from estop_never_waits [OF this, of demo_platform 10] show ?thesis by (simp add: Let_def)
qed

theorem wait_is_bounded_witness:
  "\<exists>es1 es2 s1. [Watchdog, Worker 2000] = es1 @ es2 \<and> es1 \<noteq> [] \<and>
    run_steps (\<lambda>s e. Some (bridge_step demo_platform s e))
      (demo_bridge []\<lparr>s_waiting := Some (\<lparr>j_client = 0, j_seq = 1, j_cmd = ''CMD_MODE'', j_payload = []\<rparr>,
        \<lparr>w_seq = 1, w_cmd = ''CMD_MODE'', w_deadline = 2000\<rparr>)\<rparr>) es1 = Some s1 \<and> s_waiting s1 = None"
  by (rule wait_is_bounded [where t = 2000], simp, simp, simp)

theorem raised_flag_misreports_witness:
  "\<exists>s3. bridge_step demo_platform (bridge_step demo_platform (bridge_step demo_platform (demo_bridge []) (Worker 0)) (Cmd_Result [])) (Worker 30) =
     send_to demo_platform 0 MSG_CMD_ACK 9 (rejection 9 ''CMD_RESET'' ''estop_active'') s3"
proof -
  define s1 where "s1 = bridge_step demo_platform (demo_bridge []) (Worker 0)"
  define s2 where "s2 = bridge_step demo_platform s1 (Cmd_Result [])"
  have "on_cmd_result [] b = (b, None)" for b
    by (simp add: on_cmd_result_def get_int_def find_key_value.simps)
  then have "b_estop_raised (s_host s2)"
    by (simp add: s2_def s1_def bridge_step_def ros_result_def worker_step_def worker_take_def demo_bridge_def Let_def
        init_server_def client_of_def new_client_def node_callbacks_def handle_command_def robot_state_fresh_def
        demo_platform_def HB_TIMEOUT_MS_def estop_guarded_def publish_cmd_envelope_def)
  from raised_flag_misreports [OF _ _ _ _ _ _ _ s1_def s2_def this, of "\<lparr>j_client = 0, j_seq = 9, j_cmd = ''CMD_RESET'', j_payload = ''{}''\<rparr>" "[]" 30]
  show ?thesis
    by (simp add: s2_def s1_def) (simp add: demo_bridge_def init_server_def client_of_def new_client_def
        robot_state_fresh_def demo_platform_def HB_TIMEOUT_MS_def ACK_TIMEOUT_MS_def)
qed

end
