(* ===== verification/Nav_Grid.thy ===== *)
theory Nav_Grid
  imports Prelude Ieee_Float
begin

text \<open>
  The occupancy grid of \<open>sim/include/botcockpit_sim/nav.hpp\<close>: \<open>GridMap\<close> with its
  bounds-checked \<open>set\<close> and \<open>at\<close>, the demo corridor, the conversions between world
  coordinates and cells, \<open>inflate\<close> and \<open>is_free\<close>. Cells are C++ \<open>int\<close>s, read
  as integers: a grid of the program has 40 by 20 cells and no index leaves that range.
  The vector \<open>occ\<close> is accessed unchecked, so a grid is only used where
  \<open>grid_ok\<close> holds; the lemmas show that every grid the program builds is one, that
  \<open>set\<close> and \<open>at\<close> then stay inside the vector, and what each cell of an
  inflated grid holds.
\<close>

record gridmap =
  width :: int
  height :: int
  resolution :: double
  origin_x :: double
  origin_y :: double
  occ :: "u8 list"

definition D :: "nat \<Rightarrow> nat \<Rightarrow> double" where
  "D n d = fp_lit binary64 n d"

lemma D_round: "round_mag binary64 n d 0 = k \<Longrightarrow> D n d = Fp False k"
  by (simp add: D_def fp_lit_def)

lemma D_values_1:
  "D 0 1 = Fp False 0" "D 1 1 = Fp False 4607182418800017408" "D 2 1 = Fp False 4611686018427387904"
  "D 9 10 = Fp False 4606281698874543309" "D 7 10 = Fp False 4604480259023595110"
  "D 6 10 = Fp False 4603579539098121011" "D 5 10 = Fp False 4602678819172646912"
  "D 4 10 = Fp False 4600877379321698714" "D 28 100 = Fp False 4598715651500560876"
  "D 12 100 = Fp False 4593311331947716280" "D 10 100 = Fp False 4591870180066957722"
  "D 5 100 = Fp False 4587366580439587226"
  by (rule D_round, simp)
    (rule D_round, (subst round_mag_eval [OF _ refl refl refl refl refl]; simp add: ratio_log_def nbits_eval))+

text \<open>The same with the numeral \<open>1\<close> as the simplifier writes it.\<close>

lemmas D_values = D_values_1 D_values_1(1-2) [unfolded One_nat_def]

definition default_grid :: gridmap where
  "default_grid = \<lparr>width = 40, height = 20, resolution = D 5 10,
     origin_x = D 0 1, origin_y = fp_neg (D 5 1), occ = []\<rparr>"

definition cell_index :: "gridmap \<Rightarrow> int \<Rightarrow> int \<Rightarrow> nat" where
  "cell_index m x y = nat (y * width m + x)"

definition outside :: "gridmap \<Rightarrow> int \<Rightarrow> int \<Rightarrow> bool" where
  "outside m x y \<longleftrightarrow> x < 0 \<or> y < 0 \<or> x \<ge> width m \<or> y \<ge> height m"

definition grid_set :: "gridmap \<Rightarrow> int \<Rightarrow> int \<Rightarrow> u8 \<Rightarrow> gridmap" where
  "grid_set m x y v =
     (if outside m x y then m else m\<lparr>occ := (occ m)[cell_index m x y := v]\<rparr>)"

definition grid_at :: "gridmap \<Rightarrow> int \<Rightarrow> int \<Rightarrow> u8" where
  "grid_at m x y = (if outside m x y then 1 else occ m ! cell_index m x y)"

text \<open>\<open>for (int i = lo; i <= hi; ++i) body(i);\<close>\<close>

definition for_range :: "int \<Rightarrow> int \<Rightarrow> (int \<Rightarrow> 'a \<Rightarrow> 'a) \<Rightarrow> 'a \<Rightarrow> 'a" where
  "for_range lo hi body s = fold body [lo..hi] s"

definition make_corridor_demo :: gridmap where
  "make_corridor_demo =
     (let m0 = default_grid\<lparr>occ := replicate (nat (40 * 20)) 0\<rparr>;
          w = width m0; h = height m0;
          m1 = for_range 0 (w - 1) (\<lambda>x m. grid_set (grid_set m x 0 1) x (h - 1) 1) m0;
          m2 = for_range 0 (h - 1) (\<lambda>y m. grid_set (grid_set m 0 y 1) (w - 1) y 1) m1;
          m3 = for_range 2 (h - 3)
                 (\<lambda>y m. if y \<ge> 7 \<and> y \<le> 11 then m else grid_set m 20 y 1) m2
      in grid_set (grid_set m3 5 4 1) 6 4 1)"

definition world_to_cell :: "gridmap \<Rightarrow> double \<Rightarrow> double \<Rightarrow> bool \<times> int \<times> int" where
  "world_to_cell m wx wy =
     (let cx = fp_to_int32 binary64 (fp_floor binary64
                 (fp_div binary64 (fp_sub binary64 wx (origin_x m)) (resolution m)));
          cy = fp_to_int32 binary64 (fp_floor binary64
                 (fp_div binary64 (fp_sub binary64 wy (origin_y m)) (resolution m)))
      in (cx \<ge> 0 \<and> cy \<ge> 0 \<and> cx < width m \<and> cy < height m, cx, cy))"

definition cell_to_world :: "gridmap \<Rightarrow> int \<Rightarrow> int \<Rightarrow> double \<times> double" where
  "cell_to_world m cx cy =
     (fp_add binary64 (origin_x m)
        (fp_mul binary64 (fp_add binary64 (fp_of_int binary64 cx) (D 5 10)) (resolution m)),
      fp_add binary64 (origin_y m)
        (fp_mul binary64 (fp_add binary64 (fp_of_int binary64 cy) (D 5 10)) (resolution m)))"

text \<open>One occupied cell of the source grid is spread over its disc.\<close>

definition stamp :: "int \<Rightarrow> int \<Rightarrow> int \<Rightarrow> gridmap \<Rightarrow> gridmap" where
  "stamp r x y m =
     for_range (- r) r (\<lambda>dy. for_range (- r) r (\<lambda>dx m.
       if dx * dx + dy * dy \<le> r * r then grid_set m (x + dx) (y + dy) 1 else m)) m"

definition inflate :: "gridmap \<Rightarrow> int \<Rightarrow> gridmap" where
  "inflate m r =
     (if r \<le> 0 then m
      else let src = occ m in
        for_range 0 (height m - 1) (\<lambda>y. for_range 0 (width m - 1) (\<lambda>x m'.
          if src ! cell_index m x y = 0 then m' else stamp r x y m')) m)"

definition is_free :: "gridmap \<Rightarrow> double \<Rightarrow> double \<Rightarrow> bool" where
  "is_free m wx wy =
     (case world_to_cell m wx wy of (ok, cx, cy) \<Rightarrow> ok \<and> grid_at m cx cy = 0)"

section \<open>Well-formed grids\<close>

definition grid_ok :: "gridmap \<Rightarrow> bool" where
  "grid_ok m \<longleftrightarrow> 0 < width m \<and> 0 < height m \<and> length (occ m) = nat (width m * height m)"

text \<open>Two grids that differ only in the cells.\<close>

definition same_shape :: "gridmap \<Rightarrow> gridmap \<Rightarrow> bool" where
  "same_shape m m' \<longleftrightarrow> width m' = width m \<and> height m' = height m \<and>
     resolution m' = resolution m \<and> origin_x m' = origin_x m \<and> origin_y m' = origin_y m \<and>
     length (occ m') = length (occ m)"

lemma same_shape_refl [simp]: "same_shape m m"
  by (simp add: same_shape_def)

lemma same_shape_trans [trans]: "same_shape a b \<Longrightarrow> same_shape b c \<Longrightarrow> same_shape a c"
  by (simp add: same_shape_def)

lemma same_shape_set [simp]: "same_shape m (grid_set m x y v)"
  by (simp add: same_shape_def grid_set_def)

lemma same_shape_ok: "same_shape m m' \<Longrightarrow> grid_ok m \<Longrightarrow> grid_ok m'"
  by (simp add: same_shape_def grid_ok_def)

lemma same_shape_outside: "same_shape m m' \<Longrightarrow> outside m' x y = outside m x y"
  by (simp add: same_shape_def outside_def)

lemma cell_index_bound:
  assumes "grid_ok m" and "\<not> outside m x y"
  shows "cell_index m x y < length (occ m)"
proof -
  have "y * width m + x < y * width m + width m" using assms(2) by (simp add: outside_def)
  also have "\<dots> = (y + 1) * width m" by (simp add: algebra_simps)
  also have "\<dots> \<le> height m * width m"
    using assms by (intro mult_right_mono) (simp_all add: outside_def grid_ok_def)
  finally show ?thesis
    using assms by (simp add: cell_index_def grid_ok_def outside_def mult.commute nat_less_eq_zless)
qed

lemma cell_index_inj:
  assumes "\<not> outside m x y" and "\<not> outside m x' y'" and "cell_index m x y = cell_index m x' y'"
  shows "x = x' \<and> y = y'"
proof -
  have "0 \<le> y * width m + x" "0 \<le> y' * width m + x'"
    using assms(1,2) by (simp_all add: outside_def)
  with assms(3) have e: "y * width m + x = y' * width m + x'"
    by (simp add: cell_index_def)
  have "(y * width m + x) div width m = y" "(y' * width m + x') div width m = y'"
    using assms(1,2) by (simp_all add: outside_def div_add1_eq)
  with e show ?thesis by simp
qed

lemma grid_at_set [grid_simps]:
  assumes "grid_ok m"
  shows "grid_at (grid_set m x y v) x' y' =
    (if x' = x \<and> y' = y \<and> \<not> outside m x y then v else grid_at m x' y')"
proof (cases "outside m x y \<or> outside m x' y'")
  case True
  then show ?thesis by (auto simp: grid_set_def grid_at_def outside_def cell_index_def)
next
  case False
  have i: "cell_index (m\<lparr>occ := z\<rparr>) a b = cell_index m a b" for z a b
    by (simp add: cell_index_def)
  have o: "outside (m\<lparr>occ := z\<rparr>) a b = outside m a b" for z a b
    by (simp add: outside_def)
  show ?thesis
    using False cell_index_bound [OF assms, of x y] cell_index_inj [of m x y x' y']
    by (auto simp: grid_set_def grid_at_def i o nth_list_update)
qed

section \<open>Loops that write cells\<close>

text \<open>
  A loop whose body marks, in iteration \<open>i\<close>, the cells \<open>hit i\<close> and nothing else
  marks all of them and keeps every other cell.
\<close>

definition marks :: "gridmap \<Rightarrow> (gridmap \<Rightarrow> gridmap) \<Rightarrow> (int \<Rightarrow> int \<Rightarrow> bool) \<Rightarrow> bool" where
  "marks m0 body hit \<longleftrightarrow> (\<forall>m x y. same_shape m0 m \<longrightarrow> same_shape m0 (body m) \<and>
     (grid_at (body m) x y = 0 \<longleftrightarrow> grid_at m x y = 0 \<and> \<not> hit x y))"

lemma marks_id: "marks m0 (\<lambda>m. m) (\<lambda>_ _. False)"
  by (simp add: marks_def)

lemma marks_set:
  assumes "grid_ok m0" and "v \<noteq> 0"
  shows "marks m0 (\<lambda>m. grid_set m a b v) (\<lambda>x y. x = a \<and> y = b \<and> \<not> outside m0 a b)"
  unfolding marks_def
proof (intro allI impI conjI)
  fix m x y
  assume s: "same_shape m0 m"
  show "same_shape m0 (grid_set m a b v)" using s same_shape_set by (rule same_shape_trans)
  show "(grid_at (grid_set m a b v) x y = 0) =
      (grid_at m x y = 0 \<and> \<not> (x = a \<and> y = b \<and> \<not> outside m0 a b))"
    using assms same_shape_ok [OF s assms(1)] same_shape_outside [OF s, of a b]
    by (auto simp: grid_at_set)
qed

lemma marks_comp:
  "marks m0 f h1 \<Longrightarrow> marks m0 g h2 \<Longrightarrow> marks m0 (\<lambda>m. g (f m)) (\<lambda>x y. h1 x y \<or> h2 x y)"
  unfolding marks_def by (auto simp: Let_def)

lemma marks_if:
  "marks m0 f h1 \<Longrightarrow> marks m0 g h2 \<Longrightarrow>
   marks m0 (\<lambda>m. if c then f m else g m) (\<lambda>x y. if c then h1 x y else h2 x y)"
  by (simp add: marks_def)

lemma marks_fold:
  "(\<And>i. i \<in> set is \<Longrightarrow> marks m0 (body i) (hit i)) \<Longrightarrow>
   marks m0 (fold body is) (\<lambda>x y. \<exists>i \<in> set is. hit i x y)"
proof (induction "is")
  case Nil
  then show ?case by (simp add: marks_def)
next
  case (Cons i "is")
  have "marks m0 (\<lambda>m. fold body is (body i m)) (\<lambda>x y. hit i x y \<or> (\<exists>j \<in> set is. hit j x y))"
    using Cons by (intro marks_comp) simp_all
  then show ?case by (simp add: comp_def)
qed

lemma marks_for_range:
  "(\<And>i. lo \<le> i \<Longrightarrow> i \<le> hi \<Longrightarrow> marks m0 (body i) (hit i)) \<Longrightarrow>
   marks m0 (for_range lo hi body) (\<lambda>x y. \<exists>i. lo \<le> i \<and> i \<le> hi \<and> hit i x y)"
  using marks_fold [of "[lo..hi]" m0 body hit] by (simp add: for_range_def [abs_def] Bex_def conj_assoc)

lemma marks_at: "marks m0 body hit \<Longrightarrow> grid_at (body m0) x y = 0 \<longleftrightarrow> grid_at m0 x y = 0 \<and> \<not> hit x y"
  by (simp add: marks_def)

lemma marks_shape: "marks m0 body hit \<Longrightarrow> same_shape m0 (body m0)"
  by (simp add: marks_def)

section \<open>What inflation marks\<close>

lemma marks_stamp:
  assumes "grid_ok m0"
  shows "marks m0 (stamp r a b)
    (\<lambda>x y. (x - a)\<^sup>2 + (y - b)\<^sup>2 \<le> r * r \<and> \<bar>x - a\<bar> \<le> r \<and> \<bar>y - b\<bar> \<le> r \<and> \<not> outside m0 x y)"
proof -
  have "marks m0 (stamp r a b)
    (\<lambda>x y. \<exists>dy. - r \<le> dy \<and> dy \<le> r \<and> (\<exists>dx. - r \<le> dx \<and> dx \<le> r \<and>
      (if dx * dx + dy * dy \<le> r * r then x = a + dx \<and> y = b + dy \<and> \<not> outside m0 (a + dx) (b + dy)
       else False)))"
    unfolding stamp_def [abs_def]
    by (intro marks_for_range marks_if marks_set marks_id assms) simp
  moreover have "(\<exists>dy. - r \<le> dy \<and> dy \<le> r \<and> (\<exists>dx. - r \<le> dx \<and> dx \<le> r \<and>
      (if dx * dx + dy * dy \<le> r * r then x = a + dx \<and> y = b + dy \<and> \<not> outside m0 (a + dx) (b + dy)
       else False))) \<longleftrightarrow>
     (x - a)\<^sup>2 + (y - b)\<^sup>2 \<le> r * r \<and> \<bar>x - a\<bar> \<le> r \<and> \<bar>y - b\<bar> \<le> r \<and> \<not> outside m0 x y"
    (is "?L \<longleftrightarrow> ?R") for x y
  proof
    assume ?L
    then show ?R by (auto simp: power2_eq_square split: if_splits)
  next
    assume R: ?R
    then have "- r \<le> y - b" "y - b \<le> r" "- r \<le> x - a" "x - a \<le> r"
      "(x - a) * (x - a) + (y - b) * (y - b) \<le> r * r" "\<not> outside m0 x y"
      by (auto simp: power2_eq_square)
    then show ?L
      by (intro exI [of _ "y - b"] exI [of _ "x - a"] conjI) simp_all
  qed
  ultimately show ?thesis by simp
qed

text \<open>A square within \<open>r * r\<close> has its root within \<open>r\<close>.\<close>

lemma abs_le_of_squares: "0 \<le> r \<Longrightarrow> (a :: int)\<^sup>2 + b\<^sup>2 \<le> r * r \<Longrightarrow> \<bar>a\<bar> \<le> r \<and> \<bar>b\<bar> \<le> r"
proof -
  assume r: "0 \<le> r" and s: "a\<^sup>2 + b\<^sup>2 \<le> r * r"
  have "0 \<le> a\<^sup>2" "0 \<le> b\<^sup>2" by simp_all
  with s have "a\<^sup>2 \<le> r\<^sup>2" "b\<^sup>2 \<le> r\<^sup>2" unfolding power2_eq_square [of r] by linarith+
  with r show ?thesis by (simp add: abs_le_square_iff [symmetric])
qed

lemma inflate_shape_and_cells:
  assumes ok: "grid_ok m" and r: "0 \<le> r"
  shows "same_shape m (inflate m r) \<and>
    (grid_at (inflate m r) x y = 0 \<longleftrightarrow> \<not> outside m x y \<and>
      (\<forall>a b. \<not> outside m a b \<and> (x - a)\<^sup>2 + (y - b)\<^sup>2 \<le> r * r \<longrightarrow> grid_at m a b = 0))"
proof (cases "r = 0")
  case True
  have "(x - a)\<^sup>2 + (y - b)\<^sup>2 \<le> 0 \<longleftrightarrow> a = x \<and> b = y" for a b :: int
    by (auto simp: sum_power2_le_zero_iff)
  with True show ?thesis by (auto simp: inflate_def grid_at_def)
next
  case False
  define hit where "hit = (\<lambda>b a x y. if occ m ! cell_index m a b = 0 then False else
    (x - a)\<^sup>2 + (y - b)\<^sup>2 \<le> r * r \<and> \<bar>x - a\<bar> \<le> r \<and> \<bar>y - b\<bar> \<le> r \<and> \<not> outside m x y)"
  have "marks m (\<lambda>m'. if occ m ! cell_index m a b = 0 then m' else stamp r a b m') (hit b a)" for a b
    unfolding hit_def by (intro marks_if marks_id marks_stamp ok)
  then have "marks m (for_range 0 (height m - 1) (\<lambda>y. for_range 0 (width m - 1) (\<lambda>x m'.
        if occ m ! cell_index m x y = 0 then m' else stamp r x y m')))
      (\<lambda>x y. \<exists>b. 0 \<le> b \<and> b \<le> height m - 1 \<and> (\<exists>a. 0 \<le> a \<and> a \<le> width m - 1 \<and> hit b a x y))"
    by (intro marks_for_range)
  note mk = this
  have inf: "inflate m r = for_range 0 (height m - 1) (\<lambda>y. for_range 0 (width m - 1) (\<lambda>x m'.
        if occ m ! cell_index m x y = 0 then m' else stamp r x y m')) m"
    using False r by (simp add: inflate_def Let_def)
  have "grid_at (inflate m r) x y = 0 \<longleftrightarrow> grid_at m x y = 0 \<and>
      \<not> (\<exists>b. 0 \<le> b \<and> b \<le> height m - 1 \<and> (\<exists>a. 0 \<le> a \<and> a \<le> width m - 1 \<and> hit b a x y))"
    unfolding inf by (rule marks_at [OF mk])
  also have "\<dots> \<longleftrightarrow> grid_at m x y = 0 \<and> (\<forall>a b. \<not> outside m a b \<longrightarrow> \<not> hit b a x y)"
    by (auto simp: outside_def)
  also have "\<dots> \<longleftrightarrow> \<not> outside m x y \<and>
      (\<forall>a b. \<not> outside m a b \<and> (x - a)\<^sup>2 + (y - b)\<^sup>2 \<le> r * r \<longrightarrow> grid_at m a b = 0)"
    (is "?L \<longleftrightarrow> ?R")
  proof
    assume L: ?L
    then have o: "\<not> outside m x y" by (auto simp: grid_at_def)
    show ?R
    proof (intro conjI allI impI o)
      fix a b
      assume h: "\<not> outside m a b \<and> (x - a)\<^sup>2 + (y - b)\<^sup>2 \<le> r * r"
      with L have "\<not> hit b a x y" by blast
      with h o abs_le_of_squares [OF r, of "x - a" "y - b"] show "grid_at m a b = 0"
        by (auto simp: hit_def grid_at_def split: if_splits)
    qed
  next
    assume R: ?R
    have "(x - x)\<^sup>2 + (y - y)\<^sup>2 \<le> r * r" by simp
    with R have "grid_at m x y = 0" by blast
    moreover have "\<not> hit b a x y" if "\<not> outside m a b" for a b
      using R that by (auto simp: hit_def grid_at_def)
    ultimately show ?L by blast
  qed
  finally show ?thesis using marks_shape [OF mk] by (simp add: inf)
qed

lemma inflate_ok: "grid_ok m \<Longrightarrow> grid_ok (inflate m r)"
proof (cases "r \<le> 0")
  case True
  then show "grid_ok m \<Longrightarrow> grid_ok (inflate m r)" by (simp add: inflate_def)
next
  case False
  assume "grid_ok m"
  with False show "grid_ok (inflate m r)"
    using inflate_shape_and_cells [of m r] same_shape_ok by (metis less_imp_le not_le)
qed

text \<open>Radius one is the cell and its four neighbours.\<close>

lemma disc_1: "(x - a)\<^sup>2 + (y - b)\<^sup>2 \<le> (1 :: int) \<longleftrightarrow>
   (a, b) \<in> {(x, y), (x + 1, y), (x - 1, y), (x, y + 1), (x, y - 1)}"
proof
  assume s: "(x - a)\<^sup>2 + (y - b)\<^sup>2 \<le> (1 :: int)"
  then have "\<bar>x - a\<bar> \<le> 1" "\<bar>y - b\<bar> \<le> 1" using abs_le_of_squares [of 1 "x - a" "y - b"] by simp_all
  then have "a = x + 1 \<or> a = x \<or> a = x - 1" "b = y + 1 \<or> b = y \<or> b = y - 1" by arith+
  with s show "(a, b) \<in> {(x, y), (x + 1, y), (x - 1, y), (x, y + 1), (x, y - 1)}"
    by (elim disjE) simp_all
qed auto

lemma inflate_1_at:
  assumes "grid_ok m"
  shows "grid_at (inflate m 1) x y = 0 \<longleftrightarrow> \<not> outside m x y \<and> grid_at m x y = 0 \<and>
    (\<forall>(a, b) \<in> {(x + 1, y), (x - 1, y), (x, y + 1), (x, y - 1)}. outside m a b \<or> grid_at m a b = 0)"
  using inflate_shape_and_cells [OF assms, of 1 x y] by (auto simp: disc_1)

section \<open>The demo corridor\<close>

lemma default_grid_shape [simp]:
  "width default_grid = 40" "height default_grid = 20"
  "origin_x default_grid = D 0 1" "origin_y default_grid = fp_neg (D 5 1)"
  "resolution default_grid = D 5 10"
  by (simp_all add: default_grid_def)

definition demo_wall :: "int \<Rightarrow> int \<Rightarrow> bool" where
  "demo_wall x y \<longleftrightarrow> x = 0 \<or> x = 39 \<or> y = 0 \<or> y = 19 \<or>
     (x = 20 \<and> 2 \<le> y \<and> y \<le> 17 \<and> \<not> (7 \<le> y \<and> y \<le> 11)) \<or> (y = 4 \<and> (x = 5 \<or> x = 6))"

lemma make_corridor_demo_facts:
  shows "width make_corridor_demo = 40" and "height make_corridor_demo = 20"
    and "resolution make_corridor_demo = D 5 10" and "origin_x make_corridor_demo = D 0 1"
    and "origin_y make_corridor_demo = fp_neg (D 5 1)"
    and "grid_ok make_corridor_demo"
    and "grid_at make_corridor_demo x y = 0 \<longleftrightarrow>
      0 \<le> x \<and> x < 40 \<and> 0 \<le> y \<and> y < 20 \<and> \<not> demo_wall x y"
proof -
  define m0 where "m0 = default_grid\<lparr>occ := replicate (nat (40 * 20)) 0\<rparr>"
  have occ0: "occ m0 = replicate 800 0" by (simp add: m0_def)
  have w: "width m0 = 40" "height m0 = 20" by (simp_all add: m0_def)
  have ok: "grid_ok m0" by (simp add: grid_ok_def m0_def)
  have out: "outside m0 a b \<longleftrightarrow> a < 0 \<or> b < 0 \<or> a \<ge> 40 \<or> b \<ge> 20" for a b
    by (simp add: outside_def w)
  have ms: "marks m0 (\<lambda>m. grid_set m a b 1) (\<lambda>x y. x = a \<and> y = b \<and> \<not> outside m0 a b)" for a b
    by (rule marks_set [OF ok]) simp
  define l1 where "l1 = for_range 0 39 (\<lambda>x m. grid_set (grid_set m x 0 1) x 19 1)"
  define b2 where "b2 = for_range 0 19 (\<lambda>y m. grid_set (grid_set m 0 y 1) 39 y 1)"
  define b3 where "b3 = for_range 2 17 (\<lambda>y m. if y \<ge> 7 \<and> y \<le> 11 then m else grid_set m 20 y 1)"
  define h1 where "h1 = (\<lambda>x (y :: int). \<exists>i. 0 \<le> i \<and> i \<le> (39::int) \<and>
     ((x = i \<and> y = 0 \<and> \<not> outside m0 i 0) \<or> (x = i \<and> y = 19 \<and> \<not> outside m0 i 19)))"
  define h2 where "h2 = (\<lambda>(x :: int) y. \<exists>i. 0 \<le> i \<and> i \<le> (19::int) \<and>
     ((x = 0 \<and> y = i \<and> \<not> outside m0 0 i) \<or> (x = 39 \<and> y = i \<and> \<not> outside m0 39 i)))"
  define h3 where "h3 = (\<lambda>(x :: int) y. \<exists>i. 2 \<le> i \<and> i \<le> (17::int) \<and>
     (if i \<ge> 7 \<and> i \<le> 11 then False else x = 20 \<and> y = i \<and> \<not> outside m0 20 i))"
  have "marks m0 l1 h1" unfolding l1_def h1_def by (intro marks_for_range marks_comp ms)
  moreover have "marks m0 b2 h2" unfolding b2_def h2_def by (intro marks_for_range marks_comp ms)
  moreover have "marks m0 b3 h3" unfolding b3_def h3_def by (intro marks_for_range marks_if marks_id ms)
  ultimately have mk: "marks m0 (\<lambda>m. grid_set (grid_set (b3 (b2 (l1 m))) 5 4 1) 6 4 1)
    (\<lambda>x y. (((h1 x y \<or> h2 x y) \<or> h3 x y) \<or> (x = 5 \<and> y = 4 \<and> \<not> outside m0 5 4)) \<or>
       (x = 6 \<and> y = 4 \<and> \<not> outside m0 6 4))"
    by (intro marks_comp ms)
  have demo: "make_corridor_demo = grid_set (grid_set (b3 (b2 (l1 m0))) 5 4 1) 6 4 1"
    using w by (simp add: make_corridor_demo_def Let_def l1_def b2_def b3_def m0_def)
  have s: "same_shape m0 make_corridor_demo" unfolding demo by (rule marks_shape [OF mk])
  then show "width make_corridor_demo = 40" "height make_corridor_demo = 20"
    "resolution make_corridor_demo = D 5 10" "origin_x make_corridor_demo = D 0 1"
    "origin_y make_corridor_demo = fp_neg (D 5 1)"
    by (auto simp: same_shape_def m0_def)
  show "grid_ok make_corridor_demo" by (rule same_shape_ok [OF s ok])
  have z: "grid_at m0 x y = 0 \<longleftrightarrow> 0 \<le> x \<and> x < 40 \<and> 0 \<le> y \<and> y < 20"
    using cell_index_bound [OF ok, of x y] occ0 by (auto simp: grid_at_def out)
  show "grid_at make_corridor_demo x y = 0 \<longleftrightarrow>
      0 \<le> x \<and> x < 40 \<and> 0 \<le> y \<and> y < 20 \<and> \<not> demo_wall x y"
  proof -
    have "h1 x y \<longleftrightarrow> 0 \<le> x \<and> x < 40 \<and> (y = 0 \<or> y = 19)" by (auto simp: h1_def out)
    moreover have "h2 x y \<longleftrightarrow> 0 \<le> y \<and> y < 20 \<and> (x = 0 \<or> x = 39)" by (auto simp: h2_def out)
    moreover have "h3 x y \<longleftrightarrow> x = 20 \<and> 2 \<le> y \<and> y \<le> 17 \<and> \<not> (7 \<le> y \<and> y \<le> 11)"
      by (simp add: h3_def out if_bool_eq_conj) auto
    ultimately show ?thesis
      unfolding demo marks_at [OF mk] z demo_wall_def out
      by (cases "0 \<le> x \<and> x < 40 \<and> 0 \<le> y \<and> y < 20") (simp, blast, blast)
  qed
qed

lemmas demo_shape [simp] = make_corridor_demo_facts(1-6)

lemma conj_cong_right: "(R \<Longrightarrow> A = B) \<Longrightarrow> A \<and> R \<longleftrightarrow> B \<and> R"
  by blast

text \<open>The inflated corridor: two cells from every border, and a gap three cells wide.\<close>

lemma inflated_demo_at [grid_simps]:
  "grid_at (inflate make_corridor_demo 1) x y = 0 \<longleftrightarrow>
      2 \<le> x \<and> x \<le> 37 \<and> 2 \<le> y \<and> y \<le> 17 \<and> \<not> demo_wall x y \<and>
      \<not> demo_wall (x + 1) y \<and> \<not> demo_wall (x - 1) y \<and> \<not> demo_wall x (y + 1) \<and> \<not> demo_wall x (y - 1)"
proof -
  have border: "\<not> demo_wall a b \<Longrightarrow> a \<noteq> 0 \<and> a \<noteq> 39 \<and> b \<noteq> 0 \<and> b \<noteq> 19" for a b
    by (simp add: demo_wall_def)
  have "grid_at (inflate make_corridor_demo 1) x y = 0 \<longleftrightarrow>
      (0 \<le> x \<and> x < 40 \<and> 0 \<le> y \<and> y < 20) \<and> \<not> demo_wall x y \<and>
      \<not> demo_wall (x + 1) y \<and> \<not> demo_wall (x - 1) y \<and> \<not> demo_wall x (y + 1) \<and> \<not> demo_wall x (y - 1)"
    (is "?L \<longleftrightarrow> ?I \<and> \<not> demo_wall x y \<and> ?N")
  proof -
    have "?L \<longleftrightarrow> (?I \<and> \<not> demo_wall x y) \<and>
      (\<forall>(a, b) \<in> {(x + 1, y), (x - 1, y), (x, y + 1), (x, y - 1)}.
         outside make_corridor_demo a b \<or> grid_at make_corridor_demo a b = 0)" (is "_ \<longleftrightarrow> ?C \<and> ?F")
    proof -
      have "\<not> outside make_corridor_demo x y \<longleftrightarrow> ?I" by (auto simp: outside_def)
      then show ?thesis
        using make_corridor_demo_facts(7) [of x y] unfolding inflate_1_at [OF demo_shape(6)] by blast
    qed
    also have "\<dots> \<longleftrightarrow> ?C \<and> ?N"
    proof (rule conj_cong [OF refl])
      assume c: ?C
      then have "x \<noteq> 0 \<and> x \<noteq> 39 \<and> y \<noteq> 0 \<and> y \<noteq> 19" using border by blast
      with c have "0 \<le> x - 1" "x + 1 < 40" "0 \<le> y - 1" "y + 1 < 20" by linarith+
      with c show "?F \<longleftrightarrow> ?N" by (simp add: outside_def make_corridor_demo_facts(7))
    qed
    finally show ?thesis by blast
  qed
  also have "\<dots> \<longleftrightarrow> (2 \<le> x \<and> x \<le> 37 \<and> 2 \<le> y \<and> y \<le> 17) \<and> \<not> demo_wall x y \<and>
      \<not> demo_wall (x + 1) y \<and> \<not> demo_wall (x - 1) y \<and> \<not> demo_wall x (y + 1) \<and> \<not> demo_wall x (y - 1)"
    (is "?A \<and> ?R \<longleftrightarrow> ?B \<and> ?R")
  proof (rule conj_cong_right)
    assume ?R
    then have "x \<noteq> 0 \<and> x \<noteq> 39 \<and> y \<noteq> 0 \<and> y \<noteq> 19" "x \<noteq> 1" "y \<noteq> 1" "x \<noteq> 38" "y \<noteq> 18"
      using border [of x y] border [of "x + 1" y] border [of "x - 1" y] border [of x "y + 1"]
        border [of x "y - 1"] by auto
    then show "?A \<longleftrightarrow> ?B" by linarith
  qed
  finally show ?thesis by simp
qed

lemma demo_gap_column: "grid_at (inflate make_corridor_demo 1) 20 y = 0 \<longleftrightarrow> 8 \<le> y \<and> y \<le> 10"
  unfolding inflated_demo_at demo_wall_def by auto

section \<open>Properties\<close>

text \<open>\<open>set\<close> writes inside the cell vector or not at all: on a well-formed grid the
  index it computes is in range, exactly the addressed cell changes, every other cell and the shape
  of the grid stay, and a write outside the map is ignored.\<close>

theorem grid_set_spec:
  assumes "grid_ok m"
  shows "(outside m x y \<or> cell_index m x y < length (occ m)) \<and> grid_ok (grid_set m x y v) \<and>
    grid_at (grid_set m x y v) a b =
      (if outside m a b then 1 else if (a, b) = (x, y) then v else grid_at m a b)"
proof -
  have "outside m x y \<or> cell_index m x y < length (occ m)" using cell_index_bound [OF assms] by blast
  moreover have "grid_ok (grid_set m x y v)" by (rule same_shape_ok [OF same_shape_set assms])
  moreover have "outside m a b \<Longrightarrow> grid_at m a b = 1" by (simp add: grid_at_def)
  ultimately show ?thesis by (auto simp: grid_at_set [OF assms])
qed

theorem grid_set_spec_witness:
  "(outside make_corridor_demo 3 3 \<or> cell_index make_corridor_demo 3 3 < length (occ make_corridor_demo)) \<and>
    grid_ok (grid_set make_corridor_demo 3 3 1) \<and>
    grid_at (grid_set make_corridor_demo 3 3 1) 3 3 =
      (if outside make_corridor_demo 3 3 then 1 else if (3, 3) = (3, 3 :: int) then 1
       else grid_at make_corridor_demo 3 3)"
  using grid_set_spec [OF demo_shape(6), of 3 3 1 3 3] by simp

text \<open>C36: After \<open>inflate(r)\<close> a cell is free exactly if it lies in the map and no occupied cell
  of the original grid lies within Euclidean distance \<open>r\<close> of it; the shape of the grid is kept.
  In particular inflating reads the original occupancy, not the cells it has just marked.\<close>

theorem inflate_spec:
  assumes "grid_ok m" and "0 \<le> r"
  shows "same_shape m (inflate m r) \<and>
    (grid_at (inflate m r) x y = 0 \<longleftrightarrow> \<not> outside m x y \<and>
      (\<forall>a b. \<not> outside m a b \<and> (x - a)\<^sup>2 + (y - b)\<^sup>2 \<le> r * r \<longrightarrow> grid_at m a b = 0))"
  using assms by (rule inflate_shape_and_cells)

theorem inflate_spec_witness:
  "same_shape make_corridor_demo (inflate make_corridor_demo 1) \<and>
   grid_at (inflate make_corridor_demo 1) 19 5 \<noteq> 0"
proof -
  have "grid_at make_corridor_demo 20 5 \<noteq> 0 \<and> \<not> outside make_corridor_demo 20 5"
    by (simp add: make_corridor_demo_facts(7) demo_wall_def outside_def)
  moreover have "(19 - 20)\<^sup>2 + (5 - 5)\<^sup>2 \<le> 1 * (1 :: int)" by simp
  ultimately show ?thesis using inflate_spec [OF demo_shape(6), of 1 19 5] by (metis zero_le_one)
qed

text \<open>The wall of the demo corridor keeps, after inflation by one cell, a gap of exactly
  three cells: the rows 8, 9 and 10 of column 20, as the comment in the source promises.\<close>

lemma demo_corridor_gap:
  "{y. grid_at (inflate make_corridor_demo 1) 20 y = 0} = {8, 9, 10}"
  by (auto simp: demo_gap_column)

end
