(* ===== verification/Robot_Text.thy ===== *)
theory Robot_Text
  imports Json_Util Nav_Grid
begin

text \<open>
  The text helpers at the top of \<open>sim/src/fake_robot.cpp\<close>: \<open>esc\<close> and the extractors
  \<open>extract_string\<close>, \<open>extract_number\<close>, \<open>extract_bool\<close>, \<open>extract_seq\<close>. They look
  for the quoted key anywhere in the text and take what follows the next colon.
  \<open>extract_number\<close> stores the result of \<open>strtod\<close> before it looks whether there was a
  conversion, so it returns its output with the verdict. The lemmas give the round trip of
  \<open>esc\<close> and show what becomes of a key that occurs as a value.
\<close>

definition esc :: "string \<Rightarrow> string" where
  "esc s = concat (map (\<lambda>c. if c = dq \<or> c = bs then [bs, c] else [c]) s)"

text \<open>The text after the colon and the blanks that follow the key.\<close>

definition after_key :: "string \<Rightarrow> string \<Rightarrow> string option" where
  "after_key obj key =
     (case find_after (quoted key) obj of None \<Rightarrow> None
      | Some r \<Rightarrow> (case find_after '':'' r of None \<Rightarrow> None
         | Some v \<Rightarrow> Some (dropWhile (\<lambda>c. c = CHR '' '' \<or> c = CHR 0x09) v)))"

text \<open>A backslash takes the next character as it is; the end of the text ends the string.\<close>

fun read_string :: "string \<Rightarrow> string" where
  "read_string [] = []"
| "read_string (c # cs) =
     (if c = dq then []
      else if c = bs then (case cs of [] \<Rightarrow> [c] | e # cs' \<Rightarrow> e # read_string cs')
      else c # read_string cs)"

definition extract_string :: "string \<Rightarrow> string \<Rightarrow> string option" where
  "extract_string obj key =
     (case after_key obj key of None \<Rightarrow> None
      | Some [] \<Rightarrow> None
      | Some (c # cs) \<Rightarrow> if c = dq then Some (read_string cs) else None)"

definition extract_number :: "string \<Rightarrow> string \<Rightarrow> double \<Rightarrow> bool \<times> double" where
  "extract_number obj key out =
     (case after_key obj key of None \<Rightarrow> (False, out)
      | Some v \<Rightarrow> if v = [] then (False, out)
                  else (case strtod v of None \<Rightarrow> (False, D 0 1) | Some d \<Rightarrow> (True, d)))"

definition extract_bool :: "string \<Rightarrow> string \<Rightarrow> bool option" where
  "extract_bool obj key =
     (case after_key obj key of None \<Rightarrow> None
      | Some v \<Rightarrow> if prefix ''true'' v then Some True
                  else if prefix ''false'' v then Some False else None)"

text \<open>
  \<open>static_cast<uint16_t>\<close> of a double is undefined out of range; on x86-64 it is the
  conversion to \<open>int\<close>, cut to 16 bits.
\<close>

definition extract_seq :: "string \<Rightarrow> u16" where
  "extract_seq obj =
     (case extract_number obj ''seq'' (D 0 1) of (ok, v) \<Rightarrow>
        if ok then word_of_int (fp_to_int32 binary64 v) else 0)"

section \<open>Round trip\<close>

lemma read_esc: "read_string (esc s @ dq # rest) = s"
  by (induction s) (auto simp: esc_def dq_def bs_def)

lemma quoted_simps: "quoted k \<noteq> []" "hd (quoted k) = dq"
  by (simp_all add: quoted_def)

lemma after_key_here:
  assumes "dq \<notin> set pre" and "CHR '':'' \<notin> set gap"
  shows "after_key (pre @ quoted key @ gap @ '':'' @ v) key =
    Some (dropWhile (\<lambda>c. c = CHR '' '' \<or> c = CHR 0x09) v)"
proof -
  have "find_after (quoted key) (pre @ quoted key @ gap @ '':'' @ v) = Some (gap @ '':'' @ v)"
    using assms(1) find_after_skip [of "quoted key" pre "quoted key @ gap @ '':'' @ v"]
      find_after_here [of "quoted key" "gap @ '':'' @ v"] by (simp add: quoted_simps)
  moreover have "find_after '':'' (gap @ '':'' @ v) = Some v"
    using assms(2) find_after_skip [of "'':''" gap "'':'' @ v"] find_after_here [of "'':''" v] by simp
  ultimately show ?thesis by (simp add: after_key_def)
qed

section \<open>Properties\<close>

text \<open>A string that \<open>esc\<close> has written is read back unchanged by \<open>extract_string\<close>,
  whatever characters it holds, control characters included.\<close>

theorem esc_round_trip:
  assumes "dq \<notin> set pre"
  shows "extract_string (pre @ quoted key @ '':'' @ dq # esc s @ dq # rest) key = Some s"
proof -
  have "after_key (pre @ quoted key @ [] @ '':'' @ dq # esc s @ dq # rest) key = Some (dq # esc s @ dq # rest)"
    using after_key_here [OF assms, of "[]" key "dq # esc s @ dq # rest"] by (simp add: dq_def)
  then show ?thesis by (simp add: extract_string_def read_esc)
qed

theorem esc_round_trip_witness:
  "extract_string (''{'' @ quoted ''detail'' @ '':'' @ dq # esc [bs, dq, CHR 0x0A] @ dq # ''}'') ''detail'' =
     Some [bs, dq, CHR 0x0A]"
  by (rule esc_round_trip) (simp add: dq_def)

definition goto_with_timeout :: "string \<Rightarrow> string \<Rightarrow> string \<Rightarrow> string" where
  "goto_with_timeout tid timeout x =
     ''{'' @ quoted ''task_id'' @ '':'' @ quoted tid @ '','' @ quoted ''timeout_s'' @ '':'' @ timeout @
     '','' @ quoted ''x'' @ '':'' @ x @ ''}''"

text \<open>The extractors look for the quoted key anywhere, also where it is a value. A goto whose
  task is called \<open>x\<close> is driven to its timeout: the text after the first colon behind the
  value \<open>x\<close> is read as the coordinate, and the member \<open>x\<close> is never looked at.\<close>

theorem extract_takes_value_for_key:
  "after_key (goto_with_timeout ''x'' (CHR ''5'' # timeout) x) ''x'' =
     Some (CHR ''5'' # timeout @ '','' @ quoted ''x'' @ '':'' @ x @ ''}'')"
  by (simp add: after_key_def goto_with_timeout_def quoted_def dq_def)

end
