(* ===== verification/Nav_Track.thy ===== *)
theory Nav_Track
  imports Nav_Grid C_Library
begin

text \<open>
  Following a path, from \<open>sim/include/botcockpit_sim/nav.hpp\<close>: \<open>segment_free\<close>,
  \<open>heading_err\<close>, \<open>advance_idx\<close>, \<open>aim_point\<close>, \<open>pure_pursuit\<close> and the two
  path printers. The transcendental functions are a parameter of type \<open>libm\<close>. The loops
  of \<open>heading_err\<close> are partial functions: they do not end on an infinite error. The lemmas
  bound the velocities, say when the loops end, and what the aim point and the advanced index are.
\<close>

type_synonym point = "double \<times> double"

section \<open>Arithmetic in \<open>double\<close>\<close>

abbreviation dadd :: "double \<Rightarrow> double \<Rightarrow> double" where "dadd \<equiv> fp_add binary64"
abbreviation dsub :: "double \<Rightarrow> double \<Rightarrow> double" where "dsub \<equiv> fp_sub binary64"
abbreviation dmul :: "double \<Rightarrow> double \<Rightarrow> double" where "dmul \<equiv> fp_mul binary64"
abbreviation ddiv :: "double \<Rightarrow> double \<Rightarrow> double" where "ddiv \<equiv> fp_div binary64"
abbreviation dlt :: "double \<Rightarrow> double \<Rightarrow> bool" where "dlt \<equiv> fp_lt binary64"
abbreviation dle :: "double \<Rightarrow> double \<Rightarrow> bool" where "dle \<equiv> fp_le binary64"

definition M_PI :: double where
  "M_PI = D 314159265358979323846 100000000000000000000"

definition two_pi :: double where
  "two_pi = dmul (D 2 1) M_PI"

section \<open>Line of sight and heading\<close>

definition segment_steps :: "libm \<Rightarrow> double \<Rightarrow> double \<Rightarrow> double \<Rightarrow> double \<Rightarrow> int" where
  "segment_steps M x0 y0 x1 y1 =
     (let d = m_hypot M (dsub x1 x0) (dsub y1 y0)
      in max 1 (fp_to_int32 binary64 (fp_ceil binary64 (ddiv d (D 8 100)))))"

definition segment_sample :: "double \<Rightarrow> double \<Rightarrow> double \<Rightarrow> double \<Rightarrow> int \<Rightarrow> int \<Rightarrow> point" where
  "segment_sample x0 y0 x1 y1 n i =
     (let t = ddiv (fp_of_int binary64 i) (fp_of_int binary64 n)
      in (dadd x0 (dmul (dsub x1 x0) t), dadd y0 (dmul (dsub y1 y0) t)))"

definition segment_free :: "libm \<Rightarrow> gridmap \<Rightarrow> double \<Rightarrow> double \<Rightarrow> double \<Rightarrow> double \<Rightarrow> bool" where
  "segment_free M m x0 y0 x1 y1 =
     (let n = segment_steps M x0 y0 x1 y1
      in list_all (\<lambda>i. case segment_sample x0 y0 x1 y1 n i of (wx, wy) \<Rightarrow> is_free m wx wy) [0..n])"

partial_function (option) wrap_down :: "double \<Rightarrow> double option" where
  "wrap_down e = (if dlt M_PI e then wrap_down (dsub e two_pi) else Some e)"

partial_function (option) wrap_up :: "double \<Rightarrow> double option" where
  "wrap_up e = (if dlt e (fp_neg M_PI) then wrap_up (dadd e two_pi) else Some e)"

declare wrap_down.simps [code] wrap_up.simps [code]

text \<open>Both loops, one after the other, as the sources run them.\<close>

definition wrap_angle :: "double \<Rightarrow> double option" where
  "wrap_angle e = (case wrap_down e of None \<Rightarrow> None | Some r \<Rightarrow> wrap_up r)"

definition heading_err :: "libm \<Rightarrow> double \<Rightarrow> double \<Rightarrow> double \<Rightarrow> double \<Rightarrow> double \<Rightarrow> double option" where
  "heading_err M yaw x y tx ty = wrap_angle (dsub (m_atan2 M (dsub ty y) (dsub tx x)) yaw)"

section \<open>The index and the aim point\<close>

definition dist_to :: "libm \<Rightarrow> point \<Rightarrow> double \<Rightarrow> double \<Rightarrow> double" where
  "dist_to M p x y = m_hypot M (dsub (fst p) x) (dsub (snd p) y)"

definition passed :: "libm \<Rightarrow> point list \<Rightarrow> nat \<Rightarrow> double \<Rightarrow> double \<Rightarrow> bool" where
  "passed M path i x y =
     (let d0 = dist_to M (path ! i) x y; d1 = dist_to M (path ! Suc i) x y
      in dlt d0 (D 35 100) \<or> dlt (dadd d1 (D 5 100)) d0)"

text \<open>On the last waypoint both branches of the source leave the loop.\<close>

function advance_idx :: "libm \<Rightarrow> point list \<Rightarrow> nat \<Rightarrow> double \<Rightarrow> double \<Rightarrow> nat" where
  "advance_idx M path idx x y =
     (if idx < length path \<and> Suc idx < length path \<and> passed M path idx x y
      then advance_idx M path (Suc idx) x y else idx)"
  by pat_completeness auto
termination
  by (relation "measure (\<lambda>(M, path, idx, x, y). length path - idx)") auto

declare advance_idx.simps [simp del]

text \<open>
  The scan over the rest of the path; \<open>prev\<close> is the waypoint before, none in the first
  iteration. It returns \<open>best\<close> and \<open>have\<close>.
\<close>

fun aim_scan :: "libm \<Rightarrow> gridmap \<Rightarrow> double \<Rightarrow> double \<Rightarrow> double \<Rightarrow> point option \<Rightarrow> double \<Rightarrow>
  point list \<Rightarrow> point \<times> bool \<Rightarrow> point \<times> bool" where
  "aim_scan M m x y look prev budget [] bh = bh"
| "aim_scan M m x y look prev budget (p # ps) bh =
     (let budget' = (case prev of None \<Rightarrow> budget
            | Some q \<Rightarrow> dsub budget (m_hypot M (dsub (fst p) (fst q)) (dsub (snd p) (snd q)))) in
      if prev \<noteq> None \<and> dlt budget' (D 0 1) then bh
      else if \<not> segment_free M m x y (fst p) (snd p) then bh
      else if dle look (dist_to M p x y) then (p, True)
      else aim_scan M m x y look (Some p) budget' ps (p, True))"

definition aim_point :: "libm \<Rightarrow> gridmap \<Rightarrow> point list \<Rightarrow> nat \<Rightarrow> double \<Rightarrow> double \<Rightarrow> double \<Rightarrow> point" where
  "aim_point M m path idx x y look =
     (if path = [] then (x, y)
      else if idx \<ge> length path then last path
      else if dlt (dist_to M (last path) x y) (D 60 100) then last path
      else (case aim_scan M m x y look None look (drop idx path) (path ! idx, False) of
              (best, have) \<Rightarrow> if have then best else path ! idx))"

section \<open>Pure pursuit\<close>

definition local_lookahead :: "libm \<Rightarrow> point list \<Rightarrow> nat \<Rightarrow> double \<Rightarrow> double" where
  "local_lookahead M path idx look =
     (if Suc idx < length path
      then let p = path ! idx; q = path ! Suc idx;
               seg = m_hypot M (dsub (fst q) (fst p)) (dsub (snd q) (snd p))
           in if dlt (D 1 1000) seg \<and> dlt seg (D 55 100)
              then fp_min binary64 look (fp_max binary64 (D 28 100) (dmul seg (D 12 10)))
              else look
      else look)"

definition steer :: "libm \<Rightarrow> double \<Rightarrow> double \<Rightarrow> double \<Rightarrow> double \<times> double" where
  "steer M alpha local_x far =
     (if dlt (D 9 10) (fp_abs alpha)
      then (D 0 1, dmul (if dlt (D 0 1) alpha then D 1 1 else fp_neg (D 1 1)) (D 9 10))
      else if dlt local_x (D 0 1)
      then (D 10 100, dmul (if dle (D 0 1) alpha then D 1 1 else fp_neg (D 1 1)) (D 6 10))
      else if dlt (fp_abs alpha) (D 5 10)
      then let v = (if dlt (D 4 10) (fp_abs alpha) then D 12 100 else D 28 100);
               w0 = ddiv (dmul (dmul (D 2 1) v) (m_sin M alpha)) far;
               w1 = (if dlt (D 1 1) w0 then D 1 1 else w0)
           in (v, if dlt w1 (fp_neg (D 1 1)) then fp_neg (D 1 1) else w1)
      else (D 10 100, dmul (if dle (D 0 1) alpha then D 1 1 else fp_neg (D 1 1)) (D 7 10)))"

text \<open>The new index and the two velocities.\<close>

definition pure_pursuit :: "libm \<Rightarrow> gridmap \<Rightarrow> double \<Rightarrow> double \<Rightarrow> double \<Rightarrow> point list \<Rightarrow> nat \<Rightarrow> double \<Rightarrow>
  nat \<times> double \<times> double" where
  "pure_pursuit M m x y yaw path idx lookahead =
     (if path = [] \<or> idx \<ge> length path then (idx, D 0 1, D 0 1)
      else let idx' = advance_idx M path idx x y in
        if idx' \<ge> length path then (idx', D 0 1, D 0 1)
        else let ld = local_lookahead M path idx' lookahead;
                 aim = aim_point M m path idx' x y ld;
                 dx = dsub (fst aim) x; dy = dsub (snd aim) y;
                 local_x = dadd (dmul (m_cos M yaw) dx) (dmul (m_sin M yaw) dy);
                 local_y = dadd (dmul (fp_neg (m_sin M yaw)) dx) (dmul (m_cos M yaw) dy);
                 far = fp_max binary64 (D 5 100) (m_hypot M dx dy);
                 alpha = m_atan2 M local_y local_x
             in (idx', steer M alpha local_x far))"

section \<open>Printing a path\<close>

definition path_to_json :: "point list \<Rightarrow> string" where
  "path_to_json path =
     ''['' @ concat (map (\<lambda>i. (if i \<noteq> 0 then '','' else []) @ ''['' @ to_string_f (fst (path ! i)) @
        '','' @ to_string_f (snd (path ! i)) @ '']'') [0..<length path]) @ '']''"

definition path_to_flat_json :: "point list \<Rightarrow> string" where
  "path_to_flat_json path =
     ''['' @ concat (map (\<lambda>i. (if i \<noteq> 0 then '','' else []) @ to_string_f (fst (path ! i)) @
        '','' @ to_string_f (snd (path ! i))) [0..<length path]) @ '']''"

section \<open>Bounds of the steering\<close>

declare One_nat_def [simp del]

lemma M_PI_value: "M_PI = Fp False 4614256656552045848"
  unfolding M_PI_def
  by (rule D_round, (subst round_mag_eval [OF _ refl refl refl refl refl]; simp add: ratio_log_def nbits_eval))

text \<open>\<open>std::sin\<close> of a finite argument lies between -1 and 1.\<close>

definition sin_ok :: "libm \<Rightarrow> bool" where
  "sin_ok M \<longleftrightarrow> (\<forall>a. is_fin binary64 a \<longrightarrow> dle (fp_neg (D 1 1)) (m_sin M a) \<and> dle (m_sin M a) (D 1 1))"

lemma unit_fin: "dle (fp_neg (D 1 1)) s \<Longrightarrow> dle s (D 1 1) \<Longrightarrow> is_fin binary64 s \<and> fmag s \<le> 4607182418800017408"
  by (auto simp: fp_le_def is_fin_def fkey_def D_values fp_neg_def split: if_splits)

lemma mul_one_values:
  "dmul (D 1 1) (D 9 10) = D 9 10" "dmul (D 1 1) (D 6 10) = D 6 10" "dmul (D 1 1) (D 7 10) = D 7 10"
  "dmul (fp_neg (D 1 1)) (D 9 10) = fp_neg (D 9 10)" "dmul (fp_neg (D 1 1)) (D 6 10) = fp_neg (D 6 10)"
  "dmul (fp_neg (D 1 1)) (D 7 10) = fp_neg (D 7 10)"
  by (simp add: D_values fp_neg_def fp_mul_def is_nan_def is_inf_def fp_man_def fp_exp_def,
      (subst round_mag_eval [OF _ refl refl refl refl refl]; simp add: ratio_log_def nbits_eval))+

lemma twice_v:
  assumes "v = D 12 100 \<or> v = D 28 100"
  shows "is_fin binary64 (dmul (D 2 1) v)" and "fmag (dmul (D 2 1) v) \<le> 4607182418800017408"
proof -
  have "dmul (D 2 1) (D 12 100) = Fp False 4597814931575086776" "dmul (D 2 1) (D 28 100) = Fp False 4603219251127931372"
    by (simp add: D_values fp_mul_def is_nan_def is_inf_def fp_man_def fp_exp_def,
      (subst round_mag_eval [OF _ refl refl refl refl refl]; simp add: ratio_log_def nbits_eval))+
  then show "is_fin binary64 (dmul (D 2 1) v)" "fmag (dmul (D 2 1) v) \<le> 4607182418800017408"
    using assms by (auto simp: is_fin_def)
qed

definition in_unit :: "double \<Rightarrow> bool" where
  "in_unit w \<longleftrightarrow> dle (fp_neg (D 1 1)) w \<and> dle w (D 1 1)"

lemma in_unit_values:
  "in_unit (D 0 1)" "in_unit (D 9 10)" "in_unit (D 6 10)" "in_unit (D 7 10)" "in_unit (D 1 1)"
  "in_unit (fp_neg (D 9 10))" "in_unit (fp_neg (D 6 10))" "in_unit (fp_neg (D 7 10))" "in_unit (fp_neg (D 1 1))"
  by (simp_all add: in_unit_def D_values fp_neg_def fp_le_def is_nan_def fkey_def)

lemma clamp_unit:
  assumes "\<not> is_nan binary64 w"
  defines "w1 \<equiv> if dlt (D 1 1) w then D 1 1 else w"
  shows "in_unit (if dlt w1 (fp_neg (D 1 1)) then fp_neg (D 1 1) else w1)"
proof -
  have one: "\<not> is_nan binary64 (D 1 1)" "\<not> is_nan binary64 (fp_neg (D 1 1))"
    by (simp_all add: D_values fp_neg_def is_nan_def)
  have w1: "\<not> is_nan binary64 w1" "dle w1 (D 1 1)"
    using assms(1) one not_fp_lt [of binary64 "D 1 1" w] by (auto simp: w1_def fp_le_refl)
  show ?thesis
    using w1 one not_fp_lt [of binary64 w1 "fp_neg (D 1 1)"] in_unit_values by (auto simp: in_unit_def)
qed

lemma steer_bounds:
  assumes "sin_ok M" and far: "dle (D 5 100) far"
  shows "fst (steer M alpha lx far) \<in> {D 0 1, D 10 100, D 12 100, D 28 100} \<and> in_unit (snd (steer M alpha lx far))"
proof -
  have "in_unit (snd (steer M alpha lx far))"
    if "dlt (fp_abs alpha) (D 5 10)" "\<not> dlt (D 9 10) (fp_abs alpha)" "\<not> dlt lx (D 0 1)"
  proof -
    define v where "v = (if dlt (D 4 10) (fp_abs alpha) then D 12 100 else D 28 100)"
    have fa: "is_fin binary64 alpha"
      using that(1) by (auto simp: fp_lt_def fp_abs_def fkey_def is_fin_def D_values)
    then have s: "is_fin binary64 (m_sin M alpha)" "fmag (m_sin M alpha) \<le> 4607182418800017408"
      using assms(1) unit_fin by (auto simp: sin_ok_def)
    have v: "v = D 12 100 \<or> v = D 28 100" by (simp add: v_def)
    have "fmag (dmul (dmul (D 2 1) v) (m_sin M alpha)) \<le> fmag (m_sin M alpha)"
      by (intro fp_mul_le_one twice_v [OF v] s(1) below_one_64)
    then have p: "is_fin binary64 (dmul (dmul (D 2 1) v) (m_sin M alpha))"
      using s by (simp add: is_fin_def)
    have "\<not> is_nan binary64 far" "fmag far \<noteq> 0"
      using far by (auto simp: fp_le_def fkey_def D_values split: if_splits)
    then have "\<not> is_nan binary64 (ddiv (dmul (dmul (D 2 1) v) (m_sin M alpha)) far)"
      by (intro fp_div_not_nan p)
    note c = clamp_unit [OF this]
    have "snd (steer M alpha lx far) =
        (let w0 = ddiv (dmul (dmul (D 2 1) v) (m_sin M alpha)) far;
             w1 = (if dlt (D 1 1) w0 then D 1 1 else w0)
         in if dlt w1 (fp_neg (D 1 1)) then fp_neg (D 1 1) else w1)"
      unfolding steer_def v_def using that by (simp only: Let_def if_True if_False snd_conv)
    with c show ?thesis by (simp only: Let_def)
  qed
  moreover have "fst (steer M alpha lx far) \<in> {D 0 1, D 10 100, D 12 100, D 28 100}"
    by (simp add: steer_def Let_def)
  ultimately show ?thesis
    by (auto simp: steer_def mul_one_values in_unit_values)
qed

lemma pure_pursuit_bounds:
  assumes "sin_ok M" and "pure_pursuit M m x y yaw path idx look = (i, v, w)"
  shows "v \<in> {D 0 1, D 10 100, D 12 100, D 28 100} \<and> in_unit w"
proof -
  have "dle (D 5 100) (fp_max binary64 (D 5 100) h)" for h
    by (rule fp_max_ge) (simp add: D_values is_nan_def)
  note st = steer_bounds [OF assms(1) this]
  show ?thesis
    using assms(2) st in_unit_values(1)
    by (auto simp: pure_pursuit_def Let_def split: if_splits dest!: sym [of "steer _ _ _ _"]) 
      (metis fst_conv snd_conv insertE singletonD)+
qed

section \<open>The index\<close>

lemma advance_idx_spec:
  "idx \<le> advance_idx M path idx x y \<and>
   (idx < length path \<longrightarrow> advance_idx M path idx x y < length path) \<and>
   (\<forall>i. idx \<le> i \<and> i < advance_idx M path idx x y \<longrightarrow> passed M path i x y) \<and>
   (Suc (advance_idx M path idx x y) < length path \<longrightarrow> \<not> passed M path (advance_idx M path idx x y) x y)"
proof (induction M path idx x y rule: advance_idx.induct)
  case (1 M path idx x y)
  show ?case
  proof (cases "idx < length path \<and> Suc idx < length path \<and> passed M path idx x y")
    case False
    then show ?thesis by (auto simp: advance_idx.simps [of M path idx])
  next
    case True
    have "\<forall>i. idx \<le> i \<and> i < advance_idx M path (Suc idx) x y \<longrightarrow> passed M path i x y"
      using "1.IH" [OF True] True by (metis le_neq_implies_less Suc_leI)
    with "1.IH" [OF True] True show ?thesis by (simp add: advance_idx.simps [of M path idx])
  qed
qed

section \<open>Angles\<close>

definition in_pi :: "double \<Rightarrow> bool" where
  "in_pi e \<longleftrightarrow> dle (fp_neg M_PI) e \<and> dle e M_PI"

lemma two_pi_value: "two_pi = Fp False 4618760256179416344"
  unfolding two_pi_def M_PI_value
  by (simp add: D_values fp_mul_def is_nan_def is_inf_def fp_man_def fp_exp_def,
      subst round_mag_eval [OF _ refl refl refl refl refl]; simp add: ratio_log_def nbits_eval)

lemma pi_fin: "is_fin binary64 M_PI" "is_fin binary64 two_pi" "\<not> is_nan binary64 M_PI"
  "\<not> is_nan binary64 (fp_neg M_PI)"
  by (simp_all add: M_PI_value two_pi_value is_fin_def is_nan_def fp_neg_def)

lemma two_pi_val: "fp_val binary64 two_pi = 2 * fp_val binary64 M_PI"
proof -
  have "fp_val binary64 two_pi = 7074237752028440 * 2 powi (1 + 1023)"
    "fp_val binary64 M_PI = 7074237752028440 * 2 powi 1023"
    by (simp_all add: fp_val_sman_exp fp_sman_def fp_man_def fp_exp_def two_pi_value M_PI_value)
  then show ?thesis by (simp only: power_int_add) simp
qed

lemma in_pi_fin: "in_pi e \<Longrightarrow> is_fin binary64 e"
  unfolding in_pi_def by (rule is_fin_between [of binary64 "fp_neg M_PI" e M_PI]) (simp_all add: pi_fin)

text \<open>Below this magnitude, a step of \<open>two_pi\<close> is felt: it is the number \<open>2 ^ 51\<close>.\<close>

definition angle_cap :: nat where
  "angle_cap = 1074 * 2 ^ 52"

lemma le_val: "\<not> is_nan binary64 x \<Longrightarrow> \<not> is_nan binary64 y \<Longrightarrow> dle x y \<longleftrightarrow> fp_val binary64 x \<le> fp_val binary64 y"
  by (simp add: fp_le_def fkey_le_iff [where f = binary64])

lemma down_step:
  assumes "dlt M_PI e" and "fmag e \<le> angle_cap"
  shows "dle (fp_neg M_PI) (dsub e two_pi)" and "fkey (dsub e two_pi) < fkey e" and "fmag (dsub e two_pi) \<le> angle_cap"
proof -
  have pos: "\<not> fneg e" "fmag M_PI < fmag e"
    using assms(1) by (auto simp: fp_lt_def fkey_def M_PI_value split: if_splits)
  have fe: "is_fin binary64 e" using assms(2) by (simp add: is_fin_def angle_cap_def)
  have sub: "dsub e two_pi = dadd e (fp_neg two_pi)" using fe pi_fin by (simp add: fp_sub_fin)
  have ve: "fp_val binary64 M_PI \<le> fp_val binary64 e"
    using assms(1) by (simp add: fp_lt_def flip: fkey_le_iff)
  show lo: "dle (fp_neg M_PI) (dsub e two_pi)"
    unfolding sub using ve pi_fin fe
    by (intro fp_add_ge) (simp_all add: two_pi_val, simp_all add: M_PI_value fp_neg_def)
  define k where "k = fmag e - 1"
  have k: "fmag e = Suc k" using pos by (simp add: k_def)
  have "k div 2 ^ 52 \<le> 1073" using assms(2) k by (simp add: angle_cap_def)
  then have "(2::nat) ^ (k div 2 ^ 52) \<le> 2 ^ 1073" by (rule power_increasing) simp
  then have "real (mag_int binary64 (Suc k)) \<le> real (mag_int binary64 k + 2 ^ 1073)"
    using mag_int_Suc_le [of binary64 k] by (intro real_le) simp
  moreover have "fp_val binary64 two_pi \<ge> 2 ^ 1073"
    by (simp add: fp_val_sman_exp fp_sman_def fp_man_def fp_exp_def two_pi_value)
  ultimately have "fp_val binary64 e + fp_val binary64 (fp_neg two_pi) \<le> fp_val binary64 (Fp False k)"
    using pos(1) k by (simp add: fp_val_def [of _ e] fp_val_def [of _ "Fp False k"])
  then have "dle (dsub e two_pi) (Fp False k)"
    unfolding sub using fe pi_fin assms(2) k by (intro fp_add_le) (simp_all add: angle_cap_def)
  then have le: "fkey (dsub e two_pi) \<le> int k" by (simp add: fp_le_def fkey_def)
  then show "fkey (dsub e two_pi) < fkey e" using pos(1) k by (simp add: fkey_def)
  show "fmag (dsub e two_pi) \<le> angle_cap"
    using lo le assms(2) k by (auto simp: fp_le_def fkey_def M_PI_value fp_neg_def angle_cap_def split: if_splits)
qed

lemma wrap_down_returns:
  "fmag e \<le> angle_cap \<Longrightarrow> \<exists>r. wrap_down e = Some r \<and> (if dlt M_PI e then in_pi r else r = e)"
proof (induction "nat (fkey e)" arbitrary: e rule: less_induct)
  case less
  show ?case
  proof (cases "dlt M_PI e")
    case False
    then show ?thesis by (simp add: wrap_down.simps [of e])
  next
    case True
    note d = down_step [OF True less.prems]
    have "0 < fkey e" using True by (auto simp: fp_lt_def M_PI_value fkey_def)
    with d(2) have "nat (fkey (dsub e two_pi)) < nat (fkey e)" by simp
    from less.hyps [OF this d(3)] obtain r where r: "wrap_down (dsub e two_pi) = Some r"
      "if dlt M_PI (dsub e two_pi) then in_pi r else r = dsub e two_pi" by blast
    have "in_pi r"
    proof (cases "dlt M_PI (dsub e two_pi)")
      case True
      with r show ?thesis by simp
    next
      case False
      moreover have "\<not> is_nan binary64 (dsub e two_pi)" using d(1) by (simp add: fp_le_def)
      ultimately have "dle (dsub e two_pi) M_PI" using pi_fin not_fp_lt by blast
      with False r d(1) show ?thesis by (simp add: in_pi_def)
    qed
    with r(1) True show ?thesis by (simp add: wrap_down.simps [of e])
  qed
qed

lemma fp_neg_neg [simp]: "fp_neg (fp_neg x) = x"
  by (simp add: fp_neg_def)

text \<open>The other loop, by symmetry.\<close>

lemma up_step:
  assumes "dlt e (fp_neg M_PI)" and "fmag e \<le> angle_cap"
  shows "dle (dadd e two_pi) M_PI" and "fkey e < fkey (dadd e two_pi)" and "fmag (dadd e two_pi) \<le> angle_cap"
proof -
  have nn: "is_nan binary64 (fp_neg e) = is_nan binary64 e" by (rule is_nan_mag) simp
  have "dlt M_PI (fp_neg e)" using assms(1) pi_fin nn by (simp add: fp_lt_def)
  note d = down_step [OF this]
  have fe: "is_fin binary64 e" using assms(2) by (simp add: is_fin_def angle_cap_def)
  have sub: "dsub (fp_neg e) two_pi = dadd (fp_neg e) (fp_neg two_pi)"
    using fe pi_fin by (simp add: fp_sub_fin)
  note s = fp_add_neg_neg [OF fe pi_fin(2), folded sub]
  have nan: "is_nan binary64 (dadd e two_pi) = is_nan binary64 (dsub (fp_neg e) two_pi)"
    by (rule is_nan_mag) (simp add: s)
  show "dle (dadd e two_pi) M_PI" "fkey e < fkey (dadd e two_pi)" "fmag (dadd e two_pi) \<le> angle_cap"
    using d assms(2) s nan pi_fin by (simp_all add: fp_le_def)
qed

lemma wrap_up_returns:
  "fmag e \<le> angle_cap \<Longrightarrow> \<exists>r. wrap_up e = Some r \<and> (if dlt e (fp_neg M_PI) then in_pi r else r = e)"
proof (induction "nat (- fkey e)" arbitrary: e rule: less_induct)
  case less
  show ?case
  proof (cases "dlt e (fp_neg M_PI)")
    case False
    then show ?thesis by (simp add: wrap_up.simps [of e])
  next
    case True
    note d = up_step [OF True less.prems]
    have "fkey e < 0" using True by (auto simp: fp_lt_def M_PI_value fkey_def fp_neg_def)
    with d(2) have "nat (- fkey (dadd e two_pi)) < nat (- fkey e)" by simp
    from less.hyps [OF this d(3)] obtain r where r: "wrap_up (dadd e two_pi) = Some r"
      "if dlt (dadd e two_pi) (fp_neg M_PI) then in_pi r else r = dadd e two_pi" by blast
    have "in_pi r"
    proof (cases "dlt (dadd e two_pi) (fp_neg M_PI)")
      case True
      with r show ?thesis by simp
    next
      case False
      moreover have "\<not> is_nan binary64 (dadd e two_pi)" using d(1) by (simp add: fp_le_def)
      ultimately have "dle (fp_neg M_PI) (dadd e two_pi)" using pi_fin not_fp_lt by blast
      with False r d(1) show ?thesis by (simp add: in_pi_def)
    qed
    with r(1) True show ?thesis by (simp add: wrap_up.simps [of e])
  qed
qed

lemma wrap_angle_returns:
  assumes "fmag e \<le> angle_cap"
  shows "\<exists>r. wrap_angle e = Some r \<and> in_pi r"
proof -
  have ne: "\<not> is_nan binary64 e" using assms by (simp add: is_nan_def angle_cap_def)
  from wrap_down_returns [OF assms] obtain d where d: "wrap_down e = Some d"
    "if dlt M_PI e then in_pi d else d = e" by blast
  have pc: "in_pi a \<Longrightarrow> fmag a \<le> angle_cap" for a
    by (auto simp: in_pi_def fp_le_def fkey_def M_PI_value fp_neg_def angle_cap_def split: if_splits)
  have dc: "fmag d \<le> angle_cap" using d(2) assms pc by (auto split: if_splits)
  have le: "dle d M_PI" using d(2) ne not_fp_lt [OF pi_fin(3) ne] by (auto simp: in_pi_def split: if_splits)
  from wrap_up_returns [OF dc] obtain r where r: "wrap_up d = Some r"
    "if dlt d (fp_neg M_PI) then in_pi r else r = d" by blast
  have "in_pi r"
  proof (cases "dlt d (fp_neg M_PI)")
    case False
    moreover have "\<not> is_nan binary64 d" using le by (simp add: fp_le_def)
    ultimately have "dle (fp_neg M_PI) d" using pi_fin not_fp_lt by blast
    with False r le show ?thesis by (simp add: in_pi_def)
  qed (use r in simp)
  with d r show ?thesis by (simp add: wrap_angle_def)
qed

text \<open>\<open>std::atan2\<close> returns an angle between \<open>-M_PI\<close> and \<open>M_PI\<close>, or NaN for a NaN argument.\<close>

definition atan2_ok :: "libm \<Rightarrow> bool" where
  "atan2_ok M \<longleftrightarrow> (\<forall>y x. is_nan binary64 (m_atan2 M y x) \<or> in_pi (m_atan2 M y x))"

lemma wrap_nan: "is_nan binary64 e \<Longrightarrow> wrap_down e = Some e \<and> wrap_up e = Some e"
  by (simp add: wrap_down.simps [of e] wrap_up.simps [of e] fp_lt_def)

lemma heading_err_returns:
  assumes "atan2_ok M" and "in_pi yaw"
  shows "\<exists>e. heading_err M yaw x y tx ty = Some e \<and> (is_nan binary64 e \<or> in_pi e)"
proof -
  define a where "a = m_atan2 M (dsub ty y) (dsub tx x)"
  have h: "heading_err M yaw x y tx ty = wrap_angle (dsub a yaw)"
    by (simp add: heading_err_def a_def)
  show ?thesis
  proof (cases "is_nan binary64 a")
    case True
    then have "is_nan binary64 (dsub a yaw)" by (simp add: fp_sub_def nan_of_def)
    then show ?thesis by (simp add: h wrap_angle_def wrap_nan)
  next
    case False
    then have a: "in_pi a" using assms(1) by (auto simp: atan2_ok_def a_def)
    note fin = in_pi_fin [OF a] in_pi_fin [OF assms(2)]
    have v: "- fp_val binary64 M_PI \<le> fp_val binary64 b \<and> fp_val binary64 b \<le> fp_val binary64 M_PI" if "in_pi b" for b
      using that by (simp add: in_pi_def fp_le_def flip: fkey_le_iff [where f = binary64] fp_val_neg)
    have sub: "dsub a yaw = dadd a (fp_neg yaw)" using fin by (simp add: fp_sub_fin)
    have "dle (dsub a yaw) two_pi" unfolding sub
      using fin v [OF a] v [OF assms(2)] by (intro fp_add_le) (simp_all add: two_pi_val, simp add: two_pi_value)
    moreover have "dle (fp_neg two_pi) (dsub a yaw)" unfolding sub
      using fin v [OF a] v [OF assms(2)] by (intro fp_add_ge) (simp_all add: two_pi_val, simp add: two_pi_value)
    ultimately have "fmag (dsub a yaw) \<le> angle_cap"
      by (auto simp: fp_le_def fkey_def two_pi_value fp_neg_def angle_cap_def split: if_splits)
    from wrap_angle_returns [OF this] show ?thesis by (auto simp: h)
  qed
qed

section \<open>Properties\<close>

text \<open>C40: Whatever the pose, the path and the map, pure pursuit commands a linear velocity of 0,
  0.10, 0.12 or 0.28 and an angular velocity between -1 and 1, never NaN, if \<open>std::sin\<close> maps
  finite numbers into [-1, 1].\<close>

theorem pursuit_velocities_bounded:
  assumes "sin_ok M" and "pure_pursuit M m x y yaw path idx look = (i, v, w)"
  shows "v \<in> {D 0 1, D 10 100, D 12 100, D 28 100} \<and> in_unit w"
  using assms by (rule pure_pursuit_bounds)

definition flat_libm :: libm where
  "flat_libm = \<lparr>m_sin = (\<lambda>x. fp_min binary64 (D 1 1) (fp_max binary64 (fp_neg (D 1 1)) x)),
     m_cos = (\<lambda>x. D 1 1), m_atan2 = (\<lambda>y x. fp_min binary64 M_PI (fp_max binary64 (fp_neg M_PI) y)),
     m_hypot = (\<lambda>x y. fp_max binary64 (fp_abs x) (fp_abs y))\<rparr>"

lemma clamp_between:
  assumes "\<not> is_nan binary64 c" and "\<not> is_nan binary64 x" and "0 \<le> fkey c"
  shows "dle (fp_neg c) (fp_min binary64 c (fp_max binary64 (fp_neg c) x)) \<and>
    dle (fp_min binary64 c (fp_max binary64 (fp_neg c) x)) c"
  using assms is_nan_mag [of "fp_neg c" c binary64]
  by (auto simp: fp_min_def fp_max_def fp_le_def fp_lt_def)

lemma flat_sin_ok: "sin_ok flat_libm"
  unfolding sin_ok_def flat_libm_def libm.simps
  by (intro allI impI clamp_between is_fin_not_nan) (simp_all add: D_values is_fin_def fkey_def)

lemma flat_atan2_ok: "atan2_ok flat_libm"
proof -
  have "is_nan binary64 (fp_min binary64 M_PI (fp_max binary64 (fp_neg M_PI) y)) \<or>
      in_pi (fp_min binary64 M_PI (fp_max binary64 (fp_neg M_PI) y))" for y
  proof (cases "is_nan binary64 y")
    case True
    then have "fp_max binary64 (fp_neg M_PI) y = fp_neg M_PI" by (simp add: fp_max_def fp_lt_def)
    then show ?thesis
      by (simp add: fp_min_def fp_lt_def in_pi_def fp_le_def fkey_def M_PI_value fp_neg_def is_nan_def)
  next
    case False
    then show ?thesis
      unfolding in_pi_def using clamp_between [OF pi_fin(3) False] by (simp add: M_PI_value fkey_def)
  qed
  then show ?thesis by (simp add: atan2_ok_def flat_libm_def)
qed

theorem pursuit_velocities_bounded_witness:
  "D 0 1 \<in> {D 0 1, D 10 100, D 12 100, D 28 100} \<and> in_unit (D 0 1)"
  using pursuit_velocities_bounded [OF flat_sin_ok, of default_grid "D 0 1" "D 0 1" "D 0 1" "[]" 0 "D 45 100" 0]
  by (simp add: pure_pursuit_def)

text \<open>The heading error is always computed: if \<open>std::atan2\<close> keeps to [-pi, pi] and the yaw
  lies there, both normalisation loops end, and the result is an angle in [-pi, pi] or NaN.\<close>

theorem heading_err_normalised:
  assumes "atan2_ok M" and "in_pi yaw"
  shows "\<exists>e. heading_err M yaw x y tx ty = Some e \<and> (is_nan binary64 e \<or> in_pi e)"
  using assms by (rule heading_err_returns)

theorem heading_err_normalised_witness:
  "\<exists>e. heading_err flat_libm M_PI (D 1 1) (D 1 1) (D 0 1) (fp_neg (D 2 1)) = Some e \<and>
     (is_nan binary64 e \<or> in_pi e)"
  by (rule heading_err_normalised [OF flat_atan2_ok])
    (simp add: in_pi_def fp_le_def M_PI_value fp_neg_def fkey_def is_nan_def)

text \<open>Advancing the index never moves it back, never past the last waypoint, skips only
  waypoints the robot has passed, and stops at the first one it has not.\<close>

theorem advance_idx_correct:
  "idx \<le> advance_idx M path idx x y \<and>
   (idx < length path \<longrightarrow> advance_idx M path idx x y < length path) \<and>
   (\<forall>i. idx \<le> i \<and> i < advance_idx M path idx x y \<longrightarrow> passed M path i x y) \<and>
   (Suc (advance_idx M path idx x y) < length path \<longrightarrow> \<not> passed M path (advance_idx M path idx x y) x y)"
  by (rule advance_idx_spec)

theorem advance_idx_correct_witness:
  "advance_idx flat_libm [(D 0 1, D 0 1)] 0 (D 0 1) (D 0 1) < 1"
  using advance_idx_correct [of 0 flat_libm "[(D 0 1, D 0 1)]" "D 0 1" "D 0 1"] by simp

lemma aim_scan_result:
  "snd bh \<longrightarrow> fst bh \<in> S \<and> segment_free M m x y (fst (fst bh)) (snd (fst bh)) \<Longrightarrow> set ps \<subseteq> S \<Longrightarrow>
   aim_scan M m x y look prev budget ps bh = (best, True) \<Longrightarrow> best \<in> S \<and> segment_free M m x y (fst best) (snd best)"
proof (induction M m x y look prev budget ps bh rule: aim_scan.induct)
  case (2 M m x y look prev budget p ps bh)
  define b where "b = (case prev of None \<Rightarrow> budget
            | Some q \<Rightarrow> dsub budget (m_hypot M (dsub (fst p) (fst q)) (dsub (snd p) (snd q))))"
  show ?case
    using "2.IH" [OF b_def] "2.prems" by (auto simp: Let_def simp flip: b_def split: if_splits)
qed simp

text \<open>The aim point is the robot's own position only for an empty path; otherwise it is a
  waypoint: the last one, the current one, or one in line of sight of the robot.\<close>

theorem aim_point_on_path:
  assumes "path \<noteq> []"
  shows "aim_point M m path idx x y look \<in> set path \<and>
    (aim_point M m path idx x y look = last path \<or> aim_point M m path idx x y look = path ! idx \<or>
     segment_free M m x y (fst (aim_point M m path idx x y look)) (snd (aim_point M m path idx x y look)))"
proof (cases "idx \<ge> length path \<or> dlt (dist_to M (last path) x y) (D 60 100)")
  case True
  then show ?thesis using assms by (auto simp: aim_point_def)
next
  case False
  obtain best have' where s: "aim_scan M m x y look None look (drop idx path) (path ! idx, False) = (best, have')"
    by fastforce
  have sub: "set (drop idx path) \<subseteq> set path" by (rule set_drop_subset)
  show ?thesis
  proof (cases have')
    case True
    then have "best \<in> set path \<and> segment_free M m x y (fst best) (snd best)"
      using aim_scan_result [of "(path ! idx, False)" "set path" M m x y "drop idx path" look None look best] sub s
      by simp
    with True False assms s show ?thesis by (simp add: aim_point_def)
  next
    case no: False
    with False assms s show ?thesis by (simp add: aim_point_def)
  qed
qed

theorem aim_point_on_path_witness:
  "aim_point flat_libm default_grid [(D 1 1, D 1 1)] 0 (D 0 1) (D 0 1) (D 45 100) \<in> {(D 1 1, D 1 1)}"
  using aim_point_on_path [of "[(D 1 1, D 1 1)]" flat_libm default_grid 0 "D 0 1" "D 0 1" "D 45 100"] by simp

end
