(* ===== verification/Robot_State.thy ===== *)
theory Robot_State
  imports Robot_Text Nav_Track
begin

text \<open>
  The state of \<open>FakeRobot\<close> (\<open>sim/include/botcockpit_sim/fake_robot.hpp\<close>) and its
  helper methods in \<open>sim/src/fake_robot.cpp\<close>: the error and warning conditions,
  \<open>recompute_phase_and_control\<close>, the state and result messages, fault injection and
  clearing, \<open>apply_safety_stop\<close>. Every field of the class is a field of the record;
  publishers, subscriptions and the timer are the booleans that say whether they exist, and
  \<open>outbox\<close> collects what was published. Every callback holds the mutex for its whole
  body, so callbacks are state transformers. Each call of \<open>now_ms\<close> reads the next value of
  the system clock, an arbitrary sequence; \<open>reads\<close> counts the calls.
\<close>

section \<open>State\<close>

record node_health =
  nh_name :: string
  nh_status :: string

record fault_item =
  f_code :: string
  f_level :: string
  f_node :: string
  f_detail :: string
  f_active :: bool

datatype message = State_Msg string | Result_Msg string

record robot =
  tick_timer :: bool
  state_pub :: bool
  result_pub :: bool
  cmd_sub :: bool
  console_sub :: bool
  active :: bool
  phase :: string
  mode :: string
  estop :: bool
  control_enabled :: bool
  console_online :: bool
  last_console_ms :: u64
  pose_x :: double
  pose_y :: double
  pose_yaw :: double
  battery :: double
  task_id :: string
  task_type :: string
  task_status :: string
  goal_x :: double
  goal_y :: double
  nodes :: "node_health list"
  faults :: "fault_item list"
  nav_map :: gridmap
  nav_path :: "point list"
  trail :: "point list"
  nav_idx :: nat
  nav_status :: string
  nav_ready :: bool
  track_err :: double
  track_err_max :: double
  stuck_s :: double
  stuck_count :: int
  task_seq :: int
  idle_tp :: int
  last_tick_tp :: int
  reads :: nat
  outbox :: "message list"

text \<open>What the program takes from its platform.\<close>

record env =
  lm :: libm
  wall :: "nat \<Rightarrow> u64"

definition init_robot :: robot where
  "init_robot = \<lparr>tick_timer = False, state_pub = False, result_pub = False, cmd_sub = False,
     console_sub = False, active = False, phase = ''BOOT'', mode = ''TELEOP'', estop = False,
     control_enabled = False, console_online = False, last_console_ms = 0,
     pose_x = D 0 1, pose_y = D 0 1, pose_yaw = D 0 1, battery = D 100 1,
     task_id = [], task_type = [], task_status = ''NONE'', goal_x = D 0 1, goal_y = D 0 1,
     nodes = [\<lparr>nh_name = ''fake_robot'', nh_status = ''OK''\<rparr>, \<lparr>nh_name = ''bridge'', nh_status = ''OK''\<rparr>],
     faults = [], nav_map = default_grid, nav_path = [], trail = [], nav_idx = 0,
     nav_status = ''IDLE'', nav_ready = False, track_err = D 0 1, track_err_max = D 0 1,
     stuck_s = D 0 1, stuck_count = 0, task_seq = 0, idle_tp = 0, last_tick_tp = 0,
     reads = 0, outbox = []\<rparr>"

section \<open>Clock and distance\<close>

definition now_ms :: "env \<Rightarrow> robot \<Rightarrow> u64 \<times> robot" where
  "now_ms E s = (wall E (reads s), s\<lparr>reads := Suc (reads s)\<rparr>)"

definition robot_dist :: "double \<Rightarrow> double \<Rightarrow> double \<Rightarrow> double \<Rightarrow> double" where
  "robot_dist x0 y0 x1 y1 =
     (let dx = dsub x1 x0; dy = dsub y1 y0 in fp_sqrt binary64 (dadd (dmul dx dx) (dmul dy dy)))"

section \<open>Conditions, phase and control\<close>

definition has_error_condition :: "robot \<Rightarrow> bool" where
  "has_error_condition s \<longleftrightarrow>
     list_ex (\<lambda>f. f_active f \<and> f_level f = ''ERROR'') (faults s) \<or>
     list_ex (\<lambda>n. nh_name n = ''fake_robot'' \<and> (nh_status n = ''ERROR'' \<or> nh_status n = ''LOST'')) (nodes s)"

definition has_warn_condition :: "robot \<Rightarrow> bool" where
  "has_warn_condition s \<longleftrightarrow>
     list_ex (\<lambda>f. f_active f \<and> f_level f = ''WARN'') (faults s) \<or>
     list_ex (\<lambda>n. nh_name n = ''fake_robot'' \<and> nh_status n = ''WARN'') (nodes s)"

definition set_node :: "nat \<Rightarrow> string \<Rightarrow> robot \<Rightarrow> robot" where
  "set_node i st s = s\<lparr>nodes := (nodes s)[i := (nodes s ! i)\<lparr>nh_status := st\<rparr>]\<rparr>"

definition recompute :: "robot \<Rightarrow> robot" where
  "recompute s =
     (if estop s then s\<lparr>phase := ''ESTOP'', control_enabled := False\<rparr>
      else if phase s = ''BOOT'' \<or> phase s = ''INITIALIZING'' then s\<lparr>control_enabled := False\<rparr>
      else if has_error_condition s
      then let s1 = (if phase s = ''RUNNING'' then s\<lparr>task_status := ''FAILED''\<rparr> else s)
           in set_node 0 ''ERROR'' (s1\<lparr>phase := ''FAULT'', control_enabled := False\<rparr>)
      else if has_warn_condition s
      then let s1 = (if phase s \<noteq> ''RUNNING'' then s\<lparr>phase := ''DEGRADED''\<rparr> else s)
           in set_node 0 ''WARN'' (s1\<lparr>control_enabled := False\<rparr>)
      else
        let s1 = set_node 0 ''OK'' s;
            s2 = (if phase s1 = ''FAULT'' \<or> phase s1 = ''DEGRADED'' \<or> phase s1 = ''ESTOP''
                  then if \<not> estop s1 \<and> \<not> has_error_condition s1 \<and> \<not> has_warn_condition s1
                       then s1\<lparr>phase := ''IDLE''\<rparr> else s1
                  else s1)
        in if phase s2 = ''IDLE'' then s2\<lparr>control_enabled := console_online s2\<rparr>
           else if phase s2 = ''RUNNING'' then s2\<lparr>control_enabled := False\<rparr>
           else s2)"

section \<open>Messages\<close>

definition bool_str :: "bool \<Rightarrow> string" where
  "bool_str b = (if b then ''true'' else ''false'')"

definition str_field :: "string \<Rightarrow> string \<Rightarrow> string" where
  "str_field k v = quoted k @ '':'' @ dq # esc v @ [dq]"

definition raw_field :: "string \<Rightarrow> string \<Rightarrow> string" where
  "raw_field k v = quoted k @ '':'' @ v"

definition null_or_str :: "string \<Rightarrow> string" where
  "null_or_str v = (if v = [] then ''null'' else dq # esc v @ [dq])"

definition commas :: "string list \<Rightarrow> string" where
  "commas xs = concat (map (\<lambda>i. (if i \<noteq> 0 then '','' else []) @ xs ! i) [0..<length xs])"

definition conn_str :: "robot \<Rightarrow> string" where
  "conn_str s = (if estop s then ''ESTOP''
     else if phase s = ''FAULT'' then ''OFFLINE''
     else if \<not> console_online s then ''OFFLINE''
     else if phase s = ''DEGRADED'' then ''DEGRADED'' else ''ONLINE'')"

text \<open>The clock readings of a message: one, then one per node, then one per fault.\<close>

definition clock_str :: "env \<Rightarrow> nat \<Rightarrow> string" where
  "clock_str E r = dec_nat (unat (wall E r))"

definition node_json :: "env \<Rightarrow> nat \<Rightarrow> node_health \<Rightarrow> string" where
  "node_json E r n = ''{'' @ str_field ''name'' (nh_name n) @ '','' @ str_field ''status'' (nh_status n) @
     '','' @ raw_field ''last_hb_ms'' (clock_str E r) @ ''}''"

definition fault_json :: "env \<Rightarrow> nat \<Rightarrow> fault_item \<Rightarrow> string" where
  "fault_json E r f = ''{'' @ raw_field ''ts_ms'' (clock_str E r) @ '','' @ str_field ''code'' (f_code f) @
     '','' @ str_field ''level'' (f_level f) @ '','' @ str_field ''node'' (f_node f) @
     '','' @ str_field ''detail'' (f_detail f) @ '','' @ raw_field ''active'' (bool_str (f_active f)) @ ''}''"

definition nav_json :: "robot \<Rightarrow> string" where
  "nav_json s = ''{'' @ commas
     [str_field ''status'' (nav_status s),
      raw_field ''path_len'' (dec_nat (length (nav_path s))),
      raw_field ''idx'' (dec_nat (nav_idx s)),
      raw_field ''path'' (path_to_json (nav_path s)),
      raw_field ''path_flat'' (path_to_flat_json (nav_path s)),
      raw_field ''trail'' (path_to_json (trail s)),
      raw_field ''trail_flat'' (path_to_flat_json (trail s)),
      raw_field ''goal'' (''{'' @ raw_field ''x'' (to_string_g (goal_x s)) @ '','' @
        raw_field ''y'' (to_string_g (goal_y s)) @ ''}''),
      raw_field ''track_err'' (to_string_g (track_err s)),
      raw_field ''track_err_max'' (to_string_g (track_err_max s))] @ ''}''"

definition build_state_json :: "env \<Rightarrow> robot \<Rightarrow> string" where
  "build_state_json E s = ''{'' @ commas
     [raw_field ''ts_ms'' (clock_str E (reads s)),
      raw_field ''conn'' (quoted (conn_str s)),
      str_field ''mode'' (mode s),
      str_field ''phase'' (phase s),
      raw_field ''heartbeat_rtt_ms'' ''0'',
      raw_field ''nodes'' (''['' @ commas (map (\<lambda>(i, n). node_json E (reads s + 1 + i) n)
        (enumerate 0 (nodes s))) @ '']''),
      raw_field ''pose'' (''{'' @ raw_field ''x'' (to_string_g (pose_x s)) @ '','' @
        raw_field ''y'' (to_string_g (pose_y s)) @ '','' @ raw_field ''yaw'' (to_string_g (pose_yaw s)) @ ''}''),
      raw_field ''battery'' (to_string_g (battery s)),
      raw_field ''task'' (''{'' @ raw_field ''id'' (null_or_str (task_id s)) @ '','' @
        raw_field ''type'' (null_or_str (task_type s)) @ '','' @ str_field ''status'' (task_status s) @ ''}''),
      raw_field ''faults'' (''['' @ commas (map (\<lambda>(i, f). fault_json E (reads s + 1 + length (nodes s) + i) f)
        (enumerate 0 (faults s))) @ '']''),
      raw_field ''estop'' (bool_str (estop s)),
      raw_field ''control_enabled'' (bool_str (control_enabled s)),
      raw_field ''nav'' (nav_json s)] @ ''}''"

definition publish_state :: "env \<Rightarrow> robot \<Rightarrow> robot" where
  "publish_state E s =
     (if \<not> state_pub s then s
      else s\<lparr>reads := reads s + 1 + length (nodes s) + length (faults s),
             outbox := outbox s @ [State_Msg (build_state_json E s)]\<rparr>)"

definition result_json :: "u16 \<Rightarrow> string \<Rightarrow> bool \<Rightarrow> string \<Rightarrow> string \<Rightarrow> string \<Rightarrow> string" where
  "result_json sq cmd ok status reason tid =
     ''{'' @ raw_field ''seq'' (dec_nat (unat sq)) @ '','' @ raw_field ''ok'' (bool_str ok) @
     '','' @ str_field ''cmd'' cmd @ '','' @ str_field ''status'' status @
     '','' @ raw_field ''reason'' (null_or_str reason) @ '','' @ raw_field ''task_id'' (null_or_str tid) @ ''}''"

definition publish_cmd_result ::
  "u16 \<Rightarrow> string \<Rightarrow> bool \<Rightarrow> string \<Rightarrow> string \<Rightarrow> string \<Rightarrow> robot \<Rightarrow> robot" where
  "publish_cmd_result sq cmd ok status reason tid s =
     (if \<not> result_pub s then s
      else s\<lparr>outbox := outbox s @ [Result_Msg (result_json sq cmd ok status reason tid)]\<rparr>)"

section \<open>Faults and the safety stop\<close>

definition add_fault :: "string \<Rightarrow> string \<Rightarrow> string \<Rightarrow> robot \<Rightarrow> robot" where
  "add_fault code level detail s = s\<lparr>faults := faults s @
     [\<lparr>f_code = code, f_level = level, f_node = ''fake_robot'', f_detail = detail, f_active = True\<rparr>]\<rparr>"

definition fail_task :: "robot \<Rightarrow> robot" where
  "fail_task s = (if task_status s = ''EXECUTING'' \<or> task_status s = ''ACCEPTED''
     then s\<lparr>task_status := ''FAILED''\<rparr> else s)"

definition inject_fault :: "string \<Rightarrow> robot \<Rightarrow> robot" where
  "inject_fault detail s =
     recompute (fail_task (set_node 0 ''ERROR'' (add_fault ''E_NODE_TIMEOUT'' ''ERROR'' detail s)))"

definition clear_faults :: "robot \<Rightarrow> robot" where
  "clear_faults s = s\<lparr>faults := [],
     nodes := map (\<lambda>n. if (nh_status n = ''ERROR'' \<or> nh_status n = ''WARN'' \<or> nh_status n = ''LOST'') \<and>
                        nh_name n = ''fake_robot''
                     then n\<lparr>nh_status := ''OK''\<rparr> else n) (nodes s)\<rparr>"

definition apply_safety_stop :: "env \<Rightarrow> robot \<Rightarrow> robot" where
  "apply_safety_stop E s =
     (let s1 = fail_task s;
          s2 = (if phase s1 = ''RUNNING'' then s1\<lparr>phase := ''IDLE''\<rparr> else s1);
          s3 = recompute (s2\<lparr>task_type := []\<rparr>);
          s4 = (if \<not> console_online s3 then s3\<lparr>control_enabled := False\<rparr> else s3)
      in publish_state E s4)"

end
