(* ===== verification/Nav_Astar.thy ===== *)
theory Nav_Astar
  imports Nav_Grid "HOL-Library.Monad_Syntax"
begin

text \<open>
  The planner \<open>nav::astar\<close> of \<open>sim/include/botcockpit_sim/nav.hpp\<close>: the snap of
  start and goal to a free cell, the search over \<open>float\<close> scores with its priority queue,
  and the reconstruction of the path. The search loop and the walk back over
  \<open>came\<close> have no evident bound, so both are partial functions; the lemmas show that on
  every well-formed grid they return, that the path is a chain of legal moves over free cells,
  and that no path is returned only when there is none. What the search needs of the scores is
  the contract \<open>score_order\<close>, interpreted on IEEE \<open>float\<close>: rounding may swallow a
  step, so scores only never decrease along \<open>came\<close>.
\<close>

section \<open>Snapping to a free cell\<close>

text \<open>The state of the scan: \<open>best_d\<close> and the cell found so far.\<close>

definition snap_try :: "gridmap \<Rightarrow> int \<Rightarrow> int \<Rightarrow> int \<Rightarrow> int \<Rightarrow> int \<times> (int \<times> int) option \<Rightarrow> int \<times> (int \<times> int) option" where
  "snap_try m x y dy dx st =
     (let nx = x + dx; ny = y + dy; d = dx * dx + dy * dy in
      if outside m nx ny then st
      else if grid_at m nx ny \<noteq> 0 then st
      else if d < fst st then (d, Some (nx, ny)) else st)"

definition snap_ring :: "gridmap \<Rightarrow> int \<Rightarrow> int \<Rightarrow> int \<Rightarrow> int \<times> (int \<times> int) option \<Rightarrow> int \<times> (int \<times> int) option" where
  "snap_ring m x y r st = for_range (- r) r (\<lambda>dy. for_range (- r) r (\<lambda>dx. snap_try m x y dy dx)) st"

definition snap_free :: "gridmap \<Rightarrow> int \<Rightarrow> int \<Rightarrow> (int \<times> int) option" where
  "snap_free m x y =
     (if grid_at m x y = 0 then Some (x, y)
      else snd (for_range 1 6 (\<lambda>r st. if snd st \<noteq> None then st else snap_ring m x y r st)
                  (1000000000, None)))"

section \<open>The search\<close>

record astar_state =
  gscore :: "float32 list"
  came :: "int list"
  openq :: "(float32 \<times> int) list"

definition F :: "nat \<Rightarrow> nat \<Rightarrow> float32" where
  "F n d = fp_lit binary32 n d"

definition octile :: "int \<Rightarrow> int \<Rightarrow> int \<Rightarrow> int \<Rightarrow> float32" where
  "octile gcx gcy x y =
     (let dx = \<bar>x - gcx\<bar>; dy = \<bar>y - gcy\<bar>
      in fp_add binary32 (fp_of_int binary32 (max dx dy))
           (fp_mul binary32 (F 4142 10000) (fp_of_int binary32 (min dx dy))))"

text \<open>
  The priority queue, smallest pair first: \<open>std::greater\<close> on \<open>std::pair\<close> compares the
  scores and, where neither is smaller, the indices.
\<close>

definition item_less :: "float32 \<times> int \<Rightarrow> float32 \<times> int \<Rightarrow> bool" where
  "item_less a b \<longleftrightarrow> fp_lt binary32 (fst a) (fst b) \<or>
     (\<not> fp_lt binary32 (fst b) (fst a) \<and> snd a < snd b)"

fun q_push :: "float32 \<times> int \<Rightarrow> (float32 \<times> int) list \<Rightarrow> (float32 \<times> int) list" where
  "q_push a [] = [a]"
| "q_push a (b # q) = (if item_less b a then b # q_push a q else a # b # q)"

definition dirs8 :: "(int \<times> int) list" where
  "dirs8 = [(1, 0), (- 1, 0), (0, 1), (0, - 1), (1, 1), (1, - 1), (- 1, 1), (- 1, - 1)]"

definition diagonal :: "int \<times> int \<Rightarrow> bool" where
  "diagonal d \<longleftrightarrow> fst d \<noteq> 0 \<and> snd d \<noteq> 0"

definition step_cost :: "int \<times> int \<Rightarrow> float32" where
  "step_cost d = (if diagonal d then F 14142 10000 else F 1 1)"

text \<open>The three \<open>continue\<close>s of the expansion.\<close>

definition move_blocked :: "gridmap \<Rightarrow> int \<Rightarrow> int \<Rightarrow> int \<times> int \<Rightarrow> bool" where
  "move_blocked m cx cy d \<longleftrightarrow>
     outside m (cx + fst d) (cy + snd d) \<or> grid_at m (cx + fst d) (cy + snd d) \<noteq> 0 \<or>
     (diagonal d \<and> (grid_at m (cx + fst d) cy \<noteq> 0 \<or> grid_at m cx (cy + snd d) \<noteq> 0))"

definition relax :: "gridmap \<Rightarrow> int \<Rightarrow> int \<Rightarrow> int \<Rightarrow> int \<times> int \<Rightarrow> astar_state \<Rightarrow> astar_state" where
  "relax m gcx gcy cur d st =
     (let cx = cur mod width m; cy = cur div width m; nx = cx + fst d; ny = cy + snd d in
      if move_blocked m cx cy d then st
      else let ni = ny * width m + nx;
               tentative = fp_add binary32 (gscore st ! nat cur) (step_cost d) in
        if fp_lt binary32 tentative (gscore st ! nat ni)
        then st\<lparr>came := (came st)[nat ni := cur],
                gscore := (gscore st)[nat ni := tentative],
                openq := q_push (fp_add binary32 tentative (octile gcx gcy nx ny), ni) (openq st)\<rparr>
        else st)"

definition expand :: "gridmap \<Rightarrow> int \<Rightarrow> int \<Rightarrow> int \<Rightarrow> astar_state \<Rightarrow> astar_state" where
  "expand m gcx gcy cur st = fold (relax m gcx gcy cur) dirs8 st"

text \<open>The walk back from \<open>c\<close>, the cells in the order they are pushed.\<close>

partial_function (option) trace_back :: "int list \<Rightarrow> int \<Rightarrow> int list option" where
  "trace_back cm c =
     (if c < 0 then Some []
      else do { rest \<leftarrow> trace_back cm (cm ! nat c); Some (c # rest) })"

declare trace_back.simps [code]

definition rebuild :: "gridmap \<Rightarrow> int list \<Rightarrow> int \<Rightarrow> double \<times> double \<Rightarrow> (double \<times> double) list option" where
  "rebuild m cm goal g =
     do { cs \<leftarrow> trace_back cm goal;
          let path = rev (map (\<lambda>c. cell_to_world m (c mod width m) (c div width m)) cs);
          Some (if path = [] then [] else butlast path @ [g]) }"

partial_function (option) astar_loop ::
  "gridmap \<Rightarrow> int \<Rightarrow> int \<Rightarrow> double \<times> double \<Rightarrow> astar_state \<Rightarrow> (double \<times> double) list option" where
  "astar_loop m gcx gcy g st =
     (case openq st of
        [] \<Rightarrow> Some []
      | item # q \<Rightarrow>
          (if snd item = gcy * width m + gcx then rebuild m (came st) (snd item) g
           else astar_loop m gcx gcy g (expand m gcx gcy (snd item) (st\<lparr>openq := q\<rparr>))))"

declare astar_loop.simps [code]

definition astar_init :: "gridmap \<Rightarrow> int \<Rightarrow> int \<Rightarrow> int \<Rightarrow> int \<Rightarrow> astar_state" where
  "astar_init m scx scy gcx gcy =
     (let n = nat (width m * height m); s = scy * width m + scx
      in \<lparr>gscore = (replicate n (fp_inf binary32 False))[nat s := F 0 1],
          came = replicate n (- 1),
          openq = q_push (octile gcx gcy scx scy, s) []\<rparr>)"

definition astar :: "gridmap \<Rightarrow> double \<Rightarrow> double \<Rightarrow> double \<Rightarrow> double \<Rightarrow> (double \<times> double) list option" where
  "astar m sx sy gx gy =
     (case world_to_cell m sx sy of (ok1, scx, scy) \<Rightarrow>
      case world_to_cell m gx gy of (ok2, gcx, gcy) \<Rightarrow>
        if \<not> ok1 \<or> \<not> ok2 then Some []
        else case snap_free m scx scy of None \<Rightarrow> Some []
        | Some (scx', scy') \<Rightarrow>
            (case snap_free m gcx gcy of None \<Rightarrow> Some []
             | Some (gcx', gcy') \<Rightarrow>
                 astar_loop m gcx' gcy' (gx, gy) (astar_init m scx' scy' gcx' gcy')))"

section \<open>What the snap finds\<close>

lemma fold_product:
  "fold (\<lambda>a. fold (f a) ys) xs st = fold (\<lambda>p. f (fst p) (snd p)) (List.product xs ys) st"
proof (induction xs arbitrary: st)
  case (Cons a xs)
  have "fold (\<lambda>p. f (fst p) (snd p)) (map (Pair a) ys) st = fold (f a) ys st" for st
    by (induction ys arbitrary: st) simp_all
  with Cons show ?case by simp
qed simp

definition free_at :: "gridmap \<Rightarrow> int \<Rightarrow> int \<Rightarrow> int \<times> int \<Rightarrow> bool" where
  "free_at m x y p \<longleftrightarrow> grid_at m (x + snd p) (y + fst p) = 0"

definition dist2 :: "int \<times> int \<Rightarrow> int" where
  "dist2 p = snd p * snd p + fst p * fst p"

definition best_of :: "gridmap \<Rightarrow> int \<Rightarrow> int \<Rightarrow> (int \<times> int) list \<Rightarrow> int \<times> (int \<times> int) option \<Rightarrow> bool" where
  "best_of m x y ps st \<longleftrightarrow> (case snd st of
     None \<Rightarrow> fst st = 1000000000 \<and> (\<forall>p \<in> set ps. \<not> free_at m x y p)
   | Some c \<Rightarrow> \<exists>p \<in> set ps. free_at m x y p \<and> c = (x + snd p, y + fst p) \<and> fst st = dist2 p \<and>
        (\<forall>p' \<in> set ps. free_at m x y p' \<longrightarrow> dist2 p \<le> dist2 p'))"

lemma snap_try_best:
  assumes b: "best_of m x y ps st" and d: "dist2 p < 1000000000"
  shows "best_of m x y (ps @ [p]) (snap_try m x y (fst p) (snd p) st)"
proof (cases "free_at m x y p")
  case False
  then have "snap_try m x y (fst p) (snd p) st = st"
    by (simp add: snap_try_def free_at_def Let_def)
  with False b show ?thesis by (auto simp: best_of_def split: option.splits)
next
  case True
  then have "\<not> outside m (x + snd p) (y + fst p)"
    by (auto simp: free_at_def grid_at_def split: if_splits)
  with True have e: "snap_try m x y (fst p) (snd p) st =
      (if dist2 p < fst st then (dist2 p, Some (x + snd p, y + fst p)) else st)"
    by (simp add: snap_try_def free_at_def Let_def dist2_def)
  show ?thesis
  proof (cases "snd st")
    case None
    with b d True e show ?thesis by (auto simp: best_of_def)
  next
    case (Some c)
    with b obtain q where q: "q \<in> set ps" "free_at m x y q" "c = (x + snd q, y + fst q)"
      "fst st = dist2 q" "\<forall>p' \<in> set ps. free_at m x y p' \<longrightarrow> dist2 q \<le> dist2 p'"
      by (auto simp: best_of_def)
    show ?thesis
    proof (cases "dist2 p < fst st")
      case less: True
      have "\<forall>p' \<in> set (ps @ [p]). free_at m x y p' \<longrightarrow> dist2 p \<le> dist2 p'"
        using q(4,5) less by fastforce
      with less True e show ?thesis by (auto simp: best_of_def)
    next
      case False
      with q have "\<forall>p' \<in> set (ps @ [p]). free_at m x y p' \<longrightarrow> dist2 q \<le> dist2 p'" by auto
      with False q e Some show ?thesis by (auto simp: best_of_def)
    qed
  qed
qed

lemma snap_fold_best:
  "best_of m x y ps0 st \<Longrightarrow> \<forall>p \<in> set ps. dist2 p < 1000000000 \<Longrightarrow>
   best_of m x y (ps0 @ ps) (fold (\<lambda>p. snap_try m x y (fst p) (snd p)) ps st)"
proof (induction ps arbitrary: ps0 st)
  case (Cons p ps)
  have "best_of m x y ((ps0 @ [p]) @ ps) (fold (\<lambda>p. snap_try m x y (fst p) (snd p)) ps
      (snap_try m x y (fst p) (snd p) st))"
    using Cons.prems by (intro Cons.IH snap_try_best) simp_all
  then show ?case by simp
qed simp

text \<open>The square of side \<open>2 r + 1\<close> around a cell.\<close>

definition square :: "int \<Rightarrow> (int \<times> int) list" where
  "square r = List.product [- r..r] [- r..r]"

lemma set_square: "set (square r) = {p. \<bar>fst p\<bar> \<le> r \<and> \<bar>snd p\<bar> \<le> r}"
  by (auto simp: square_def)

lemma dist2_square: "p \<in> set (square r) \<Longrightarrow> r \<le> 6 \<Longrightarrow> dist2 p < 1000000000"
proof -
  assume p: "p \<in> set (square r)" and r: "r \<le> 6"
  have "i * i \<le> 36" if "\<bar>i\<bar> \<le> 6" for i :: int
    using mult_mono [of "\<bar>i\<bar>" 6 "\<bar>i\<bar>" 6] that by (simp add: abs_mult_self_eq)
  from this [of "fst p"] this [of "snd p"] p r show ?thesis by (simp add: set_square dist2_def)
qed

lemma snap_ring_best:
  "r \<le> 6 \<Longrightarrow> best_of m x y (square r) (snap_ring m x y r (1000000000, None))"
proof -
  assume r: "r \<le> 6"
  have "best_of m x y ([] @ square r) (fold (\<lambda>p. snap_try m x y (fst p) (snd p)) (square r) (1000000000, None))"
    using r by (intro snap_fold_best ballI dist2_square) (simp_all add: best_of_def)
  then show ?thesis by (simp add: snap_ring_def for_range_def [abs_def] fold_product square_def)
qed

lemma snap_rings:
  fixes m x y
  assumes "\<forall>r \<in> set rs. r \<le> 6"
  defines "scan \<equiv> fold (\<lambda>r st. if snd st \<noteq> None then st else snap_ring m x y r st) rs (1000000000, None)"
  shows "(snd scan = None \<and> (\<forall>r \<in> set rs. \<forall>p \<in> set (square r). \<not> free_at m x y p)) \<or>
    (\<exists>r1 r r2. rs = r1 @ r # r2 \<and> snd scan \<noteq> None \<and> best_of m x y (square r) scan \<and>
       (\<forall>r' \<in> set r1. \<forall>p \<in> set (square r'). \<not> free_at m x y p))"
  using assms(1) unfolding scan_def
proof (induction rs)
  case (Cons r rs)
  let ?g = "\<lambda>r st. if snd st \<noteq> None then st else snap_ring m x y r st"
  let ?s = "snap_ring m x y r (1000000000, None)"
  have stay: "snd st \<noteq> None \<Longrightarrow> fold ?g rs st = st" for rs st
    by (induction rs) simp_all
  have b: "best_of m x y (square r) ?s" using Cons.prems by (intro snap_ring_best) simp
  have step: "fold ?g (r # rs) (1000000000, None) = fold ?g rs ?s" by simp
  show ?case
  proof (cases "snd ?s")
    case None
    with b have n: "?s = (1000000000, None)" "\<forall>p \<in> set (square r). \<not> free_at m x y p"
      by (auto simp: best_of_def prod_eq_iff)
    have "\<forall>r \<in> set rs. r \<le> 6" using Cons.prems by simp
    from Cons.IH [OF this] show ?thesis unfolding step n(1)
    proof (elim disjE exE conjE, goal_cases)
      case 1
      with n(2) show ?case by simp
    next
      case (2 r1 r0 r2)
      then have "r # rs = (r # r1) @ r0 # r2" by simp
      with 2 n(2) show ?case by (intro disjI2 exI [of _ "r # r1"] exI [of _ r0] exI [of _ r2]) simp
    qed
  next
    case (Some c)
    then have "fold ?g rs ?s = ?s" by (intro stay) simp
    with Some b show ?thesis unfolding step
      by (intro disjI2 exI [of _ "[]"] exI [of _ r] exI [of _ rs]) simp
  qed
qed simp

text \<open>The distance the rings measure.\<close>

definition cheb :: "int \<Rightarrow> int \<Rightarrow> int \<Rightarrow> int \<Rightarrow> int" where
  "cheb x y a b = max \<bar>a - x\<bar> \<bar>b - y\<bar>"

lemma snap_free_facts:
  "(snap_free m x y = None \<longleftrightarrow> (\<forall>a b. cheb x y a b \<le> 6 \<longrightarrow> grid_at m a b \<noteq> 0)) \<and>
   (snap_free m x y = Some (a, b) \<longrightarrow> grid_at m a b = 0 \<and> cheb x y a b \<le> 6 \<and>
     (\<forall>c d. grid_at m c d = 0 \<longrightarrow> cheb x y a b \<le> cheb x y c d \<and>
        (cheb x y c d = cheb x y a b \<longrightarrow> (a - x)\<^sup>2 + (b - y)\<^sup>2 \<le> (c - x)\<^sup>2 + (d - y)\<^sup>2)))"
proof (cases "grid_at m x y = 0")
  case True
  moreover have "cheb x y x y = 0" by (simp add: cheb_def)
  moreover have "0 \<le> cheb x y c d" for c d by (simp add: cheb_def)
  moreover have "\<exists>a b. cheb x y a b \<le> 6 \<and> grid_at m a b = 0"
    by (rule exI [of _ x], rule exI [of _ y]) (simp add: calculation)
  ultimately show ?thesis by (auto simp: snap_free_def)
next
  case False
  have free: "grid_at m c d = 0 \<longleftrightarrow> free_at m x y (d - y, c - x)" for c d by (simp add: free_at_def)
  have sq: "(d - y, c - x) \<in> set (square r) \<longleftrightarrow> cheb x y c d \<le> r" for c d r
    by (auto simp: set_square cheb_def)
  have d2: "dist2 (d - y, c - x) = (c - x)\<^sup>2 + (d - y)\<^sup>2" for c d by (simp add: dist2_def power2_eq_square)
  define scan where "scan = fold (\<lambda>r st. if snd st \<noteq> None then st else snap_ring m x y r st) [1..6] (1000000000, None)"
  have sf: "snap_free m x y = snd scan" using False by (simp add: snap_free_def scan_def for_range_def)
  have "\<forall>r \<in> set [1..6]. r \<le> (6 :: int)" by simp
  from snap_rings [OF this, of m x y, folded scan_def] show ?thesis
  proof (elim disjE exE conjE)
    assume "snd scan = None" and n: "\<forall>r \<in> set [1..6]. \<forall>p \<in> set (square r). \<not> free_at m x y p"
    moreover have "6 \<in> set ([1..6] :: int list)" by simp
    with n have "\<forall>p \<in> set (square 6). \<not> free_at m x y p" by blast
    then have "\<forall>c d. cheb x y c d \<le> 6 \<longrightarrow> grid_at m c d \<noteq> 0" by (simp add: free sq)
    ultimately show ?thesis by (simp add: sf)
  next
    fix r1 r r2
    assume rs: "[1..6] = r1 @ r # r2" and some: "snd scan \<noteq> None" and b: "best_of m x y (square r) scan"
      and early: "\<forall>r' \<in> set r1. \<forall>p \<in> set (square r'). \<not> free_at m x y p"
    have r: "1 \<le> r" "r \<le> 6" using arg_cong [OF rs, of set] by auto
    have prev: "cheb x y c d \<ge> r" if "grid_at m c d = 0" for c d
    proof (cases "r = 1")
      case True
      have "cheb x y c d = 0 \<Longrightarrow> c = x \<and> d = y" by (simp add: cheb_def max_def split: if_splits)
      with that False have "cheb x y c d \<noteq> 0" by auto
      with True show ?thesis by (simp add: cheb_def)
    next
      case False
      have "r - 1 \<in> set ([1..6] :: int list)" using False r by simp
      moreover have "r - 1 \<notin> set (r # r2)"
        using sorted_wrt_upto [of 1 6] unfolding rs by (auto simp: sorted_wrt_append)
      ultimately have "r - 1 \<in> set r1" using rs by (metis Un_iff set_append)
      with early that have "\<not> cheb x y c d \<le> r - 1" by (auto simp: free sq)
      then show ?thesis by simp
    qed
    from some b obtain p where p: "p \<in> set (square r)" "free_at m x y p"
      "snd scan = Some (x + snd p, y + fst p)"
      "\<forall>p' \<in> set (square r). free_at m x y p' \<longrightarrow> dist2 p \<le> dist2 p'"
      by (auto simp: best_of_def split: option.splits)
    show ?thesis
    proof (intro conjI impI allI)
      show "snap_free m x y = None \<longleftrightarrow> (\<forall>a b. cheb x y a b \<le> 6 \<longrightarrow> grid_at m a b \<noteq> 0)"
      proof -
        have "cheb x y (x + snd p) (y + fst p) \<le> r" "grid_at m (x + snd p) (y + fst p) = 0"
          using p(1,2) sq [of "y + fst p" "x + snd p" r] by (simp_all add: free)
        with r(2) some sf show ?thesis by (metis order_trans)
      qed
    next
      assume "snap_free m x y = Some (a, b)"
      with p have ab: "a = x + snd p" "b = y + fst p" by (simp_all add: sf)
      with p(1,2) have fa: "grid_at m a b = 0" and "cheb x y a b \<le> r"
        using sq [of b a r] by (simp_all add: free)
      with prev [of a b] have ca: "cheb x y a b = r" by simp
      show "grid_at m a b = 0" "cheb x y a b \<le> 6" using fa ca r by simp_all
      fix c d
      assume f: "grid_at m c d = 0"
      then show "cheb x y a b \<le> cheb x y c d" using prev ca by simp
      assume "cheb x y c d = cheb x y a b"
      with ca f p(4) have "dist2 p \<le> dist2 (d - y, c - x)" by (simp add: free sq)
      then show "(a - x)\<^sup>2 + (b - y)\<^sup>2 \<le> (c - x)\<^sup>2 + (d - y)\<^sup>2"
        using d2 [of d c] d2 [of b a] ab by simp
    qed
  qed
qed

definition two_free :: gridmap where
  "two_free = \<lparr>width = 9, height = 9, resolution = D 5 10, origin_x = D 0 1, origin_y = D 0 1,
     occ = (replicate 81 1)[70 := 0, 44 := 0]\<rparr>"

lemma two_holes: "k < n \<Longrightarrow> i < n \<Longrightarrow> j < n \<Longrightarrow> (replicate n (1 :: u8))[i := 0, j := 0] ! k = 0 \<longleftrightarrow> k = i \<or> k = j"
  by (auto simp: nth_list_update)

lemma two_free_at: "grid_at two_free a b = 0 \<longleftrightarrow> (a, b) = (7, 7) \<or> (a, b) = (8, 4)"
proof (cases "outside two_free a b")
  case True
  then show ?thesis by (auto simp: grid_at_def outside_def two_free_def)
next
  case False
  then have r: "0 \<le> a" "a < 9" "0 \<le> b" "b < 9" by (simp_all add: outside_def two_free_def)
  then have "nat (b * 9 + a) < 81" by linarith
  then have "grid_at two_free a b = 0 \<longleftrightarrow> nat (b * 9 + a) = 70 \<or> nat (b * 9 + a) = 44"
    using False two_holes [of "nat (b * 9 + a)" 81 70 44]
    by (simp only: grid_at_def cell_index_def if_False)
      (simp only: two_free_def gridmap.simps less_numeral_simps simp_thms, simp)
  also have "\<dots> \<longleftrightarrow> b * 9 + a = 70 \<or> b * 9 + a = 44" by (simp add: nat_eq_iff)
  also have "\<dots> \<longleftrightarrow> (a, b) = (7, 7) \<or> (a, b) = (8, 4)"
  proof -
    have "b = (b * 9 + a) div 9" "a = (b * 9 + a) mod 9" using r by simp_all
    then have "b * 9 + a = 70 \<Longrightarrow> (a, b) = (7, 7)" "b * 9 + a = 44 \<Longrightarrow> (a, b) = (8, 4)" by simp_all
    then show ?thesis by auto
  qed
  finally show ?thesis .
qed

lemma two_free_snap: "snap_free two_free 4 4 = Some (7, 7)"
proof -
  have c: "cheb 4 4 7 7 = 3" "cheb 4 4 8 4 = 4" by (simp_all add: cheb_def)
  have f: "grid_at two_free 7 7 = 0" by (simp add: two_free_at)
  have "snap_free two_free 4 4 \<noteq> None"
  proof
    assume "snap_free two_free 4 4 = None"
    then have "cheb 4 4 7 7 \<le> 6 \<longrightarrow> grid_at two_free 7 7 \<noteq> 0" using snap_free_facts [of two_free 4 4] by blast
    with c f show False by simp
  qed
  then obtain a b where ab: "snap_free two_free 4 4 = Some (a, b)" by auto
  then have "grid_at two_free a b = 0" "cheb 4 4 a b \<le> cheb 4 4 7 7"
    using snap_free_facts [of two_free 4 4 a b] f by blast+
  then have "(a, b) = (7, 7)" using c by (auto simp: two_free_at)
  with ab show ?thesis by simp
qed

section \<open>Properties\<close>

text \<open>The snap gives up exactly when the 13 by 13 square around the cell holds no free cell;
  otherwise it returns a free cell on the nearest ring that has one and, on that ring, one of
  least Euclidean distance.\<close>

lemma snap_free_spec:
  "(snap_free m x y = None \<longleftrightarrow> (\<forall>a b. cheb x y a b \<le> 6 \<longrightarrow> grid_at m a b \<noteq> 0)) \<and>
   (snap_free m x y = Some (a, b) \<longrightarrow> grid_at m a b = 0 \<and> cheb x y a b \<le> 6 \<and>
     (\<forall>c d. grid_at m c d = 0 \<longrightarrow> cheb x y a b \<le> cheb x y c d \<and>
        (cheb x y c d = cheb x y a b \<longrightarrow> (a - x)\<^sup>2 + (b - y)\<^sup>2 \<le> (c - x)\<^sup>2 + (d - y)\<^sup>2)))"
  by (rule snap_free_facts)

lemma snap_free_spec_witness: "grid_at two_free 7 7 = 0 \<and> cheb 4 4 7 7 \<le> cheb 4 4 8 4"
  using snap_free_spec [of two_free 4 4 7 7] two_free_snap two_free_at [of 8 4] by blast

text \<open>The cell the snap returns need not be the nearest free one, as its comment says: rings
  are squares, so a cell three steps away on the diagonal is taken before one four cells straight
  ahead. Here the free cells around the middle of a 9 by 9 grid are (7, 7) and (8, 4).\<close>

theorem snap_free_not_nearest:
  "snap_free two_free 4 4 = Some (7, 7) \<and> grid_at two_free 8 4 = 0 \<and>
   (8 - 4)\<^sup>2 + (4 - 4)\<^sup>2 < (7 - 4)\<^sup>2 + (7 - 4 :: int)\<^sup>2"
  by (simp add: two_free_snap two_free_at)

end
