(* ===== verification/Nav_Search.thy ===== *)
theory Nav_Search
  imports Nav_Astar
begin

text \<open>
  Why \<open>nav::astar\<close> returns and what it returns. \<open>score_order\<close> is what the search
  needs of its scores; its lemmas bound the number of updates of a score table and show that the
  \<open>came\<close> links stay acyclic. The interpretation on IEEE \<open>float\<close> discharges the laws
  for the additions the code performs. Over it, \<open>search_inv\<close> is the invariant of the
  loop, and the specification is reachability over legal moves, stated without the search.
\<close>

section \<open>Score tables\<close>

definition links :: "int list \<Rightarrow> (nat \<times> nat) set" where
  "links cm = {(i, nat (cm ! i)) |i. i < length cm \<and> cm ! i \<noteq> - 1}"

lemma links_update:
  "i < length cm \<Longrightarrow> links (cm[i := int c]) \<subseteq> insert (i, c) (links cm)"
  by (auto simp: links_def nth_list_update split: if_splits)

locale score_order =
  fixes lt :: "'s \<Rightarrow> 's \<Rightarrow> bool"
    and infty :: 's
    and good :: "'s \<Rightarrow> bool"
    and plus :: "'s \<Rightarrow> 'd \<Rightarrow> 's"
    and rank :: "'s \<Rightarrow> nat"
  assumes good_plus: "good a \<Longrightarrow> good (plus a d)"
    and good_lt_infty: "good a \<Longrightarrow> lt a infty"
    and plus_ge: "good a \<Longrightarrow> rank a \<le> rank (plus a d)"
    and lt_rank: "good a \<Longrightarrow> good b \<or> b = infty \<Longrightarrow> lt a b \<longleftrightarrow> rank a < rank b"
    and infty_not_good: "\<not> good infty"
begin

text \<open>A table and its links: a linked cell and its predecessor are scored, in order.\<close>

definition table_ok :: "'s list \<Rightarrow> int list \<Rightarrow> bool" where
  "table_ok gs cm \<longleftrightarrow> length cm = length gs \<and> (\<forall>i < length gs. good (gs ! i) \<or> gs ! i = infty) \<and>
     (\<forall>i < length gs. cm ! i = - 1 \<or>
        (0 \<le> cm ! i \<and> nat (cm ! i) < length gs \<and> good (gs ! i) \<and> good (gs ! nat (cm ! i)) \<and>
         rank (gs ! nat (cm ! i)) \<le> rank (gs ! i))) \<and> acyclic (links cm)"

definition weight :: "'s list \<Rightarrow> nat" where
  "weight gs = sum_list (map rank gs)"

lemma links_rank:
  assumes t: "table_ok gs cm" and "(i, j) \<in> (links cm)\<^sup>*"
  shows "rank (gs ! j) \<le> rank (gs ! i)"
  using assms(2)
proof (induction rule: rtrancl_induct)
  case (step j k)
  then have "rank (gs ! k) \<le> rank (gs ! j)"
    using t by (auto simp: table_ok_def links_def)
  with step.IH show ?case by simp
qed simp

lemma weight_update:
  assumes "i < length gs" and "rank v < rank (gs ! i)"
  shows "weight (gs[i := v]) < weight gs"
proof -
  have "gs = take i gs @ gs ! i # drop (Suc i) gs" using assms(1) by (simp add: id_take_nth_drop)
  then have "weight gs = sum_list (map rank (take i gs @ gs ! i # drop (Suc i) gs))"
    unfolding weight_def by (rule arg_cong)
  moreover have "gs[i := v] = take i gs @ v # drop (Suc i) gs" using assms(1) by (simp add: upd_conv_take_nth_drop)
  ultimately show ?thesis using assms(2) by (simp add: weight_def)
qed

lemma table_update:
  assumes t: "table_ok gs cm" and i: "i < length gs" and c: "c < length gs" and g: "good (gs ! c)"
    and lt: "lt (plus (gs ! c) d) (gs ! i)"
  defines "v \<equiv> plus (gs ! c) d"
  shows "table_ok (gs[i := v]) (cm[i := int c])" and "weight (gs[i := v]) < weight gs" and "c \<noteq> i"
proof -
  have gv: "good v" and cv: "rank (gs ! c) \<le> rank v" using g good_plus plus_ge by (simp_all add: v_def)
  have "good (gs ! i) \<or> gs ! i = infty" using t i by (simp add: table_ok_def)
  then have vi: "rank v < rank (gs ! i)" using lt lt_rank gv by (simp add: v_def)
  show "weight (gs[i := v]) < weight gs" using i vi by (rule weight_update)
  show ci: "c \<noteq> i" using cv vi by auto
  have len: "length cm = length gs" using t by (simp add: table_ok_def)
  have "(c, i) \<notin> (links cm)\<^sup>*"
    using links_rank [OF t, of c i] cv vi by auto
  moreover have "acyclic (links cm)" using t by (simp add: table_ok_def)
  ultimately have "acyclic (insert (i, c) (links cm))" by (simp add: acyclic_insert)
  then have ac: "acyclic (links (cm[i := int c]))"
    using links_update [of i cm c] i len by (auto intro: acyclic_subset)
  have entry: "cm[i := int c] ! k = - 1 \<or>
        (0 \<le> cm[i := int c] ! k \<and> nat (cm[i := int c] ! k) < length gs \<and> good (gs[i := v] ! k) \<and>
         good (gs[i := v] ! nat (cm[i := int c] ! k)) \<and>
         rank (gs[i := v] ! nat (cm[i := int c] ! k)) \<le> rank (gs[i := v] ! k))"
    if "k < length gs" for k
  proof (cases "k = i")
    case True
    with i c g gv cv ci len show ?thesis by simp
  next
    case False
    from t that have o: "cm ! k = - 1 \<or>
        (0 \<le> cm ! k \<and> nat (cm ! k) < length gs \<and> good (gs ! k) \<and> good (gs ! nat (cm ! k)) \<and>
         rank (gs ! nat (cm ! k)) \<le> rank (gs ! k))" by (simp add: table_ok_def)
    show ?thesis
    proof (cases "nat (cm ! k) = i")
      case True
      with o False gv vi i that len show ?thesis by auto
    next
      case neq: False
      with o False that len show ?thesis by auto
    qed
  qed
  have "\<forall>k < length gs. good (gs[i := v] ! k) \<or> gs[i := v] ! k = infty"
    using t gv i unfolding table_ok_def by (auto simp: nth_list_update)
  with entry ac len show "table_ok (gs[i := v]) (cm[i := int c])" by (simp add: table_ok_def)
qed

end

section \<open>Scores in \<open>float\<close>\<close>

text \<open>
  A score of a cell is a finite non-negative \<open>float\<close> of at most \<open>2 ^ 25\<close>: from
  there on a step is below half a unit in the last place, and the sum is rounded back.
\<close>

definition cap :: float32 where
  "cap = F 33554432 1"

definition good_score :: "float32 \<Rightarrow> bool" where
  "good_score s \<longleftrightarrow> 0 \<le> fkey s \<and> fkey s \<le> fkey cap"

definition score_rank :: "float32 \<Rightarrow> nat" where
  "score_rank s = nat (fkey s)"

definition score_plus :: "float32 \<Rightarrow> int \<times> int \<Rightarrow> float32" where
  "score_plus s d = fp_add binary32 s (step_cost d)"

lemma cap_eq: "cap = Fp False 1275068416"
proof -
  have "ratio_log 33554432 1 = 25" by (simp add: ratio_log_def nbits_eval)
  then have "round_mag binary32 33554432 1 0 = 1275068416"
    by (subst round_mag_eval [OF _ refl refl refl refl refl]) simp_all
  then show ?thesis by (simp add: cap_def F_def fp_lit_def)
qed

lemma step_cost_cases: "step_cost d = Fp False 1068827777 \<or> step_cost d = Fp False 1065353216"
proof -
  have "ratio_log 14142 10000 = 0" "ratio_log 1 1 = 0" by (simp_all add: ratio_log_def nbits_eval)
  then have "round_mag binary32 14142 10000 0 = 1068827777" "round_mag binary32 1 1 0 = 1065353216"
    by (subst round_mag_eval [OF _ refl refl refl refl refl]; simp)+
  then show ?thesis by (simp add: step_cost_def F_def fp_lit_def)
qed

lemma step_cost_fin: "is_fin binary32 (step_cost d)" and step_cost_nonneg: "0 \<le> fkey (step_cost d)"
  using step_cost_cases [of d]
  by (auto simp: is_fin_def top_mag_def binary32_def fkey_def)

lemma good_score_fin: "good_score s \<Longrightarrow> is_fin binary32 s"
  by (auto simp: good_score_def cap_eq is_fin_def top_mag_def binary32_def fkey_def split: if_splits)

lemma fp_val_32:
  "fp_val binary32 (Fp False k) =
     (if k < 2 ^ 23 then real k else real (2 ^ 23 + k mod 2 ^ 23) * 2 powi (int (k div 2 ^ 23) - 1))"
  by (simp add: fp_val_sman_exp fp_sman_def fp_man_def fp_exp_def binary32_def)

lemma below_cap_plus: "fp_val binary32 (Fp False 1275068415) + fp_val binary32 (step_cost d) \<le> fp_val binary32 cap"
  using step_cost_cases [of d] by (auto simp: fp_val_32 cap_eq)

lemma cap_plus: "fp_add binary32 cap (step_cost d) = cap"
proof -
  have "ratio_log 281474988573825 1 = 48" "ratio_log 281474985099264 1 = 48"
    by (simp_all add: ratio_log_def nbits_eval)
  then have "round_mag binary32 281474988573825 1 (- 23) = 1275068416"
    "round_mag binary32 281474985099264 1 (- 23) = 1275068416"
    by (subst round_mag_eval [OF _ refl refl refl refl refl]; simp)+
  with step_cost_cases [of d] show ?thesis
    by (auto simp: cap_eq fp_add_def is_nan_def is_inf_def fp_exp_def fp_sman_def fp_man_def)
qed

lemma good_score_plus: "good_score s \<Longrightarrow> good_score (score_plus s d) \<and> fkey s \<le> fkey (score_plus s d)"
proof
  assume g: "good_score s"
  have ge: "fp_le binary32 s (score_plus s d)"
    unfolding score_plus_def by (rule fp_add_nonneg_ge [OF good_score_fin [OF g] step_cost_fin step_cost_nonneg])
  then show k: "fkey s \<le> fkey (score_plus s d)" by (simp add: fp_le_def)
  have "fkey (score_plus s d) \<le> fkey cap"
  proof (cases "s = cap")
    case True
    then show ?thesis by (simp add: score_plus_def cap_plus)
  next
    case False
    with g have "fkey s \<noteq> fkey cap" by (cases s) (auto simp: good_score_def cap_eq fkey_def split: if_splits)
    with g have "fkey s \<le> fkey (Fp False 1275068415)" by (simp add: good_score_def cap_eq fkey_def)
    then have "fp_val binary32 s \<le> fp_val binary32 (Fp False 1275068415)"
      by (simp only: fkey_le_iff [where f = binary32])
    with below_cap_plus [of d] have "fp_val binary32 s + fp_val binary32 (step_cost d) \<le> fp_val binary32 cap"
      by linarith
    then have "fp_le binary32 (score_plus s d) cap"
      unfolding score_plus_def
      by (rule fp_add_le [OF good_score_fin [OF g] step_cost_fin]) (simp add: cap_eq top_mag_def binary32_def)
    then show ?thesis by (simp add: fp_le_def)
  qed
  with g k show "good_score (score_plus s d)" by (simp add: good_score_def)
qed

interpretation float_scores:
  score_order "fp_lt binary32" "fp_inf binary32 False" good_score score_plus score_rank
proof
  fix a d
  assume g: "good_score a"
  show "good_score (score_plus a d)" using good_score_plus [OF g] by simp
  show "score_rank a \<le> score_rank (score_plus a d)"
    using good_score_plus [OF g, of d] by (simp add: score_rank_def nat_mono)
next
  fix a
  assume g: "good_score a"
  then show "fp_lt binary32 a (fp_inf binary32 False)"
    using is_fin_not_nan [OF good_score_fin [OF g]]
    by (simp add: fp_lt_def fp_inf_def is_nan_def fkey_def good_score_def cap_eq top_mag_def binary32_def)
next
  fix a b
  assume g: "good_score a" and b: "good_score b \<or> b = fp_inf binary32 False"
  have "\<not> is_nan binary32 a" by (rule is_fin_not_nan [OF good_score_fin [OF g]])
  moreover have "\<not> is_nan binary32 b" using b is_fin_not_nan [OF good_score_fin, of b]
    by (auto simp: fp_inf_def is_nan_def)
  moreover have "0 \<le> fkey b" using b by (auto simp: good_score_def fp_inf_def fkey_def)
  ultimately show "fp_lt binary32 a b \<longleftrightarrow> score_rank a < score_rank b"
    using g by (auto simp: fp_lt_def score_rank_def good_score_def)
next
  show "\<not> good_score (fp_inf binary32 False)"
    by (simp add: good_score_def fp_inf_def fkey_def cap_eq top_mag_def binary32_def)
qed

section \<open>The specification: legal moves\<close>

text \<open>
  One king's move onto a free cell; a diagonal one only between two free cells, so that the
  robot does not cut a corner.
\<close>

definition legal_move :: "gridmap \<Rightarrow> int \<times> int \<Rightarrow> int \<times> int \<Rightarrow> bool" where
  "legal_move m a b \<longleftrightarrow> a \<noteq> b \<and> \<bar>fst b - fst a\<bar> \<le> 1 \<and> \<bar>snd b - snd a\<bar> \<le> 1 \<and>
     grid_at m (fst b) (snd b) = 0 \<and>
     (fst a \<noteq> fst b \<and> snd a \<noteq> snd b \<longrightarrow>
        grid_at m (fst b) (snd a) = 0 \<and> grid_at m (fst a) (snd b) = 0)"

inductive reachable :: "gridmap \<Rightarrow> int \<times> int \<Rightarrow> int \<times> int \<Rightarrow> bool" for m s where
  start: "reachable m s s"
| move: "reachable m s a \<Longrightarrow> legal_move m a b \<Longrightarrow> reachable m s b"

lemma set_dirs8: "d \<in> set dirs8 \<longleftrightarrow> d \<noteq> (0, 0) \<and> \<bar>fst d\<bar> \<le> 1 \<and> \<bar>snd d\<bar> \<le> 1"
proof -
  have "\<bar>i\<bar> \<le> 1 \<longleftrightarrow> i = - 1 \<or> i = 0 \<or> i = 1" for i :: int by arith
  then show ?thesis by (cases d) (auto simp: dirs8_def)
qed

lemma grid_at_inside: "grid_at m x y = 0 \<Longrightarrow> \<not> outside m x y"
  by (auto simp: grid_at_def split: if_splits)

lemma legal_iff_dir:
  "legal_move m (x, y) b \<longleftrightarrow> (\<exists>d \<in> set dirs8. b = (x + fst d, y + snd d) \<and> \<not> move_blocked m x y d)"
proof
  assume l: "legal_move m (x, y) b"
  have "(fst b - x, snd b - y) \<in> set dirs8" using l
    unfolding set_dirs8 by (cases b) (auto simp: legal_move_def)
  moreover have "\<not> move_blocked m x y (fst b - x, snd b - y)" using l
    by (auto simp: legal_move_def move_blocked_def diagonal_def dest: grid_at_inside)
  ultimately show "\<exists>d \<in> set dirs8. b = (x + fst d, y + snd d) \<and> \<not> move_blocked m x y d"
    by (intro bexI [of _ "(fst b - x, snd b - y)"]) simp_all
next
  assume "\<exists>d \<in> set dirs8. b = (x + fst d, y + snd d) \<and> \<not> move_blocked m x y d"
  then show "legal_move m (x, y) b"
    by (auto simp: set_dirs8 legal_move_def move_blocked_def diagonal_def prod_eq_iff)
qed

definition cell_of :: "gridmap \<Rightarrow> int \<Rightarrow> int \<times> int" where
  "cell_of m c = (c mod width m, c div width m)"

definition index_of :: "gridmap \<Rightarrow> int \<times> int \<Rightarrow> int" where
  "index_of m p = snd p * width m + fst p"

definition cells :: "gridmap \<Rightarrow> int" where
  "cells m = width m * height m"

lemma index_of_facts:
  assumes "\<not> outside m (fst p) (snd p)"
  shows "0 \<le> index_of m p" and "index_of m p < cells m" and "cell_of m (index_of m p) = p"
proof -
  have b: "0 \<le> fst p" "fst p < width m" "0 \<le> snd p" "snd p < height m"
    using assms by (simp_all add: outside_def)
  then show "0 \<le> index_of m p" by (simp add: index_of_def)
  have "index_of m p < (snd p + 1) * width m" using b by (simp add: index_of_def algebra_simps)
  also have "\<dots> \<le> height m * width m" using b by (intro mult_right_mono) simp_all
  finally show "index_of m p < cells m" by (simp add: cells_def mult.commute)
  show "cell_of m (index_of m p) = p" using b
    by (simp add: cell_of_def index_of_def prod_eq_iff div_add1_eq)
qed

lemma cell_of_facts:
  assumes "grid_ok m" and "0 \<le> c" and "c < cells m"
  shows "\<not> outside m (fst (cell_of m c)) (snd (cell_of m c))" and "index_of m (cell_of m c) = c"
proof -
  have w: "0 < width m" using assms(1) by (simp add: grid_ok_def)
  have "c div width m * width m \<le> c"
    using w div_mult_mod_eq [of c "width m"] pos_mod_sign [of "width m" c] by linarith
  with assms(3) have "c div width m * width m < height m * width m"
    by (simp add: cells_def mult.commute)
  with w have "c div width m < height m" by (simp add: mult_less_cancel_right)
  then show "\<not> outside m (fst (cell_of m c)) (snd (cell_of m c))"
    using assms w by (simp add: outside_def cell_of_def pos_imp_zdiv_nonneg_iff not_less not_le)
  show "index_of m (cell_of m c) = c" by (simp add: index_of_def cell_of_def)
qed

section \<open>The invariant of the search\<close>

definition visited :: "astar_state \<Rightarrow> nat \<Rightarrow> bool" where
  "visited st i \<longleftrightarrow> i < length (gscore st) \<and> good_score (gscore st ! i)"

definition search_inv :: "gridmap \<Rightarrow> int \<times> int \<Rightarrow> astar_state \<Rightarrow> bool" where
  "search_inv m s st \<longleftrightarrow>
     grid_ok m \<and> \<not> outside m (fst s) (snd s) \<and> int (length (gscore st)) = cells m \<and>
     float_scores.table_ok (gscore st) (came st) \<and>
     (\<forall>i. visited st i \<longrightarrow> reachable m s (cell_of m (int i)) \<and>
        (came st ! i = - 1 \<longleftrightarrow> int i = index_of m s)) \<and>
     (\<forall>i. visited st i \<and> came st ! i \<noteq> - 1 \<longrightarrow>
        legal_move m (cell_of m (came st ! i)) (cell_of m (int i))) \<and>
     visited st (nat (index_of m s)) \<and> fkey (gscore st ! nat (index_of m s)) = 0 \<and>
     (\<forall>q \<in> set (openq st). 0 \<le> snd q \<and> visited st (nat (snd q)))"

text \<open>Cells still to expand, and cells whose neighbours have all been scored.\<close>

definition pending :: "astar_state \<Rightarrow> nat \<Rightarrow> bool" where
  "pending st i \<longleftrightarrow> int i \<in> snd ` set (openq st)"

definition closed :: "gridmap \<Rightarrow> astar_state \<Rightarrow> nat \<Rightarrow> bool" where
  "closed m st i \<longleftrightarrow> (\<forall>b. legal_move m (cell_of m (int i)) b \<longrightarrow> visited st (nat (index_of m b)))"

text \<open>What an expansion may do to the state.\<close>

definition extends :: "astar_state \<Rightarrow> astar_state \<Rightarrow> bool" where
  "extends st st' \<longleftrightarrow>
     (\<forall>i. visited st i \<longrightarrow> visited st' i) \<and> set (openq st) \<subseteq> set (openq st') \<and>
     (\<forall>i. visited st' i \<longrightarrow> visited st i \<or> pending st' i) \<and>
     (st' = st \<or> float_scores.weight (gscore st') < float_scores.weight (gscore st))"

lemma extends_refl: "extends st st"
  by (simp add: extends_def)

lemma pending_mono: "set (openq a) \<subseteq> set (openq b) \<Longrightarrow> pending a i \<Longrightarrow> pending b i"
  by (auto simp: pending_def)

lemma extends_trans: "extends a b \<Longrightarrow> extends b c \<Longrightarrow> extends a c"
  unfolding extends_def using pending_mono [of b c] by (metis less_trans subset_trans)

lemma set_q_push [simp]: "set (q_push a q) = insert a (set q)"
  by (induction q) auto

lemma visited_scored: "search_inv m s st \<Longrightarrow> i < length (gscore st) \<Longrightarrow>
  visited st i \<or> gscore st ! i = fp_inf binary32 False"
  by (auto simp: search_inv_def visited_def float_scores.table_ok_def)

text \<open>One relaxation.\<close>

lemma relax_blocked: "move_blocked m (cur mod width m) (cur div width m) d \<Longrightarrow> relax m gx gy cur d st = st"
  by (simp add: relax_def Let_def)

lemma relax_step:
  assumes inv: "search_inv m s st" and cur: "visited st (nat cur)" "0 \<le> cur" and d: "d \<in> set dirs8"
  shows "search_inv m s (relax m gx gy cur d st) \<and> extends st (relax m gx gy cur d st) \<and>
    (\<forall>b. b = (fst (cell_of m cur) + fst d, snd (cell_of m cur) + snd d) \<and>
       \<not> move_blocked m (fst (cell_of m cur)) (snd (cell_of m cur)) d \<longrightarrow>
       visited (relax m gx gy cur d st) (nat (index_of m b)))"
proof (cases "move_blocked m (fst (cell_of m cur)) (snd (cell_of m cur)) d")
  case True
  then have "relax m gx gy cur d st = st" by (intro relax_blocked) (simp add: cell_of_def)
  with True inv show ?thesis by (simp add: extends_refl)
next
  case False
  define b where "b = (fst (cell_of m cur) + fst d, snd (cell_of m cur) + snd d)"
  define ni where "ni = nat (index_of m b)"
  define t where "t = score_plus (gscore st ! nat cur) d"
  have len: "int (length (gscore st)) = cells m" and ok: "grid_ok m" and
    tab: "float_scores.table_ok (gscore st) (came st)" using inv by (simp_all add: search_inv_def)
  have curN: "nat cur < length (gscore st)" and cg: "good_score (gscore st ! nat cur)"
    using cur by (simp_all add: visited_def)
  have move: "legal_move m (cell_of m cur) b"
    using False d legal_iff_dir [of m "fst (cell_of m cur)" "snd (cell_of m cur)" b]
    by (auto simp: b_def)
  then have out: "\<not> outside m (fst b) (snd b)" by (simp add: legal_move_def grid_at_inside)
  note ib = index_of_facts [OF out]
  have niN: "ni < length (gscore st)" using ib(1,2) len by (simp add: ni_def)
  have ini: "int ni = index_of m b" using ib(1) by (simp add: ni_def)
  then have cb: "cell_of m (int ni) = b" using ib(3) by simp
  have gt: "good_score t" using good_score_plus [OF cg] by (simp add: t_def)
  have rel: "relax m gx gy cur d st =
      (if fp_lt binary32 t (gscore st ! ni)
       then st\<lparr>came := (came st)[ni := cur], gscore := (gscore st)[ni := t],
               openq := q_push (fp_add binary32 t (octile gx gy (fst b) (snd b)), index_of m b) (openq st)\<rparr>
       else st)"
    using False by (simp add: relax_def Let_def cell_of_def ni_def index_of_def b_def t_def score_plus_def)
  show ?thesis
  proof (cases "fp_lt binary32 t (gscore st ! ni)")
    case False
    have "visited st ni"
      using visited_scored [OF inv niN] False float_scores.good_lt_infty [OF gt] by auto
    moreover have "relax m gx gy cur d st = st" using rel False by simp
    ultimately show ?thesis using inv by (simp add: extends_refl ni_def b_def)
  next
    case True
    define st' where "st' = st\<lparr>came := (came st)[ni := cur], gscore := (gscore st)[ni := t],
               openq := q_push (fp_add binary32 t (octile gx gy (fst b) (snd b)), index_of m b) (openq st)\<rparr>"
    have r: "relax m gx gy cur d st = st'" using rel True by (simp add: st'_def)
    have ci: "int (nat cur) = cur" using cur(2) by simp
    note upd = float_scores.table_update [OF tab niN curN cg, of d, folded t_def, OF True, unfolded ci]
    have vis: "visited st' i \<longleftrightarrow> visited st i \<or> i = ni" for i
      using niN gt by (auto simp: visited_def st'_def nth_list_update)
    have lc: "length (came st) = length (gscore st)" using tab by (simp add: float_scores.table_ok_def)
    have si: "0 \<le> index_of m s" and sv: "visited st (nat (index_of m s))" and s0: "fkey (gscore st ! nat (index_of m s)) = 0"
      using inv index_of_facts [of m s] by (simp_all add: search_inv_def)
    have ns: "ni \<noteq> nat (index_of m s)"
      using True s0 gt by (auto simp: fp_lt_def good_score_def)
    have reach: "reachable m s b"
      using inv cur move ci by (auto simp: search_inv_def intro: reachable.move)
    have ext: "extends st st'"
      using vis upd(2) by (auto simp: extends_def pending_def st'_def ini)
    have "search_inv m s st'"
      unfolding search_inv_def
    proof (intro conjI allI impI ballI)
      show "float_scores.table_ok (gscore st') (came st')" using upd(1) by (simp add: st'_def)
      show "visited st' (nat (index_of m s))" using vis sv by simp
      show "fkey (gscore st' ! nat (index_of m s)) = 0" using s0 ns by (simp add: st'_def)
    next
      fix i assume v: "visited st' i"
      show "reachable m s (cell_of m (int i))" using v vis inv reach cb by (auto simp: search_inv_def)
      show "came st' ! i = - 1 \<longleftrightarrow> int i = index_of m s"
      proof (cases "i = ni")
        case True
        then show ?thesis using niN lc cur(2) ns si by (auto simp: st'_def)
      next
        case False
        then show ?thesis using v vis inv by (auto simp: search_inv_def st'_def)
      qed
    next
      fix i assume v: "visited st' i \<and> came st' ! i \<noteq> - 1"
      show "legal_move m (cell_of m (came st' ! i)) (cell_of m (int i))"
      proof (cases "i = ni")
        case True
        then show ?thesis using niN lc move cb by (simp add: st'_def)
      next
        case False
        then show ?thesis using v vis inv by (auto simp: search_inv_def st'_def)
      qed
    next
      fix q assume "q \<in> set (openq st')"
      then have "q \<in> set (openq st) \<or> snd q = index_of m b" by (auto simp: st'_def)
      then show "0 \<le> snd q" "visited st' (nat (snd q))"
        using inv ib(1) vis ni_def by (auto simp: search_inv_def)
    qed (use inv in \<open>simp_all add: search_inv_def st'_def\<close>)
    with ext vis r show ?thesis by (simp add: ni_def b_def)
  qed
qed

text \<open>A whole expansion.\<close>

lemma relax_fold:
  assumes "search_inv m s st" and "visited st (nat cur)" "0 \<le> cur" and "set ds \<subseteq> set dirs8"
  shows "search_inv m s (fold (relax m gx gy cur) ds st) \<and> extends st (fold (relax m gx gy cur) ds st) \<and>
    (\<forall>d \<in> set ds. \<not> move_blocked m (fst (cell_of m cur)) (snd (cell_of m cur)) d \<longrightarrow>
       visited (fold (relax m gx gy cur) ds st)
         (nat (index_of m (fst (cell_of m cur) + fst d, snd (cell_of m cur) + snd d))))"
  using assms
proof (induction ds arbitrary: st)
  case Nil
  then show ?case by (simp add: extends_refl)
next
  case (Cons d ds)
  let ?st1 = "relax m gx gy cur d st"
  have d: "d \<in> set dirs8" "set ds \<subseteq> set dirs8" using Cons.prems(4) by simp_all
  note one = relax_step [OF Cons.prems(1-3) d(1), of gx gy]
  then have "visited ?st1 (nat cur)" using Cons.prems(2) by (simp add: extends_def)
  note rest = Cons.IH [OF conjunct1 [OF one] this Cons.prems(3) d(2)]
  have e: "fold (relax m gx gy cur) (d # ds) st = fold (relax m gx gy cur) ds ?st1" by simp
  have "extends st (fold (relax m gx gy cur) ds ?st1)"
    using one rest extends_trans by blast
  with one rest show ?case unfolding e by (auto simp: extends_def)
qed

lemma expand_step:
  assumes "search_inv m s st" and "visited st (nat cur)" "0 \<le> cur"
  shows "search_inv m s (expand m gx gy cur st)" and "extends st (expand m gx gy cur st)"
    and "closed m (expand m gx gy cur st) (nat cur)"
proof -
  note f = relax_fold [OF assms order_refl, of gx gy, folded expand_def]
  then show "search_inv m s (expand m gx gy cur st)" "extends st (expand m gx gy cur st)" by simp_all
  show "closed m (expand m gx gy cur st) (nat cur)"
    unfolding closed_def
  proof (intro allI impI)
    fix b assume "legal_move m (cell_of m (int (nat cur))) b"
    then have "legal_move m (fst (cell_of m cur), snd (cell_of m cur)) b" using assms(3) by simp
    with f show "visited (expand m gx gy cur st) (nat (index_of m b))" unfolding legal_iff_dir by auto
  qed
qed

section \<open>The walk back\<close>

lemma search_links:
  assumes inv: "search_inv m s st" and v: "visited st i" and i: "int i \<noteq> index_of m s"
  shows "visited st (nat (came st ! i))" and "0 \<le> came st ! i" and "(i, nat (came st ! i)) \<in> links (came st)"
    and "legal_move m (cell_of m (came st ! i)) (cell_of m (int i))"
proof -
  have c: "came st ! i \<noteq> - 1" using inv v i by (simp add: search_inv_def)
  have t: "float_scores.table_ok (gscore st) (came st)" using inv by (simp add: search_inv_def)
  have n: "i < length (gscore st)" using v by (simp add: visited_def)
  with t c show "0 \<le> came st ! i" "visited st (nat (came st ! i))"
    by (auto simp: float_scores.table_ok_def visited_def)
  from t c n show "(i, nat (came st ! i)) \<in> links (came st)"
    by (auto simp: float_scores.table_ok_def links_def)
  from inv v c show "legal_move m (cell_of m (came st ! i)) (cell_of m (int i))"
    by (simp add: search_inv_def)
qed

lemma links_finite: "finite (links cm)"
proof -
  have "links cm \<subseteq> (\<lambda>i. (i, nat (cm ! i))) ` {..<length cm}" by (auto simp: links_def)
  then show ?thesis by (rule finite_subset) simp
qed

definition walk :: "gridmap \<Rightarrow> int \<times> int \<Rightarrow> int \<Rightarrow> int list \<Rightarrow> bool" where
  "walk m s c cs \<longleftrightarrow> cs \<noteq> [] \<and> hd cs = c \<and> last cs = index_of m s \<and> distinct cs \<and>
     successively (\<lambda>a b. legal_move m (cell_of m b) (cell_of m a)) cs"

lemma trace_back_walk:
  assumes inv: "search_inv m s st"
  shows "visited st i \<Longrightarrow> \<exists>cs. trace_back (came st) (int i) = Some cs \<and> walk m s (int i) cs \<and>
    (\<forall>c \<in> set cs. 0 \<le> c \<and> c < cells m \<and> (i, nat c) \<in> (links (came st))\<^sup>*)"
proof -
  have ac: "acyclic (links (came st))" using inv by (simp add: search_inv_def float_scores.table_ok_def)
  then have "wf ((links (came st))\<inverse>)"
    by (rule finite_acyclic_wf_converse [OF links_finite])
  then show "visited st i \<Longrightarrow> \<exists>cs. trace_back (came st) (int i) = Some cs \<and> walk m s (int i) cs \<and>
    (\<forall>c \<in> set cs. 0 \<le> c \<and> c < cells m \<and> (i, nat c) \<in> (links (came st))\<^sup>*)"
  proof (induction i)
    case (less i)
    have icells: "int i < cells m" using inv less.prems by (auto simp: search_inv_def visited_def)
    show ?case
    proof (cases "int i = index_of m s")
      case True
      then have "came st ! i = - 1" using inv less.prems by (simp add: search_inv_def)
      then have "trace_back (came st) (int i) = Some [int i]"
        by (simp add: trace_back.simps [of _ "int i"] trace_back.simps [of _ "- 1"])
      with icells show ?thesis by (simp add: walk_def True [symmetric])
    next
      case False
      note l = search_links [OF inv less.prems False]
      from l(3) have "(nat (came st ! i), i) \<in> (links (came st))\<inverse>" by simp
      from less.IH [OF this l(1)] l(2) obtain cs where cs: "trace_back (came st) (came st ! i) = Some cs"
        "walk m s (came st ! i) cs" "\<forall>c \<in> set cs. 0 \<le> c \<and> c < cells m \<and> (nat (came st ! i), nat c) \<in> (links (came st))\<^sup>*"
        by auto
      have "trace_back (came st) (int i) = Some (int i # cs)"
        by (simp add: trace_back.simps [of _ "int i"] cs(1))
      moreover have plus: "\<forall>c \<in> set cs. (i, nat c) \<in> (links (came st))\<^sup>+"
        using cs(3) l(3) by (auto intro: rtrancl_into_trancl2)
      then have "int i \<notin> set cs" using ac by (auto simp: acyclic_def)
      with cs(2) l(4) have "walk m s (int i) (int i # cs)"
        by (auto simp: walk_def successively_Cons)
      moreover have "\<forall>c \<in> set (int i # cs). 0 \<le> c \<and> c < cells m \<and> (i, nat c) \<in> (links (came st))\<^sup>*"
        using cs(3) plus icells by auto
      ultimately show ?thesis by blast
    qed
  qed
qed

section \<open>The loop\<close>

definition route :: "gridmap \<Rightarrow> int \<times> int \<Rightarrow> int \<times> int \<Rightarrow> double \<times> double \<Rightarrow> (double \<times> double) list \<Rightarrow> bool" where
  "route m s g gw path \<longleftrightarrow> (\<exists>cs. cs \<noteq> [] \<and> hd cs = s \<and> last cs = g \<and> distinct cs \<and>
     successively (legal_move m) cs \<and>
     path = map (\<lambda>c. cell_to_world m (fst c) (snd c)) (butlast cs) @ [gw])"

lemma rebuild_route:
  assumes inv: "search_inv m s st" and g: "visited st (nat (index_of m g))" "\<not> outside m (fst g) (snd g)"
  shows "\<exists>path. rebuild m (came st) (index_of m g) gw = Some path \<and> path \<noteq> [] \<and> route m s g gw path"
proof -
  have ok: "grid_ok m" and s: "\<not> outside m (fst s) (snd s)" using inv by (simp_all add: search_inv_def)
  note gi = index_of_facts [OF g(2)]
  from trace_back_walk [OF inv g(1)] gi obtain cs where
    tb: "trace_back (came st) (index_of m g) = Some cs" and w: "walk m s (index_of m g) cs"
    and rng: "\<forall>c \<in> set cs. 0 \<le> c \<and> c < cells m" by auto
  let ?cells = "map (cell_of m) (rev cs)"
  have inj: "inj_on (cell_of m) (set cs)"
    using rng by (intro inj_on_inverseI [of _ "index_of m"] cell_of_facts(2) [OF ok]) auto
  have ne: "cs \<noteq> []" using w by (simp add: walk_def)
  have "hd ?cells = s" using w ne index_of_facts(3) [OF s] by (simp add: walk_def hd_rev hd_map)
  moreover have "last ?cells = g" using w ne gi(3) by (simp add: walk_def last_rev last_map)
  moreover have "distinct ?cells" using w inj by (simp add: walk_def distinct_map)
  moreover have "successively (legal_move m) ?cells"
    using w by (simp add: walk_def successively_map successively_rev)
  moreover have "rebuild m (came st) (index_of m g) gw =
      Some (map (\<lambda>c. cell_to_world m (fst c) (snd c)) (butlast ?cells) @ [gw])"
    using ne by (simp add: rebuild_def tb cell_of_def map_butlast rev_map comp_def)
  moreover have "?cells \<noteq> []" using ne by simp
  ultimately have "rebuild m (came st) (index_of m g) gw =
      Some (map (\<lambda>c. cell_to_world m (fst c) (snd c)) (butlast ?cells) @ [gw])"
    and "route m s g gw (map (\<lambda>c. cell_to_world m (fst c) (snd c)) (butlast ?cells) @ [gw])"
    unfolding route_def by blast+
  then show ?thesis by blast
qed

definition loop_inv :: "gridmap \<Rightarrow> int \<times> int \<Rightarrow> int \<times> int \<Rightarrow> astar_state \<Rightarrow> bool" where
  "loop_inv m s g st \<longleftrightarrow> search_inv m s st \<and> (\<forall>i. visited st i \<longrightarrow> pending st i \<or> closed m st i) \<and>
     (visited st (nat (index_of m g)) \<longrightarrow> pending st (nat (index_of m g)))"

lemma loop_step:
  fixes gx gy :: int
  assumes inv: "loop_inv m s g st" and q: "openq st = item # q" and g: "\<not> outside m (fst g) (snd g)"
    and ng: "snd item \<noteq> index_of m g"
  defines "st' \<equiv> expand m gx gy (snd item) (st\<lparr>openq := q\<rparr>)"
  shows "loop_inv m s g st'" and "(st', st) \<in> measures
    [\<lambda>st. float_scores.weight (gscore st), \<lambda>st. length (openq st)]"
proof -
  define st0 where "st0 = st\<lparr>openq := q\<rparr>"
  let ?cur = "nat (snd item)"
  have si: "search_inv m s st" using inv by (simp add: loop_inv_def)
  have v0: "visited st0 i \<longleftrightarrow> visited st i" for i by (simp add: visited_def st0_def)
  have p0: "pending st i \<Longrightarrow> i = ?cur \<or> pending st0 i" for i
    by (auto simp: pending_def st0_def q)
  have si0: "search_inv m s st0"
    using si q unfolding search_inv_def st0_def by (auto simp: visited_def)
  have cur: "visited st0 ?cur" "0 \<le> snd item" using si q v0 by (auto simp: search_inv_def)
  note e = expand_step [OF si0 cur, of gx gy, folded st0_def]
  have st': "st' = expand m gx gy (snd item) st0" by (simp add: st'_def st0_def)
  have cmono: "closed m st i \<Longrightarrow> closed m st' i" for i
    using e(2) v0 unfolding st' closed_def extends_def by blast
  have pmono: "pending st0 i \<Longrightarrow> pending st' i" for i
    using e(2) pending_mono unfolding st' extends_def by blast
  have "visited st' i \<Longrightarrow> pending st' i \<or> closed m st' i" for i
  proof -
    assume "visited st' i"
    then consider "visited st i" | "pending st' i" using e(2) v0 unfolding st' extends_def by blast
    then show ?thesis
    proof cases
      case 1
      then have "pending st i \<or> closed m st i" using inv by (simp add: loop_inv_def)
      then show ?thesis using p0 cmono pmono e(3) st' by blast
    qed simp
  qed
  moreover have "visited st' (nat (index_of m g)) \<Longrightarrow> pending st' (nat (index_of m g))"
  proof -
    assume "visited st' (nat (index_of m g))"
    then consider "visited st (nat (index_of m g))" | "pending st' (nat (index_of m g))"
      using e(2) v0 unfolding st' extends_def by blast
    then show ?thesis
    proof cases
      case 1
      then have "pending st (nat (index_of m g))" using inv by (simp add: loop_inv_def)
      moreover have "nat (index_of m g) \<noteq> ?cur"
        using ng cur(2) index_of_facts(1) [OF g] by (simp add: nat_eq_iff)
      ultimately show ?thesis using p0 pmono by blast
    qed simp
  qed
  ultimately show "loop_inv m s g st'" using e(1) by (simp add: loop_inv_def st')
  have "st' = st0 \<or> float_scores.weight (gscore st') < float_scores.weight (gscore st0)"
    using e(2) by (simp add: extends_def st')
  then show "(st', st) \<in> measures [\<lambda>st. float_scores.weight (gscore st), \<lambda>st. length (openq st)]"
    using q by (auto simp: st0_def)
qed

lemma loop_result:
  assumes "\<not> outside m (fst g) (snd g)"
  shows "loop_inv m s g st \<Longrightarrow> \<exists>path. astar_loop m (fst g) (snd g) gw st = Some path \<and>
    (path = [] \<longrightarrow> \<not> reachable m s g) \<and> (path \<noteq> [] \<longrightarrow> route m s g gw path)"
proof (induction st rule: wf_induct_rule [OF wf_measures
    [of "[\<lambda>st. float_scores.weight (gscore st), \<lambda>st. length (openq st)]"]])
  case (1 st)
  have si: "search_inv m s st" using 1(2) by (simp add: loop_inv_def)
  show ?case
  proof (cases "openq st")
    case Nil
    then have np: "\<not> pending st i" for i by (simp add: pending_def)
    have reach: "reachable m s b \<Longrightarrow> visited st (nat (index_of m b)) \<and> \<not> outside m (fst b) (snd b)" for b
    proof (induction rule: reachable.induct)
      case start
      then show ?case using si by (simp add: search_inv_def)
    next
      case (move a b)
      then have "closed m st (nat (index_of m a))" using 1(2) np by (auto simp: loop_inv_def)
      moreover have "\<not> outside m (fst b) (snd b)" using move(2) by (simp add: legal_move_def grid_at_inside)
      ultimately show ?case
        using move index_of_facts [of m a] by (simp add: closed_def del: split_paired_All)
    qed
    have "\<not> visited st (nat (index_of m g))" using 1(2) np by (auto simp: loop_inv_def)
    then have "\<not> reachable m s g" using reach by blast
    with Nil show ?thesis by (simp add: astar_loop.simps [of _ _ _ _ st])
  next
    case (Cons item q)
    show ?thesis
    proof (cases "snd item = index_of m g")
      case True
      then have "visited st (nat (index_of m g))" using si Cons by (auto simp: search_inv_def)
      from rebuild_route [OF si this assms, of gw] True Cons show ?thesis
        by (auto simp: astar_loop.simps [of _ _ _ _ st] index_of_def)
    next
      case False
      note l = loop_step [OF 1(2) Cons assms False, of "fst g" "snd g"]
      from 1(1) [OF l(2,1)] False Cons show ?thesis
        by (simp add: astar_loop.simps [of _ _ _ _ st] index_of_def)
    qed
  qed
qed

section \<open>From the start to the result\<close>

lemma init_inv:
  assumes ok: "grid_ok m" and s: "\<not> outside m (fst s) (snd s)" and g: "\<not> outside m (fst g) (snd g)"
  shows "loop_inv m s g (astar_init m (fst s) (snd s) (fst g) (snd g))"
proof -
  let ?st = "astar_init m (fst s) (snd s) (fst g) (snd g)"
  define k where "k = nat (index_of m s)"
  note si = index_of_facts [OF s]
  have c0: "0 \<le> cells m" using ok by (simp add: cells_def grid_ok_def)
  have kN: "k < nat (cells m)" using si by (simp add: k_def)
  have fields: "gscore ?st = (replicate (nat (cells m)) (fp_inf binary32 False))[k := F 0 1]"
    "came ?st = replicate (nat (cells m)) (- 1)" "snd ` set (openq ?st) = {index_of m s}"
    by (simp_all add: astar_init_def Let_def cells_def k_def index_of_def)
  have f0: "F 0 1 = Fp False 0" by (simp add: F_def fp_lit_def)
  then have good0: "good_score (F 0 1)" by (simp add: good_score_def fkey_def cap_eq)
  have vis: "visited ?st i \<longleftrightarrow> i = k" for i
    using kN good0 float_scores.infty_not_good by (auto simp: visited_def fields(1) nth_list_update)
  have "links (came ?st) = {}" by (auto simp: links_def fields(2))
  then have "acyclic (links (came ?st))" by (simp add: acyclic_def)
  then have "float_scores.table_ok (gscore ?st) (came ?st)"
    using good0 kN by (auto simp: float_scores.table_ok_def fields nth_list_update)
  moreover have "cell_of m (int k) = s" "int k = index_of m s" using si by (simp_all add: k_def)
  moreover have "came ?st ! k = - 1" using kN by (simp add: fields)
  moreover have "\<forall>q \<in> set (openq ?st). snd q = index_of m s" using fields(3) by auto
  ultimately have "search_inv m s ?st"
    using ok s c0 kN si f0 vis
    by (auto simp: search_inv_def fields(1) k_def fkey_def intro: reachable.start)
  moreover have "pending ?st k" using fields(3) si by (simp add: pending_def k_def)
  ultimately show ?thesis using vis by (auto simp: loop_inv_def)
qed

text \<open>
  What the planner promises for two world points: nothing to plan from, no way to go, or a route.
\<close>

definition plan_of :: "gridmap \<Rightarrow> double \<Rightarrow> double \<Rightarrow> double \<Rightarrow> double \<Rightarrow> (double \<times> double) list \<Rightarrow> bool" where
  "plan_of m sx sy gx gy path \<longleftrightarrow>
     (case (world_to_cell m sx sy, world_to_cell m gx gy) of
        ((ok1, sc), (ok2, gc)) \<Rightarrow>
          if \<not> ok1 \<or> \<not> ok2 then path = []
          else (case (snap_free m (fst sc) (snd sc), snap_free m (fst gc) (snd gc)) of
             (Some s, Some g) \<Rightarrow>
               (if path = [] then \<not> reachable m s g else route m s g (gx, gy) path)
           | _ \<Rightarrow> path = []))"

lemma snap_free_inside: "snap_free m x y = Some c \<Longrightarrow> \<not> outside m (fst c) (snd c)"
  using snap_free_facts [of m x y "fst c" "snd c"] by (auto dest: grid_at_inside)

lemma astar_result:
  assumes "grid_ok m"
  shows "\<exists>path. astar m sx sy gx gy = Some path \<and> plan_of m sx sy gx gy path"
proof -
  obtain ok1 sx' sy' ok2 gx' gy' where w:
    "world_to_cell m sx sy = (ok1, sx', sy')" "world_to_cell m gx gy = (ok2, gx', gy')"
    by (metis prod_cases3)
  show ?thesis
  proof (cases "ok1 \<and> ok2 \<and> snap_free m sx' sy' \<noteq> None \<and> snap_free m gx' gy' \<noteq> None")
    case False
    then show ?thesis by (auto simp: astar_def plan_of_def w split: option.splits)
  next
    case True
    then obtain s g where sg: "snap_free m sx' sy' = Some s" "snap_free m gx' gy' = Some g" by auto
    note i = snap_free_inside [OF sg(1)] snap_free_inside [OF sg(2)]
    from loop_result [OF i(2) init_inv [OF assms i], of "(gx, gy)"] obtain path where
      path: "astar_loop m (fst g) (snd g) (gx, gy) (astar_init m (fst s) (snd s) (fst g) (snd g)) = Some path"
      "path = [] \<longrightarrow> \<not> reachable m s g" "path \<noteq> [] \<longrightarrow> route m s g (gx, gy) path" by blast
    have "astar m sx sy gx gy = Some path"
      using True path(1) by (simp add: astar_def w sg case_prod_beta)
    moreover have "plan_of m sx sy gx gy path" using True path(2,3) by (simp add: plan_of_def w sg)
    ultimately show ?thesis by blast
  qed
qed

section \<open>Properties\<close>

declare One_nat_def [simp del]

text \<open>C39: On every well-formed grid and for all coordinates, even NaN and infinities, the planner
  returns: neither the search loop nor the walk back over \<open>came\<close> can run forever.\<close>

theorem astar_returns:
  assumes "grid_ok m"
  shows "\<exists>path. astar m sx sy gx gy = Some path"
  using astar_result [OF assms] by blast

theorem astar_returns_witness:
  "\<exists>path. astar (inflate make_corridor_demo 1) (D 5 4) (D 0 1) (fp_nan binary64) (D 3 1) = Some path"
  by (rule astar_returns) (rule inflate_ok [OF demo_shape(6)])

text \<open>C37: A path the planner returns is a route: its waypoints are the centres of the cells of a
  chain of legal moves, no cell twice, from the snapped start to the snapped goal, with the
  exact commanded goal in place of the last centre. Legal moves never enter an occupied cell and
  never cut a corner.\<close>

theorem astar_path_is_route:
  assumes "grid_ok m" and "astar m sx sy gx gy = Some path" and "path \<noteq> []"
  shows "\<exists>s g. snap_free m (fst (snd (world_to_cell m sx sy))) (snd (snd (world_to_cell m sx sy))) = Some s \<and>
     snap_free m (fst (snd (world_to_cell m gx gy))) (snd (snd (world_to_cell m gx gy))) = Some g \<and>
     route m s g (gx, gy) path"
  using astar_result [OF assms(1), of sx sy gx gy] assms(2,3)
  by (auto simp: plan_of_def split: prod.splits if_splits option.splits)

definition tiny_grid :: "u8 list \<Rightarrow> gridmap" where
  "tiny_grid cs = \<lparr>width = int (length cs), height = 1, resolution = D 1 1, origin_x = D 0 1,
     origin_y = D 0 1, occ = cs\<rparr>"

lemma tiny_cell_0: "cs \<noteq> [] \<Longrightarrow> world_to_cell (tiny_grid cs) (D 0 1) (D 0 1) = (True, 0, 0)"
  by (simp add: world_to_cell_def tiny_grid_def D_values fp_sub_def fp_add_def fp_neg_def fp_div_def
      is_nan_def is_inf_def fp_man_def fp_exp_def fp_sman_def fp_floor_def is_fin_def int_floor_def
      fp_to_int32_def int_trunc_def)

lemma tiny_astar_same: "astar (tiny_grid [0]) (D 0 1) (D 0 1) (D 0 1) (D 0 1) = Some [(D 0 1, D 0 1)]"
proof -
  have "snap_free (tiny_grid [0]) 0 0 = Some (0, 0)"
    by (simp add: snap_free_def grid_at_def outside_def tiny_grid_def cell_index_def)
  then have "astar (tiny_grid [0]) (D 0 1) (D 0 1) (D 0 1) (D 0 1) =
      astar_loop (tiny_grid [0]) 0 0 (D 0 1, D 0 1) (astar_init (tiny_grid [0]) 0 0 0 0)"
    by (simp add: astar_def tiny_cell_0)
  also have "\<dots> = rebuild (tiny_grid [0]) [- 1] 0 (D 0 1, D 0 1)"
    by (subst astar_loop.simps) (simp add: astar_init_def tiny_grid_def Let_def)
  also have "\<dots> = Some [(D 0 1, D 0 1)]"
    by (simp add: rebuild_def trace_back.simps [of _ 0] trace_back.simps [of _ "- 1"])
  finally show ?thesis .
qed

theorem astar_path_is_route_witness:
  "\<exists>s g. snap_free (tiny_grid [0]) 0 0 = Some s \<and> snap_free (tiny_grid [0]) 0 0 = Some g \<and>
     route (tiny_grid [0]) s g (D 0 1, D 0 1) [(D 0 1, D 0 1)]"
  using astar_path_is_route [OF _ tiny_astar_same] by (simp add: tiny_cell_0) (simp add: grid_ok_def tiny_grid_def)

text \<open>C38: The planner answers with an empty path only for a reason: a point outside the map, no
  free cell within six rings of it, or a goal that no chain of legal moves reaches.\<close>

theorem astar_complete:
  assumes "grid_ok m" and "astar m sx sy gx gy = Some []"
    and "world_to_cell m sx sy = (True, sc)" and "world_to_cell m gx gy = (True, gc)"
    and "snap_free m (fst sc) (snd sc) = Some s" and "snap_free m (fst gc) (snd gc) = Some g"
  shows "\<not> reachable m s g"
  using astar_result [OF assms(1), of sx sy gx gy] assms(2-6) by (simp add: plan_of_def)

lemma tiny_cell_2: "world_to_cell (tiny_grid [0, 1, 0]) (D 2 1) (D 0 1) = (True, 2, 0)"
proof -
  have fin: "is_fin binary64 (D 2 1)" "is_fin binary64 (D 0 1)" by (simp_all add: D_values is_fin_def)
  have z: "fp_val binary64 (D 2 1) + fp_val binary64 (fp_neg (D 0 1)) = fp_val binary64 (D 2 1)"
    by (simp add: D_values fp_val_def)
  have "fp_le binary64 (fp_sub binary64 (D 2 1) (D 0 1)) (D 2 1)"
    "fp_le binary64 (D 2 1) (fp_sub binary64 (D 2 1) (D 0 1))"
    using fin z unfolding fp_sub_fin [OF fin]
    by (auto intro!: fp_add_le fp_add_ge simp: D_values)
  then have n: "fp_sub binary64 (D 2 1) (D 0 1) = D 2 1"
    by (cases "fp_sub binary64 (D 2 1) (D 0 1)")
      (auto simp: fp_le_def fkey_def D_values split: if_splits)
  have d: "fp_div binary64 (D 2 1) (D 1 1) = D 2 1"
    by (simp add: D_values fp_div_def is_nan_def is_inf_def fp_man_def fp_exp_def)
      (subst round_mag_eval [OF _ refl refl refl refl refl]; simp add: ratio_log_def nbits_eval)
  have f: "fp_floor binary64 (D 2 1) = D 2 1"
    by (simp add: D_values fp_floor_def is_fin_def fp_exp_def int_floor_def fp_sman_def fp_man_def)
      (subst round_mag_eval [OF _ refl refl refl refl refl]; simp add: ratio_log_def nbits_eval)
  have i: "fp_to_int32 binary64 (D 2 1) = 2"
    by (simp add: D_values fp_to_int32_def is_fin_def int_trunc_def fp_exp_def int_floor_def fp_sman_def fp_man_def)
  show ?thesis
    using tiny_cell_0 [of "[0, 1, 0]"] by (simp add: world_to_cell_def tiny_grid_def n d f i Let_def)
qed

theorem astar_complete_witness: "\<not> reachable (tiny_grid [0, 1, 0]) (0, 0) (2, 0)"
proof -
  let ?m = "tiny_grid [0, 1, 0]"
  have s: "snap_free ?m 0 0 = Some (0, 0)" "snap_free ?m 2 0 = Some (2, 0)"
    by (simp_all add: snap_free_def grid_at_def outside_def tiny_grid_def cell_index_def)
  have blocked: "d \<in> set dirs8 \<Longrightarrow> move_blocked ?m 0 0 d" for d
    by (auto simp: dirs8_def move_blocked_def outside_def grid_at_def tiny_grid_def cell_index_def)
  have "expand ?m 2 0 0 st = st" for st
    using blocked by (auto simp: expand_def relax_blocked tiny_grid_def dirs8_def)
  then have "astar_loop ?m 2 0 (D 2 1, D 0 1) (astar_init ?m 0 0 2 0) = Some []"
    by (simp add: astar_loop.simps astar_init_def tiny_grid_def Let_def)
  then have "astar ?m (D 0 1) (D 0 1) (D 2 1) (D 0 1) = Some []"
    by (simp add: astar_def tiny_cell_0 tiny_cell_2 s)
  from astar_complete [OF _ this tiny_cell_0 tiny_cell_2] s show ?thesis
    by (simp add: grid_ok_def tiny_grid_def)
qed

end
