(* ===== verification/Robot_Tick.thy ===== *)
theory Robot_Tick
  imports Robot_State Nav_Search
begin

text \<open>
  The lifecycle callbacks, the console heartbeat and the 5 Hz simulation step of
  \<open>FakeRobot\<close> (\<open>sim/src/fake_robot.cpp\<close>). Times of the steady clock are integers, in
  nanoseconds since its epoch. The step plans and normalises angles, so it is partial: \<open>None\<close>
  is a step that does not return. It is split where the source has its comments: console
  freshness, driving, stuck detection with replanning, cross-track error, completion, battery.
\<close>

section \<open>Lifecycle\<close>

definition on_configure :: "env \<Rightarrow> robot \<Rightarrow> robot" where
  "on_configure E s =
     (let s1 = s\<lparr>phase := ''INITIALIZING'', control_enabled := False, estop := False,
                 console_online := False, battery := D 100 1,
                 pose_x := D 125 100, pose_y := D 0 1, pose_yaw := D 0 1,
                 task_status := ''NONE'', task_id := [], task_type := [],
                 nav_path := [], trail := [], nav_status := ''IDLE''\<rparr>;
          s2 = set_node 1 ''OK'' (set_node 0 ''OK'' (clear_faults s1))
      in publish_state E (s2\<lparr>state_pub := True, result_pub := True, cmd_sub := True, console_sub := True\<rparr>))"

text \<open>The two readings of the steady clock are arguments.\<close>

definition on_activate :: "env \<Rightarrow> int \<Rightarrow> int \<Rightarrow> robot \<Rightarrow> robot" where
  "on_activate E now1 now2 s =
     (let s1 = publish_state E (s\<lparr>active := True, phase := ''INITIALIZING'', control_enabled := False,
                 idle_tp := now1 + 500000000, last_tick_tp := now2\<rparr>)
      in s1\<lparr>tick_timer := True\<rparr>)"

definition on_deactivate :: "robot \<Rightarrow> robot" where
  "on_deactivate s = s\<lparr>tick_timer := False, active := False, control_enabled := False, phase := ''INITIALIZING''\<rparr>"

definition on_cleanup :: "robot \<Rightarrow> robot" where
  "on_cleanup s = s\<lparr>tick_timer := False, cmd_sub := False, console_sub := False, state_pub := False,
     result_pub := False, phase := ''BOOT'', active := False\<rparr>"

definition on_shutdown :: "robot \<Rightarrow> robot" where
  "on_shutdown s = on_cleanup s"

section \<open>Console heartbeat\<close>

definition on_console :: "env \<Rightarrow> string \<Rightarrow> robot \<Rightarrow> robot" where
  "on_console E data s =
     (let online = (case extract_bool data ''online'' of None \<Rightarrow> False | Some b \<Rightarrow> b);
          s1 = s\<lparr>console_online := online\<rparr>;
          s2 = (if online
                then let (t, s') = now_ms E s1 in set_node 1 ''OK'' (s'\<lparr>last_console_ms := t\<rparr>)
                else let s' = set_node 1 ''WARN'' s1
                     in if phase s' = ''RUNNING'' then apply_safety_stop E s' else s');
          s3 = recompute s2;
          s4 = (if \<not> console_online s3 then s3\<lparr>control_enabled := False\<rparr> else s3)
      in publish_state E s4)"

section \<open>The simulation step\<close>

definition tick_dt :: "int \<Rightarrow> robot \<Rightarrow> double" where
  "tick_dt now s =
     (if last_tick_tp s > 0
      then ddiv (fp_of_int binary64 (now - last_tick_tp s)) (D 1000000000 1) else D 2 10)"

definition tick_console :: "env \<Rightarrow> robot \<Rightarrow> robot" where
  "tick_console E s =
     (if console_online s \<and> last_console_ms s > 0
      then let (t, s1) = now_ms E s in
        if t - last_console_ms s > 3000
        then let s2 = set_node 1 ''WARN'' (s1\<lparr>console_online := False\<rparr>)
             in if phase s2 = ''RUNNING'' then apply_safety_stop E s2 else s2
        else s1
      else s)"

definition tick_ready :: "int \<Rightarrow> robot \<Rightarrow> robot" where
  "tick_ready now s = (if phase s = ''INITIALIZING'' \<and> now \<ge> idle_tp s then s\<lparr>phase := ''IDLE''\<rparr> else s)"

definition final_creep :: "robot \<Rightarrow> double \<Rightarrow> double \<Rightarrow> bool" where
  "final_creep s nx ny \<longleftrightarrow>
     (let d_now = robot_dist (pose_x s) (pose_y s) (goal_x s) (goal_y s);
          d_next = robot_dist nx ny (goal_x s) (goal_y s)
      in dlt d_now (D 55 100) \<and> dlt d_next d_now)"

definition sign_of :: "double \<Rightarrow> double" where
  "sign_of e = (if dle (D 0 1) e then D 1 1 else fp_neg (D 1 1))"

definition push_trail :: "robot \<Rightarrow> robot" where
  "push_trail s = s\<lparr>trail := trail s @ [(pose_x s, pose_y s)]\<rparr>"

definition off_trail :: "double \<Rightarrow> robot \<Rightarrow> bool" where
  "off_trail d s \<longleftrightarrow> trail s = [] \<or>
     dlt d (robot_dist (fst (last (trail s))) (snd (last (trail s))) (pose_x s) (pose_y s))"

text \<open>Pure pursuit, the collision guard and the pose update: the new state, \<open>collided\<close>, \<open>w\<close>.\<close>

definition tick_move :: "env \<Rightarrow> double \<Rightarrow> robot \<Rightarrow> (robot \<times> bool \<times> double) option" where
  "tick_move E dt s =
     (case pure_pursuit (lm E) (nav_map s) (pose_x s) (pose_y s) (pose_yaw s) (nav_path s) (nav_idx s) (D 45 100) of
        (idx, v, w) \<Rightarrow>
      let s1 = s\<lparr>nav_idx := idx\<rparr>;
          nx = dadd (pose_x s) (dmul (dmul v (m_cos (lm E) (pose_yaw s))) dt);
          ny = dadd (pose_y s) (dmul (dmul v (m_sin (lm E) (pose_yaw s))) dt)
      in if \<not> final_creep s nx ny \<and> \<not> is_free (nav_map s) nx ny
         then let aim = aim_point (lm E) (nav_map s) (nav_path s) idx (pose_x s) (pose_y s) (D 45 100) in
           do { err \<leftarrow> heading_err (lm E) (pose_yaw s) (pose_x s) (pose_y s) (fst aim) (snd aim);
                let w' = dmul (if dlt (fp_abs err) (D 15 100) then sign_of w else sign_of err) (D 8 10);
                yaw \<leftarrow> wrap_angle (dadd (pose_yaw s) (dmul w' dt));
                Some (s1\<lparr>pose_yaw := yaw\<rparr>, True, w') }
         else
           do { yaw \<leftarrow> wrap_angle (dadd (pose_yaw s) (dmul w dt));
                Some (s1\<lparr>pose_x := nx, pose_y := ny, pose_yaw := yaw\<rparr>, False, w) })"

definition tick_trail :: "robot \<Rightarrow> robot" where
  "tick_trail s =
     (let s1 = (if off_trail (D 5 100) s
                then let s' = push_trail s
                     in if length (trail s') > 800 then s'\<lparr>trail := drop 200 (trail s')\<rparr> else s'
                else s)
      in s1\<lparr>task_status := ''EXECUTING'', nav_status := ''TRACKING''\<rparr>)"

definition replan :: "env \<Rightarrow> robot \<Rightarrow> robot option" where
  "replan E s =
     (let s1 = s\<lparr>stuck_s := D 0 1, stuck_count := stuck_count s + 1\<rparr>;
          m = inflate make_corridor_demo (if stuck_count s1 \<ge> 3 then 0 else 1);
          s2 = s1\<lparr>nav_map := m\<rparr>
      in do { path \<leftarrow> astar m (pose_x s) (pose_y s) (goal_x s) (goal_y s);
              Some (if path \<noteq> []
                    then s2\<lparr>nav_path := path,
                            nav_idx := advance_idx (lm E) path 0 (pose_x s) (pose_y s),
                            nav_status := ''TRACKING''\<rparr>
                    else s2) })"

text \<open>\<open>x0\<close>, \<open>y0\<close> is the pose before the move.\<close>

definition tick_stuck :: "env \<Rightarrow> double \<Rightarrow> double \<Rightarrow> double \<Rightarrow> bool \<Rightarrow> double \<Rightarrow> robot \<Rightarrow> robot option" where
  "tick_stuck E dt x0 y0 collided w s =
     (let moved = robot_dist x0 y0 (pose_x s) (pose_y s);
          translating = dlt (dmul (D 2 1000) (fp_max binary64 (D 1 1) (ddiv dt (D 2 10)))) moved;
          aligning = (\<not> collided \<and> dlt (D 5 100) (fp_abs w) \<and> \<not> translating);
          s1 = s\<lparr>stuck_s := (if translating \<or> aligning then D 0 1 else dadd (stuck_s s) dt)\<rparr>
      in if dlt (D 12 10) (stuck_s s1) then replan E s1 else Some s1)"

definition cross_track :: "robot \<Rightarrow> double" where
  "cross_track s =
     (let j = min (nav_idx s + 1) (length (nav_path s) - 1);
          a = nav_path s ! nav_idx s; b = nav_path s ! j;
          abx = dsub (fst b) (fst a); aby = dsub (snd b) (snd a);
          apx = dsub (pose_x s) (fst a); apy = dsub (pose_y s) (snd a);
          ab2 = dadd (dmul abx abx) (dmul aby aby)
      in if dlt (D 1 1000000) ab2
         then ddiv (fp_abs (dsub (dmul abx apy) (dmul aby apx))) (fp_sqrt binary64 ab2)
         else robot_dist (pose_x s) (pose_y s) (fst a) (snd a))"

definition tick_cross_track :: "robot \<Rightarrow> robot" where
  "tick_cross_track s =
     (if nav_idx s < length (nav_path s)
      then let cr = cross_track s;
               s1 = s\<lparr>track_err := cr\<rparr>;
               s2 = (if dlt (track_err_max s1) cr then s1\<lparr>track_err_max := cr\<rparr> else s1)
           in if dlt (D 15 10) cr
              then recompute (add_fault ''E_TASK_FAILED'' ''ERROR'' ''tracking error too large''
                     (s2\<lparr>task_status := ''FAILED'', phase := ''IDLE'', nav_status := ''FAILED''\<rparr>))
              else s2
      else s)"

definition tick_complete :: "robot \<Rightarrow> robot" where
  "tick_complete s =
     (if dlt (robot_dist (pose_x s) (pose_y s) (goal_x s) (goal_y s)) (D 22 100)
      then let s1 = s\<lparr>pose_x := goal_x s, pose_y := goal_y s\<rparr>;
               s2 = (if off_trail (D 2 100) s1 then push_trail s1 else s1)
           in recompute (s2\<lparr>track_err := D 0 1, task_status := ''DONE'', phase := ''IDLE'',
                            nav_status := ''IDLE'', stuck_s := D 0 1, stuck_count := 0\<rparr>)
      else s)"

definition tick_drive :: "env \<Rightarrow> double \<Rightarrow> robot \<Rightarrow> robot option" where
  "tick_drive E dt s =
     (if nav_path s \<noteq> []
      then do { (s1, collided, w) \<leftarrow> tick_move E dt s;
                s2 \<leftarrow> tick_stuck E dt (pose_x s) (pose_y s) collided w (tick_trail s1);
                Some (tick_complete (tick_cross_track s2)) }
      else Some (recompute (s\<lparr>task_status := ''FAILED'', phase := ''IDLE'', nav_status := ''FAILED''\<rparr>)))"

definition tick_motion :: "env \<Rightarrow> double \<Rightarrow> robot \<Rightarrow> robot option" where
  "tick_motion E dt s =
     (if \<not> estop s \<and> phase s = ''RUNNING'' \<and> task_type s = ''goto''
      then do { s1 \<leftarrow> tick_drive E dt s;
                Some (s1\<lparr>battery := dsub (battery s1) (dmul (D 5 100) dt)\<rparr>) }
      else if \<not> estop s \<and> phase s = ''IDLE''
      then Some (s\<lparr>battery := dsub (battery s) (dmul (D 2 100) dt)\<rparr>)
      else Some s)"

definition tick_battery :: "robot \<Rightarrow> robot" where
  "tick_battery s =
     (let s1 = (if dlt (battery s) (D 0 1) then s\<lparr>battery := D 0 1\<rparr> else s)
      in if dlt (battery s1) (D 15 1)
         then if \<not> list_ex (\<lambda>f. f_code f = ''W_BATTERY_LOW'' \<and> f_active f) (faults s1)
              then recompute (add_fault ''W_BATTERY_LOW'' ''WARN'' ''battery below 15%'' s1) else s1
         else s1)"

definition tick :: "env \<Rightarrow> int \<Rightarrow> robot \<Rightarrow> robot option" where
  "tick E now s =
     (if \<not> active s then Some s
      else let dt = tick_dt now s;
               s1 = recompute (tick_ready now (tick_console E (s\<lparr>last_tick_tp := now\<rparr>)))
           in do { s2 \<leftarrow> tick_motion E dt s1;
                   Some (publish_state E (tick_battery s2)) })"

end
