(* ===== verification/Robot_Cmd.thy ===== *)
theory Robot_Cmd
  imports Robot_Tick
begin

text \<open>
  The command handler \<open>FakeRobot::on_cmd\<close> (\<open>sim/src/fake_robot.cpp\<close>), one definition
  per branch, composed as the source composes them. A goto plans, so the handler is partial like
  the simulation step. The second branch for \<open>cancel\<close> of the source can never be reached;
  it is modelled where it stands.
\<close>

definition cmd_blocked :: "robot \<Rightarrow> bool" where
  "cmd_blocked s \<longleftrightarrow> estop s \<or> phase s = ''FAULT'' \<or> phase s = ''DEGRADED'' \<or> phase s = ''BOOT'' \<or>
     phase s = ''INITIALIZING'' \<or> \<not> console_online s"

definition reject :: "u16 \<Rightarrow> string \<Rightarrow> string \<Rightarrow> string \<Rightarrow> robot \<Rightarrow> robot" where
  "reject sq cmd reason tid s = publish_cmd_result sq cmd False ''REJECTED'' reason tid s"

definition accept :: "u16 \<Rightarrow> string \<Rightarrow> string \<Rightarrow> robot \<Rightarrow> robot" where
  "accept sq cmd tid s = publish_cmd_result sq cmd True ''ACCEPTED'' [] tid s"

definition busy_reason :: "robot \<Rightarrow> string" where
  "busy_reason s = (if estop s then ''estop_active'' else ''phase_busy'')"

definition cmd_estop :: "env \<Rightarrow> u16 \<Rightarrow> robot \<Rightarrow> robot" where
  "cmd_estop E sq s =
     (let s1 = fail_task (s\<lparr>estop := True, phase := ''ESTOP'', control_enabled := False\<rparr>);
          s2 = (if \<not> list_ex (\<lambda>f. f_code f = ''E_ESTOP_ACTIVE'') (faults s1)
                then add_fault ''E_ESTOP_ACTIVE'' ''WARN'' ''software estop engaged'' s1 else s1)
      in publish_state E (accept sq ''CMD_ESTOP'' [] s2))"

definition reset_blocking :: "robot \<Rightarrow> bool" where
  "reset_blocking s \<longleftrightarrow> list_ex (\<lambda>f.
     \<not> (f_code f = ''E_ESTOP_ACTIVE'' \<or> f_code f = ''W_BATTERY_LOW'' \<or> f_code f = ''E_TASK_FAILED'') \<and>
     f_level f = ''ERROR'') (faults s)"

definition cmd_reset :: "env \<Rightarrow> u16 \<Rightarrow> string \<Rightarrow> string \<Rightarrow> robot \<Rightarrow> robot" where
  "cmd_reset E sq cmd data s =
     (if extract_bool data ''confirm'' \<noteq> Some True then reject sq cmd ''confirm_required'' [] s
      else if reset_blocking s then publish_state E (reject sq cmd ''phase_busy'' [] s)
      else let s1 = clear_faults (s\<lparr>estop := False\<rparr>);
               s2 = set_node 1 (if \<not> console_online s1 then ''WARN'' else ''OK'') s1;
               s3 = recompute (s2\<lparr>phase := ''IDLE'', mode := ''TELEOP'', task_status := ''NONE'',
                                  task_id := [], task_type := []\<rparr>);
               s4 = s3\<lparr>control_enabled := (console_online s3 \<and> phase s3 = ''IDLE'')\<rparr>
           in publish_state E (accept sq cmd [] s4))"

definition cmd_mode :: "env \<Rightarrow> u16 \<Rightarrow> string \<Rightarrow> string \<Rightarrow> robot \<Rightarrow> robot" where
  "cmd_mode E sq cmd data s =
     (case extract_string data ''mode'' of
        None \<Rightarrow> reject sq cmd ''invalid_payload'' [] s
      | Some md \<Rightarrow>
          if md \<noteq> ''TELEOP'' \<and> md \<noteq> ''AUTO'' \<and> md \<noteq> ''REMOTE'' then reject sq cmd ''invalid_payload'' [] s
          else if md = ''AUTO'' \<and> cmd_blocked s then reject sq cmd (busy_reason s) [] s
          else publish_state E (accept sq cmd [] (s\<lparr>mode := md\<rparr>)))"

section \<open>Tasks\<close>

definition task_pause :: "env \<Rightarrow> u16 \<Rightarrow> string \<Rightarrow> string \<Rightarrow> robot \<Rightarrow> robot" where
  "task_pause E sq cmd tid s =
     publish_state E
       (if phase s = ''RUNNING''
        then let s1 = recompute (s\<lparr>task_status := ''ACCEPTED'', phase := ''IDLE'', nav_status := ''IDLE''\<rparr>)
             in accept sq cmd (task_id s1) s1
        else reject sq cmd ''unknown_task'' tid s)"

definition stop_running :: "robot \<Rightarrow> robot" where
  "stop_running s = (if phase s = ''RUNNING'' then s\<lparr>phase := ''IDLE''\<rparr> else s)"

definition task_cancel :: "env \<Rightarrow> u16 \<Rightarrow> string \<Rightarrow> robot \<Rightarrow> robot" where
  "task_cancel E sq cmd s =
     publish_state E (accept sq cmd [] (recompute (stop_running
       (s\<lparr>task_status := ''NONE'', task_id := [], task_type := [], nav_path := [], nav_status := ''IDLE'',
          stuck_s := D 0 1, stuck_count := 0\<rparr>))))"

definition task_cancel_again :: "env \<Rightarrow> u16 \<Rightarrow> string \<Rightarrow> robot \<Rightarrow> robot" where
  "task_cancel_again E sq cmd s =
     publish_state E (accept sq cmd [] (recompute (stop_running
       (s\<lparr>task_status := ''NONE'', task_id := [], task_type := []\<rparr>))))"

definition outside_world :: "double \<Rightarrow> double \<Rightarrow> bool" where
  "outside_world x y \<longleftrightarrow> dlt x (D 0 1) \<or> dlt (D 20 1) x \<or> dlt y (fp_neg (D 5 1)) \<or> dlt (D 5 1) y"

definition goto_start :: "env \<Rightarrow> u16 \<Rightarrow> string \<Rightarrow> string \<Rightarrow> double \<Rightarrow> double \<Rightarrow> robot \<Rightarrow> robot option" where
  "goto_start E sq cmd tid x y s =
     (let m = inflate make_corridor_demo 1;
          s1 = s\<lparr>nav_map := m, nav_status := ''PLANNING''\<rparr>
      in do { path \<leftarrow> astar m (pose_x s) (pose_y s) x y;
              let s2 = s1\<lparr>nav_path := path\<rparr>;
              Some (if path = []
                then publish_state E (recompute (reject sq cmd ''unknown_task'' tid
                       (add_fault ''E_TASK_FAILED'' ''ERROR'' ''A* no path to goal''
                         (s2\<lparr>nav_status := ''FAILED''\<rparr>))))
                else publish_state E (accept sq cmd tid
                       (s2\<lparr>nav_idx := 0, nav_status := ''TRACKING'', nav_ready := True,
                           stuck_s := D 0 1, stuck_count := 0, trail := [(pose_x s, pose_y s)],
                           task_id := tid, task_type := ''goto'', task_status := ''ACCEPTED'',
                           goal_x := x, goal_y := y, phase := ''RUNNING'', control_enabled := False\<rparr>))) })"

definition task_goto :: "env \<Rightarrow> u16 \<Rightarrow> string \<Rightarrow> string \<Rightarrow> string \<Rightarrow> robot \<Rightarrow> robot option" where
  "task_goto E sq cmd data tid0 s =
     (if phase s = ''RUNNING'' then Some (reject sq cmd ''phase_busy'' tid0 s)
      else let x = snd (extract_number data ''x'' (pose_x s));
               y = snd (extract_number data ''y'' (pose_y s))
        in if outside_world x y then Some (reject sq cmd ''invalid_payload'' tid0 s)
        else let s1 = (if tid0 = [] then s\<lparr>task_seq := task_seq s + 1\<rparr> else s);
                 tid = (if tid0 = [] then ''T-'' @ dec_int (task_seq s1) else tid0)
          in if task_id s1 \<noteq> [] \<and> task_id s1 = tid \<and> task_status s1 = ''DONE''
             then Some (publish_cmd_result sq cmd True ''DONE'' [] tid s1)
             else goto_start E sq cmd tid x y s1)"

definition task_resume :: "env \<Rightarrow> u16 \<Rightarrow> string \<Rightarrow> string \<Rightarrow> robot \<Rightarrow> robot" where
  "task_resume E sq cmd tid s =
     publish_state E
       (if task_id s \<noteq> [] \<and> task_type s = ''goto'' \<and> \<not> estop s \<and> phase s = ''IDLE'' \<and> console_online s \<and>
           \<not> has_error_condition s \<and> nav_path s \<noteq> []
        then accept sq cmd (task_id s)
               (s\<lparr>phase := ''RUNNING'', task_status := ''EXECUTING'', nav_status := ''TRACKING'',
                  control_enabled := False\<rparr>)
        else reject sq cmd (if estop s then ''estop_active'' else ''unknown_task'') tid s)"

definition cmd_task :: "env \<Rightarrow> u16 \<Rightarrow> string \<Rightarrow> string \<Rightarrow> robot \<Rightarrow> robot option" where
  "cmd_task E sq cmd data s =
     (let ty = (case extract_string data ''type'' of None \<Rightarrow> [] | Some t \<Rightarrow> t);
          tid = (case extract_string data ''task_id'' of None \<Rightarrow> [] | Some t \<Rightarrow> t)
      in if ty = ''pause'' then Some (task_pause E sq cmd tid s)
         else if ty = ''cancel'' then Some (task_cancel E sq cmd s)
         else if cmd_blocked s then Some (reject sq cmd (busy_reason s) tid s)
         else if ty = ''goto'' then task_goto E sq cmd data tid s
         else if ty = ''resume'' then Some (task_resume E sq cmd tid s)
         else if ty = ''cancel'' then Some (task_cancel_again E sq cmd s)
         else Some (reject sq cmd ''unknown_task'' tid s))"

section \<open>Faults\<close>

definition cmd_inject :: "env \<Rightarrow> u16 \<Rightarrow> string \<Rightarrow> string \<Rightarrow> robot \<Rightarrow> robot" where
  "cmd_inject E sq cmd data s =
     (let detail = (case extract_string data ''detail'' of None \<Rightarrow> ''injected by operator'' | Some d \<Rightarrow> d)
      in publish_state E (accept sq cmd [] (inject_fault detail s)))"

definition cmd_clear :: "env \<Rightarrow> u16 \<Rightarrow> string \<Rightarrow> robot \<Rightarrow> robot" where
  "cmd_clear E sq cmd s =
     (let s1 = clear_faults s;
          s2 = recompute (set_node 1 (if console_online s1 then ''OK'' else ''WARN'') s1);
          s3 = (if phase s2 = ''FAULT'' \<and> \<not> has_error_condition s2 then s2\<lparr>phase := ''IDLE''\<rparr> else s2);
          s4 = s3\<lparr>control_enabled := (console_online s3 \<and> phase s3 = ''IDLE'' \<and> \<not> estop s3)\<rparr>
      in publish_state E (accept sq cmd [] s4))"

section \<open>The handler\<close>

definition on_cmd :: "env \<Rightarrow> string \<Rightarrow> robot \<Rightarrow> robot option" where
  "on_cmd E data s =
     (case extract_string data ''cmd'' of
        None \<Rightarrow> Some s
      | Some cmd \<Rightarrow>
          let sq = extract_seq data in
          if cmd = ''CMD_ESTART'' \<or> cmd = ''CMD_ESTOP'' then Some (cmd_estop E sq s)
          else if cmd = ''CMD_RESET'' then Some (cmd_reset E sq cmd data s)
          else if cmd = ''CMD_MODE'' then Some (cmd_mode E sq cmd data s)
          else if cmd = ''CMD_TASK'' then cmd_task E sq cmd data s
          else if cmd = ''INJECT_FAULT'' \<or> cmd = ''CMD_INJECT_FAULT'' then Some (cmd_inject E sq cmd data s)
          else if cmd = ''CLEAR_FAULT'' \<or> cmd = ''CMD_CLEAR_FAULT'' then Some (cmd_clear E sq cmd s)
          else Some (reject sq cmd ''not_implemented'' [] s))"

section \<open>The node as a whole\<close>

text \<open>
  What can happen to the node. A command or a heartbeat is delivered only while its subscription
  exists, a tick only while the timer exists. The executor chooses the order.
\<close>

datatype event = Configure | Activate int int | Deactivate | Cleanup | Shutdown
  | Console string | Cmd string | Tick int

definition robot_step :: "env \<Rightarrow> robot \<Rightarrow> event \<Rightarrow> robot option" where
  "robot_step E s ev =
     (case ev of
        Configure \<Rightarrow> Some (on_configure E s)
      | Activate t1 t2 \<Rightarrow> Some (on_activate E t1 t2 s)
      | Deactivate \<Rightarrow> Some (on_deactivate s)
      | Cleanup \<Rightarrow> Some (on_cleanup s)
      | Shutdown \<Rightarrow> Some (on_shutdown s)
      | Console d \<Rightarrow> if console_sub s then Some (on_console E d s) else Some s
      | Cmd d \<Rightarrow> if cmd_sub s then on_cmd E d s else Some s
      | Tick t \<Rightarrow> if tick_timer s then tick E t s else Some s)"

end
