(* ===== verification/Robot_Frame.thy ===== *)
theory Robot_Frame
  imports Robot_Cmd
begin

text \<open>
  Which fields of the robot each operation leaves alone. These facts carry the proofs about the
  callbacks: an invariant over a few fields is unfolded once and simplified with them.
\<close>

section \<open>Frames of the helpers\<close>

lemma publish_state_frame [simp, robot_frame]:
  "tick_timer (publish_state E s) = tick_timer s" "state_pub (publish_state E s) = state_pub s"
  "result_pub (publish_state E s) = result_pub s" "cmd_sub (publish_state E s) = cmd_sub s"
  "active (publish_state E s) = active s" "phase (publish_state E s) = phase s"
  "estop (publish_state E s) = estop s" "control_enabled (publish_state E s) = control_enabled s"
  "console_online (publish_state E s) = console_online s" "pose_x (publish_state E s) = pose_x s"
  "pose_y (publish_state E s) = pose_y s" "pose_yaw (publish_state E s) = pose_yaw s"
  "battery (publish_state E s) = battery s" "task_id (publish_state E s) = task_id s"
  "task_type (publish_state E s) = task_type s" "task_status (publish_state E s) = task_status s"
  "goal_x (publish_state E s) = goal_x s" "goal_y (publish_state E s) = goal_y s"
  "nodes (publish_state E s) = nodes s" "faults (publish_state E s) = faults s"
  "nav_map (publish_state E s) = nav_map s" "nav_path (publish_state E s) = nav_path s"
  "nav_idx (publish_state E s) = nav_idx s" "mode (publish_state E s) = mode s"
  "idle_tp (publish_state E s) = idle_tp s" "last_tick_tp (publish_state E s) = last_tick_tp s"
  by (simp_all add: publish_state_def)

lemma publish_cmd_result_frame [simp, robot_frame]:
  "tick_timer (publish_cmd_result sq cmd ok st re tid s) = tick_timer s"
  "state_pub (publish_cmd_result sq cmd ok st re tid s) = state_pub s"
  "result_pub (publish_cmd_result sq cmd ok st re tid s) = result_pub s"
  "cmd_sub (publish_cmd_result sq cmd ok st re tid s) = cmd_sub s"
  "active (publish_cmd_result sq cmd ok st re tid s) = active s"
  "phase (publish_cmd_result sq cmd ok st re tid s) = phase s"
  "estop (publish_cmd_result sq cmd ok st re tid s) = estop s"
  "control_enabled (publish_cmd_result sq cmd ok st re tid s) = control_enabled s"
  "console_online (publish_cmd_result sq cmd ok st re tid s) = console_online s"
  "pose_x (publish_cmd_result sq cmd ok st re tid s) = pose_x s"
  "pose_y (publish_cmd_result sq cmd ok st re tid s) = pose_y s"
  "pose_yaw (publish_cmd_result sq cmd ok st re tid s) = pose_yaw s"
  "battery (publish_cmd_result sq cmd ok st re tid s) = battery s"
  "task_id (publish_cmd_result sq cmd ok st re tid s) = task_id s"
  "task_type (publish_cmd_result sq cmd ok st re tid s) = task_type s"
  "task_status (publish_cmd_result sq cmd ok st re tid s) = task_status s"
  "goal_x (publish_cmd_result sq cmd ok st re tid s) = goal_x s"
  "goal_y (publish_cmd_result sq cmd ok st re tid s) = goal_y s"
  "nodes (publish_cmd_result sq cmd ok st re tid s) = nodes s"
  "faults (publish_cmd_result sq cmd ok st re tid s) = faults s"
  "nav_map (publish_cmd_result sq cmd ok st re tid s) = nav_map s"
  "nav_path (publish_cmd_result sq cmd ok st re tid s) = nav_path s"
  "nav_idx (publish_cmd_result sq cmd ok st re tid s) = nav_idx s"
  "mode (publish_cmd_result sq cmd ok st re tid s) = mode s"
  "idle_tp (publish_cmd_result sq cmd ok st re tid s) = idle_tp s"
  "last_tick_tp (publish_cmd_result sq cmd ok st re tid s) = last_tick_tp s"
  by (simp_all add: publish_cmd_result_def)

lemma set_node_frame [simp, robot_frame]:
  "tick_timer (set_node i st s) = tick_timer s" "state_pub (set_node i st s) = state_pub s"
  "result_pub (set_node i st s) = result_pub s" "cmd_sub (set_node i st s) = cmd_sub s"
  "active (set_node i st s) = active s" "phase (set_node i st s) = phase s"
  "estop (set_node i st s) = estop s" "control_enabled (set_node i st s) = control_enabled s"
  "console_online (set_node i st s) = console_online s" "pose_x (set_node i st s) = pose_x s"
  "pose_y (set_node i st s) = pose_y s" "pose_yaw (set_node i st s) = pose_yaw s"
  "battery (set_node i st s) = battery s" "task_id (set_node i st s) = task_id s"
  "task_type (set_node i st s) = task_type s" "task_status (set_node i st s) = task_status s"
  "goal_x (set_node i st s) = goal_x s" "goal_y (set_node i st s) = goal_y s"
  "faults (set_node i st s) = faults s" "nav_map (set_node i st s) = nav_map s"
  "nav_path (set_node i st s) = nav_path s" "nav_idx (set_node i st s) = nav_idx s"
  "mode (set_node i st s) = mode s" "idle_tp (set_node i st s) = idle_tp s"
  "last_tick_tp (set_node i st s) = last_tick_tp s" "outbox (set_node i st s) = outbox s"
  by (simp_all add: set_node_def)

lemma add_fault_frame [simp, robot_frame]:
  "tick_timer (add_fault code level detail s) = tick_timer s"
  "state_pub (add_fault code level detail s) = state_pub s"
  "result_pub (add_fault code level detail s) = result_pub s"
  "cmd_sub (add_fault code level detail s) = cmd_sub s"
  "active (add_fault code level detail s) = active s"
  "phase (add_fault code level detail s) = phase s"
  "estop (add_fault code level detail s) = estop s"
  "control_enabled (add_fault code level detail s) = control_enabled s"
  "console_online (add_fault code level detail s) = console_online s"
  "pose_x (add_fault code level detail s) = pose_x s"
  "pose_y (add_fault code level detail s) = pose_y s"
  "pose_yaw (add_fault code level detail s) = pose_yaw s"
  "battery (add_fault code level detail s) = battery s"
  "task_id (add_fault code level detail s) = task_id s"
  "task_type (add_fault code level detail s) = task_type s"
  "task_status (add_fault code level detail s) = task_status s"
  "goal_x (add_fault code level detail s) = goal_x s"
  "goal_y (add_fault code level detail s) = goal_y s"
  "nodes (add_fault code level detail s) = nodes s"
  "nav_map (add_fault code level detail s) = nav_map s"
  "nav_path (add_fault code level detail s) = nav_path s"
  "nav_idx (add_fault code level detail s) = nav_idx s"
  "mode (add_fault code level detail s) = mode s"
  "idle_tp (add_fault code level detail s) = idle_tp s"
  "last_tick_tp (add_fault code level detail s) = last_tick_tp s"
  "outbox (add_fault code level detail s) = outbox s"
  by (simp_all add: add_fault_def)

lemma fail_task_frame [simp, robot_frame]:
  "tick_timer (fail_task s) = tick_timer s" "state_pub (fail_task s) = state_pub s"
  "result_pub (fail_task s) = result_pub s" "cmd_sub (fail_task s) = cmd_sub s"
  "active (fail_task s) = active s" "phase (fail_task s) = phase s" "estop (fail_task s) = estop s"
  "control_enabled (fail_task s) = control_enabled s"
  "console_online (fail_task s) = console_online s" "pose_x (fail_task s) = pose_x s"
  "pose_y (fail_task s) = pose_y s" "pose_yaw (fail_task s) = pose_yaw s"
  "battery (fail_task s) = battery s" "task_id (fail_task s) = task_id s"
  "task_type (fail_task s) = task_type s" "goal_x (fail_task s) = goal_x s"
  "goal_y (fail_task s) = goal_y s" "nodes (fail_task s) = nodes s"
  "faults (fail_task s) = faults s" "nav_map (fail_task s) = nav_map s"
  "nav_path (fail_task s) = nav_path s" "nav_idx (fail_task s) = nav_idx s"
  "mode (fail_task s) = mode s" "idle_tp (fail_task s) = idle_tp s"
  "last_tick_tp (fail_task s) = last_tick_tp s" "outbox (fail_task s) = outbox s"
  by (simp_all add: fail_task_def)

lemma clear_faults_frame [simp, robot_frame]:
  "tick_timer (clear_faults s) = tick_timer s" "state_pub (clear_faults s) = state_pub s"
  "result_pub (clear_faults s) = result_pub s" "cmd_sub (clear_faults s) = cmd_sub s"
  "active (clear_faults s) = active s" "phase (clear_faults s) = phase s"
  "estop (clear_faults s) = estop s" "control_enabled (clear_faults s) = control_enabled s"
  "console_online (clear_faults s) = console_online s" "pose_x (clear_faults s) = pose_x s"
  "pose_y (clear_faults s) = pose_y s" "pose_yaw (clear_faults s) = pose_yaw s"
  "battery (clear_faults s) = battery s" "task_id (clear_faults s) = task_id s"
  "task_type (clear_faults s) = task_type s" "task_status (clear_faults s) = task_status s"
  "goal_x (clear_faults s) = goal_x s" "goal_y (clear_faults s) = goal_y s"
  "nav_map (clear_faults s) = nav_map s" "nav_path (clear_faults s) = nav_path s"
  "nav_idx (clear_faults s) = nav_idx s" "mode (clear_faults s) = mode s"
  "idle_tp (clear_faults s) = idle_tp s" "last_tick_tp (clear_faults s) = last_tick_tp s"
  "outbox (clear_faults s) = outbox s"
  by (simp_all add: clear_faults_def)

lemma recompute_frame [simp, robot_frame]:
  "tick_timer (recompute s) = tick_timer s" "state_pub (recompute s) = state_pub s"
  "result_pub (recompute s) = result_pub s" "cmd_sub (recompute s) = cmd_sub s"
  "active (recompute s) = active s" "estop (recompute s) = estop s"
  "console_online (recompute s) = console_online s" "pose_x (recompute s) = pose_x s"
  "pose_y (recompute s) = pose_y s" "pose_yaw (recompute s) = pose_yaw s"
  "battery (recompute s) = battery s" "task_id (recompute s) = task_id s"
  "task_type (recompute s) = task_type s" "goal_x (recompute s) = goal_x s"
  "goal_y (recompute s) = goal_y s" "faults (recompute s) = faults s"
  "nav_map (recompute s) = nav_map s" "nav_path (recompute s) = nav_path s"
  "nav_idx (recompute s) = nav_idx s" "mode (recompute s) = mode s"
  "idle_tp (recompute s) = idle_tp s" "last_tick_tp (recompute s) = last_tick_tp s"
  "outbox (recompute s) = outbox s"
  by (simp_all add: recompute_def Let_def)

lemma apply_safety_stop_frame [simp, robot_frame]:
  "tick_timer (apply_safety_stop E s) = tick_timer s"
  "state_pub (apply_safety_stop E s) = state_pub s"
  "result_pub (apply_safety_stop E s) = result_pub s" "cmd_sub (apply_safety_stop E s) = cmd_sub s"
  "active (apply_safety_stop E s) = active s" "estop (apply_safety_stop E s) = estop s"
  "console_online (apply_safety_stop E s) = console_online s"
  "pose_x (apply_safety_stop E s) = pose_x s" "pose_y (apply_safety_stop E s) = pose_y s"
  "pose_yaw (apply_safety_stop E s) = pose_yaw s" "battery (apply_safety_stop E s) = battery s"
  "task_id (apply_safety_stop E s) = task_id s" "goal_x (apply_safety_stop E s) = goal_x s"
  "goal_y (apply_safety_stop E s) = goal_y s" "faults (apply_safety_stop E s) = faults s"
  "nav_map (apply_safety_stop E s) = nav_map s" "nav_path (apply_safety_stop E s) = nav_path s"
  "nav_idx (apply_safety_stop E s) = nav_idx s" "mode (apply_safety_stop E s) = mode s"
  "idle_tp (apply_safety_stop E s) = idle_tp s"
  "last_tick_tp (apply_safety_stop E s) = last_tick_tp s"
  by (simp_all add: apply_safety_stop_def Let_def)

section \<open>Frames of the parts of the callbacks\<close>

lemma tick_ready_frame [simp, robot_frame]:
  "tick_timer (tick_ready now s) = tick_timer s" "state_pub (tick_ready now s) = state_pub s"
  "result_pub (tick_ready now s) = result_pub s" "cmd_sub (tick_ready now s) = cmd_sub s"
  "active (tick_ready now s) = active s" "estop (tick_ready now s) = estop s"
  "control_enabled (tick_ready now s) = control_enabled s"
  "console_online (tick_ready now s) = console_online s" "pose_x (tick_ready now s) = pose_x s"
  "pose_y (tick_ready now s) = pose_y s" "pose_yaw (tick_ready now s) = pose_yaw s"
  "battery (tick_ready now s) = battery s" "task_id (tick_ready now s) = task_id s"
  "task_type (tick_ready now s) = task_type s" "task_status (tick_ready now s) = task_status s"
  "goal_x (tick_ready now s) = goal_x s" "goal_y (tick_ready now s) = goal_y s"
  "nodes (tick_ready now s) = nodes s" "faults (tick_ready now s) = faults s"
  "nav_map (tick_ready now s) = nav_map s" "nav_path (tick_ready now s) = nav_path s"
  "nav_idx (tick_ready now s) = nav_idx s" "mode (tick_ready now s) = mode s"
  "idle_tp (tick_ready now s) = idle_tp s" "last_tick_tp (tick_ready now s) = last_tick_tp s"
  "outbox (tick_ready now s) = outbox s"
  by (simp_all add: tick_ready_def)

lemma push_trail_frame [simp, robot_frame]:
  "tick_timer (push_trail s) = tick_timer s" "state_pub (push_trail s) = state_pub s"
  "result_pub (push_trail s) = result_pub s" "cmd_sub (push_trail s) = cmd_sub s"
  "active (push_trail s) = active s" "phase (push_trail s) = phase s"
  "estop (push_trail s) = estop s" "control_enabled (push_trail s) = control_enabled s"
  "console_online (push_trail s) = console_online s" "pose_x (push_trail s) = pose_x s"
  "pose_y (push_trail s) = pose_y s" "pose_yaw (push_trail s) = pose_yaw s"
  "battery (push_trail s) = battery s" "task_id (push_trail s) = task_id s"
  "task_type (push_trail s) = task_type s" "task_status (push_trail s) = task_status s"
  "goal_x (push_trail s) = goal_x s" "goal_y (push_trail s) = goal_y s"
  "nodes (push_trail s) = nodes s" "faults (push_trail s) = faults s"
  "nav_map (push_trail s) = nav_map s" "nav_path (push_trail s) = nav_path s"
  "nav_idx (push_trail s) = nav_idx s" "mode (push_trail s) = mode s"
  "idle_tp (push_trail s) = idle_tp s" "last_tick_tp (push_trail s) = last_tick_tp s"
  "outbox (push_trail s) = outbox s"
  by (simp_all add: push_trail_def)

lemma tick_trail_frame [simp, robot_frame]:
  "tick_timer (tick_trail s) = tick_timer s" "state_pub (tick_trail s) = state_pub s"
  "result_pub (tick_trail s) = result_pub s" "cmd_sub (tick_trail s) = cmd_sub s"
  "active (tick_trail s) = active s" "phase (tick_trail s) = phase s"
  "estop (tick_trail s) = estop s" "control_enabled (tick_trail s) = control_enabled s"
  "console_online (tick_trail s) = console_online s" "pose_x (tick_trail s) = pose_x s"
  "pose_y (tick_trail s) = pose_y s" "pose_yaw (tick_trail s) = pose_yaw s"
  "battery (tick_trail s) = battery s" "task_id (tick_trail s) = task_id s"
  "task_type (tick_trail s) = task_type s" "goal_x (tick_trail s) = goal_x s"
  "goal_y (tick_trail s) = goal_y s" "nodes (tick_trail s) = nodes s"
  "faults (tick_trail s) = faults s" "nav_map (tick_trail s) = nav_map s"
  "nav_path (tick_trail s) = nav_path s" "nav_idx (tick_trail s) = nav_idx s"
  "mode (tick_trail s) = mode s" "idle_tp (tick_trail s) = idle_tp s"
  "last_tick_tp (tick_trail s) = last_tick_tp s" "outbox (tick_trail s) = outbox s"
  by (simp_all add: tick_trail_def Let_def)

lemma tick_console_frame [simp, robot_frame]:
  "tick_timer (tick_console E s) = tick_timer s" "state_pub (tick_console E s) = state_pub s"
  "result_pub (tick_console E s) = result_pub s" "cmd_sub (tick_console E s) = cmd_sub s"
  "active (tick_console E s) = active s" "estop (tick_console E s) = estop s"
  "pose_x (tick_console E s) = pose_x s" "pose_y (tick_console E s) = pose_y s"
  "pose_yaw (tick_console E s) = pose_yaw s" "battery (tick_console E s) = battery s"
  "task_id (tick_console E s) = task_id s" "goal_x (tick_console E s) = goal_x s"
  "goal_y (tick_console E s) = goal_y s" "faults (tick_console E s) = faults s"
  "nav_map (tick_console E s) = nav_map s" "nav_path (tick_console E s) = nav_path s"
  "nav_idx (tick_console E s) = nav_idx s" "mode (tick_console E s) = mode s"
  "idle_tp (tick_console E s) = idle_tp s" "last_tick_tp (tick_console E s) = last_tick_tp s"
  by (simp_all add: tick_console_def now_ms_def Let_def)

lemma tick_cross_track_frame [simp, robot_frame]:
  "tick_timer (tick_cross_track s) = tick_timer s" "state_pub (tick_cross_track s) = state_pub s"
  "result_pub (tick_cross_track s) = result_pub s" "cmd_sub (tick_cross_track s) = cmd_sub s"
  "active (tick_cross_track s) = active s" "estop (tick_cross_track s) = estop s"
  "console_online (tick_cross_track s) = console_online s" "pose_x (tick_cross_track s) = pose_x s"
  "pose_y (tick_cross_track s) = pose_y s" "pose_yaw (tick_cross_track s) = pose_yaw s"
  "battery (tick_cross_track s) = battery s" "task_id (tick_cross_track s) = task_id s"
  "task_type (tick_cross_track s) = task_type s" "goal_x (tick_cross_track s) = goal_x s"
  "goal_y (tick_cross_track s) = goal_y s" "nav_map (tick_cross_track s) = nav_map s"
  "nav_path (tick_cross_track s) = nav_path s" "nav_idx (tick_cross_track s) = nav_idx s"
  "mode (tick_cross_track s) = mode s" "idle_tp (tick_cross_track s) = idle_tp s"
  "last_tick_tp (tick_cross_track s) = last_tick_tp s" "outbox (tick_cross_track s) = outbox s"
  by (simp_all add: tick_cross_track_def Let_def)

lemma tick_complete_frame [simp, robot_frame]:
  "tick_timer (tick_complete s) = tick_timer s" "state_pub (tick_complete s) = state_pub s"
  "result_pub (tick_complete s) = result_pub s" "cmd_sub (tick_complete s) = cmd_sub s"
  "active (tick_complete s) = active s" "estop (tick_complete s) = estop s"
  "console_online (tick_complete s) = console_online s" "pose_yaw (tick_complete s) = pose_yaw s"
  "battery (tick_complete s) = battery s" "task_id (tick_complete s) = task_id s"
  "task_type (tick_complete s) = task_type s" "goal_x (tick_complete s) = goal_x s"
  "goal_y (tick_complete s) = goal_y s" "faults (tick_complete s) = faults s"
  "nav_map (tick_complete s) = nav_map s" "nav_path (tick_complete s) = nav_path s"
  "nav_idx (tick_complete s) = nav_idx s" "mode (tick_complete s) = mode s"
  "idle_tp (tick_complete s) = idle_tp s" "last_tick_tp (tick_complete s) = last_tick_tp s"
  "outbox (tick_complete s) = outbox s"
  by (simp_all add: tick_complete_def Let_def)

lemma tick_battery_frame [simp, robot_frame]:
  "tick_timer (tick_battery s) = tick_timer s" "state_pub (tick_battery s) = state_pub s"
  "result_pub (tick_battery s) = result_pub s" "cmd_sub (tick_battery s) = cmd_sub s"
  "active (tick_battery s) = active s" "estop (tick_battery s) = estop s"
  "console_online (tick_battery s) = console_online s" "pose_x (tick_battery s) = pose_x s"
  "pose_y (tick_battery s) = pose_y s" "pose_yaw (tick_battery s) = pose_yaw s"
  "task_id (tick_battery s) = task_id s" "task_type (tick_battery s) = task_type s"
  "goal_x (tick_battery s) = goal_x s" "goal_y (tick_battery s) = goal_y s"
  "nav_map (tick_battery s) = nav_map s" "nav_path (tick_battery s) = nav_path s"
  "nav_idx (tick_battery s) = nav_idx s" "mode (tick_battery s) = mode s"
  "idle_tp (tick_battery s) = idle_tp s" "last_tick_tp (tick_battery s) = last_tick_tp s"
  "outbox (tick_battery s) = outbox s"
  by (simp_all add: tick_battery_def Let_def)

lemma reject_frame [simp, robot_frame]:
  "tick_timer (reject sq cmd re tid s) = tick_timer s"
  "state_pub (reject sq cmd re tid s) = state_pub s"
  "result_pub (reject sq cmd re tid s) = result_pub s"
  "cmd_sub (reject sq cmd re tid s) = cmd_sub s" "active (reject sq cmd re tid s) = active s"
  "phase (reject sq cmd re tid s) = phase s" "estop (reject sq cmd re tid s) = estop s"
  "control_enabled (reject sq cmd re tid s) = control_enabled s"
  "console_online (reject sq cmd re tid s) = console_online s"
  "pose_x (reject sq cmd re tid s) = pose_x s" "pose_y (reject sq cmd re tid s) = pose_y s"
  "pose_yaw (reject sq cmd re tid s) = pose_yaw s" "battery (reject sq cmd re tid s) = battery s"
  "task_id (reject sq cmd re tid s) = task_id s" "task_type (reject sq cmd re tid s) = task_type s"
  "task_status (reject sq cmd re tid s) = task_status s"
  "goal_x (reject sq cmd re tid s) = goal_x s" "goal_y (reject sq cmd re tid s) = goal_y s"
  "nodes (reject sq cmd re tid s) = nodes s" "faults (reject sq cmd re tid s) = faults s"
  "nav_map (reject sq cmd re tid s) = nav_map s" "nav_path (reject sq cmd re tid s) = nav_path s"
  "nav_idx (reject sq cmd re tid s) = nav_idx s" "mode (reject sq cmd re tid s) = mode s"
  "idle_tp (reject sq cmd re tid s) = idle_tp s"
  "last_tick_tp (reject sq cmd re tid s) = last_tick_tp s"
  by (simp_all add: reject_def)

lemma accept_frame [simp, robot_frame]:
  "tick_timer (accept sq cmd tid s) = tick_timer s" "state_pub (accept sq cmd tid s) = state_pub s"
  "result_pub (accept sq cmd tid s) = result_pub s" "cmd_sub (accept sq cmd tid s) = cmd_sub s"
  "active (accept sq cmd tid s) = active s" "phase (accept sq cmd tid s) = phase s"
  "estop (accept sq cmd tid s) = estop s"
  "control_enabled (accept sq cmd tid s) = control_enabled s"
  "console_online (accept sq cmd tid s) = console_online s"
  "pose_x (accept sq cmd tid s) = pose_x s" "pose_y (accept sq cmd tid s) = pose_y s"
  "pose_yaw (accept sq cmd tid s) = pose_yaw s" "battery (accept sq cmd tid s) = battery s"
  "task_id (accept sq cmd tid s) = task_id s" "task_type (accept sq cmd tid s) = task_type s"
  "task_status (accept sq cmd tid s) = task_status s" "goal_x (accept sq cmd tid s) = goal_x s"
  "goal_y (accept sq cmd tid s) = goal_y s" "nodes (accept sq cmd tid s) = nodes s"
  "faults (accept sq cmd tid s) = faults s" "nav_map (accept sq cmd tid s) = nav_map s"
  "nav_path (accept sq cmd tid s) = nav_path s" "nav_idx (accept sq cmd tid s) = nav_idx s"
  "mode (accept sq cmd tid s) = mode s" "idle_tp (accept sq cmd tid s) = idle_tp s"
  "last_tick_tp (accept sq cmd tid s) = last_tick_tp s"
  by (simp_all add: accept_def)

lemma stop_running_frame [simp, robot_frame]:
  "tick_timer (stop_running s) = tick_timer s" "state_pub (stop_running s) = state_pub s"
  "result_pub (stop_running s) = result_pub s" "cmd_sub (stop_running s) = cmd_sub s"
  "active (stop_running s) = active s" "estop (stop_running s) = estop s"
  "control_enabled (stop_running s) = control_enabled s"
  "console_online (stop_running s) = console_online s" "pose_x (stop_running s) = pose_x s"
  "pose_y (stop_running s) = pose_y s" "pose_yaw (stop_running s) = pose_yaw s"
  "battery (stop_running s) = battery s" "task_id (stop_running s) = task_id s"
  "task_type (stop_running s) = task_type s" "task_status (stop_running s) = task_status s"
  "goal_x (stop_running s) = goal_x s" "goal_y (stop_running s) = goal_y s"
  "nodes (stop_running s) = nodes s" "faults (stop_running s) = faults s"
  "nav_map (stop_running s) = nav_map s" "nav_path (stop_running s) = nav_path s"
  "nav_idx (stop_running s) = nav_idx s" "mode (stop_running s) = mode s"
  "idle_tp (stop_running s) = idle_tp s" "last_tick_tp (stop_running s) = last_tick_tp s"
  "outbox (stop_running s) = outbox s"
  by (simp_all add: stop_running_def)

end
