(* ===== verification/Robot_Safety.thy ===== *)
theory Robot_Safety
  imports Robot_Frame
begin

text \<open>
  The safety invariant of the robot and its preservation by every callback: an emergency stop
  dominates every other phase, control is only offered in \<open>IDLE\<close> with a live console, and the
  robot only runs a goto that has a path, with a live console and no emergency stop. The
  interpretation of \<open>step_system\<close> carries it to every sequence of events.
\<close>

section \<open>The invariant\<close>

definition phases :: "string set" where
  "phases = {''BOOT'', ''INITIALIZING'', ''IDLE'', ''RUNNING'', ''DEGRADED'', ''FAULT'', ''ESTOP''}"

text \<open>What a callback has to keep before it recomputes the phase.\<close>

definition running_ok :: "robot \<Rightarrow> bool" where
  "running_ok s \<longleftrightarrow> phase s \<in> phases \<and>
     (phase s = ''RUNNING'' \<longrightarrow> console_online s \<and> task_type s = ''goto'' \<and> nav_path s \<noteq> [])"

definition safe :: "robot \<Rightarrow> bool" where
  "safe s \<longleftrightarrow> running_ok s \<and>
     (estop s \<longrightarrow> phase s \<in> {''ESTOP'', ''INITIALIZING'', ''BOOT''}) \<and>
     (phase s = ''ESTOP'' \<longrightarrow> estop s) \<and>
     (cmd_sub s \<and> control_enabled s \<longrightarrow> phase s = ''IDLE'' \<and> console_online s \<and> \<not> estop s)"

lemma safe_running_ok: "safe s \<Longrightarrow> running_ok s"
  by (simp add: safe_def)

text \<open>Recomputing establishes the invariant, whatever the flags were.\<close>

lemma error_set_node_ok: "\<not> has_error_condition s \<Longrightarrow> \<not> has_error_condition (set_node i ''OK'' s)"
  by (auto simp: has_error_condition_def set_node_def list_ex_iff dest!: set_update_subset_insert [THEN subsetD])

lemma warn_set_node_ok: "\<not> has_warn_condition s \<Longrightarrow> \<not> has_warn_condition (set_node i ''OK'' s)"
  by (auto simp: has_warn_condition_def set_node_def list_ex_iff dest!: set_update_subset_insert [THEN subsetD])

lemma recompute_phase:
  "phase (recompute s) =
     (if estop s then ''ESTOP''
      else if phase s = ''BOOT'' \<or> phase s = ''INITIALIZING'' then phase s
      else if has_error_condition s then ''FAULT''
      else if has_warn_condition s then (if phase s = ''RUNNING'' then ''RUNNING'' else ''DEGRADED'')
      else if phase s \<in> {''FAULT'', ''DEGRADED'', ''ESTOP''} then ''IDLE''
      else phase s)"
  by (auto simp: recompute_def Let_def error_set_node_ok warn_set_node_ok)

lemma recompute_control:
  "running_ok s \<Longrightarrow> control_enabled (recompute s) \<longleftrightarrow>
     \<not> estop s \<and> \<not> has_error_condition s \<and> \<not> has_warn_condition s \<and> console_online s \<and>
     phase s \<in> {''IDLE'', ''FAULT'', ''DEGRADED'', ''ESTOP''}"
  by (auto simp: recompute_def Let_def error_set_node_ok warn_set_node_ok running_ok_def phases_def)

lemma recompute_safe [intro]:
  assumes "running_ok s"
  shows "safe (recompute s)"
proof -
  have "running_ok (recompute s)" using assms
    by (auto simp: running_ok_def recompute_phase phases_def)
  moreover have "phase (recompute s) = ''ESTOP'' \<longleftrightarrow> estop s"
    using assms by (auto simp: recompute_phase running_ok_def phases_def)
  moreover have "control_enabled (recompute s) \<Longrightarrow> phase (recompute s) = ''IDLE''"
    by (auto simp: recompute_control [OF assms] recompute_phase)
  ultimately show ?thesis
    using assms by (auto simp: safe_def recompute_control)
qed

text \<open>The invariant reads seven fields; messages, faults and nodes do not touch it.\<close>

lemma safe_cong:
  "phase s' = phase s \<Longrightarrow> console_online s' = console_online s \<Longrightarrow> task_type s' = task_type s \<Longrightarrow>
   nav_path s' = nav_path s \<Longrightarrow> estop s' = estop s \<Longrightarrow> cmd_sub s' = cmd_sub s \<Longrightarrow>
   control_enabled s' = control_enabled s \<Longrightarrow> safe s' = safe s"
  by (simp add: safe_def running_ok_def)

lemma safe_messages [simp]:
  "safe (publish_state E s) = safe s" "safe (publish_cmd_result sq cmd ok st re tid s) = safe s"
  "safe (reject sq cmd re tid s) = safe s" "safe (accept sq cmd tid s) = safe s"
  "safe (set_node i st s) = safe s" "safe (add_fault c l d s) = safe s" "safe (fail_task s) = safe s"
  by (rule safe_cong; simp)+

lemma running_ok_messages [simp]:
  "running_ok (publish_state E s) = running_ok s"
  "running_ok (set_node i st s) = running_ok s" "running_ok (add_fault c l d s) = running_ok s"
  "running_ok (fail_task s) = running_ok s" "running_ok (clear_faults s) = running_ok s"
  "running_ok (reject sq cmd re tid s) = running_ok s" "running_ok (accept sq cmd tid s) = running_ok s"
  by (simp_all add: running_ok_def)

text \<open>Taking control away keeps it.\<close>

lemma safe_control_off [intro]: "safe s \<Longrightarrow> safe (s\<lparr>control_enabled := False\<rparr>)"
  by (simp add: safe_def running_ok_def)

section \<open>Lifecycle and console\<close>

lemma in_phases [simp]:
  "''BOOT'' \<in> phases" "''INITIALIZING'' \<in> phases" "''IDLE'' \<in> phases" "''RUNNING'' \<in> phases"
  "''DEGRADED'' \<in> phases" "''FAULT'' \<in> phases" "''ESTOP'' \<in> phases"
  by (simp_all add: phases_def)

lemma init_safe: "safe init_robot"
  by (simp add: safe_def running_ok_def init_robot_def)

lemma on_configure_safe: "safe (on_configure E s)"
  by (simp add: on_configure_def Let_def) (simp add: safe_def running_ok_def)

lemma on_activate_safe: "safe (on_activate E t1 t2 s)"
  by (simp add: on_activate_def Let_def safe_def running_ok_def)

lemma on_deactivate_safe: "safe (on_deactivate s)"
  by (simp add: on_deactivate_def safe_def running_ok_def)

lemma on_cleanup_safe: "safe (on_cleanup s)"
  by (simp add: on_cleanup_def safe_def running_ok_def)

lemma apply_safety_stop_safe:
  assumes "phase s \<in> phases"
  shows "safe (apply_safety_stop E s)"
proof -
  have "running_ok ((if phase (fail_task s) = ''RUNNING'' then fail_task s\<lparr>phase := ''IDLE''\<rparr> else fail_task s)
      \<lparr>task_type := []\<rparr>)"
    using assms by (auto simp: running_ok_def)
  then show ?thesis by (auto simp: apply_safety_stop_def Let_def intro!: safe_control_off recompute_safe)
qed

lemma on_console_safe:
  assumes "safe s"
  shows "safe (on_console E d s)"
proof -
  let ?on = "case extract_bool d ''online'' of None \<Rightarrow> False | Some b \<Rightarrow> b"
  define s2 where "s2 = (if ?on
                then let (t, s') = now_ms E (s\<lparr>console_online := ?on\<rparr>) in set_node 1 ''OK'' (s'\<lparr>last_console_ms := t\<rparr>)
                else let s' = set_node 1 ''WARN'' (s\<lparr>console_online := ?on\<rparr>)
                     in if phase s' = ''RUNNING'' then apply_safety_stop E s' else s')"
  have ph: "phase s \<in> phases" using assms by (simp add: safe_def running_ok_def)
  have "running_ok s2"
  proof (cases ?on)
    case True
    then show ?thesis using assms by (simp add: s2_def now_ms_def safe_def running_ok_def)
  next
    case False
    show ?thesis
    proof (cases "phase s = ''RUNNING''")
      case True
      with False ph show ?thesis
        by (auto simp: s2_def Let_def intro!: safe_running_ok apply_safety_stop_safe)
    next
      case no: False
      with False ph show ?thesis by (simp add: s2_def Let_def running_ok_def)
    qed
  qed
  then have "safe (recompute s2)" by blast
  then show ?thesis by (auto simp: on_console_def Let_def s2_def simp flip: s2_def)
qed

section \<open>The simulation step\<close>

lemma tick_console_running_ok: "running_ok s \<Longrightarrow> running_ok (tick_console E s)"
proof -
  assume r: "running_ok s"
  then have ph: "phase s \<in> phases" by (simp add: running_ok_def)
  have "running_ok (apply_safety_stop E (set_node 1 ''WARN'' (s\<lparr>reads := n, console_online := False\<rparr>)))" for n
    using ph by (intro safe_running_ok apply_safety_stop_safe) simp
  with r show ?thesis
    by (auto simp: tick_console_def now_ms_def Let_def running_ok_def)
qed

lemma tick_ready_running_ok: "running_ok s \<Longrightarrow> running_ok (tick_ready now s)"
  by (auto simp: tick_ready_def running_ok_def)

text \<open>The parts of a drive that neither touch the phase nor the console.\<close>

definition same_control :: "robot \<Rightarrow> robot \<Rightarrow> bool" where
  "same_control s s' \<longleftrightarrow> phase s' = phase s \<and> console_online s' = console_online s \<and>
     task_type s' = task_type s \<and> (nav_path s \<noteq> [] \<longrightarrow> nav_path s' \<noteq> []) \<and> estop s' = estop s \<and>
     cmd_sub s' = cmd_sub s \<and> control_enabled s' = control_enabled s"

lemma same_control_refl: "same_control s s"
  by (simp add: same_control_def)

lemma same_control_trans: "same_control a b \<Longrightarrow> same_control b c \<Longrightarrow> same_control a c"
  by (simp add: same_control_def)

lemma same_control_safe: "same_control s s' \<Longrightarrow> safe s \<Longrightarrow> safe s'"
  by (auto simp: same_control_def safe_def running_ok_def)

lemma tick_move_control: "tick_move E dt s = Some (s', c, w) \<Longrightarrow> same_control s s'"
  by (auto simp: tick_move_def same_control_def Let_def split: prod.splits if_splits option.splits
      Option.bind_splits)

lemma tick_trail_control: "same_control s (tick_trail s)"
  by (simp add: same_control_def)

lemma replan_control: "replan E s = Some s' \<Longrightarrow> same_control s s'"
  by (auto simp: replan_def same_control_def Let_def split: Option.bind_splits if_splits)

lemma tick_stuck_control: "tick_stuck E dt x y c w s = Some s' \<Longrightarrow> same_control s s'"
proof -
  assume t: "tick_stuck E dt x y c w s = Some s'"
  have "same_control s (s\<lparr>stuck_s := z\<rparr>)" for z by (simp add: same_control_def)
  then show ?thesis using t same_control_trans replan_control
    by (fastforce simp: tick_stuck_def Let_def split: if_splits)
qed

lemma tick_cross_track_safe: "safe s \<Longrightarrow> safe (tick_cross_track s)"
proof (cases "dlt (D 15 10) (cross_track s)")
  case True
  then show "safe s \<Longrightarrow> ?thesis"
    by (auto simp: tick_cross_track_def Let_def intro!: recompute_safe) (simp_all add: running_ok_def)
next
  case False
  then show "safe s \<Longrightarrow> ?thesis"
    by (rule_tac same_control_safe [of s]) (simp_all add: same_control_def tick_cross_track_def Let_def)
qed

lemma tick_complete_safe: "safe s \<Longrightarrow> safe (tick_complete s)"
  by (auto simp: tick_complete_def Let_def intro!: recompute_safe) (simp_all add: running_ok_def)

lemma tick_drive_safe: "safe s \<Longrightarrow> tick_drive E dt s = Some s' \<Longrightarrow> safe s'"
proof (cases "nav_path s = []")
  case True
  then show "safe s \<Longrightarrow> tick_drive E dt s = Some s' \<Longrightarrow> safe s'"
    by (auto simp: tick_drive_def intro!: recompute_safe) (simp add: running_ok_def)
next
  case False
  assume s: "safe s" and d: "tick_drive E dt s = Some s'"
  from d False obtain s1 c w s2 where "tick_move E dt s = Some (s1, c, w)"
    "tick_stuck E dt (pose_x s) (pose_y s) c w (tick_trail s1) = Some s2"
    "s' = tick_complete (tick_cross_track s2)"
    by (auto simp: tick_drive_def split: Option.bind_splits)
  with s show ?thesis
    by (metis same_control_safe tick_move_control tick_trail_control tick_stuck_control
        tick_cross_track_safe tick_complete_safe)
qed

lemma safe_battery [simp]: "safe (s\<lparr>battery := b\<rparr>) = safe s" "safe (s\<lparr>mode := md\<rparr>) = safe s"
  "safe (s\<lparr>task_seq := n\<rparr>) = safe s"
  by (rule safe_cong; simp)+

lemma tick_motion_safe: "safe s \<Longrightarrow> tick_motion E dt s = Some s' \<Longrightarrow> safe s'"
  by (auto simp: tick_motion_def split: Option.bind_splits if_splits dest: tick_drive_safe)

lemma tick_battery_safe: "safe s \<Longrightarrow> safe (tick_battery s)"
  by (auto simp: tick_battery_def Let_def intro!: recompute_safe safe_running_ok)

lemma safe_last_tick: "running_ok (s\<lparr>last_tick_tp := t\<rparr>) = running_ok s"
  by (simp add: running_ok_def)

lemma tick_safe:
  assumes "safe s" and "tick E now s = Some s'"
  shows "safe s'"
proof (cases "active s")
  case False
  with assms show ?thesis by (simp add: tick_def)
next
  case True
  define s1 where "s1 = recompute (tick_ready now (tick_console E (s\<lparr>last_tick_tp := now\<rparr>)))"
  have "safe s1" unfolding s1_def
    using assms(1) by (intro recompute_safe tick_ready_running_ok tick_console_running_ok)
      (simp add: safe_last_tick safe_running_ok)
  moreover from assms(2) True obtain s2 where "tick_motion E (tick_dt now s) s1 = Some s2"
    "s' = publish_state E (tick_battery s2)"
    by (auto simp: tick_def s1_def Let_def split: Option.bind_splits)
  ultimately show ?thesis using tick_motion_safe tick_battery_safe by simp
qed

section \<open>Commands\<close>

lemma cmd_estop_safe: "safe (cmd_estop E sq s)"
  by (simp add: cmd_estop_def Let_def) (simp add: safe_def running_ok_def)

lemma cmd_reset_safe:
  assumes "safe s"
  shows "safe (cmd_reset E sq cmd d s)"
proof -
  have a: "safe (s'\<lparr>control_enabled := (console_online s' \<and> phase s' = ''IDLE'')\<rparr>)" if "safe s'" for s'
    using that by (auto simp: safe_def running_ok_def)
  define s1 where "s1 = clear_faults (s\<lparr>estop := False\<rparr>)"
  define s3 where "s3 = recompute ((set_node 1 (if \<not> console_online s1 then ''WARN'' else ''OK'') s1)
    \<lparr>phase := ''IDLE'', mode := ''TELEOP'', task_status := ''NONE'', task_id := [], task_type := []\<rparr>)"
  have "safe s3" unfolding s3_def by (rule recompute_safe) (simp add: running_ok_def)
  from a [OF this] show ?thesis
    using assms unfolding cmd_reset_def Let_def s1_def [symmetric] s3_def [symmetric] by simp
qed

lemma cmd_mode_safe: "safe s \<Longrightarrow> safe (cmd_mode E sq cmd d s)"
  by (auto simp: cmd_mode_def split: option.split)

lemma task_pause_safe: "safe s \<Longrightarrow> safe (task_pause E sq cmd tid s)"
  by (auto simp: task_pause_def Let_def intro!: recompute_safe) (simp add: running_ok_def)

lemma task_cancel_safe: "safe s \<Longrightarrow> safe (task_cancel E sq cmd s)"
  by (auto simp: task_cancel_def intro!: recompute_safe)
    (auto simp: running_ok_def safe_def stop_running_def)

lemma task_cancel_again_safe: "safe s \<Longrightarrow> safe (task_cancel_again E sq cmd s)"
  by (auto simp: task_cancel_again_def intro!: recompute_safe)
    (auto simp: running_ok_def safe_def stop_running_def)

lemma unblocked: "\<not> cmd_blocked s \<Longrightarrow> \<not> estop s \<and> console_online s"
  by (simp add: cmd_blocked_def)

lemma goto_start_safe:
  assumes "safe s" and "\<not> cmd_blocked s" and "phase s \<noteq> ''RUNNING''"
    and "goto_start E sq cmd tid x y s = Some s'"
  shows "safe s'"
proof -
  from assms(4) obtain path where p: "astar (inflate make_corridor_demo 1) (pose_x s) (pose_y s) x y = Some path"
    by (auto simp: goto_start_def Let_def split: Option.bind_splits)
  have "safe (recompute (reject sq cmd re tid (add_fault c l d (s\<lparr>nav_map := m, nav_path := ps, nav_status := ns\<rparr>))))"
    for re c l d m ns ps
    using assms(1,3) by (intro recompute_safe) (simp add: running_ok_def safe_def)
  moreover have "safe (s\<lparr>nav_map := m, nav_path := path, nav_idx := 0, nav_status := ns, nav_ready := True,
      stuck_s := z, stuck_count := 0, trail := tr, task_id := ti, task_type := ''goto'', task_status := ts,
      goal_x := x, goal_y := y, phase := ''RUNNING'', control_enabled := False\<rparr>)"
    if "path \<noteq> []" for m ns z tr ti ts
    using that unblocked [OF assms(2)] by (simp add: safe_def running_ok_def)
  ultimately show ?thesis
    using assms(4) p by (cases "path = []") (auto simp: goto_start_def Let_def)
qed

lemma task_goto_safe:
  assumes "safe s" and "\<not> cmd_blocked s" and "task_goto E sq cmd d tid s = Some s'"
  shows "safe s'"
proof (cases "phase s = ''RUNNING''")
  case True
  with assms(1,3) show ?thesis by (auto simp: task_goto_def)
next
  case False
  define s1 where "s1 = (if tid = [] then s\<lparr>task_seq := task_seq s + 1\<rparr> else s)"
  have b: "\<not> cmd_blocked s1" "phase s1 \<noteq> ''RUNNING''" using assms(2) False
    by (simp_all add: s1_def cmd_blocked_def)
  have "safe s1" using assms(1) by (simp add: s1_def)
  note g = goto_start_safe [OF this b]
  show ?thesis
    using assms(3) False g \<open>safe s1\<close> assms(1)
    unfolding task_goto_def Let_def s1_def [symmetric] if_not_P [OF False]
    by (auto simp only: option.inject safe_messages split: if_split_asm)
qed

lemma task_resume_safe: "safe s \<Longrightarrow> safe (task_resume E sq cmd tid s)"
  by (auto simp: task_resume_def) (simp add: safe_def running_ok_def)

lemma cmd_task_safe:
  assumes "safe s" and "cmd_task E sq cmd d s = Some s'"
  shows "safe s'"
  using assms by (auto simp: cmd_task_def Let_def split: if_splits
      intro: task_pause_safe task_cancel_safe task_cancel_again_safe task_goto_safe task_resume_safe)

lemma cmd_inject_safe: "safe s \<Longrightarrow> safe (cmd_inject E sq cmd d s)"
  by (auto simp: cmd_inject_def inject_fault_def intro!: recompute_safe safe_running_ok)

lemma cmd_clear_safe:
  assumes "safe s"
  shows "safe (cmd_clear E sq cmd s)"
proof -
  have a: "safe (s'\<lparr>control_enabled := (console_online s' \<and> phase s' = ''IDLE'' \<and> \<not> estop s')\<rparr>)" if "safe s'" for s'
    using that by (auto simp: safe_def running_ok_def)
  have b: "safe (if phase s' = ''FAULT'' \<and> \<not> has_error_condition s' then s'\<lparr>phase := ''IDLE''\<rparr> else s')"
    if "safe s'" for s'
    using that by (auto simp: safe_def running_ok_def)
  define s1 where "s1 = clear_faults s"
  define s2 where "s2 = recompute (set_node 1 (if console_online s1 then ''OK'' else ''WARN'') s1)"
  have "safe s2"
    unfolding s2_def s1_def using assms by (intro recompute_safe) (simp add: safe_running_ok)
  from a [OF b [OF this]] show ?thesis
    unfolding cmd_clear_def Let_def s1_def [symmetric] s2_def [symmetric] by simp
qed

text \<open>The branches of the handler, as a rule for case analysis.\<close>

lemma on_cmd_cases [consumes 1, case_names none estop reset mode task inject clear unknown]:
  assumes "on_cmd E d s = Some s'"
    and "extract_string d ''cmd'' = None \<Longrightarrow> s' = s \<Longrightarrow> P"
    and "\<And>cmd. extract_string d ''cmd'' = Some cmd \<Longrightarrow> cmd = ''CMD_ESTART'' \<or> cmd = ''CMD_ESTOP'' \<Longrightarrow>
      s' = cmd_estop E (extract_seq d) s \<Longrightarrow> P"
    and "\<And>cmd. extract_string d ''cmd'' = Some cmd \<Longrightarrow> cmd = ''CMD_RESET'' \<Longrightarrow>
      s' = cmd_reset E (extract_seq d) cmd d s \<Longrightarrow> P"
    and "\<And>cmd. extract_string d ''cmd'' = Some cmd \<Longrightarrow> cmd = ''CMD_MODE'' \<Longrightarrow>
      s' = cmd_mode E (extract_seq d) cmd d s \<Longrightarrow> P"
    and "\<And>cmd. extract_string d ''cmd'' = Some cmd \<Longrightarrow> cmd = ''CMD_TASK'' \<Longrightarrow>
      cmd_task E (extract_seq d) cmd d s = Some s' \<Longrightarrow> P"
    and "\<And>cmd. extract_string d ''cmd'' = Some cmd \<Longrightarrow> s' = cmd_inject E (extract_seq d) cmd d s \<Longrightarrow> P"
    and "\<And>cmd. extract_string d ''cmd'' = Some cmd \<Longrightarrow> s' = cmd_clear E (extract_seq d) cmd s \<Longrightarrow> P"
    and "\<And>cmd. extract_string d ''cmd'' = Some cmd \<Longrightarrow>
      s' = reject (extract_seq d) cmd ''not_implemented'' [] s \<Longrightarrow> P"
  shows P
proof (cases "extract_string d ''cmd''")
  case None
  then show ?thesis using assms(1) by (intro assms(2)) (simp_all add: on_cmd_def)
next
  case (Some cmd)
  show ?thesis
    using assms(1) assms(3-9) [OF Some]
    unfolding on_cmd_def Some option.case Let_def
    by (auto simp only: option.inject split: if_split_asm)
qed

lemma on_cmd_safe:
  assumes "safe s" and "on_cmd E d s = Some s'"
  shows "safe s'"
  using assms(2,1)
  by (cases rule: on_cmd_cases)
    (simp_all add: cmd_estop_safe cmd_reset_safe cmd_mode_safe cmd_task_safe cmd_inject_safe cmd_clear_safe)

lemma robot_step_safe:
  assumes "safe s" and "robot_step E s ev = Some s'"
  shows "safe s'"
  using assms
  by (cases ev) (auto simp: robot_step_def on_shutdown_def split: if_splits
      intro: on_configure_safe on_activate_safe on_deactivate_safe on_cleanup_safe on_console_safe
        on_cmd_safe tick_safe)

end
