(* ===== verification/Robot_Motion.thy ===== *)
theory Robot_Motion
  imports Robot_Safety
begin

text \<open>
  Why every callback of the robot returns, and what the simulation step may do to pose and
  battery. The yaw stays in [-pi, pi], so the normalisation loops end; every plan is made on a
  well-formed grid, so the planner returns. Together with the safety invariant this is the
  invariant of the interpretation of \<open>step_system\<close>: from a configured state, every sequence
  of events runs to its end.
\<close>

declare One_nat_def [simp del]

section \<open>Time steps\<close>

lemma D_8_10: "D 8 10 = Fp False 4605380978949069210" and D_1e9: "D 1000000000 1 = Fp False 4741671816366391296"
  by (rule D_round, (subst round_mag_eval [OF _ refl refl refl refl refl]; simp add: ratio_log_def nbits_eval))+

lemma D_2_10: "D 2 10 = Fp False 4596373779694328218"
  by (rule D_round, (subst round_mag_eval [OF _ refl refl refl refl refl]; simp add: ratio_log_def nbits_eval))

text \<open>A step of at most \<open>2 ^ 34\<close> seconds, the range of the clock.\<close>

definition dt_cap :: nat where
  "dt_cap = 1057 * 2 ^ 52"

definition dt_ok :: "double \<Rightarrow> bool" where
  "dt_ok dt \<longleftrightarrow> fmag dt \<le> dt_cap"

lemma mag_power: "k < 2046 \<Longrightarrow> 0 < k \<Longrightarrow> mag_int binary64 (k * 2 ^ 52) = 2 ^ (51 + k)"
  by (cases k) (simp_all add: mag_int_def power_add)

lemma mag_caps:
  "mag_int binary64 (1086 * 2 ^ 52) = 2 ^ 1137" "mag_int binary64 dt_cap = 2 ^ 1108"
  "mag_int binary64 (1058 * 2 ^ 52) = 2 ^ 1109"
  unfolding dt_cap_def by (subst mag_power; simp)+

lemma fp_of_int_bound: "\<bar>n\<bar> < 2 ^ 63 \<Longrightarrow> fmag (fp_of_int binary64 n) \<le> 1086 * 2 ^ 52"
proof -
  assume n: "\<bar>n\<bar> < 2 ^ 63"
  then have "real (nat \<bar>n\<bar>) \<le> 2 ^ 63" by simp
  then have "real (nat \<bar>n\<bar>) * 2 ^ 1074 \<le> 2 ^ 63 * 2 ^ 1074" by (rule mult_right_mono) simp
  then have "exact binary64 (nat \<bar>n\<bar>) 1 0 \<le> real (mag_int binary64 (1086 * 2 ^ 52))"
    unfolding mag_caps by (simp add: exact_def flip: power_add)
  then show ?thesis by (simp add: fp_of_int_def round_mag_le)
qed

lemma tick_dt_ok:
  assumes "0 \<le> last_tick_tp s" "last_tick_tp s < 2 ^ 63" "0 \<le> now" "now < 2 ^ 63"
  shows "dt_ok (tick_dt now s)"
proof (cases "last_tick_tp s > 0")
  case False
  then show ?thesis by (simp add: tick_dt_def dt_ok_def dt_cap_def D_2_10)
next
  case True
  define x where "x = fp_of_int binary64 (now - last_tick_tp s)"
  have "\<bar>now - last_tick_tp s\<bar> < 2 ^ 63" using assms by linarith
  then have x: "fmag x \<le> 1086 * 2 ^ 52" unfolding x_def by (rule fp_of_int_bound)
  then have fin: "is_fin binary64 x" by (simp add: is_fin_def)
  have nine: "is_fin binary64 (D 1000000000 1)" "fmag (D 1000000000 1) \<noteq> 0"
    by (simp_all add: D_1e9 is_fin_def)
  have m9: "fp_man binary64 (D 1000000000 1) = 8388608000000000" "fp_exp binary64 (D 1000000000 1) = - 23"
    by (simp_all add: D_1e9 fp_man_def fp_exp_def)
  have "exact binary64 (fp_man binary64 x) 8388608000000000 (fp_exp binary64 x + 23) =
      real (mag_int binary64 (fmag x)) / 1000000000"
    unfolding exact_def mag_int_man_exp by (simp add: power_int_add)
  also have "\<dots> \<le> real (mag_int binary64 (1086 * 2 ^ 52)) / 1000000000"
    using x by (intro divide_right_mono real_le) simp_all
  also have "\<dots> \<le> real (mag_int binary64 dt_cap)"
    unfolding mag_caps by simp
  finally have "round_mag binary64 (fp_man binary64 x) 8388608000000000 (fp_exp binary64 x + 23) \<le> dt_cap"
    by (intro round_mag_le) simp_all
  moreover have "tick_dt now s = Fp (fneg x \<noteq> fneg (D 1000000000 1))
      (round_mag binary64 (fp_man binary64 x) 8388608000000000 (fp_exp binary64 x + 23))"
    using True fin nine
    by (simp add: tick_dt_def x_def fp_div_def is_fin_def is_nan_def is_inf_def m9 flip: x_def)
  ultimately show ?thesis by (simp add: dt_ok_def)
qed

section \<open>The turn of one step\<close>

lemma in_pi_mag: "in_pi a \<Longrightarrow> fmag a \<le> fmag M_PI"
  by (auto simp: in_pi_def fp_le_def fkey_def M_PI_value fp_neg_def split: if_splits)

lemma fp_val_mag: "fmag a \<le> k \<Longrightarrow> \<bar>fp_val binary64 a\<bar> \<le> real (mag_int binary64 k)"
  by (simp add: fp_val_def real_le)

lemma turn_returns:
  assumes "in_pi yaw" and "in_unit w" and "dt_ok dt"
  shows "\<exists>r. wrap_angle (dadd yaw (dmul w dt)) = Some r \<and> in_pi r"
proof -
  note u = unit_fin [OF conjunct1 [OF assms(2) [unfolded in_unit_def]] conjunct2 [OF assms(2) [unfolded in_unit_def]]]
  have fdt: "is_fin binary64 dt" using assms(3) by (simp add: dt_ok_def is_fin_def dt_cap_def)
  have "fmag (dmul w dt) \<le> fmag dt" using u fdt by (intro fp_mul_le_one below_one_64) simp_all
  with assms(3) have m: "fmag (dmul w dt) \<le> dt_cap" by (simp add: dt_ok_def)
  then have fm: "is_fin binary64 (dmul w dt)" by (simp add: is_fin_def dt_cap_def)
  have "\<bar>fp_val binary64 yaw\<bar> \<le> real (mag_int binary64 dt_cap)"
    using in_pi_mag [OF assms(1)] by (intro fp_val_mag) (simp add: M_PI_value dt_cap_def)
  moreover have "\<bar>fp_val binary64 (dmul w dt)\<bar> \<le> real (mag_int binary64 dt_cap)"
    by (rule fp_val_mag [OF m])
  moreover have "2 * real (mag_int binary64 dt_cap) = real (mag_int binary64 (1058 * 2 ^ 52))"
    unfolding mag_caps by simp
  ultimately have "\<bar>fp_val binary64 yaw + fp_val binary64 (dmul w dt)\<bar> \<le> fp_val binary64 (Fp False (1058 * 2 ^ 52))"
    unfolding fp_val_def [of _ "Fp False _"] fp.sel by simp
  then have b: "fp_val binary64 yaw + fp_val binary64 (dmul w dt) \<le> fp_val binary64 (Fp False (1058 * 2 ^ 52))"
    "fp_val binary64 (fp_neg (Fp False (1058 * 2 ^ 52))) \<le> fp_val binary64 yaw + fp_val binary64 (dmul w dt)"
    by simp_all
  have "dle (dadd yaw (dmul w dt)) (Fp False (1058 * 2 ^ 52))"
    using b(1) by (rule fp_add_le [OF in_pi_fin [OF assms(1)] fm]) simp
  moreover have "dle (fp_neg (Fp False (1058 * 2 ^ 52))) (dadd yaw (dmul w dt))"
    using b(2) by (rule fp_add_ge [OF in_pi_fin [OF assms(1)] fm]) simp
  ultimately have "fmag (dadd yaw (dmul w dt)) \<le> angle_cap"
    by (auto simp: fp_le_def fkey_def fp_neg_def angle_cap_def split: if_splits)
  then show ?thesis by (rule wrap_angle_returns)
qed

lemma bump_unit: "in_unit (dmul (sign_of e) (D 8 10))"
proof -
  have "dmul (D 1 1) (D 8 10) = D 8 10" "dmul (fp_neg (D 1 1)) (D 8 10) = fp_neg (D 8 10)"
    by (simp add: D_values D_8_10 fp_neg_def fp_mul_def is_nan_def is_inf_def fp_man_def fp_exp_def,
      (subst round_mag_eval [OF _ refl refl refl refl refl]; simp add: ratio_log_def nbits_eval))+
  then show ?thesis
    by (simp add: sign_of_def) (simp add: in_unit_def D_values D_8_10 fp_neg_def fp_le_def is_nan_def fkey_def)
qed

section \<open>The simulation step returns\<close>

definition libm_ok :: "libm \<Rightarrow> bool" where
  "libm_ok M \<longleftrightarrow> sin_ok M \<and> atan2_ok M"

lemma tick_move_returns:
  assumes "libm_ok (lm E)" and yaw: "in_pi (pose_yaw s)" and dt: "dt_ok dt"
  shows "\<exists>s' c w. tick_move E dt s = Some (s', c, w) \<and> in_pi (pose_yaw s')"
proof -
  have l: "sin_ok (lm E)" "atan2_ok (lm E)" using assms(1) by (simp_all add: libm_ok_def)
  obtain idx v w where p: "pure_pursuit (lm E) (nav_map s) (pose_x s) (pose_y s) (pose_yaw s) (nav_path s)
      (nav_idx s) (D 45 100) = (idx, v, w)" by (metis prod_cases3)
  have w: "in_unit w" using pure_pursuit_bounds [OF l(1) p] by simp
  define aim where "aim = aim_point (lm E) (nav_map s) (nav_path s) idx (pose_x s) (pose_y s) (D 45 100)"
  from heading_err_returns [OF l(2) yaw] obtain err where
    e: "heading_err (lm E) (pose_yaw s) (pose_x s) (pose_y s) (fst aim) (snd aim) = Some err" by blast
  define w' where "w' = dmul (if dlt (fp_abs err) (D 15 100) then sign_of w else sign_of err) (D 8 10)"
  have "in_unit w'" by (simp add: w'_def bump_unit)
  from turn_returns [OF yaw this dt] obtain r' where r': "wrap_angle (dadd (pose_yaw s) (dmul w' dt)) = Some r'" "in_pi r'"
    by blast
  from turn_returns [OF yaw w dt] obtain r where r: "wrap_angle (dadd (pose_yaw s) (dmul w dt)) = Some r" "in_pi r"
    by blast
  show ?thesis
    using r r' by (auto simp: tick_move_def p Let_def e w'_def simp flip: aim_def)
qed

lemma replan_returns: "\<exists>s'. replan E s = Some s' \<and> pose_yaw s' = pose_yaw s \<and> last_tick_tp s' = last_tick_tp s"
proof -
  have "grid_ok (inflate make_corridor_demo k)" for k by (rule inflate_ok [OF demo_shape(6)])
  then have "\<exists>path. astar (inflate make_corridor_demo k) sx sy gx gy = Some path" for k sx sy gx gy
    using astar_result by blast
  then obtain path where "astar (inflate make_corridor_demo (if stuck_count s + 1 \<ge> 3 then 0 else 1))
      (pose_x s) (pose_y s) (goal_x s) (goal_y s) = Some path" by blast
  then show ?thesis by (simp add: replan_def Let_def)
qed

lemma tick_stuck_returns:
  "\<exists>s'. tick_stuck E dt x y c w s = Some s' \<and> pose_yaw s' = pose_yaw s \<and> last_tick_tp s' = last_tick_tp s"
proof -
  have "\<exists>s'. replan E (s\<lparr>stuck_s := z\<rparr>) = Some s' \<and> pose_yaw s' = pose_yaw s \<and> last_tick_tp s' = last_tick_tp s" for z
    using replan_returns [of E "s\<lparr>stuck_s := z\<rparr>"] by simp
  then show ?thesis by (simp add: tick_stuck_def Let_def)
qed

lemma tick_move_last: "tick_move E dt s = Some (s', c, w) \<Longrightarrow> last_tick_tp s' = last_tick_tp s"
  by (auto simp: tick_move_def Let_def split: prod.splits if_splits Option.bind_splits)

lemma tick_drive_returns:
  assumes "libm_ok (lm E)" and "in_pi (pose_yaw s)" and "dt_ok dt"
  shows "\<exists>s'. tick_drive E dt s = Some s' \<and> in_pi (pose_yaw s') \<and> last_tick_tp s' = last_tick_tp s"
proof (cases "nav_path s = []")
  case True
  then show ?thesis using assms by (simp add: tick_drive_def)
next
  case False
  from tick_move_returns [OF assms] obtain s1 c w where m: "tick_move E dt s = Some (s1, c, w)" "in_pi (pose_yaw s1)"
    by blast
  from tick_stuck_returns obtain s2 where
    "tick_stuck E dt (pose_x s) (pose_y s) c w (tick_trail s1) = Some s2"
    "pose_yaw s2 = pose_yaw (tick_trail s1)" "last_tick_tp s2 = last_tick_tp (tick_trail s1)" by blast
  with m False tick_move_last [OF m(1)] show ?thesis by (simp add: tick_drive_def)
qed

lemma tick_motion_returns:
  assumes "libm_ok (lm E)" and "in_pi (pose_yaw s)" and "dt_ok dt"
  shows "\<exists>s'. tick_motion E dt s = Some s' \<and> in_pi (pose_yaw s') \<and> last_tick_tp s' = last_tick_tp s"
  using tick_drive_returns [OF assms] assms(2) by (auto simp: tick_motion_def)

definition motion_ok :: "robot \<Rightarrow> bool" where
  "motion_ok s \<longleftrightarrow> in_pi (pose_yaw s) \<and> 0 \<le> last_tick_tp s \<and> last_tick_tp s < 2 ^ 63"

lemma motion_ok_cong:
  "pose_yaw s' = pose_yaw s \<Longrightarrow> last_tick_tp s' = last_tick_tp s \<Longrightarrow> motion_ok s' = motion_ok s"
  by (simp add: motion_ok_def)

lemma tick_returns:
  assumes "libm_ok (lm E)" and "motion_ok s" and "0 \<le> now" "now < 2 ^ 63"
  shows "\<exists>s'. tick E now s = Some s' \<and> motion_ok s'"
proof (cases "active s")
  case False
  with assms show ?thesis by (simp add: tick_def)
next
  case True
  define s1 where "s1 = recompute (tick_ready now (tick_console E (s\<lparr>last_tick_tp := now\<rparr>)))"
  have dt: "dt_ok (tick_dt now s)" using assms by (intro tick_dt_ok) (simp_all add: motion_ok_def)
  have "in_pi (pose_yaw s1)" "last_tick_tp s1 = now" using assms(2) by (simp_all add: s1_def motion_ok_def)
  with tick_motion_returns [OF assms(1) _ dt, of s1] obtain s2 where
    "tick_motion E (tick_dt now s) s1 = Some s2" "in_pi (pose_yaw s2)" "last_tick_tp s2 = now" by auto
  then show ?thesis
    using True assms(3,4) by (auto simp: tick_def motion_ok_def Let_def simp flip: s1_def)
qed

section \<open>Commands return\<close>

lemma goto_start_returns:
  "\<exists>s'. goto_start E sq cmd tid x y s = Some s' \<and> pose_yaw s' = pose_yaw s \<and> last_tick_tp s' = last_tick_tp s"
proof -
  have "\<exists>path. astar (inflate make_corridor_demo 1) (pose_x s) (pose_y s) x y = Some path"
    using astar_result [OF inflate_ok [OF demo_shape(6)]] by blast
  then obtain path where "astar (inflate make_corridor_demo 1) (pose_x s) (pose_y s) x y = Some path" by blast
  then show ?thesis by (simp add: goto_start_def Let_def)
qed

lemma task_goto_returns:
  "\<exists>s'. task_goto E sq cmd d tid s = Some s' \<and> pose_yaw s' = pose_yaw s \<and> last_tick_tp s' = last_tick_tp s"
proof -
  have g: "\<exists>s'. goto_start E sq cmd ti x y (if tid = [] then s\<lparr>task_seq := task_seq s + 1\<rparr> else s) = Some s' \<and>
      pose_yaw s' = pose_yaw s \<and> last_tick_tp s' = last_tick_tp s" for ti x y
    using goto_start_returns [of E sq cmd ti x y "if tid = [] then s\<lparr>task_seq := task_seq s + 1\<rparr> else s"]
    by (auto split: if_splits)
  then show ?thesis by (auto simp: task_goto_def Let_def)
qed

lemma cmd_task_returns:
  "\<exists>s'. cmd_task E sq cmd d s = Some s' \<and> pose_yaw s' = pose_yaw s \<and> last_tick_tp s' = last_tick_tp s"
proof -
  have "pose_yaw (task_pause E sq cmd t s) = pose_yaw s \<and> last_tick_tp (task_pause E sq cmd t s) = last_tick_tp s"
    "pose_yaw (task_cancel E sq cmd s) = pose_yaw s \<and> last_tick_tp (task_cancel E sq cmd s) = last_tick_tp s"
    "pose_yaw (task_cancel_again E sq cmd s) = pose_yaw s \<and> last_tick_tp (task_cancel_again E sq cmd s) = last_tick_tp s"
    "pose_yaw (task_resume E sq cmd t s) = pose_yaw s \<and> last_tick_tp (task_resume E sq cmd t s) = last_tick_tp s" for t
    by (simp_all add: task_pause_def task_cancel_def task_cancel_again_def task_resume_def Let_def)
  then show ?thesis using task_goto_returns [of E sq cmd d _ s]
    by (simp add: cmd_task_def Let_def)
qed

lemma cmd_frames:
  "pose_yaw (cmd_estop E sq s) = pose_yaw s" "last_tick_tp (cmd_estop E sq s) = last_tick_tp s"
  "pose_yaw (cmd_reset E sq cmd d s) = pose_yaw s" "last_tick_tp (cmd_reset E sq cmd d s) = last_tick_tp s"
  "pose_yaw (cmd_mode E sq cmd d s) = pose_yaw s" "last_tick_tp (cmd_mode E sq cmd d s) = last_tick_tp s"
  "pose_yaw (cmd_inject E sq cmd d s) = pose_yaw s" "last_tick_tp (cmd_inject E sq cmd d s) = last_tick_tp s"
  "pose_yaw (cmd_clear E sq cmd s) = pose_yaw s" "last_tick_tp (cmd_clear E sq cmd s) = last_tick_tp s"
  by (simp_all add: cmd_estop_def cmd_reset_def cmd_mode_def cmd_inject_def inject_fault_def cmd_clear_def Let_def
      split: option.split)

lemma on_cmd_returns:
  "\<exists>s'. on_cmd E d s = Some s' \<and> pose_yaw s' = pose_yaw s \<and> last_tick_tp s' = last_tick_tp s"
proof -
  have "\<exists>s'. on_cmd E d s = Some s'"
    using cmd_task_returns [of E "extract_seq d" "''CMD_TASK''" d s]
    by (auto simp: on_cmd_def Let_def split: option.split)
  then obtain s' where r: "on_cmd E d s = Some s'" by blast
  then have "pose_yaw s' = pose_yaw s \<and> last_tick_tp s' = last_tick_tp s"
  proof (cases rule: on_cmd_cases)
    case (task cmd)
    then show ?thesis using cmd_task_returns [of E "extract_seq d" cmd d s] by auto
  qed (simp_all add: cmd_frames)
  with r show ?thesis by blast
qed

section \<open>Runs of the robot\<close>

text \<open>The clock readings an event may carry, and what the mathematical library has to keep.\<close>

definition clock_ok :: "int \<Rightarrow> bool" where
  "clock_ok t \<longleftrightarrow> 0 \<le> t \<and> t < 2 ^ 63"

definition event_ok :: "env \<Rightarrow> event \<Rightarrow> bool" where
  "event_ok E ev \<longleftrightarrow> libm_ok (lm E) \<and>
     (case ev of Activate t1 t2 \<Rightarrow> clock_ok t2 | Tick t \<Rightarrow> clock_ok t | _ \<Rightarrow> True)"

lemma on_configure_motion: "motion_ok s \<Longrightarrow> motion_ok (on_configure E s)"
  by (simp add: on_configure_def motion_ok_def Let_def)
    (simp add: in_pi_def fp_le_def M_PI_value D_values fp_neg_def is_nan_def fkey_def)

lemma lifecycle_motion:
  "motion_ok s \<Longrightarrow> clock_ok t2 \<Longrightarrow> motion_ok (on_activate E t1 t2 s)"
  "motion_ok s \<Longrightarrow> motion_ok (on_deactivate s)" "motion_ok s \<Longrightarrow> motion_ok (on_cleanup s)"
  by (simp_all add: on_activate_def on_deactivate_def on_cleanup_def motion_ok_def clock_ok_def Let_def)

lemma on_console_motion: "motion_ok s \<Longrightarrow> motion_ok (on_console E d s)"
  by (simp add: on_console_def motion_ok_def now_ms_def Let_def)

lemma robot_step_returns:
  assumes "motion_ok s" and "event_ok E ev"
  shows "\<exists>s'. robot_step E s ev = Some s' \<and> motion_ok s'"
proof (cases ev)
  case (Cmd d)
  then show ?thesis
    using assms on_cmd_returns [of E d s] by (auto simp: robot_step_def motion_ok_def)
next
  case (Tick t)
  then show ?thesis
    using assms tick_returns [of E s t] by (auto simp: robot_step_def event_ok_def clock_ok_def)
qed (use assms in \<open>simp_all add: robot_step_def on_shutdown_def event_ok_def on_configure_motion
      lifecycle_motion on_console_motion\<close>)

definition robot_inv :: "robot \<Rightarrow> bool" where
  "robot_inv s \<longleftrightarrow> safe s \<and> motion_ok s"

interpretation robot_runs: step_system "robot_step E" robot_inv "event_ok E" for E
proof
  fix s ev
  assume "robot_inv s" and "event_ok E ev"
  then show "\<exists>s'. robot_step E s ev = Some s' \<and> robot_inv s'"
    using robot_step_returns [of s E ev] robot_step_safe [of s E ev] by (auto simp: robot_inv_def)
qed

lemma init_inv_robot: "robot_inv init_robot"
  by (simp add: robot_inv_def init_safe)
    (simp add: motion_ok_def init_robot_def in_pi_def fp_le_def M_PI_value D_values fp_neg_def is_nan_def fkey_def)

end
