(* ===== verification/Robot_Props.thy ===== *)
theory Robot_Props
  imports Robot_Motion
begin

text \<open>
  The properties of the simulated robot: what holds after every run, how the emergency stop is
  entered and left, what a command answers, what a simulation step may do to the pose and the
  battery, and where the goto's range check and the map disagree.
\<close>

section \<open>Replies\<close>

fun results :: "message list \<Rightarrow> string list" where
  "results [] = []"
| "results (State_Msg j # ms) = results ms"
| "results (Result_Msg j # ms) = j # results ms"

lemma results_append [simp]: "results (xs @ ys) = results xs @ results ys"
  by (induction xs rule: results.induct) simp_all

lemma results_publish_state [simp]: "results (outbox (publish_state E s)) = results (outbox s)"
  by (simp add: publish_state_def)

lemma results_publish [simp]:
  "result_pub s \<Longrightarrow> results (outbox (publish_cmd_result sq cmd ok st re tid s)) =
     results (outbox s) @ [result_json sq cmd ok st re tid]"
  "result_pub s \<Longrightarrow> results (outbox (reject sq cmd re tid s)) =
     results (outbox s) @ [result_json sq cmd False ''REJECTED'' re tid]"
  "result_pub s \<Longrightarrow> results (outbox (accept sq cmd tid s)) =
     results (outbox s) @ [result_json sq cmd True ''ACCEPTED'' [] tid]"
  by (simp_all add: reject_def accept_def publish_cmd_result_def)

text \<open>One reply more, to this sequence number.\<close>

definition replied :: "u16 \<Rightarrow> robot \<Rightarrow> robot \<Rightarrow> bool" where
  "replied sq s s' \<longleftrightarrow> (\<exists>cmd ok st re tid.
     results (outbox s') = results (outbox s) @ [result_json sq cmd ok st re tid])"

lemma replied_by [intro]:
  "results (outbox s') = results (outbox s) @ [result_json sq cmd ok st re tid] \<Longrightarrow> replied sq s s'"
  unfolding replied_def by blast

lemma replied_branches:
  assumes "result_pub s"
  shows "replied sq s (cmd_estop E sq s)" "replied sq s (cmd_reset E sq cmd d s)" "replied sq s (cmd_mode E sq cmd d s)"
    "replied sq s (cmd_inject E sq cmd d s)" "replied sq s (cmd_clear E sq cmd s)"
    "replied sq s (task_pause E sq cmd tid s)" "replied sq s (task_cancel E sq cmd s)"
    "replied sq s (task_cancel_again E sq cmd s)" "replied sq s (task_resume E sq cmd tid s)"
    "replied sq s (reject sq cmd re tid s)"
proof -
  have "results (outbox (cmd_estop E sq s)) =
      results (outbox s) @ [result_json sq ''CMD_ESTOP'' True ''ACCEPTED'' [] []]"
    by (simp add: cmd_estop_def Let_def assms)
  then show "replied sq s (cmd_estop E sq s)" ..
  show "replied sq s (reject sq cmd re tid s)" by (rule replied_by) (simp add: assms)
  show "replied sq s (cmd_inject E sq cmd d s)"
    by (rule replied_by) (simp add: cmd_inject_def inject_fault_def Let_def assms)
  have "results (outbox (cmd_clear E sq cmd s)) = results (outbox s) @ [result_json sq cmd True ''ACCEPTED'' [] []]"
    by (simp add: cmd_clear_def Let_def assms)
  then show "replied sq s (cmd_clear E sq cmd s)" ..
  show "replied sq s (cmd_reset E sq cmd d s)"
    by (simp add: cmd_reset_def Let_def, intro conjI impI; rule replied_by; simp add: assms)
  show "replied sq s (cmd_mode E sq cmd d s)"
    by (simp add: cmd_mode_def split: option.split, intro conjI impI allI; rule replied_by; simp add: assms)
  show "replied sq s (task_pause E sq cmd tid s)"
    by (simp add: task_pause_def Let_def, intro conjI impI; rule replied_by; simp add: assms)
  show "replied sq s (task_cancel E sq cmd s)" by (rule replied_by) (simp add: task_cancel_def assms)
  show "replied sq s (task_cancel_again E sq cmd s)" by (rule replied_by) (simp add: task_cancel_again_def assms)
  show "replied sq s (task_resume E sq cmd tid s)"
    by (simp add: task_resume_def, intro conjI impI; rule replied_by; simp add: assms)
qed

lemma replied_goto:
  assumes "result_pub s" and "task_goto E sq cmd d tid s = Some s'"
  shows "replied sq s s'"
proof -
  have g: "replied sq s1 s2" if p: "result_pub s1" and r: "goto_start E sq cmd ti x y s1 = Some s2" for s1 s2 ti x y
  proof -
    obtain path where path: "astar (inflate make_corridor_demo 1) (pose_x s1) (pose_y s1) x y = Some path"
      using r by (auto simp: goto_start_def Let_def split: Option.bind_splits)
    show ?thesis
    proof (cases "path = []")
      case True
      with r path p have "results (outbox s2) = results (outbox s1) @ [result_json sq cmd False ''REJECTED'' ''unknown_task'' ti]"
        by (auto simp: goto_start_def Let_def)
      then show ?thesis ..
    next
      case False
      with r path p have "results (outbox s2) = results (outbox s1) @ [result_json sq cmd True ''ACCEPTED'' [] ti]"
        by (auto simp: goto_start_def Let_def)
      then show ?thesis ..
    qed
  qed
  define s1 where "s1 = (if tid = [] then s\<lparr>task_seq := task_seq s + 1\<rparr> else s)"
  have same: "replied sq s1 s2 = replied sq s s2" for s2 by (simp add: replied_def s1_def)
  have p1: "result_pub s1" using assms(1) by (simp add: s1_def)
  have d1: "replied sq s1 (publish_cmd_result sq cmd True ''DONE'' [] ti s1)" for ti
    by (rule replied_by) (simp add: p1)
  note r = replied_branches(10) [OF assms(1)]
  show ?thesis
    using assms(2) r g [OF p1] d1 same
    unfolding task_goto_def Let_def s1_def [symmetric]
    by (auto simp only: option.inject split: if_split_asm)
qed

text \<open>The branches of a task command, as a rule for case analysis.\<close>

lemma cmd_task_cases [consumes 1, case_names pause cancel blocked goto resume again unknown]:
  assumes "cmd_task E sq cmd d s = Some s'"
    and "\<And>tid. extract_string d ''type'' = Some ''pause'' \<Longrightarrow> s' = task_pause E sq cmd tid s \<Longrightarrow> P"
    and "extract_string d ''type'' = Some ''cancel'' \<Longrightarrow> s' = task_cancel E sq cmd s \<Longrightarrow> P"
    and "\<And>tid. cmd_blocked s \<Longrightarrow> s' = reject sq cmd (busy_reason s) tid s \<Longrightarrow> P"
    and "\<And>tid. \<not> cmd_blocked s \<Longrightarrow> task_goto E sq cmd d tid s = Some s' \<Longrightarrow> P"
    and "\<And>tid. \<not> cmd_blocked s \<Longrightarrow> s' = task_resume E sq cmd tid s \<Longrightarrow> P"
    and "\<not> cmd_blocked s \<Longrightarrow> s' = task_cancel_again E sq cmd s \<Longrightarrow> P"
    and "\<And>tid. \<not> cmd_blocked s \<Longrightarrow> s' = reject sq cmd ''unknown_task'' tid s \<Longrightarrow> P"
  shows P
proof -
  define ty where "ty = (case extract_string d ''type'' of None \<Rightarrow> [] | Some t \<Rightarrow> t)"
  define tid where "tid = (case extract_string d ''task_id'' of None \<Rightarrow> [] | Some t \<Rightarrow> t)"
  have ty: "ty = c \<Longrightarrow> c \<noteq> [] \<Longrightarrow> extract_string d ''type'' = Some c" for c
    by (simp add: ty_def split: option.splits)
  define p where "p \<longleftrightarrow> ty = ''pause''"
  define c where "c \<longleftrightarrow> ty = ''cancel''"
  define b where "b \<longleftrightarrow> cmd_blocked s"
  define g where "g \<longleftrightarrow> ty = ''goto''"
  define r where "r \<longleftrightarrow> ty = ''resume''"
  have u: "cmd_task E sq cmd d s =
     (if p then Some (task_pause E sq cmd tid s)
      else if c then Some (task_cancel E sq cmd s)
      else if b then Some (reject sq cmd (busy_reason s) tid s)
      else if g then task_goto E sq cmd d tid s
      else if r then Some (task_resume E sq cmd tid s)
      else if c then Some (task_cancel_again E sq cmd s)
      else Some (reject sq cmd ''unknown_task'' tid s))"
    by (simp only: cmd_task_def Let_def ty_def tid_def p_def c_def b_def g_def r_def)
  consider "p" | "\<not> p" "c" | "\<not> p" "\<not> c" "b" | "\<not> p" "\<not> c" "\<not> b" by blast
  then show P
  proof cases
    case 1
    with u assms(1) have "s' = task_pause E sq cmd tid s" by simp
    with 1 ty show P by (intro assms(2)) (simp_all add: p_def)
  next
    case 2
    with u assms(1) have "s' = task_cancel E sq cmd s" by simp
    with 2 ty show P by (intro assms(3)) (simp_all add: c_def)
  next
    case 3
    with u assms(1) have "s' = reject sq cmd (busy_reason s) tid s" by simp
    with 3 show P by (intro assms(4)) (simp_all add: b_def)
  next
    case 4
    then have nb: "\<not> cmd_blocked s" by (simp add: b_def)
    consider "g" | "\<not> g" "r" | "\<not> g" "\<not> r" by blast
    then show P
    proof cases
      case 1
      with 4 u assms(1) have "task_goto E sq cmd d tid s = Some s'" by simp
      with nb show P by (rule assms(5))
    next
      case 2
      with 4 u assms(1) have "s' = task_resume E sq cmd tid s" by simp
      with nb show P by (rule assms(6))
    next
      case 3
      with 4 u assms(1) have "s' = reject sq cmd ''unknown_task'' tid s" by simp
      with nb show P by (rule assms(8))
    qed
  qed
qed

lemma replied_task:
  assumes "result_pub s" and "cmd_task E sq cmd d s = Some s'"
  shows "replied sq s s'"
  using assms(2)
proof (cases rule: cmd_task_cases)
  case (goto tid)
  then show ?thesis by (intro replied_goto [OF assms(1)])
qed (simp_all add: replied_branches [OF assms(1)])

lemma on_cmd_replied:
  assumes "result_pub s" and "extract_string d ''cmd'' = Some c" and "on_cmd E d s = Some s'"
  shows "replied (extract_seq d) s s'"
  using assms(3)
proof (cases rule: on_cmd_cases)
  case none
  with assms(2) show ?thesis by simp
next
  case (task cmd)
  then show ?thesis using replied_task [OF assms(1)] by blast
qed (simp_all add: replied_branches [OF assms(1)])

text \<open>C4: Every command whose text names a command is answered exactly once, whatever the command
  and the state are: one result message is published, it carries the command's sequence number,
  and no other result is.\<close>

theorem every_command_answered_once:
  assumes "result_pub s" and "extract_string d ''cmd'' = Some c" and "on_cmd E d s = Some s'"
  shows "\<exists>cmd ok st re tid. results (outbox s') =
    results (outbox s) @ [result_json (extract_seq d) cmd ok st re tid]"
  using on_cmd_replied [OF assms] by (simp add: replied_def)

definition cmd_text :: "string \<Rightarrow> string" where
  "cmd_text c = ''{'' @ quoted ''cmd'' @ '':'' @ quoted c @ ''}''"

lemma cmd_text_cmd: "dq \<notin> set c \<Longrightarrow> bs \<notin> set c \<Longrightarrow> extract_string (cmd_text c) ''cmd'' = Some c"
proof -
  assume c: "dq \<notin> set c" "bs \<notin> set c"
  then have "esc c = c" by (induction c) (auto simp: esc_def)
  moreover have "read_string (esc c @ dq # ''}'') = c" by (rule read_esc)
  moreover have "after_key (''{'' @ quoted ''cmd'' @ [] @ '':'' @ dq # c @ dq # ''}'') ''cmd'' =
      Some (dropWhile (\<lambda>c. c = CHR '' '' \<or> c = CHR 0x09) (dq # c @ dq # ''}''))"
    by (rule after_key_here) (simp_all add: dq_def)
  ultimately show ?thesis by (simp add: extract_string_def cmd_text_def quoted_def [of c] dq_def)
qed

definition ready_robot :: robot where
  "ready_robot = init_robot\<lparr>state_pub := True, result_pub := True, cmd_sub := True, console_sub := True,
     phase := ''IDLE'', console_online := True, control_enabled := True\<rparr>"

definition any_env :: env where
  "any_env = \<lparr>lm = flat_libm, wall = (\<lambda>n. 1000 * word_of_nat n)\<rparr>"

theorem every_command_answered_once_witness:
  "\<exists>cmd ok st re tid. results (outbox (reject (extract_seq (cmd_text ''CMD_FLY'')) ''CMD_FLY'' ''not_implemented'' [] ready_robot)) =
    results (outbox ready_robot) @ [result_json (extract_seq (cmd_text ''CMD_FLY'')) cmd ok st re tid]"
proof (rule every_command_answered_once)
  show "result_pub ready_robot" by (simp add: ready_robot_def)
  show c: "extract_string (cmd_text ''CMD_FLY'') ''cmd'' = Some ''CMD_FLY''"
    by (rule cmd_text_cmd) (simp_all add: dq_def bs_def)
  show "on_cmd any_env (cmd_text ''CMD_FLY'') ready_robot =
      Some (reject (extract_seq (cmd_text ''CMD_FLY'')) ''CMD_FLY'' ''not_implemented'' [] ready_robot)"
    by (simp add: on_cmd_def c)
qed

section \<open>Runs\<close>

text \<open>C3: The robot never hangs: from the state the constructor leaves, every sequence of lifecycle
  transitions, heartbeats, commands and ticks, in any order and with any text in them, is
  processed to its end, if \<open>sin\<close> and \<open>atan2\<close> keep to their ranges and the clock readings fit
  the clock's 64-bit count.\<close>

theorem robot_never_hangs:
  assumes "list_all (event_ok E) es"
  shows "\<exists>s. run_steps (robot_step E) init_robot es = Some s"
  using robot_runs.run_inv [OF init_inv_robot assms] by blast

lemma any_env_ok: "libm_ok (lm any_env)"
  by (simp add: libm_ok_def any_env_def flat_sin_ok flat_atan2_ok)

theorem robot_never_hangs_witness:
  "\<exists>s. run_steps (robot_step any_env) init_robot
     [Configure, Activate 5 6, Console (cmd_text ''x''), Tick 700000000, Cmd (cmd_text ''CMD_ESTOP''), Tick 900000000] = Some s"
  by (rule robot_never_hangs) (simp add: event_ok_def clock_ok_def any_env_ok)

section \<open>The emergency stop\<close>

lemma tick_motion_flags: "tick_motion E dt s = Some s' \<Longrightarrow> estop s' = estop s \<and> console_online s' = console_online s \<and> cmd_sub s' = cmd_sub s"
proof -
  assume m: "tick_motion E dt s = Some s'"
  have d: "estop s2 = estop s \<and> console_online s2 = console_online s \<and> cmd_sub s2 = cmd_sub s" if "tick_drive E dt s = Some s2" for s2
  proof (cases "nav_path s = []")
    case True
    with that show ?thesis by (auto simp: tick_drive_def)
  next
    case False
    with that obtain s1 c w s3 where "tick_move E dt s = Some (s1, c, w)"
      "tick_stuck E dt (pose_x s) (pose_y s) c w (tick_trail s1) = Some s3"
      "s2 = tick_complete (tick_cross_track s3)"
      by (auto simp: tick_drive_def split: Option.bind_splits)
    moreover from this have "same_control s s1" "same_control (tick_trail s1) s3"
      by (auto intro: tick_move_control tick_stuck_control)
    ultimately show ?thesis by (simp add: same_control_def)
  qed
  show ?thesis using m d
    by (auto simp: tick_motion_def split: Option.bind_splits if_splits)
qed

text \<open>The parts of one step of an active robot.\<close>

lemma tick_parts:
  assumes "tick E now s = Some s'" and "active s"
  obtains s1 s2 where "s1 = recompute (tick_ready now (tick_console E (s\<lparr>last_tick_tp := now\<rparr>)))"
    and "tick_motion E (tick_dt now s) s1 = Some s2" and "s' = publish_state E (tick_battery s2)"
  using assms by (auto simp: tick_def Let_def split: Option.bind_splits)

lemma tick_estop: "tick E now s = Some s' \<Longrightarrow> estop s' = estop s"
proof (cases "active s")
  case True
  assume "tick E now s = Some s'"
  from tick_parts [OF this True] obtain s1 s2 where
    "s1 = recompute (tick_ready now (tick_console E (s\<lparr>last_tick_tp := now\<rparr>)))"
    "tick_motion E (tick_dt now s) s1 = Some s2" "s' = publish_state E (tick_battery s2)" .
  then show ?thesis using tick_motion_flags [of E "tick_dt now s" s1 s2] by simp
qed (simp add: tick_def)

lemma goto_estop: "task_goto E sq cmd d tid s = Some s' \<Longrightarrow> estop s' = estop s"
proof -
  have g: "goto_start E sq cmd ti x y s1 = Some s2 \<Longrightarrow> estop s2 = estop s1" for ti x y s1 s2
    by (auto simp: goto_start_def Let_def split: Option.bind_splits if_splits)
  have "estop (if tid = [] then s\<lparr>task_seq := task_seq s + 1\<rparr> else s) = estop s" by simp
  then show "task_goto E sq cmd d tid s = Some s' \<Longrightarrow> estop s' = estop s"
    unfolding task_goto_def Let_def
    by (auto simp only: option.inject reject_frame publish_cmd_result_frame split: if_split_asm dest!: g)
qed

lemma cmd_estop_estop: "estop (cmd_estop E sq s)"
  by (simp add: cmd_estop_def Let_def)

lemma faults_add [simp]:
  "faults (add_fault c l dt s) = faults s @ [\<lparr>f_code = c, f_level = l, f_node = ''fake_robot'', f_detail = dt, f_active = True\<rparr>]"
  by (simp add: add_fault_def)

lemma faults_estop: "faults (cmd_estop E sq s) =
   (if list_ex (\<lambda>f. f_code f = ''E_ESTOP_ACTIVE'') (faults s) then faults s
    else faults s @ [\<lparr>f_code = ''E_ESTOP_ACTIVE'', f_level = ''WARN'', f_node = ''fake_robot'',
      f_detail = ''software estop engaged'', f_active = True\<rparr>])"
  by (simp add: cmd_estop_def Let_def)

lemma other_commands_estop:
  "estop (cmd_mode E sq cmd d s) = estop s" "estop (cmd_inject E sq cmd d s) = estop s"
  "estop (cmd_clear E sq cmd s) = estop s" "estop (task_pause E sq cmd tid s) = estop s"
  "estop (task_cancel E sq cmd s) = estop s" "estop (task_cancel_again E sq cmd s) = estop s"
  "estop (task_resume E sq cmd tid s) = estop s"
  by (simp_all add: cmd_mode_def cmd_inject_def inject_fault_def cmd_clear_def task_pause_def task_cancel_def
      task_cancel_again_def task_resume_def Let_def split: option.split)

lemma cmd_task_estop: "cmd_task E sq cmd d s = Some s' \<Longrightarrow> estop s' = estop s"
  by (cases rule: cmd_task_cases) (auto simp: other_commands_estop dest: goto_estop)

text \<open>A step of the robot that ends in emergency stop: the phase and the pose.\<close>

lemma held_in_estop:
  assumes "estop s"
  shows "phase (recompute s) = ''ESTOP''" and "phase (publish_state E (tick_battery (recompute s))) = ''ESTOP''"
proof -
  have r: "phase (recompute s) = ''ESTOP''" if "estop s" for s using that by (simp add: recompute_phase)
  then show "phase (recompute s) = ''ESTOP''" using assms .
  have "estop (recompute s)" using assms by simp
  with r r [OF assms] show "phase (publish_state E (tick_battery (recompute s))) = ''ESTOP''"
    by (simp add: tick_battery_def Let_def)
qed

lemma tick_held:
  assumes "tick E now s = Some s'" and "estop s'" and "active s"
  shows "phase s' = ''ESTOP'' \<and> pose_x s' = pose_x s \<and> pose_y s' = pose_y s \<and> pose_yaw s' = pose_yaw s"
proof -
  from tick_parts [OF assms(1,3)] obtain s1 s2 where
    s1: "s1 = recompute (tick_ready now (tick_console E (s\<lparr>last_tick_tp := now\<rparr>)))"
    and m: "tick_motion E (tick_dt now s) s1 = Some s2" and s': "s' = publish_state E (tick_battery s2)" .
  have "estop s" using tick_estop [OF assms(1)] assms(2) by simp
  then have e: "estop (tick_ready now (tick_console E (s\<lparr>last_tick_tp := now\<rparr>)))" "estop s1" by (simp_all add: s1)
  then have "s2 = s1" using m by (simp add: tick_motion_def)
  with held_in_estop(2) [OF e(1)] show ?thesis by (simp add: s' s1)
qed

lemma console_held: "estop s \<Longrightarrow> phase (on_console E d s) = ''ESTOP''"
  by (simp add: on_console_def now_ms_def held_in_estop(1) Let_def)

lemma command_held:
  assumes "on_cmd E d s = Some s'" and "safe s" and "estop s'"
  shows "(phase s' = ''ESTOP'' \<or> estop s \<and> phase s' = phase s) \<and> pose_x s' = pose_x s \<and> pose_y s' = pose_y s \<and> pose_yaw s' = pose_yaw s"
  using assms(1)
proof (cases rule: on_cmd_cases)
  case (reset cmd)
  then show ?thesis using assms(3) by (auto simp: cmd_reset_def Let_def split: if_splits)
next
  case (task cmd)
  have run: "estop s \<Longrightarrow> phase s \<noteq> ''RUNNING''" using assms(2) by (auto simp: safe_def)
  show ?thesis
  proof (cases "estop s")
    case True
    with task run show ?thesis
      by (auto simp: cmd_task_def cmd_blocked_def task_pause_def task_cancel_def stop_running_def held_in_estop(1) Let_def
          split: if_splits)
  next
    case False
    with task assms(3) show ?thesis using cmd_task_estop by blast
  qed
qed (use assms(3) in \<open>auto simp: cmd_estop_def cmd_mode_def cmd_inject_def inject_fault_def cmd_clear_def held_in_estop(1) Let_def
    split: option.splits if_splits\<close>)

text \<open>The transitions of the lifecycle.\<close>

fun lifecycle :: "event \<Rightarrow> bool" where
  "lifecycle (Console d) = False"
| "lifecycle (Cmd d) = False"
| "lifecycle (Tick now) = False"
| "lifecycle _ = True"

text \<open>C1: An engaged emergency stop dominates. In every run of the robot, a step after which the emergency stop is
  engaged has not moved the robot and offers no control while commands are delivered. The step that engages
  it sets the phase to \<open>ESTOP\<close>; there every heartbeat, command and tick keeps it; only a transition
  of the lifecycle sets the phase to \<open>INITIALIZING\<close> or \<open>BOOT\<close> instead, and the next heartbeat or the next tick
  of the active node sets it back to \<open>ESTOP\<close>.\<close>

theorem estop_dominates:
  assumes "list_all (event_ok E) es" and "run_steps (robot_step E) init_robot es = Some s"
    and "robot_step E s e = Some s'" and "estop s'"
  shows "\<not> (cmd_sub s' \<and> control_enabled s') \<and> pose_x s' = pose_x s \<and> pose_y s' = pose_y s \<and> pose_yaw s' = pose_yaw s \<and>
    (if lifecycle e then estop s \<and> phase s' \<in> {''INITIALIZING'', ''BOOT''}
     else phase s' = ''ESTOP'' \<or> estop s \<and> phase s' = phase s \<and> phase s \<in> {''INITIALIZING'', ''BOOT''} \<and>
       (case e of Tick now \<Rightarrow> \<not> (tick_timer s \<and> active s) | Console d \<Rightarrow> \<not> console_sub s | _ \<Rightarrow> True))"
proof -
  have "safe s" using robot_runs.run_inv [OF init_inv_robot assms(1)] assms(2) by (simp add: robot_inv_def)
  then have s: "safe s" "safe s'" using robot_step_safe [OF _ assms(3)] by blast+
  then have idle: "estop s \<Longrightarrow> phase s \<in> {''ESTOP'', ''INITIALIZING'', ''BOOT''}" by (simp add: safe_def)
  have "\<not> (cmd_sub s' \<and> control_enabled s')" using s(2) assms(4) by (auto simp: safe_def)
  moreover have "pose_x s' = pose_x s \<and> pose_y s' = pose_y s \<and> pose_yaw s' = pose_yaw s \<and>
    (if lifecycle e then estop s \<and> phase s' \<in> {''INITIALIZING'', ''BOOT''}
     else phase s' = ''ESTOP'' \<or> estop s \<and> phase s' = phase s \<and> phase s \<in> {''INITIALIZING'', ''BOOT''} \<and>
       (case e of Tick now \<Rightarrow> \<not> (tick_timer s \<and> active s) | Console d \<Rightarrow> \<not> console_sub s | _ \<Rightarrow> True))"
  proof (cases e)
    case (Cmd d)
    with assms(3) have "s' = s \<or> on_cmd E d s = Some s'" by (auto simp: robot_step_def split: if_splits)
    with command_held [OF _ s(1) assms(4)] idle assms(4) Cmd show ?thesis by auto
  next
    case (Tick now)
    show ?thesis
    proof (cases "tick_timer s \<and> active s")
      case True
      with Tick assms(3) have "tick E now s = Some s'" by (simp add: robot_step_def)
      from tick_held [OF this assms(4)] True Tick show ?thesis by simp
    next
      case False
      with Tick assms(3) have "s' = s" by (auto simp: robot_step_def tick_def split: if_splits)
      with idle assms(4) Tick False show ?thesis by auto
    qed
  next
    case (Console d)
    then show ?thesis
      using assms(3,4) idle console_held [of s E d]
      by (cases "console_sub s") (auto simp: robot_step_def on_console_def now_ms_def Let_def)
  qed (use assms(3,4) in \<open>auto simp: robot_step_def on_configure_def on_activate_def on_deactivate_def on_cleanup_def
      on_shutdown_def Let_def\<close>)
  ultimately show ?thesis by blast
qed

lemma estop_run:
  "run_steps (robot_step any_env) init_robot [Configure, Cmd (cmd_text ''CMD_ESTOP'')] =
     Some (cmd_estop any_env (extract_seq (cmd_text ''CMD_ESTOP'')) (on_configure any_env init_robot))"
proof -
  have "extract_string (cmd_text ''CMD_ESTOP'') ''cmd'' = Some ''CMD_ESTOP''"
    by (rule cmd_text_cmd) (simp_all add: dq_def bs_def)
  moreover have "cmd_sub (on_configure any_env init_robot)" by (simp add: on_configure_def Let_def)
  ultimately show ?thesis by (simp add: robot_step_def on_cmd_def)
qed

lemma run_admissible: "list_all (event_ok any_env) [Configure, Cmd d]"
  by (simp add: event_ok_def any_env_ok)

theorem estop_dominates_witness:
  "\<exists>s s1 s2. run_steps (robot_step any_env) init_robot [Configure, Cmd (cmd_text ''CMD_ESTOP'')] = Some s \<and> phase s = ''ESTOP'' \<and>
     robot_step any_env s (Activate 5 6) = Some s1 \<and> phase s1 = ''INITIALIZING'' \<and>
     robot_step any_env s1 (Tick 900000000) = Some s2 \<and> phase s2 = ''ESTOP'' \<and> pose_x s2 = pose_x s"
proof -
  let ?es = "[Configure, Cmd (cmd_text ''CMD_ESTOP'')]"
  define s where "s = cmd_estop any_env (extract_seq (cmd_text ''CMD_ESTOP'')) (on_configure any_env init_robot)"
  define s1 where "s1 = on_activate any_env 5 6 s"
  have run: "run_steps (robot_step any_env) init_robot ?es = Some s" using estop_run by (simp add: s_def)
  have s: "estop s" "phase s = ''ESTOP''" by (simp_all add: s_def cmd_estop_def Let_def)
  have a: "robot_step any_env s (Activate 5 6) = Some s1" "estop s1" "tick_timer s1" "active s1" "pose_x s1 = pose_x s"
    using s by (simp_all add: robot_step_def s1_def on_activate_def Let_def)
  have run1: "run_steps (robot_step any_env) init_robot (?es @ [Activate 5 6]) = Some s1"
    unfolding run_steps_append run option.case by (simp add: a(1))
  have ok: "list_all (event_ok any_env) (?es @ [Activate 5 6, Tick 900000000])"
    by (simp add: event_ok_def clock_ok_def any_env_ok)
  then have ok1: "list_all (event_ok any_env) ?es" "list_all (event_ok any_env) (?es @ [Activate 5 6])" by simp_all
  obtain s2 where t: "robot_step any_env s1 (Tick 900000000) = Some s2"
    using robot_runs.run_inv [OF init_inv_robot ok] run1 by (auto simp: run_steps_append split: option.splits)
  have e: "estop s2" using t a(2-4) tick_estop by (auto simp: robot_step_def)
  have "phase s1 = ''INITIALIZING''" by (simp add: s1_def on_activate_def Let_def)
  moreover have "phase s2 = ''ESTOP'' \<and> pose_x s2 = pose_x s"
    using estop_dominates [OF ok1(2) run1 t e] a by auto
  ultimately show ?thesis using run s a t by blast
qed

text \<open>C2: After every run control is offered to the console only in phase \<open>IDLE\<close>, with the console
  online and no emergency stop; and the robot runs only a goto with a planned path, with the
  console online and no emergency stop.\<close>

theorem control_and_motion_are_safe:
  assumes "list_all (event_ok E) es" and "run_steps (robot_step E) init_robot es = Some s"
  shows "(cmd_sub s \<and> control_enabled s \<longrightarrow> phase s = ''IDLE'' \<and> console_online s \<and> \<not> estop s) \<and>
    (phase s = ''RUNNING'' \<longrightarrow> console_online s \<and> \<not> estop s \<and> task_type s = ''goto'' \<and> nav_path s \<noteq> [])"
  using robot_runs.run_inv [OF init_inv_robot assms(1)] assms(2)
  by (auto simp: robot_inv_def safe_def running_ok_def)

theorem control_and_motion_are_safe_witness:
  "\<exists>s. run_steps (robot_step any_env) init_robot [Configure, Cmd (cmd_text ''CMD_ESTOP'')] = Some s \<and>
    cmd_sub s \<and> estop s \<and> \<not> control_enabled s"
proof -
  define s where "s = cmd_estop any_env (extract_seq (cmd_text ''CMD_ESTOP'')) (on_configure any_env init_robot)"
  have "estop s" "cmd_sub s" by (simp_all add: s_def cmd_estop_def Let_def on_configure_def)
  with control_and_motion_are_safe [OF run_admissible estop_run] estop_run show ?thesis by (simp flip: s_def)
qed

end
