(* ===== verification/Robot_Rules.thy ===== *)
theory Robot_Rules
  imports Robot_Props
begin

text \<open>
  The rules of operation of the simulated robot, callback by callback: how the emergency stop is
  entered and left, what is refused while commands are blocked, what a silent console does to a
  running robot, where a simulation step may put the robot, how the battery drains, when the node
  becomes ready, and what a goto to the far edge of the map does.
\<close>

section \<open>Emergency stop\<close>

text \<open>C13: An emergency stop is left in two ways only: by a delivered CMD_RESET that carries an
  explicit confirmation while no fault blocks it, or by configuring the node anew. No heartbeat, no
  other command, no step and no other transition releases it.\<close>

theorem estop_left_only_by_reset:
  assumes "estop s" and "robot_step E s ev = Some s'" and "\<not> estop s'"
  shows "ev = Configure \<or> (\<exists>d. ev = Cmd d \<and> cmd_sub s \<and> extract_string d ''cmd'' = Some ''CMD_RESET'' \<and>
    extract_bool d ''confirm'' = Some True \<and> \<not> reset_blocking s)"
proof (cases ev)
  case (Cmd d)
  with assms have sub: "cmd_sub s" and o: "on_cmd E d s = Some s'" by (auto simp: robot_step_def split: if_splits)
  from o show ?thesis
  proof (cases rule: on_cmd_cases)
    case (reset cmd)
    with assms(1,3) show ?thesis using sub Cmd by (auto simp: cmd_reset_def split: if_splits)
  next
    case (task cmd)
    with assms(1,3) show ?thesis using cmd_task_estop by blast
  qed (use assms(1,3) in \<open>simp_all add: other_commands_estop cmd_estop_estop\<close>)
qed (use assms in \<open>auto simp: robot_step_def on_shutdown_def on_activate_def on_deactivate_def on_cleanup_def
      on_console_def now_ms_def Let_def dest: tick_estop split: if_splits\<close>)

definition reset_text :: string where
  "reset_text = ''{'' @ quoted ''cmd'' @ '':'' @ quoted ''CMD_RESET'' @ '','' @ quoted ''confirm'' @ '':true}''"

lemma reset_text_reads:
  "extract_string reset_text ''cmd'' = Some ''CMD_RESET''" "extract_bool reset_text ''confirm'' = Some True"
  by code_simp+

theorem estop_left_only_by_reset_witness:
  "\<not> reset_blocking (ready_robot\<lparr>estop := True\<rparr>) \<and>
   (\<exists>s'. robot_step any_env (ready_robot\<lparr>estop := True\<rparr>) (Cmd reset_text) = Some s' \<and> \<not> estop s')"
proof -
  define s where "s = ready_robot\<lparr>estop := True\<rparr>"
  have nb: "\<not> reset_blocking s" by (simp add: s_def reset_blocking_def ready_robot_def init_robot_def)
  have st: "robot_step any_env s (Cmd reset_text) = Some (cmd_reset any_env (extract_seq reset_text) ''CMD_RESET'' reset_text s)"
    by (simp add: robot_step_def on_cmd_def reset_text_reads) (simp add: s_def ready_robot_def)
  have n: "\<not> estop (cmd_reset any_env (extract_seq reset_text) ''CMD_RESET'' reset_text s)"
    by (simp add: cmd_reset_def reset_text_reads nb Let_def)
  have "estop s" by (simp add: s_def)
  from estop_left_only_by_reset [OF this st n] st n show ?thesis by (simp flip: s_def)
qed

text \<open>An emergency stop takes effect in every state of the node, at once: phase ESTOP, no
  control, no task in progress, and the fault that reports it is in the list.\<close>

theorem estop_takes_effect:
  assumes "extract_string d ''cmd'' = Some ''CMD_ESTOP''"
  shows "\<exists>s'. on_cmd E d s = Some s' \<and> estop s' \<and> phase s' = ''ESTOP'' \<and> \<not> control_enabled s' \<and>
    task_status s' \<notin> {''EXECUTING'', ''ACCEPTED''} \<and> f_code ` set (faults s') = insert ''E_ESTOP_ACTIVE'' (f_code ` set (faults s))"
proof -
  have o: "on_cmd E d s = Some (cmd_estop E (extract_seq d) s)" by (simp add: on_cmd_def assms)
  have "f_code ` set (faults (cmd_estop E (extract_seq d) s)) = insert ''E_ESTOP_ACTIVE'' (f_code ` set (faults s))"
    by (auto simp: faults_estop list_ex_iff image_iff dest: sym)
  moreover have "task_status (cmd_estop E (extract_seq d) s) \<notin> {''EXECUTING'', ''ACCEPTED''}"
    by (auto simp: cmd_estop_def Let_def add_fault_def fail_task_def)
  ultimately show ?thesis using o by (simp add: cmd_estop_def Let_def)
qed

theorem estop_takes_effect_witness:
  "\<exists>s'. on_cmd any_env (cmd_text ''CMD_ESTOP'') ready_robot = Some s' \<and> estop s' \<and> phase s' = ''ESTOP''"
  using estop_takes_effect [OF cmd_text_cmd [of "''CMD_ESTOP''"], of any_env ready_robot]
  by (auto simp: dq_def bs_def)

section \<open>Refusals and the console\<close>

text \<open>While commands are blocked (emergency stop, fault, degraded, not ready, or no console) a
  task other than a pause or a cancel is refused: the reply says REJECTED with the reason, and
  nothing else in the node changes.\<close>

lemma blocked_task_refused:
  assumes "cmd_blocked s" and "result_pub s" and "extract_string d ''cmd'' = Some ''CMD_TASK''"
    and "extract_string d ''type'' \<notin> {Some ''pause'', Some ''cancel''}"
  shows "\<exists>tid. on_cmd E d s = Some (s\<lparr>outbox := outbox s @
    [Result_Msg (result_json (extract_seq d) ''CMD_TASK'' False ''REJECTED''
      (if estop s then ''estop_active'' else ''phase_busy'') tid)]\<rparr>)"
proof -
  obtain s' where o: "cmd_task E (extract_seq d) ''CMD_TASK'' d s = Some s'"
    using cmd_task_returns [of E "extract_seq d" "''CMD_TASK''" d s] by blast
  then have "\<exists>tid. s' = reject (extract_seq d) ''CMD_TASK'' (busy_reason s) tid s"
    using assms(1,4) by (cases rule: cmd_task_cases) auto
  with o show ?thesis
    using assms(2,3) by (auto simp: on_cmd_def reject_def publish_cmd_result_def busy_reason_def)
qed

definition goto_text :: string where
  "goto_text = ''{'' @ quoted ''cmd'' @ '':'' @ quoted ''CMD_TASK'' @ '','' @ quoted ''type'' @ '':'' @ quoted ''goto'' @ ''}''"

lemma blocked_task_refused_witness:
  "\<exists>tid. on_cmd any_env goto_text (ready_robot\<lparr>console_online := False\<rparr>) =
     Some (ready_robot\<lparr>console_online := False, outbox := outbox ready_robot @
       [Result_Msg (result_json (extract_seq goto_text) ''CMD_TASK'' False ''REJECTED'' ''phase_busy'' tid)]\<rparr>)"
proof -
  have t: "extract_string goto_text ''cmd'' = Some ''CMD_TASK''" "extract_string goto_text ''type'' = Some ''goto''"
    by code_simp+
  have "cmd_blocked (ready_robot\<lparr>console_online := False\<rparr>)" by (simp add: cmd_blocked_def)
  from blocked_task_refused [OF this _ t(1), of any_env] t(2) show ?thesis by (simp add: ready_robot_def init_robot_def)
qed

lemma tick_console_online:
  assumes "console_online s" and "last_console_ms s > 0" and "wall E (reads s) - last_console_ms s > 3000"
  shows "\<not> console_online (tick_console E s)"
  using assms by (simp add: tick_console_def now_ms_def Let_def)

text \<open>C27: When the last heartbeat of the console is more than three seconds old, the next step takes
  the console offline, and after this same step the robot does not run and offers no control. The
  age is the 64-bit difference of two clock readings, so a clock set back counts as stale.\<close>

theorem silent_console_stops_robot:
  assumes "safe s" and "active s" and "cmd_sub s" and "console_online s" and "last_console_ms s > 0"
    and "wall E (reads s) - last_console_ms s > 3000" and "tick E now s = Some s'"
  shows "\<not> console_online s' \<and> phase s' \<noteq> ''RUNNING'' \<and> \<not> control_enabled s'"
proof -
  have "\<not> console_online (tick_console E (s\<lparr>last_tick_tp := now\<rparr>))" using assms by (intro tick_console_online) simp_all
  moreover from tick_parts [OF assms(7,2)] obtain s1 s2 where
    "s1 = recompute (tick_ready now (tick_console E (s\<lparr>last_tick_tp := now\<rparr>)))"
    "tick_motion E (tick_dt now s) s1 = Some s2" "s' = publish_state E (tick_battery s2)" .
  ultimately have off: "\<not> console_online s'" and sub: "cmd_sub s'"
    using tick_motion_flags [of E "tick_dt now s" s1 s2] assms(3) by simp_all
  moreover have "safe s'" by (rule tick_safe [OF assms(1,7)])
  ultimately show ?thesis by (auto simp: safe_def running_ok_def)
qed

definition late_env :: env where
  "late_env = \<lparr>lm = flat_libm, wall = (\<lambda>n. 5000)\<rparr>"

definition driving_robot :: robot where
  "driving_robot = ready_robot\<lparr>active := True, last_console_ms := 1000, phase := ''RUNNING'', control_enabled := False,
     task_type := ''goto'', task_status := ''EXECUTING'', nav_path := [(D 1 1, D 0 1)]\<rparr>"

lemma driving_robot_safe: "safe driving_robot"
  by (simp add: safe_def running_ok_def driving_robot_def ready_robot_def init_robot_def)

lemma driving_robot_tick: "\<exists>s'. tick late_env 1 driving_robot = Some s'"
proof -
  have "libm_ok (lm late_env)" by (simp add: libm_ok_def late_env_def flat_sin_ok flat_atan2_ok)
  moreover have "motion_ok driving_robot" using init_inv_robot
    by (simp add: robot_inv_def motion_ok_def driving_robot_def ready_robot_def)
  ultimately show ?thesis using tick_returns [of late_env driving_robot 1] by auto
qed

theorem silent_console_stops_robot_witness:
  "\<exists>s'. tick late_env 1 driving_robot = Some s' \<and> \<not> console_online s' \<and> phase s' \<noteq> ''RUNNING'' \<and> \<not> control_enabled s'"
proof -
  obtain s' where t: "tick late_env 1 driving_robot = Some s'" using driving_robot_tick by blast
  have "active driving_robot" "cmd_sub driving_robot" "console_online driving_robot" "last_console_ms driving_robot > 0"
    "wall late_env (reads driving_robot) - last_console_ms driving_robot > 3000"
    by (simp_all add: driving_robot_def ready_robot_def late_env_def)
  from silent_console_stops_robot [OF driving_robot_safe this t] t show ?thesis by blast
qed

section \<open>Motion\<close>

text \<open>What a step of the drive may do to the position: stay, move to a free cell, or creep closer
  to the goal once it is within 0.55 m of it.\<close>

definition guarded_move :: "robot \<Rightarrow> double \<Rightarrow> double \<Rightarrow> bool" where
  "guarded_move s x y \<longleftrightarrow> (x = pose_x s \<and> y = pose_y s) \<or> is_free (nav_map s) x y \<or>
     (let d_now = robot_dist (pose_x s) (pose_y s) (goal_x s) (goal_y s)
      in dlt d_now (D 55 100) \<and> dlt (robot_dist x y (goal_x s) (goal_y s)) d_now)"

lemma tick_move_guarded:
  "tick_move E dt s = Some (s', c, w) \<Longrightarrow>
    guarded_move s (pose_x s') (pose_y s') \<and> goal_x s' = goal_x s \<and> goal_y s' = goal_y s"
  by (auto simp: tick_move_def guarded_move_def final_creep_def Let_def split: prod.splits if_splits Option.bind_splits)

lemma tick_stuck_pose:
  "tick_stuck E dt x y c w s = Some s' \<Longrightarrow>
    pose_x s' = pose_x s \<and> pose_y s' = pose_y s \<and> goal_x s' = goal_x s \<and> goal_y s' = goal_y s"
  by (auto simp: tick_stuck_def replan_def Let_def split: if_splits Option.bind_splits)

lemma tick_complete_pose:
  "(pose_x (tick_complete s) = pose_x s \<and> pose_y (tick_complete s) = pose_y s) \<or>
   (pose_x (tick_complete s) = goal_x s \<and> pose_y (tick_complete s) = goal_y s \<and>
    dlt (robot_dist (pose_x s) (pose_y s) (goal_x s) (goal_y s)) (D 22 100))"
  by (simp add: tick_complete_def Let_def)

text \<open>C26: A simulation step never drives the robot into an obstacle: the new position is the old one,
  or in a free cell of the navigation map, or nearer to the goal from less than 0.55 m; only
  from a position such as these, less than 0.22 m from the goal, is the robot put onto the goal.\<close>

theorem step_keeps_clear:
  assumes "tick E now s = Some s'"
  shows "\<exists>x y. guarded_move s x y \<and> ((pose_x s' = x \<and> pose_y s' = y) \<or>
    (pose_x s' = goal_x s \<and> pose_y s' = goal_y s \<and> dlt (robot_dist x y (goal_x s) (goal_y s)) (D 22 100)))"
proof -
  have stay: "guarded_move s (pose_x s) (pose_y s)" by (simp add: guarded_move_def)
  show ?thesis
  proof (cases "active s")
    case False
    with assms stay show ?thesis by (auto simp: tick_def)
  next
    case True
    from tick_parts [OF assms True] obtain s1 s2 where
      s1: "s1 = recompute (tick_ready now (tick_console E (s\<lparr>last_tick_tp := now\<rparr>)))"
      and m: "tick_motion E (tick_dt now s) s1 = Some s2" and s': "s' = publish_state E (tick_battery s2)" .
    have same: "pose_x s1 = pose_x s" "pose_y s1 = pose_y s" "goal_x s1 = goal_x s" "goal_y s1 = goal_y s"
      "nav_map s1 = nav_map s" by (simp_all add: s1)
    then have g: "guarded_move s1 x y = guarded_move s x y" for x y by (simp add: guarded_move_def)
    show ?thesis
    proof (cases "\<exists>s3. tick_drive E (tick_dt now s) s1 = Some s3 \<and> nav_path s1 \<noteq> [] \<and>
        pose_x s2 = pose_x s3 \<and> pose_y s2 = pose_y s3")
      case False
      then have "pose_x s2 = pose_x s1 \<and> pose_y s2 = pose_y s1"
        using m by (cases "nav_path s1 = []") (auto simp: tick_motion_def tick_drive_def split: if_splits Option.bind_splits)
      with stay show ?thesis by (auto simp: s' same)
    next
      case True
      then obtain a c w b where a: "tick_move E (tick_dt now s) s1 = Some (a, c, w)"
        and b: "tick_stuck E (tick_dt now s) (pose_x s1) (pose_y s1) c w (tick_trail a) = Some b"
        and p: "pose_x s2 = pose_x (tick_complete (tick_cross_track b))" "pose_y s2 = pose_y (tick_complete (tick_cross_track b))"
        by (auto simp: tick_drive_def split: Option.bind_splits)
      have "guarded_move s (pose_x a) (pose_y a)" using tick_move_guarded [OF a] g by simp
      moreover have "pose_x (tick_cross_track b) = pose_x a" "pose_y (tick_cross_track b) = pose_y a"
        "goal_x (tick_cross_track b) = goal_x s" "goal_y (tick_cross_track b) = goal_y s"
        using tick_stuck_pose [OF b] tick_move_guarded [OF a] by (simp_all add: same)
      ultimately show ?thesis
        using tick_complete_pose [of "tick_cross_track b"] by (auto simp: s' p)
    qed
  qed
qed

theorem step_keeps_clear_witness:
  "\<exists>s' x y. tick late_env 1 driving_robot = Some s' \<and> guarded_move driving_robot x y \<and>
    ((pose_x s' = x \<and> pose_y s' = y) \<or> (pose_x s' = goal_x driving_robot \<and> pose_y s' = goal_y driving_robot))"
proof -
  obtain s' where t: "tick late_env 1 driving_robot = Some s'" using driving_robot_tick by blast
  from step_keeps_clear [OF t] t show ?thesis by blast
qed

section \<open>Becoming ready\<close>

lemma tick_battery_phase:
  "phase (tick_battery s) = phase s \<or> (\<exists>s'. phase (tick_battery s) = phase (recompute s') \<and> phase s' = phase s \<and> estop s' = estop s)"
  by (auto simp: tick_battery_def Let_def)

lemma idle_motion: "phase s \<noteq> ''RUNNING'' \<Longrightarrow> \<exists>b. tick_motion E dt s = Some (s\<lparr>battery := b\<rparr>)"
proof (cases "\<not> estop s \<and> phase s = ''IDLE''")
  case True
  then have "tick_motion E dt s = Some (s\<lparr>battery := dsub (battery s) (dmul (D 2 100) dt)\<rparr>)"
    by (simp add: tick_motion_def)
  then show ?thesis by blast
next
  case False
  assume "phase s \<noteq> ''RUNNING''"
  with False have "tick_motion E dt s = Some (s\<lparr>battery := battery s\<rparr>)" by (auto simp: tick_motion_def)
  then show ?thesis by blast
qed

lemma recompute_settled:
  "\<not> estop s \<Longrightarrow> phase s \<in> {''IDLE'', ''DEGRADED'', ''FAULT''} \<Longrightarrow> phase (recompute s) \<in> {''IDLE'', ''DEGRADED'', ''FAULT''}"
  by (auto simp: recompute_phase)

text \<open>The node becomes ready: the first step at or after the end of the initialisation time
  returns and leaves it in IDLE, or in DEGRADED or FAULT when a fault is recorded, unless the
  emergency stop is engaged.\<close>

theorem node_becomes_ready:
  assumes "active s" and "phase s = ''INITIALIZING''" and "\<not> estop s" and "idle_tp s \<le> now"
  shows "\<exists>s'. tick E now s = Some s' \<and> phase s' \<in> {''IDLE'', ''DEGRADED'', ''FAULT''}"
proof -
  define s0 where "s0 = tick_ready now (tick_console E (s\<lparr>last_tick_tp := now\<rparr>))"
  have p: "phase (tick_console E (s\<lparr>last_tick_tp := now\<rparr>)) = ''INITIALIZING''"
    using assms(2) by (simp add: tick_console_def now_ms_def Let_def)
  have "phase s0 = ''IDLE''" "\<not> estop s0"
    using assms(3,4) p by (simp_all add: s0_def) (simp add: tick_ready_def)
  then have r: "phase (recompute s0) \<in> {''IDLE'', ''DEGRADED'', ''FAULT''}" "\<not> estop (recompute s0)"
    using recompute_settled [of s0] by simp_all
  then have nr: "phase (recompute s0) \<noteq> ''RUNNING''" by auto
  obtain b where "tick_motion E (tick_dt now s) (recompute s0) = Some ((recompute s0)\<lparr>battery := b\<rparr>)"
    using idle_motion [OF nr] by blast
  then have "tick E now s = Some (publish_state E (tick_battery ((recompute s0)\<lparr>battery := b\<rparr>)))"
    using assms(1) by (simp add: tick_def s0_def Let_def)
  moreover have "phase (tick_battery ((recompute s0)\<lparr>battery := b\<rparr>)) \<in> {''IDLE'', ''DEGRADED'', ''FAULT''}"
    using r tick_battery_phase [of "(recompute s0)\<lparr>battery := b\<rparr>"] recompute_settled by fastforce
  ultimately show ?thesis by simp
qed

theorem node_becomes_ready_witness:
  "\<exists>s'. tick any_env 600000000 (on_activate any_env 0 0 (on_configure any_env init_robot)) = Some s' \<and>
     phase s' \<in> {''IDLE'', ''DEGRADED'', ''FAULT''}"
  by (rule node_becomes_ready) (simp_all add: on_activate_def on_configure_def Let_def publish_state_def set_node_def clear_faults_def)

section \<open>Battery\<close>

lemma D_level: "D 100 1 = Fp False 4636737291354636288" "D 2 100 = Fp False 4581421828931458171"
  by (rule D_round, (subst round_mag_eval [OF _ refl refl refl refl refl]; simp add: ratio_log_def nbits_eval))+

text \<open>Time steps that do not run backwards, and the drain they give.\<close>

lemma tick_dt_nonneg:
  assumes "0 \<le> last_tick_tp s" "last_tick_tp s \<le> now" "now < 2 ^ 63"
  shows "fneg (tick_dt now s) = False" "dt_ok (tick_dt now s)"
proof -
  show "dt_ok (tick_dt now s)" using assms by (intro tick_dt_ok) simp_all
  show "fneg (tick_dt now s) = False"
  proof (cases "last_tick_tp s > 0")
    case True
    have "\<bar>now - last_tick_tp s\<bar> < 2 ^ 63" using assms by linarith
    then have "fmag (fp_of_int binary64 (now - last_tick_tp s)) \<le> 1086 * 2 ^ 52" by (rule fp_of_int_bound)
    then show ?thesis using True assms(2)
      by (simp add: tick_dt_def fp_of_int_def fp_div_def is_nan_def is_inf_def D_1e9)
  qed (simp add: tick_dt_def D_2_10)
qed

lemma drain_fin:
  assumes "fneg k = False" "is_fin binary64 k" "real (fp_man binary64 k) * 2 powi fp_exp binary64 k \<le> 1"
    and "fneg dt = False" "dt_ok dt" and b: "dle (D 0 1) b" "dle b (D 100 1)"
  shows "dle (dsub b (dmul k dt)) b" "\<not> is_nan binary64 (dsub b (dmul k dt))"
proof -
  have dt: "is_fin binary64 dt" using assms(5) by (simp add: dt_ok_def is_fin_def dt_cap_def)
  have "fmag (dmul k dt) \<le> fmag dt" by (rule fp_mul_le_one [OF assms(2) dt assms(3)])
  then have f: "is_fin binary64 (dmul k dt)" using assms(5) by (simp add: dt_ok_def is_fin_def dt_cap_def)
  have "0 \<le> fkey (dmul k dt)" by (simp add: fp_mul_fin [OF assms(2) dt] fkey_def assms(1,4))
  moreover have "is_fin binary64 b" using b by (cases "fneg b") (auto simp: fp_le_def fkey_def D_level(1) D_values is_fin_def)
  ultimately show "dle (dsub b (dmul k dt)) b" using f by (intro fp_sub_nonneg_le)
  then show "\<not> is_nan binary64 (dsub b (dmul k dt))" by (simp add: fp_le_def)
qed

lemma drive_battery: "tick_drive E dt s = Some s' \<Longrightarrow> battery s' = battery s"
proof (cases "nav_path s = []")
  case True
  then show "tick_drive E dt s = Some s' \<Longrightarrow> ?thesis" by (auto simp: tick_drive_def)
next
  case False
  assume "tick_drive E dt s = Some s'"
  with False obtain a c w b where "tick_move E dt s = Some (a, c, w)"
    "tick_stuck E dt (pose_x s) (pose_y s) c w (tick_trail a) = Some b" "s' = tick_complete (tick_cross_track b)"
    by (auto simp: tick_drive_def split: Option.bind_splits)
  moreover from this(1) have "battery a = battery s"
    by (auto simp: tick_move_def Let_def split: prod.splits if_splits Option.bind_splits)
  moreover have "tick_stuck E dt x y c w s1 = Some s2 \<Longrightarrow> battery s2 = battery s1" for x y s1 s2
    by (auto simp: tick_stuck_def replan_def Let_def split: if_splits Option.bind_splits)
  ultimately show ?thesis by simp
qed

lemma motion_battery:
  assumes "tick_motion E dt s = Some s'"
  obtains "battery s' = battery s" | "battery s' = dsub (battery s) (dmul (D 5 100) dt)"
    | "battery s' = dsub (battery s) (dmul (D 2 100) dt)"
  using assms drive_battery [of E dt s]
  by (auto simp: tick_motion_def split: if_splits Option.bind_splits)

lemma battery_clamped:
  assumes "\<not> is_nan binary64 (battery s)"
  shows "dle (D 0 1) (battery (tick_battery s))"
    and "dle (battery s) t \<Longrightarrow> dle (D 0 1) t \<Longrightarrow> dle (battery (tick_battery s)) t"
proof -
  have "battery (tick_battery s) = (if dlt (battery s) (D 0 1) then D 0 1 else battery s)"
    by (simp add: tick_battery_def Let_def)
  moreover have "\<not> is_nan binary64 (D 0 1)" by (simp add: D_values is_nan_def)
  ultimately show "dle (D 0 1) (battery (tick_battery s))"
    and "dle (battery s) t \<Longrightarrow> dle (D 0 1) t \<Longrightarrow> dle (battery (tick_battery s)) t"
    using assms by (auto simp: fp_le_def fp_lt_def)
qed

lemma drain_rates:
  assumes "fneg dt = False" "dt_ok dt" "dle (D 0 1) b" "dle b (D 100 1)"
  shows "dle (dsub b (dmul (D 5 100) dt)) b" "dle (dsub b (dmul (D 2 100) dt)) b"
proof -
  show "dle (dsub b (dmul (D 5 100) dt)) b" "dle (dsub b (dmul (D 2 100) dt)) b"
    by (rule drain_fin(1) [OF _ _ below_one_64 assms]; simp add: D_level D_values is_fin_def)+
qed

text \<open>A step never charges the battery and never takes it below zero, as long as the steady
  clock does not run backwards: from a level in [0, 100] it goes to a level between zero and the
  old one, rounding included, whatever the length of the step.\<close>

theorem battery_only_drains:
  assumes "dle (D 0 1) (battery s)" and "dle (battery s) (D 100 1)"
    and "0 \<le> last_tick_tp s" and "last_tick_tp s \<le> now" and "now < 2 ^ 63" and "tick E now s = Some s'"
  shows "dle (D 0 1) (battery s') \<and> dle (battery s') (battery s)"
proof (cases "active s")
  case False
  with assms show ?thesis by (auto simp: tick_def fp_le_def)
next
  case True
  from tick_parts [OF assms(6) True] obtain s1 s2 where
    s1: "s1 = recompute (tick_ready now (tick_console E (s\<lparr>last_tick_tp := now\<rparr>)))"
    and m: "tick_motion E (tick_dt now s) s1 = Some s2" and s': "s' = publish_state E (tick_battery s2)" .
  have b: "battery s1 = battery s" by (simp add: s1)
  have "dle (battery s2) (battery s)"
    using drain_rates [OF tick_dt_nonneg [OF assms(3-5)] assms(1,2)] assms(1) b
    by (cases rule: motion_battery [OF m]) (auto simp: fp_le_def)
  with battery_clamped [of s2] assms(1) show ?thesis by (auto simp: s' fp_le_def)
qed

theorem battery_only_drains_witness:
  "\<exists>s'. tick late_env 1 driving_robot = Some s' \<and> dle (D 0 1) (battery s') \<and> dle (battery s') (D 100 1)"
proof -
  obtain s' where t: "tick late_env 1 driving_robot = Some s'" using driving_robot_tick by blast
  have b: "battery driving_robot = D 100 1" "last_tick_tp driving_robot = 0"
    by (simp_all add: driving_robot_def ready_robot_def init_robot_def)
  have "dle (D 0 1) (D 100 1)" "dle (D 100 1) (D 100 1)" by (simp_all add: D_level(1) D_values fp_le_def is_nan_def fkey_def)
  with battery_only_drains [of driving_robot 1, OF _ _ _ _ _ t] t b show ?thesis by auto
qed

section \<open>The edge of the map\<close>

lemma D_edge: "D 20 1 = Fp False 4626322717216342016" "D 5 1 = Fp False 4617315517961601024"
  "D 80 1 = Fp False 4635329916471083008" "D 40 1 = Fp False 4630826316843712512"
  by (rule D_round, (subst round_mag_eval [OF _ refl refl refl refl refl]; simp add: ratio_log_def nbits_eval))+

lemma dsub_exact:
  assumes fin: "is_fin binary64 a" "is_fin binary64 b" "is_fin binary64 z"
    and v: "fp_val binary64 a - fp_val binary64 b = fp_val binary64 z" and z: "fneg z = False" "0 < fmag z"
  shows "dsub a b = z"
proof -
  have e: "fp_val binary64 a + fp_val binary64 (fp_neg b) = fp_val binary64 z" using v by simp
  have fb: "is_fin binary64 (fp_neg b)" using fin(2) by (simp add: is_fin_def)
  have t: "fmag z \<le> top_mag binary64" using fin(3) by (simp add: is_fin_def)
  have "dle (dsub a b) z" "dle z (dsub a b)"
    unfolding fp_sub_fin [OF fin(1,2)] by (rule fp_add_le fp_add_ge; use fin fb e t in simp)+
  then have "fkey (dsub a b) = fkey z" by (simp add: fp_le_def)
  then show ?thesis using z by (cases "dsub a b"; cases z) (auto simp: fkey_def split: if_splits)
qed

lemma edge_cell: "fst (world_to_cell (inflate make_corridor_demo 1) (D 20 1) y) = False"
proof -
  have n: "dsub (D 20 1) (D 0 1) = D 20 1"
    by (rule dsub_exact) (simp_all add: D_edge D_values is_fin_def fp_val_def)
  have d: "ddiv (D 20 1) (D 5 10) = D 40 1"
    by (simp add: D_values D_edge fp_div_def is_nan_def is_inf_def fp_man_def fp_exp_def)
      (subst round_mag_eval [OF _ refl refl refl refl refl]; simp add: ratio_log_def nbits_eval)
  have f: "fp_floor binary64 (D 40 1) = D 40 1"
    by (simp add: D_edge fp_floor_def is_fin_def fp_exp_def int_floor_def fp_sman_def fp_man_def)
      (subst round_mag_eval [OF _ refl refl refl refl refl]; simp add: ratio_log_def nbits_eval)
  have i: "fp_to_int32 binary64 (D 40 1) = 40"
    by (simp add: D_edge fp_to_int32_def is_fin_def int_trunc_def fp_exp_def int_floor_def fp_sman_def fp_man_def)
  have "same_shape make_corridor_demo (inflate make_corridor_demo 1)"
    using inflate_shape_and_cells [OF demo_shape(6), of 1] by simp
  then show ?thesis by (simp add: same_shape_def world_to_cell_def n d f i Let_def)
qed

lemma goto_start_failed:
  assumes "astar (inflate make_corridor_demo 1) (pose_x s) (pose_y s) x y = Some []" and "\<not> cmd_blocked s"
  shows "\<exists>s'. goto_start E sq cmd tid x y s = Some s' \<and> phase s' = ''FAULT'' \<and> nav_status s' = ''FAILED''"
proof -
  have e: "has_error_condition (reject sq cmd re tid (add_fault c ''ERROR'' dt s1))" for re c dt s1
    by (simp add: has_error_condition_def)
  have n: "nav_status (publish_state E s1) = nav_status s1" "nav_status (recompute s1) = nav_status s1"
    "nav_status (reject sq cmd re tid s1) = nav_status s1" "nav_status (add_fault c l dt s1) = nav_status s1" for re c l dt s1
    by (simp_all add: publish_state_def recompute_def set_node_def reject_def publish_cmd_result_def add_fault_def Let_def)
  show ?thesis using assms
    by (simp add: goto_start_def Let_def n) (simp add: recompute_phase e cmd_blocked_def)
qed

text \<open>The range check of a goto and the map disagree at the far edge: x = 20 m passes the check
  (it is not outside the world), but no cell of the map covers it, so an otherwise ready robot
  records an error and goes to FAULT instead of refusing the goal.\<close>

theorem goto_edge_faults:
  assumes "\<not> cmd_blocked s"
  shows "\<not> outside_world (D 20 1) (D 0 1) \<and>
    (\<exists>s'. goto_start E sq cmd tid (D 20 1) (D 0 1) s = Some s' \<and> phase s' = ''FAULT'' \<and> nav_status s' = ''FAILED'')"
proof
  show "\<not> outside_world (D 20 1) (D 0 1)"
    by (simp add: outside_world_def D_edge D_values fp_lt_def fp_neg_def is_nan_def fkey_def)
  have "astar (inflate make_corridor_demo 1) (pose_x s) (pose_y s) (D 20 1) (D 0 1) = Some []"
    using edge_cell [of "D 0 1"] by (auto simp: astar_def split: prod.split)
  from goto_start_failed [OF this assms]
  show "\<exists>s'. goto_start E sq cmd tid (D 20 1) (D 0 1) s = Some s' \<and> phase s' = ''FAULT'' \<and> nav_status s' = ''FAILED''" .
qed

theorem goto_edge_faults_witness:
  "\<exists>s'. goto_start any_env 7 ''CMD_TASK'' ''T1'' (D 20 1) (D 0 1) ready_robot = Some s' \<and> phase s' = ''FAULT''"
  using goto_edge_faults [of ready_robot any_env 7 "''CMD_TASK''" "''T1''"]
  by (auto simp: cmd_blocked_def ready_robot_def init_robot_def)

section \<open>An accepted goto\<close>

lemma recompute_running: "phase (recompute s) = ''RUNNING'' \<Longrightarrow> phase s = ''RUNNING''"
  by (auto simp: recompute_phase split: if_splits)

lemma goto_start_running:
  assumes "goto_start E sq cmd tid x y s = Some s'" and "phase s \<noteq> ''RUNNING''" and "phase s' = ''RUNNING''"
  shows "nav_map s' = inflate make_corridor_demo 1 \<and> goal_x s' = x \<and> goal_y s' = y \<and> nav_path s' \<noteq> [] \<and>
    astar (nav_map s') (pose_x s) (pose_y s) x y = Some (nav_path s')"
proof -
  obtain path where p: "astar (inflate make_corridor_demo 1) (pose_x s) (pose_y s) x y = Some path"
    using assms(1) by (auto simp: goto_start_def Let_def split: Option.bind_splits)
  have "path \<noteq> []"
  proof
    assume "path = []"
    with p assms have "phase (recompute (reject sq cmd ''unknown_task'' tid (add_fault ''E_TASK_FAILED'' ''ERROR''
        ''A* no path to goal'' (s\<lparr>nav_map := inflate make_corridor_demo 1, nav_status := ''PLANNING'', nav_path := [],
          nav_status := ''FAILED''\<rparr>)))) = ''RUNNING''"
      by (auto simp: goto_start_def Let_def)
    from recompute_running [OF this] assms(2) show False by simp
  qed
  with p assms show ?thesis by (auto simp: goto_start_def Let_def)
qed

lemma goto_command:
  assumes "extract_string d ''cmd'' = Some ''CMD_TASK''" and "extract_string d ''type'' = Some ''goto''"
  shows "on_cmd E d s =
    (let tid = (case extract_string d ''task_id'' of None \<Rightarrow> [] | Some t \<Rightarrow> t)
     in if cmd_blocked s then Some (reject (extract_seq d) ''CMD_TASK'' (busy_reason s) tid s)
        else task_goto E (extract_seq d) ''CMD_TASK'' d tid s)"
  using assms by (simp add: on_cmd_def cmd_task_def Let_def)

text \<open>C15: A goto that sets the robot in motion has a route: on the inflated map of the corridor, from the
  free cell the robot's position snaps to, by moves that enter no occupied cell and cut no corner,
  to the free cell of the commanded goal, ending at the goal itself; and the console is online
  and no emergency stop is engaged.\<close>

theorem goto_drives_planned_route:
  assumes "extract_string d ''cmd'' = Some ''CMD_TASK''" and "extract_string d ''type'' = Some ''goto''"
    and "on_cmd E d s = Some s'" and "phase s \<noteq> ''RUNNING''" and "phase s' = ''RUNNING''"
  shows "nav_map s' = inflate make_corridor_demo 1 \<and> console_online s \<and> \<not> estop s \<and>
    (\<exists>a b. snap_free (nav_map s') (fst (snd (world_to_cell (nav_map s') (pose_x s) (pose_y s))))
         (snd (snd (world_to_cell (nav_map s') (pose_x s) (pose_y s)))) = Some a \<and>
       snap_free (nav_map s') (fst (snd (world_to_cell (nav_map s') (goal_x s') (goal_y s'))))
         (snd (snd (world_to_cell (nav_map s') (goal_x s') (goal_y s')))) = Some b \<and>
       route (nav_map s') a b (goal_x s', goal_y s') (nav_path s'))"
proof -
  obtain tid where o: "(if cmd_blocked s then Some (reject (extract_seq d) ''CMD_TASK'' (busy_reason s) tid s)
      else task_goto E (extract_seq d) ''CMD_TASK'' d tid s) = Some s'"
    using assms(3) unfolding goto_command [OF assms(1,2)] Let_def by blast
  have nb: "\<not> cmd_blocked s" using o assms(4,5) by (auto split: if_splits)
  define s1 where "s1 = (if tid = [] then s\<lparr>task_seq := task_seq s + 1\<rparr> else s)"
  have s1: "pose_x s1 = pose_x s" "pose_y s1 = pose_y s" "phase s1 = phase s" by (simp_all add: s1_def)
  have "\<exists>x y ti. goto_start E (extract_seq d) ''CMD_TASK'' ti x y s1 = Some s'"
    using o nb assms(4,5) s1(3)
    unfolding task_goto_def Let_def s1_def [symmetric] if_not_P [OF nb]
    by (auto split: if_split_asm)
  then obtain x y ti where "goto_start E (extract_seq d) ''CMD_TASK'' ti x y s1 = Some s'" by blast
  note r = goto_start_running [OF this]
  have g: "nav_map s' = inflate make_corridor_demo 1" "goal_x s' = x" "goal_y s' = y" "nav_path s' \<noteq> []"
    "astar (nav_map s') (pose_x s) (pose_y s) x y = Some (nav_path s')" using r assms(4,5) s1 by metis+
  have "plan_of (nav_map s') (pose_x s) (pose_y s) x y (nav_path s')"
    using astar_result [OF inflate_ok [OF demo_shape(6)], of 1 "pose_x s" "pose_y s" x y] g(1,5) by auto
  then show ?thesis using g unblocked [OF nb]
    by (auto simp: plan_of_def split: prod.splits if_splits option.splits)
qed

definition parked_robot :: robot where
  "parked_robot = ready_robot\<lparr>pose_x := D 125 100\<rparr>"

lemma parked_values: "D 125 100 = Fp False 4608308318706860032" "D 25 10 = Fp False 4612811918334230528"
  "D 10 1 = Fp False 4621819117588971520"
  by (rule D_round, (subst round_mag_eval [OF _ refl refl refl refl refl]; simp add: ratio_log_def nbits_eval))+

lemma parked_floor:
  "fp_to_int32 binary64 (fp_floor binary64 (D 25 10)) = 2" "fp_to_int32 binary64 (fp_floor binary64 (D 10 1)) = 10"
proof -
  have "fp_floor binary64 (D 25 10) = D 2 1" "fp_floor binary64 (D 10 1) = D 10 1"
    by (simp_all add: parked_values D_values fp_floor_def is_fin_def fp_exp_def int_floor_def fp_sman_def fp_man_def,
      (subst round_mag_eval [OF _ refl refl refl refl refl]; simp add: ratio_log_def nbits_eval)+)
  then show "fp_to_int32 binary64 (fp_floor binary64 (D 25 10)) = 2" "fp_to_int32 binary64 (fp_floor binary64 (D 10 1)) = 10"
    by (simp_all add: parked_values D_values fp_to_int32_def is_fin_def int_trunc_def fp_exp_def int_floor_def fp_sman_def fp_man_def)
qed

lemma parked_ratio: "ddiv (D 125 100) (D 5 10) = D 25 10" "ddiv (D 5 1) (D 5 10) = D 10 1"
  by (simp_all add: parked_values D_edge D_values fp_div_def is_nan_def is_inf_def fp_man_def fp_exp_def,
    (subst round_mag_eval [OF _ refl refl refl refl refl]; simp add: ratio_log_def nbits_eval)+)

lemma parked_cell: "world_to_cell (inflate make_corridor_demo 1) (D 125 100) (D 0 1) = (True, 2, 10)"
proof -
  have "dsub (D 125 100) (D 0 1) = D 125 100"
    by (rule dsub_exact) (simp_all add: parked_values D_values is_fin_def fp_val_def)
  moreover have "dsub (D 0 1) (fp_neg (D 5 1)) = D 5 1"
    by (rule dsub_exact) (simp_all add: D_edge D_values is_fin_def fp_val_def fp_neg_def)
  moreover have "same_shape make_corridor_demo (inflate make_corridor_demo 1)"
    using inflate_shape_and_cells [OF demo_shape(6), of 1] by simp
  ultimately show ?thesis
    by (simp add: same_shape_def world_to_cell_def Let_def parked_ratio parked_floor)
qed

text \<open>A goto without coordinates goes to where the robot stands: a plan, so the robot runs.\<close>

lemma goto_text_reads:
  "extract_string goto_text ''cmd'' = Some ''CMD_TASK''" "extract_string goto_text ''type'' = Some ''goto''"
  "extract_string goto_text ''task_id'' = None" "extract_number goto_text ''x'' v = (False, v)"
  "extract_number goto_text ''y'' v = (False, v)"
proof -
  show "extract_string goto_text ''cmd'' = Some ''CMD_TASK''" "extract_string goto_text ''type'' = Some ''goto''"
    "extract_string goto_text ''task_id'' = None" by code_simp+
  have "after_key goto_text ''x'' = None" "after_key goto_text ''y'' = None" by code_simp+
  then show "extract_number goto_text ''x'' v = (False, v)" "extract_number goto_text ''y'' v = (False, v)"
    by (simp_all add: extract_number_def)
qed

lemma parked_plan:
  "\<exists>path. astar (inflate make_corridor_demo 1) (D 125 100) (D 0 1) (D 125 100) (D 0 1) = Some path \<and> path \<noteq> []"
proof -
  let ?m = "inflate make_corridor_demo 1"
  obtain path where p: "astar ?m (D 125 100) (D 0 1) (D 125 100) (D 0 1) = Some path"
    "plan_of ?m (D 125 100) (D 0 1) (D 125 100) (D 0 1) path"
    using astar_result [OF inflate_ok [OF demo_shape(6)]] by blast
  have "grid_at ?m 2 10 = 0" by (simp add: inflated_demo_at demo_wall_def)
  then have "snap_free ?m 2 10 = Some (2, 10)" by (simp add: snap_free_def)
  with p(2) have "path = [] \<Longrightarrow> \<not> reachable ?m (2, 10) (2, 10)" by (simp add: plan_of_def parked_cell)
  moreover have "reachable ?m (2, 10) (2, 10)" by (rule reachable.start)
  ultimately show ?thesis using p(1) by blast
qed

theorem goto_drives_planned_route_witness:
  "\<exists>s' a b. on_cmd any_env goto_text parked_robot = Some s' \<and> phase s' = ''RUNNING'' \<and>
     route (inflate make_corridor_demo 1) a b (goal_x s', goal_y s') (nav_path s')"
proof -
  obtain path where p: "astar (inflate make_corridor_demo 1) (D 125 100) (D 0 1) (D 125 100) (D 0 1) = Some path"
    "path \<noteq> []" using parked_plan by blast
  have st: "phase parked_robot = ''IDLE''" "\<not> cmd_blocked parked_robot" "task_id parked_robot = []"
    "pose_x parked_robot = D 125 100" "pose_y parked_robot = D 0 1"
    by (simp_all add: parked_robot_def ready_robot_def init_robot_def cmd_blocked_def)
  have "\<not> outside_world (D 125 100) (D 0 1)"
    by (simp add: outside_world_def parked_values D_edge D_values fp_lt_def fp_neg_def is_nan_def fkey_def)
  then obtain s' where o: "on_cmd any_env goto_text parked_robot = Some s'" and "phase s' = ''RUNNING''"
    using p st goto_command [OF goto_text_reads(1,2), of any_env parked_robot]
    by (auto simp: goto_text_reads task_goto_def Let_def goto_start_def)
  note run = this(2)
  have "phase parked_robot \<noteq> ''RUNNING''" by (simp add: st(1))
  from goto_drives_planned_route [OF goto_text_reads(1,2) o this run] obtain a b where
    "route (nav_map s') a b (goal_x s', goal_y s') (nav_path s')" "nav_map s' = inflate make_corridor_demo 1" by blast
  then have "route (inflate make_corridor_demo 1) a b (goal_x s', goal_y s') (nav_path s')" by simp
  with o run show ?thesis by blast
qed

end
