(* ===== verification/Command_Path.thy ===== *)
theory Command_Path
  imports Robot_Rules Bridge_Props
begin

text \<open>
  The path of a command between the bridge and the robot: the envelope the bridge publishes, as the
  robot's extractors read it, and the result the robot publishes, as the bridge's JSON utilities
  read it. The numbers travel as decimal text; the robot reads them with \<open>strtod\<close> and a
  conversion to 16 bits, the bridge with \<open>strtoll\<close>.
\<close>

section \<open>Decimal numbers\<close>

lemma digit_char_facts:
  assumes "d < 10"
  shows "is_digit (digit_char d)" "xdigit_val (digit_char d) = d" "digit_char d \<noteq> dq"
    "to_lower (digit_char d) = digit_char d" "\<not> is_space (digit_char d)"
proof -
  have c: "(of_char (digit_char d) :: nat) = 48 + d" using assms by (simp add: digit_char_def)
  then show "is_digit (digit_char d)" "to_lower (digit_char d) = digit_char d" "\<not> is_space (digit_char d)"
    using assms by (simp_all add: is_digit_def to_lower_def is_space_def)
  then show "xdigit_val (digit_char d) = d" using c by (simp add: xdigit_val_def digit_val_def)
  show "digit_char d \<noteq> dq" using c assms by (auto simp: dq_def)
qed

lemma digits_val_append: "digits_val b acc (xs @ ys) = digits_val b (digits_val b acc xs) ys"
  by (induction xs arbitrary: acc) simp_all

lemma dec_nat_digits: "list_all is_digit (dec_nat n) \<and> dec_nat n \<noteq> [] \<and> digits_val 10 0 (dec_nat n) = n"
proof (induction n rule: dec_nat.induct)
  case (1 n)
  then show ?case
    by (subst (1 2 3) dec_nat.simps) (auto simp: digit_char_facts digits_val_append)
qed

lemma is_digit_facts:
  assumes "is_digit c"
  shows "c \<noteq> dq" "c \<noteq> CHR '':''" "\<not> is_space c" "to_lower c = c" "c \<noteq> CHR ''-''" "c \<noteq> CHR ''+''"
    "c \<noteq> CHR ''x''" "c \<noteq> CHR ''i''" "c \<noteq> CHR ''n''" "c \<noteq> CHR '' ''" "c \<noteq> CHR 0x09" "c \<noteq> CHR ''.''"
  using assms by (auto simp: is_digit_def is_space_def to_lower_def dq_def Let_def)

lemma take_digits:
  "list_all is_digit ds \<Longrightarrow> \<not> is_digit c \<Longrightarrow> takeWhile is_digit (ds @ c # r) = ds"
  "list_all is_digit ds \<Longrightarrow> \<not> is_digit c \<Longrightarrow> dropWhile is_digit (ds @ c # r) = c # r"
  by (induction ds) simp_all

lemma strtod_dec_nat: "strtod (dec_nat n @ '','' @ r) = Some (fp_of_int binary64 (int n))"
proof -
  obtain d ds where dn: "dec_nat n = d # ds" using dec_nat_digits [of n] by (cases "dec_nat n") auto
  have all: "is_digit d" "list_all is_digit ds" "digits_val 10 0 (d # ds) = n"
    using dec_nat_digits [of n] by (simp_all add: dn)
  note F = is_digit_facts [OF all(1)]
  define t where "t = d # ds @ CHR '','' # r"
  have sgn: "take_sign (dropWhile is_space t) = (False, t)" using F by (simp add: take_sign_def t_def)
  have "\<not> prefix ''0x'' (map to_lower t)"
  proof (cases ds)
    case Nil
    then show ?thesis using F by (simp add: to_lower_def t_def)
  next
    case (Cons e es)
    then have "is_digit e" using all(2) by simp
    from is_digit_facts [OF this] Cons F show ?thesis by (auto simp: t_def)
  qed
  moreover have "\<not> prefix ''inf'' (map to_lower t)" "\<not> prefix ''nan'' (map to_lower t)"
    using F by (auto simp: t_def)
  moreover have "take_mantissa is_digit t = (d # ds, 0, CHR '','' # r)"
    using all(1) take_digits [OF all(2), of "CHR '',''" r]
    by (simp add: take_mantissa_def Let_def t_def) (simp add: is_digit_def)
  moreover have "take_exponent (CHR ''e'') (CHR '','' # r) = 0" by (simp add: take_exponent_def to_lower_def)
  ultimately have "strtod t = Some (scaled_ratio False n 10 0 0)"
    using sgn all(3) by (simp add: strtod_def Let_def case_prod_beta)
  then show ?thesis by (simp add: t_def dn scaled_ratio_def fp_of_int_def)
qed

lemma strtoll_dec_nat: "n < 2 ^ 63 \<Longrightarrow> strtoll (dec_nat n @ '','' @ r) = Some (int n)"
proof -
  assume n: "n < 2 ^ 63"
  obtain d ds where dn: "dec_nat n = d # ds" using dec_nat_digits [of n] by (cases "dec_nat n") auto
  have all: "is_digit d" "list_all is_digit ds" "digits_val 10 0 (d # ds) = n"
    using dec_nat_digits [of n] by (simp_all add: dn)
  have "take_sign (dropWhile is_space (d # ds @ CHR '','' # r)) = (False, d # ds @ CHR '','' # r)"
    using is_digit_facts [OF all(1)] by (simp add: take_sign_def)
  moreover have "takeWhile is_digit (d # ds @ CHR '','' # r) = d # ds"
    using all(1) take_digits [OF all(2), of "CHR '',''" r] by (simp add: is_digit_def)
  ultimately show ?thesis using n all(3)
    by (simp add: strtoll_def dn Let_def clamp_ll_def)
qed

section \<open>Small integers are exact\<close>

lemma fp_to_int32_of_nat:
  assumes "n < 2 ^ 31"
  shows "fp_to_int32 binary64 (fp_of_int binary64 (int n)) = int n"
proof (cases "n = 0")
  case True
  then show ?thesis
    by (simp add: fp_of_int_def fp_to_int32_def is_fin_def int_trunc_def int_floor_def fp_sman_def fp_man_def fp_exp_def)
next
  case False
  then obtain b where b: "2 ^ b \<le> n" "n < 2 ^ Suc b" using ex_power_ivl1 [of 2 n] by auto
  have "(2 :: nat) ^ b < 2 ^ 31" using b(1) assms by linarith
  then have b31: "b < 31" by (rule power_less_imp_less_exp [of "2 :: nat", rotated]) simp
  define t where "t = n * 2 ^ (52 - b)"
  define k where "k = (b + 1022) * 2 ^ 52 + t"
  have p: "(2 :: nat) ^ 52 = 2 ^ b * 2 ^ (52 - b)" "(2 :: nat) ^ 53 = 2 ^ Suc b * 2 ^ (52 - b)"
    using b31 by (simp_all flip: power_add)
  have t: "2 ^ 52 \<le> t" "t < 2 ^ 53" unfolding t_def p using b by simp_all
  have m: "mag_int binary64 k = t * 2 ^ (b + 1022)"
    using mag_int_scaled [of t binary64 "b + 1022"] t by (simp add: k_def)
  have "k < top_mag binary64" using t b31 by (simp add: k_def)
  moreover have "exact binary64 n 1 0 = real (mag_int binary64 k)"
  proof -
    have "t * 2 ^ (b + 1022) = n * 2 ^ 1074" using b31 by (simp add: t_def flip: power_add)
    then show ?thesis unfolding m by (simp add: exact_def)
  qed
  ultimately have rm: "round_mag binary64 n 1 0 = k" by (intro round_mag_exact) simp_all
  have "k = (t - 2 ^ 52) + (b + 1023) * 2 ^ 52" using t by (simp add: k_def)
  moreover have "t - 2 ^ 52 < 2 ^ 52" using t by simp
  ultimately have dm: "k div 2 ^ 52 = b + 1023" "k mod 2 ^ 52 = t - 2 ^ 52" "\<not> k < 2 ^ 52"
    by (simp_all only: div_mult_self1 mod_mult_self1) simp_all
  then have me: "fp_man binary64 (Fp False k) = t" "fp_exp binary64 (Fp False k) = int b - 52"
    using t by (simp_all add: fp_man_def fp_exp_def)
  have "int t div 2 ^ (52 - b) = int n" by (simp add: t_def)
  then have "int_floor binary64 (Fp False k) = int n"
    using b31 me by (simp add: int_floor_def fp_sman_def nat_diff_distrib')
  then show ?thesis using rm \<open>k < top_mag binary64\<close> assms
    by (simp add: fp_to_int32_def fp_of_int_def is_fin_def int_trunc_def)
qed

section \<open>The envelope, as the robot reads it\<close>

definition plain_name :: "string \<Rightarrow> bool" where
  "plain_name s \<longleftrightarrow> list_all (\<lambda>c. c \<noteq> dq \<and> c \<noteq> bs \<and> 0x20 \<le> (of_char c :: nat)) s"

lemma escape_plain: "plain_name s \<Longrightarrow> escape s = s"
proof (induction s)
  case (Cons c s)
  have "escape_char c = [c]" using Cons.prems by (auto simp: plain_name_def escape_char_def)
  with Cons show ?case by (simp add: plain_name_def escape_def)
qed (simp add: escape_def)

lemma read_plain: "plain_name s \<Longrightarrow> read_string (s @ dq # rest) = s"
proof -
  assume p: "plain_name s"
  then have "esc s = s" by (induction s) (auto simp: plain_name_def esc_def)
  then show ?thesis using read_esc [of s rest] by simp
qed

lemma plain_command_names: "plain_name (msg_type_name ty)"
  by (simp add: msg_type_name_def plain_name_def dq_def bs_def)

lemma envelope_seq: "extract_seq (envelope cmd sq payload) = sq"
proof -
  define v where "v = dec_nat (unat sq) @ '','' @ quoted ''cmd'' @ '':'' @ dq # escape cmd @ [dq] @ '','' @
    quoted ''payload'' @ '':'' @ (if payload = [] then ''null'' else payload) @ ''}''"
  obtain d ds where dn: "dec_nat (unat sq) = d # ds" and "is_digit d"
    using dec_nat_digits [of "unat sq"] by (cases "dec_nat (unat sq)") auto
  then have "dropWhile (\<lambda>c. c = CHR '' '' \<or> c = CHR 0x09) v = v" "v \<noteq> []"
    using is_digit_facts [of d] by (simp_all add: v_def)
  moreover have "after_key (''{'' @ quoted ''seq'' @ [] @ '':'' @ v) ''seq'' =
      Some (dropWhile (\<lambda>c. c = CHR '' '' \<or> c = CHR 0x09) v)"
    by (rule after_key_here) (simp_all add: dq_def)
  moreover have "unat sq < 2 ^ 31" using unsigned_less [of sq, where ?'a = nat] by simp
  then have "fp_to_int32 binary64 (fp_of_int binary64 (int (unat sq))) = int (unat sq)"
    by (rule fp_to_int32_of_nat)
  moreover have "strtod v = Some (fp_of_int binary64 (int (unat sq)))" unfolding v_def by (rule strtod_dec_nat)
  ultimately have "extract_seq (''{'' @ quoted ''seq'' @ [] @ '':'' @ v) = word_of_int (int (unat sq))"
    by (simp add: extract_seq_def extract_number_def)
  then show ?thesis by (simp add: envelope_def v_def)
qed

lemma find_cmd_key:
  assumes "dq \<notin> set v"
  shows "find_after (quoted ''cmd'') (''{'' @ quoted ''seq'' @ '':'' @ v @ '','' @ quoted ''cmd'' @ r) = Some r"
proof -
  have "find_after (quoted ''cmd'') (v @ '','' @ quoted ''cmd'' @ r) = find_after (quoted ''cmd'') ('','' @ quoted ''cmd'' @ r)"
    using assms by (intro find_after_skip) (simp_all add: quoted_def)
  also have "\<dots> = Some r" by (simp add: quoted_def dq_def)
  finally show ?thesis by (simp add: quoted_def dq_def)
qed

lemma dec_nat_no_dq: "dq \<notin> set (dec_nat n)"
  using dec_nat_digits [of n] is_digit_facts(1) by (auto simp: list_all_iff)

lemma envelope_cmd:
  assumes "plain_name cmd"
  shows "extract_string (envelope cmd sq payload) ''cmd'' = Some cmd"
proof -
  define r where "r = '','' @ quoted ''payload'' @ '':'' @ (if payload = [] then ''null'' else payload) @ ''}''"
  have "find_after (quoted ''cmd'') (envelope cmd sq payload) = Some ('':'' @ dq # cmd @ dq # r)"
    using find_cmd_key [OF dec_nat_no_dq, of "unat sq" "'':'' @ dq # cmd @ dq # r"] assms
    by (simp add: envelope_def r_def escape_plain)
  then have "after_key (envelope cmd sq payload) ''cmd'' = Some (dq # cmd @ dq # r)"
    by (simp add: after_key_def) (simp add: dq_def)
  then show ?thesis using read_plain [OF assms] by (simp add: extract_string_def)
qed

section \<open>The result, as the bridge reads it\<close>

lemma result_seq: "get_int (result_json sq cmd ok st re tid) ''seq'' = Some (int (unat sq))"
proof -
  define r where "r = raw_field ''ok'' (bool_str ok) @ '','' @ str_field ''cmd'' cmd @ '','' @ str_field ''status'' st @
     '','' @ raw_field ''reason'' (null_or_str re) @ '','' @ raw_field ''task_id'' (null_or_str tid) @ ''}''"
  define v where "v = dec_nat (unat sq) @ '','' @ r"
  obtain d ds where dn: "dec_nat (unat sq) = d # ds" and d: "is_digit d"
    using dec_nat_digits [of "unat sq"] by (cases "dec_nat (unat sq)") auto
  have j: "result_json sq cmd ok st re tid = ''{'' @ quoted ''seq'' @ '':'' @ v"
    by (simp add: result_json_def raw_field_def v_def r_def)
  have "find_after (quoted ''seq'') (result_json sq cmd ok st re tid) = Some ('':'' @ v)"
    unfolding j by (simp add: quoted_def dq_def)
  moreover have "skip_ws ('':'' @ v) = '':'' @ v" "skip_ws v = v"
    using is_digit_facts [OF d] by (simp_all add: skip_ws_def is_space_def v_def dn)
  moreover have "v \<noteq> []" by (simp add: v_def dn)
  ultimately have k: "find_key_value ''seq'' (result_json sq cmd ok st re tid) = Some v"
    by (subst find_key_value.simps) (simp add: result_json_def)
  have "unat sq < 2 ^ 63" using unsigned_less [of sq, where ?'a = nat] by simp
  then have "strtoll v = Some (int (unat sq))" unfolding v_def by (rule strtoll_dec_nat)
  then show ?thesis
    using is_digit_facts [OF d] d by (simp add: get_int_def k skip_sign_def v_def dn)
qed

end
