(* ===== verification/Bridge_Main.thy ===== *)
theory Bridge_Main
  imports Bridge_Props Command_Path
begin

text \<open>
  The entry point of the bridge (\<open>bridge/src/main.cpp\<close>) and the two methods of the node it calls
  (\<open>BridgeNode::start_tcp\<close>, \<open>BridgeNode::stop_tcp\<close>): the parsing of the options, the start of the
  server with the answers of the kernel, the run until the context of ROS stops, and the shutdown.
  A run is given by the events while the executor spins and by those of the server's own threads
  while \<open>stop\<close> joins them; a join that still waits is the value \<open>None\<close>. \<open>closes\<close> is the relation of
  every operation to the descriptors of the clients, from which it follows that the shutdown closes
  them all, and that the command worker ends.
\<close>

section \<open>Options\<close>

definition DEFAULT_PORT :: int where "DEFAULT_PORT = 8765"

text \<open>\<open>std::atoi\<close> of the GNU library: the low 32 bits of \<open>strtol\<close>.\<close>

definition atoi :: "string \<Rightarrow> int" where
  "atoi s = sint (word_of_int (case strtoll s of None \<Rightarrow> 0 | Some v \<Rightarrow> v) :: u32)"

text \<open>The port, and the arguments that are left for ROS.\<close>

fun parse_args :: "int \<Rightarrow> string list \<Rightarrow> string list \<Rightarrow> int \<times> string list" where
  "parse_args port ros_argv [] = (port, ros_argv)"
| "parse_args port ros_argv [a] = (port, ros_argv @ [a])"
| "parse_args port ros_argv (a # b # as) =
     (if a = ''--port'' \<or> a = ''-p'' then parse_args (atoi b) ros_argv as
      else parse_args port (ros_argv @ [a]) (b # as))"

section \<open>Start and stop of the server\<close>

text \<open>What \<open>socket\<close>, \<open>bind\<close> on a port and \<open>listen\<close> answer.\<close>

record listen_api =
  l_socket :: int
  l_bind :: "u16 \<Rightarrow> bool"
  l_listen :: bool

definition start_tcp :: "listen_api \<Rightarrow> int \<Rightarrow> bridge \<Rightarrow> bool \<times> (bridge, wait) server" where
  "start_tcp N port b =
     start_server (l_socket N) (l_bind N (word_of_int port)) (l_listen N) port (init_server\<lparr>s_host := b\<rparr>)"

text \<open>What runs while \<open>stop\<close> waits for the threads: not the executor, which has stopped spinning.\<close>

fun server_thread :: "bridge_event \<Rightarrow> bool" where
  "server_thread (Accept fd) = True"
| "server_thread (Recv c n data) = True"
| "server_thread (Frame c) = True"
| "server_thread (Worker t) = True"
| "server_thread Watchdog = True"
| "server_thread _ = False"

fun while_spinning :: "bridge_event \<Rightarrow> bool" where
  "while_spinning (Robot_State data) = True"
| "while_spinning (Cmd_Result data) = True"
| "while_spinning Delta_Timer = True"
| "while_spinning e = server_thread e"

definition steps_of :: "platform \<Rightarrow> (bridge, wait) server \<Rightarrow> bridge_event list \<Rightarrow> (bridge, wait) server" where
  "steps_of P = foldl (bridge_step P)"

text \<open>The command worker returns when the server has stopped and its queue is empty.\<close>

definition worker_returned :: "('b, 'w) server \<Rightarrow> bool" where
  "worker_returned s \<longleftrightarrow> s_queue s = [] \<and> s_waiting s = None"

text \<open>
  \<open>server_->stop()\<close>, then \<open>server_.reset()\<close>, whose destructor stops the server again. The threads
  only exist when the start succeeded.
\<close>

definition stop_tcp :: "platform \<Rightarrow> bool \<Rightarrow> bridge_event list \<Rightarrow> (bridge, wait) server \<Rightarrow> (bridge, wait) server option" where
  "stop_tcp P started es s =
     (let s1 = steps_of P (stop_begin s) (if started then filter server_thread es else [])
      in if started \<and> \<not> worker_returned s1 then None else Some (stop_end (stop_begin (stop_end s1))))"

section \<open>The process\<close>

record bridge_exit =
  ex_code :: int
  ex_ros_argv :: "string list"
  ex_server :: "(bridge, wait) server"

definition bridge_main ::
  "platform \<Rightarrow> listen_api \<Rightarrow> string \<Rightarrow> string list \<Rightarrow> bridge_event list \<Rightarrow> bridge_event list \<Rightarrow> bridge_exit option" where
  "bridge_main P N exe as es es' =
     (let (port, ros_argv) = parse_args DEFAULT_PORT [exe] as;
          (ok, s) = start_tcp N port init_bridge
      in if \<not> ok
         then map_option (\<lambda>s'. \<lparr>ex_code = 1, ex_ros_argv = ros_argv, ex_server = s'\<rparr>) (stop_tcp P False [] s)
         else map_option (\<lambda>s'. \<lparr>ex_code = 0, ex_ros_argv = ros_argv, ex_server = s'\<rparr>)
                (stop_tcp P True es' (steps_of P s (filter while_spinning es))))"

section \<open>Descriptors\<close>

text \<open>No descriptor is opened or changed, and no client leaves the vector while its descriptor is open.\<close>

definition closes :: "('b, 'w) server \<Rightarrow> ('b, 'w) server \<Rightarrow> bool" where
  "closes s s' \<longleftrightarrow> s_running s' = s_running s \<and> length (s_objs s') = length (s_objs s) \<and>
     (\<forall>c < length (s_objs s). c_fd (client_of s' c) \<ge> 0 \<longrightarrow>
        c_fd (client_of s' c) = c_fd (client_of s c) \<and> (c \<in> set (s_clients s) \<longrightarrow> c \<in> set (s_clients s')))"

named_theorems closing \<open>operations that only close descriptors\<close>

lemma closes_refl [simp]: "closes s s"
  by (simp add: closes_def)

lemma closes_fields [simp]:
  "closes r (s\<lparr>s_host := b\<rparr>) = closes r s" "closes r (s\<lparr>s_reads := k\<rparr>) = closes r s"
  "closes r (s\<lparr>s_queue := q\<rparr>) = closes r s" "closes r (s\<lparr>s_waiting := w\<rparr>) = closes r s"
  "closes r (s\<lparr>s_last_tx := t\<rparr>) = closes r s"
  by (simp_all add: closes_def)

lemma closes_set_client [closing]:
  assumes "closes r s" and "\<And>cl. c_fd (f cl) = c_fd cl \<or> c_fd (f cl) < 0"
  shows "closes r (set_client c f s)"
  using assms(1) assms(2) [of "client_of s c"] by (fastforce simp: closes_def)

lemma closes_only_sent:
  assumes "closes r s" and "only_sent s s'"
  shows "closes r s'"
proof -
  have "c_fd (client_of s' c) = c_fd (client_of s c)" if "c < length (s_objs s)" for c
    using only_sent_client [OF assms(2) that] sent_more_fields by blast
  then show ?thesis using assms only_sent_length [OF assms(2)] by (simp add: closes_def only_sent_def)
qed

lemma closes_sends [closing]:
  "closes r s \<Longrightarrow> closes r (send_to P c ty sq payload s)" "closes r s \<Longrightarrow> closes r (send_to_all P ty sq payload s)"
  by (erule closes_only_sent, simp)+

lemma erase_first_keeps: "x \<in> set xs \<Longrightarrow> \<not> p x \<Longrightarrow> x \<in> set (erase_first p xs)"
  by (induction xs) auto

lemma closes_exit [closing]:
  assumes "closes r s"
  shows "closes r (client_exit c s)"
proof -
  let ?s = "set_client c (\<lambda>cl. cl\<lparr>c_fd := - 1, c_running := False, c_batch := []\<rparr>) s"
  have "closes r ?s" using assms by (rule closes_set_client) simp
  then show ?thesis
    by (auto simp: closes_def client_exit_def remove_client_def intro!: erase_first_keeps)
qed

lemma closes_loop_test [closing]: "closes r s \<Longrightarrow> closes r (loop_test c s)"
  by (simp add: loop_test_def closes_exit)

lemma closes_handle [closing]: "closes r s \<Longrightarrow> closes r (handle_frame P C c f s)"
  by (simp add: handle_frame_def handle_hello_def handle_heartbeat_def enqueue_cmd_def call_state_def s_now_def
      split_beta Let_def closing)

lemma closes_frame [closing]: "closes r s \<Longrightarrow> closes r (client_frame P C c s)"
  by (simp add: client_frame_def Let_def closing split: list.split)

lemma closes_recv [closing]: "closes r s \<Longrightarrow> closes r (client_recv P c n data s)"
  by (simp add: client_recv_def s_now_def split_beta Let_def closing)

lemma closes_worker [closing]: "closes r s \<Longrightarrow> closes r (worker_step P C t s)"
  by (auto simp: worker_step_def worker_take_def worker_poll_def Let_def intro!: closing
      split: list.split prod.split sum.split option.split)

lemma closes_fold [closing]:
  "closes r s \<Longrightarrow> closes r (fold (\<lambda>c s'. if p c s' then set_client c (\<lambda>cl. cl\<lparr>c_shut := True\<rparr>) s' else s') cs s)"
  by (induction cs arbitrary: s) (simp_all add: closes_set_client)

lemma closes_watchdog [closing]: "closes r s \<Longrightarrow> closes r (watchdog P s)"
  by (simp add: watchdog_def s_now_def split_beta Let_def closing)

lemma closes_ros [closing]:
  "closes r s \<Longrightarrow> closes r (ros_state P data s)" "closes r s \<Longrightarrow> closes r (ros_result P data s)"
  "closes r s \<Longrightarrow> closes r (delta_timer_cb P s)"
  by (auto simp: ros_state_def ros_result_def delta_timer_cb_def broadcast_state_delta_def complete_async_ack_def
      call_state_def s_now_def split_beta Let_def intro!: closing split: option.split)

text \<open>Every step but those of \<open>main\<close> and of the accept thread only closes.\<close>

lemma closes_step:
  "while_spinning e \<Longrightarrow> \<forall>fd. e \<noteq> Accept fd \<Longrightarrow> closes s (bridge_step P s e)"
  by (cases e) (simp_all add: bridge_step_def closing)

section \<open>The invariant of the descriptors\<close>

text \<open>While the server runs, every open descriptor belongs to a client of the vector, where \<open>stop\<close>
  will find it; once it has stopped, there is none.\<close>

definition open_inv :: "('b, 'w) server \<Rightarrow> bool" where
  "open_inv s \<longleftrightarrow> (\<forall>c < length (s_objs s). c_fd (client_of s c) \<ge> 0 \<longrightarrow> c \<in> set (s_clients s))"

definition closed_inv :: "('b, 'w) server \<Rightarrow> bool" where
  "closed_inv s \<longleftrightarrow> \<not> s_running s \<and> (\<forall>c < length (s_objs s). c_fd (client_of s c) < 0)"

lemma open_inv_closes: "open_inv s \<Longrightarrow> closes s s' \<Longrightarrow> open_inv s'"
  by (simp add: open_inv_def closes_def)

lemma closed_inv_closes: "closed_inv s \<Longrightarrow> closes s s' \<Longrightarrow> closed_inv s'"
  by (simp add: closed_inv_def closes_def) (metis not_le)

lemma open_inv_accept:
  assumes "open_inv s"
  shows "open_inv (accept_client P fd s)"
proof -
  let ?s = "s\<lparr>s_reads := Suc (s_reads s), s_objs := s_objs s @ [new_client fd (p_clock P (s_reads s))],
    s_clients := s_clients s @ [length (s_objs s)]\<rparr>"
  have "open_inv ?s" using assms by (auto simp: open_inv_def client_of_def nth_append)
  then have "open_inv (loop_test c ?s)" for c using open_inv_closes closes_loop_test closes_refl by blast
  then show ?thesis using assms by (simp add: accept_client_def s_now_def Let_def)
qed

lemma open_inv_step:
  assumes "open_inv s" and "while_spinning e"
  shows "open_inv (bridge_step P s e)"
proof (cases "\<exists>fd. e = Accept fd")
  case True
  then show ?thesis using assms by (auto simp: bridge_step_def open_inv_accept)
next
  case False
  then show ?thesis using assms closes_step open_inv_closes by blast
qed

lemma closed_inv_step: "closed_inv s \<Longrightarrow> server_thread e \<Longrightarrow> closed_inv (bridge_step P s e)"
  by (cases e) (auto simp: bridge_step_def closed_inv_def [of s] intro: closed_inv_closes [of s] intro!: closing)

text \<open>\<open>stop\<close> closes every client of the vector.\<close>

lemma stop_begin_fields:
  "c < length (s_objs s) \<Longrightarrow> c_fd (client_of (stop_begin s) c) = (if c \<in> set (s_clients s) then - 1 else c_fd (client_of s c))"
  "\<not> s_running (stop_begin s)" "s_listen_fd (stop_begin s) = - 1" "length (s_objs (stop_begin s)) = length (s_objs s)"
proof -
  let ?g = "\<lambda>c. set_client c (\<lambda>cl. cl\<lparr>c_fd := - 1, c_shut := c_shut cl \<or> c_fd cl \<ge> 0\<rparr>)"
  have fold: "\<not> s_running r \<Longrightarrow> \<not> s_running (fold ?g cs r) \<and> s_listen_fd (fold ?g cs r) = s_listen_fd r \<and>
      length (s_objs (fold ?g cs r)) = length (s_objs r) \<and> (\<forall>c < length (s_objs r).
        c_fd (client_of (fold ?g cs r) c) = (if c \<in> set cs then - 1 else c_fd (client_of r c)))"
    for cs and r :: "('a, 'b) server"
  proof (induction cs arbitrary: r)
    case (Cons a cs)
    have "s_listen_fd (?g a r) = s_listen_fd r" by (simp add: set_client_def)
    with Cons.IH [of "?g a r"] Cons.prems show ?case by auto
  qed simp
  let ?s = "s\<lparr>s_running := False, s_listen_fd := - 1\<rparr>"
  have "client_of ?s c = client_of s c" for c by (simp add: client_of_def)
  with fold [of ?s "s_clients s"]
  show "c < length (s_objs s) \<Longrightarrow> c_fd (client_of (stop_begin s) c) = (if c \<in> set (s_clients s) then - 1 else c_fd (client_of s c))"
    "\<not> s_running (stop_begin s)" "s_listen_fd (stop_begin s) = - 1" "length (s_objs (stop_begin s)) = length (s_objs s)"
    by (simp_all add: stop_begin_def)
qed

lemma stop_begin_closes_all: "open_inv s \<Longrightarrow> closed_inv (stop_begin s)"
  by (auto simp: open_inv_def closed_inv_def stop_begin_fields not_le)

section \<open>The shutdown\<close>

definition main_inv :: "(bridge, wait) server \<Rightarrow> bool" where
  "main_inv s \<longleftrightarrow> bridge_inv s \<and> open_inv s"

lemma steps_keep:
  "(\<And>s e. I s \<Longrightarrow> ok e \<Longrightarrow> I (bridge_step P s e)) \<Longrightarrow> I s \<Longrightarrow> list_all ok es \<Longrightarrow> I (steps_of P s es)"
  by (induction es arbitrary: s) (simp_all add: steps_of_def)

lemma main_inv_spin: "main_inv s \<Longrightarrow> main_inv (steps_of P s (filter while_spinning es))"
  by (rule steps_keep [where ok = while_spinning])
    (auto simp: main_inv_def bridge_inv_step open_inv_step list_all_iff)

lemma main_inv_start: "start_tcp N port b = (True, s) \<Longrightarrow> main_inv s"
proof -
  assume "start_tcp N port b = (True, s)"
  then have "s = snd (start_server (l_socket N) (l_bind N (word_of_int port)) (l_listen N) port (init_server\<lparr>s_host := b\<rparr>))"
    by (simp add: start_tcp_def)
  then have "s_objs s = []" "s_clients s = []" "s_queue s = []"
    by (simp_all add: start_server_def init_server_def)
  then show ?thesis by (simp add: main_inv_def bridge_inv_def open_inv_def)
qed

definition stopped_inv :: "(bridge, wait) server \<Rightarrow> bool" where
  "stopped_inv s \<longleftrightarrow> bridge_inv s \<and> closed_inv s"

lemma stopped_inv_begin: "main_inv s \<Longrightarrow> stopped_inv (stop_begin s)"
  by (simp add: main_inv_def stopped_inv_def bridge_inv_stop stop_begin_closes_all)

lemma stopped_inv_steps: "stopped_inv s \<Longrightarrow> stopped_inv (steps_of P s (filter server_thread es))"
  by (rule steps_keep [where ok = server_thread])
    (auto simp: stopped_inv_def bridge_inv_step closed_inv_step list_all_iff)

text \<open>Once all descriptors are closed, a turn of the command worker after the deadline of its wait ends the
  wait or drops a job, and publishes nothing.\<close>

lemma stopped_turn:
  assumes "stopped_inv s" and "\<forall>j w. s_waiting s = Some (j, w) \<longrightarrow> w_deadline w \<le> t"
  shows "s_waiting (bridge_step P s (Worker t)) = None"
    and "s_queue (bridge_step P s (Worker t)) = (if s_waiting s = None then tl (s_queue s) else s_queue s)"
    and "b_cmds (s_host (bridge_step P s (Worker t))) = b_cmds (s_host s)"
proof -
  have fd: "c_fd (client_of s (j_client j)) < 0" and "j_cmd j \<noteq> ''CMD_ESTOP''" if "j \<in> set (s_queue s)" for j
    using that assms(1) by (auto simp: stopped_inv_def closed_inv_def bridge_inv_def)
  then show "b_cmds (s_host (bridge_step P s (Worker t))) = b_cmds (s_host s)"
    using bridge_host.worker_publishes [of s P t] by (fastforce simp: bridge_step_def)
  have "s_waiting (bridge_step P s (Worker t)) = None \<and>
    s_queue (bridge_step P s (Worker t)) = (if s_waiting s = None then tl (s_queue s) else s_queue s)"
  proof (cases "s_waiting s")
    case None
    then show ?thesis
      using fd by (cases "s_queue s") (simp_all add: bridge_step_def worker_step_def worker_take_def Let_def)
  next
    case (Some jw)
    then obtain j w where jw: "s_waiting s = Some (j, w)" by (cases jw) simp
    from bridge_host.wait_ends [OF jw, of t P] assms(2) jw show ?thesis
      by (auto simp: bridge_step_def)
  qed
  then show "s_waiting (bridge_step P s (Worker t)) = None"
    and "s_queue (bridge_step P s (Worker t)) = (if s_waiting s = None then tl (s_queue s) else s_queue s)"
    by simp_all
qed

lemma stopped_worker_returns:
  assumes "stopped_inv s" and "\<forall>j w. s_waiting s = Some (j, w) \<longrightarrow> w_deadline w \<le> t"
    and "length (s_queue s) + (if s_waiting s = None then 0 else 1) \<le> n"
  shows "worker_returned (steps_of P s (replicate n (Worker t))) \<and>
    b_cmds (s_host (steps_of P s (replicate n (Worker t)))) = b_cmds (s_host s)"
  using assms
proof (induction n arbitrary: s)
  case 0
  then show ?case by (auto simp: steps_of_def worker_returned_def split: if_splits)
next
  case (Suc n)
  let ?s = "bridge_step P s (Worker t)"
  note turn = stopped_turn [OF Suc.prems(1,2), of P]
  have "stopped_inv ?s" using stopped_inv_steps [OF Suc.prems(1), of P "[Worker t]"] by (simp add: steps_of_def)
  moreover have "length (s_queue ?s) + (if s_waiting ?s = None then 0 else 1) \<le> n"
    using Suc.prems(3) turn by (auto split: if_splits)
  ultimately show ?case using Suc.IH [of ?s] turn by (simp add: steps_of_def)
qed

text \<open>C19: A stop of the bridge ends, and loses nothing but commands. When the server has started, ROS stops
  after any events, and the server's threads run in any way while \<open>stop\<close> waits for them, \<open>main\<close>
  returns 0 once the command worker has had one turn for each job still queued and one more, at or
  after the deadline of the wait it is in. Then no socket is open, the vector of clients and the queue
  are empty, and those turns have published no command.\<close>

theorem bridge_shutdown_ends:
  assumes "start_tcp N (fst (parse_args DEFAULT_PORT [exe] as)) init_bridge = (True, s)"
    and "s1 = steps_of P (stop_begin (steps_of P s (filter while_spinning es))) (filter server_thread es')"
    and "\<forall>j w. s_waiting s1 = Some (j, w) \<longrightarrow> w_deadline w \<le> t"
    and "length (s_queue s1) < n"
  shows "\<exists>r. bridge_main P N exe as es (es' @ replicate n (Worker t)) = Some r \<and> ex_code r = 0 \<and>
    \<not> s_running (ex_server r) \<and> s_listen_fd (ex_server r) < 0 \<and> (\<forall>cl \<in> set (s_objs (ex_server r)). c_fd cl < 0) \<and>
    s_clients (ex_server r) = [] \<and> s_queue (ex_server r) = [] \<and> s_waiting (ex_server r) = None \<and>
    b_cmds (s_host (ex_server r)) = b_cmds (s_host s1)"
proof -
  have i: "stopped_inv s1" unfolding assms(2)
    by (intro stopped_inv_steps stopped_inv_begin main_inv_spin main_inv_start [OF assms(1)])
  define s2 where "s2 = steps_of P s1 (replicate n (Worker t))"
  have s2: "steps_of P (stop_begin (steps_of P s (filter while_spinning es)))
      (filter server_thread (es' @ replicate n (Worker t))) = s2"
    by (simp add: s2_def assms(2) steps_of_def filter_replicate)
  have w: "worker_returned s2" "b_cmds (s_host s2) = b_cmds (s_host s1)"
    using stopped_worker_returns [OF i assms(3), of n P] assms(4) by (simp_all add: s2_def)
  have "filter server_thread (replicate n (Worker t)) = replicate n (Worker t)" by (simp add: filter_replicate)
  then have i2: "stopped_inv s2" using stopped_inv_steps [OF i, of P "replicate n (Worker t)"] by (simp add: s2_def)
  define s3 where "s3 = stop_end (stop_begin (stop_end s2))"
  have "stop_begin (stop_end s2) = s2\<lparr>s_running := False, s_listen_fd := - 1, s_clients := []\<rparr>"
    by (simp add: stop_begin_def stop_end_def)
  then have s3: "s3 = s2\<lparr>s_running := False, s_listen_fd := - 1, s_clients := []\<rparr>" by (simp add: s3_def stop_end_def)
  have "bridge_main P N exe as es (es' @ replicate n (Worker t)) =
      Some \<lparr>ex_code = 0, ex_ros_argv = snd (parse_args DEFAULT_PORT [exe] as), ex_server = s3\<rparr>"
    using assms(1) w(1) s2 by (simp add: bridge_main_def stop_tcp_def s3_def split_beta Let_def)
  then show ?thesis using w i2
    by (auto simp: s3 worker_returned_def stopped_inv_def closed_inv_def client_of_def all_set_conv_all_nth)
qed

lemma atoi_dec_nat: "n < 2 ^ 31 \<Longrightarrow> atoi (dec_nat n) = int n"
proof -
  assume n: "n < 2 ^ 31"
  obtain d ds where dn: "dec_nat n = d # ds" using dec_nat_digits [of n] by (cases "dec_nat n") auto
  have all: "is_digit d" "list_all is_digit (d # ds)" "digits_val 10 0 (d # ds) = n"
    using dec_nat_digits [of n] by (simp_all add: dn)
  have "take_sign (dropWhile is_space (d # ds)) = (False, d # ds)"
    using is_digit_facts [OF all(1)] by (simp add: take_sign_def)
  moreover have "takeWhile is_digit (d # ds) = d # ds" using all(2) by (simp add: takeWhile_eq_all_conv list_all_iff)
  ultimately have "strtoll (dec_nat n) = Some (int n)"
    using n all(3) by (simp add: strtoll_def dn Let_def clamp_ll_def)
  moreover have "signed_take_bit 31 (int n) = int n" using n by (intro signed_take_bit_int_eq_self) simp_all
  ultimately show ?thesis by (simp add: atoi_def signed_of_nat)
qed

text \<open>The port option is not checked. A parameter for the node, given with ROS's own option \<open>-p\<close>, is
  taken for the port: it does not reach ROS, and when it starts with neither a digit, a sign nor a space, the
  server asks the kernel for port 0, that is for any free port. A number of 65536 or more is reduced to 16 bits
  without an error.\<close>

lemma port_option_unchecked:
  assumes "\<not> is_space a" and "\<not> is_digit a" and "a \<noteq> CHR ''+''" and "a \<noteq> CHR ''-''" and "p < 2 ^ 16"
  shows "parse_args DEFAULT_PORT [exe] [''--ros-args'', ''-p'', a # param] = (0, [exe, ''--ros-args'']) \<and>
    fst (start_tcp N (fst (parse_args DEFAULT_PORT [exe] [''--port'', dec_nat (2 ^ 16 + p)])) b) =
      fst (start_tcp N (fst (parse_args DEFAULT_PORT [exe] [''--port'', dec_nat p])) b)"
proof -
  have "strtoll (a # param) = None" using assms by (simp add: strtoll_def take_sign_def)
  then have "atoi (a # param) = 0" by (simp add: atoi_def)
  moreover have "atoi (dec_nat (2 ^ 16 + p)) = int (2 ^ 16 + p)" "atoi (dec_nat p) = int p"
    using assms(5) by (intro atoi_dec_nat; simp)+
  moreover have "word_of_int (int (2 ^ 16 + p)) = (word_of_int (int p) :: u16)"
    by (simp add: word_of_int_eq_iff take_bit_eq_mod)
  ultimately show ?thesis by (simp add: start_tcp_def start_server_def del: of_nat_add)
qed

section \<open>Witnesses\<close>

definition any_port :: listen_api where
  "any_port = \<lparr>l_socket = 3, l_bind = (\<lambda>_. True), l_listen = True\<rparr>"

text \<open>A console connects, and the process is stopped.\<close>

theorem bridge_shutdown_ends_witness:
  "\<exists>r. bridge_main demo_platform any_port ''bridge'' [''--port'', ''9000''] [Accept 5] ([] @ replicate 1 (Worker 0)) = Some r \<and>
     ex_code r = 0 \<and> s_clients (ex_server r) = []"
proof -
  define s where "s = snd (start_tcp any_port (fst (parse_args DEFAULT_PORT [''bridge''] [''--port'', ''9000''])) init_bridge)"
  have s: "start_tcp any_port (fst (parse_args DEFAULT_PORT [''bridge''] [''--port'', ''9000''])) init_bridge = (True, s)"
    by (simp add: s_def start_tcp_def start_server_def any_port_def init_server_def)
  define s1 where "s1 = steps_of demo_platform (stop_begin (steps_of demo_platform s (filter while_spinning [Accept 5])))
    (filter server_thread [])"
  have "s_queue s1 = []" "s_waiting s1 = None"
    by (simp_all add: s1_def steps_of_def bridge_step_def s_def start_tcp_def start_server_def any_port_def init_server_def)
  then show ?thesis using bridge_shutdown_ends [OF s s1_def, of 0 1] by auto
qed

lemma port_option_unchecked_witness:
  "parse_args DEFAULT_PORT [''bridge''] [''--ros-args'', ''-p'', ''use_sim_time:=true''] = (0, [''bridge'', ''--ros-args''])"
  using port_option_unchecked [of "CHR ''u''" 0 "''bridge''" "''se_sim_time:=true''" any_port init_bridge]
  by (simp add: is_space_def is_digit_def)

end
