(* ===== verification/Qt_Interface.thy ===== *)
theory Qt_Interface
  imports Ieee_Float Prelude
begin

text \<open>
  What the operator console (\<open>ui/botcockpit/src\<close>) takes from Qt, as one record of parameters:
  the conversions of \<open>QVariant\<close> and of JSON values, the comparison of variants and of text, the
  formatting of text, JSON parsing and printing, and the clock. Nothing is assumed of them but
  where a theorem says so (\<open>qt_laws\<close>). A \<open>QString\<close> is the list of its UTF-8 bytes, a
  \<open>QVariantMap\<close> and a \<open>QJsonObject\<close> are partial maps from keys to values.
\<close>

type_synonym 'a dict = "string \<Rightarrow> 'a option"

record ('j, 'v) qt =
  to_bool :: "'v \<Rightarrow> bool"
  to_str :: "'v \<Rightarrow> string"
  to_double :: "'v \<Rightarrow> double"
  to_int :: "'v \<Rightarrow> int"
  to_longlong :: "'v \<Rightarrow> int"
  to_map :: "'v \<Rightarrow> 'v dict"
  to_list :: "'v \<Rightarrow> 'v list"
  can_map :: "'v \<Rightarrow> bool"
  can_list :: "'v \<Rightarrow> bool"
  is_valid :: "'v \<Rightarrow> bool"
  is_null :: "'v \<Rightarrow> bool"
  invalid :: 'v
  of_bool' :: "bool \<Rightarrow> 'v"
  of_str :: "string \<Rightarrow> 'v"
  of_double :: "double \<Rightarrow> 'v"
  of_ushort :: "u16 \<Rightarrow> 'v"
  of_longlong :: "int \<Rightarrow> 'v"
  list_eq :: "'v list \<Rightarrow> 'v list \<Rightarrow> bool"
  reals_eq :: "double list \<Rightarrow> double list \<Rightarrow> bool"
  fuzzy_compare :: "double \<Rightarrow> double \<Rightarrow> bool"
  str_less :: "string \<Rightarrow> string \<Rightarrow> bool"
  trimmed :: "string \<Rightarrow> string"
  tr :: "string \<Rightarrow> string"
  arg :: "string \<Rightarrow> string \<Rightarrow> string"
  arg_int :: "string \<Rightarrow> int \<Rightarrow> string"
  arg_double :: "string \<Rightarrow> double \<Rightarrow> string"
  args :: "string \<Rightarrow> string list \<Rightarrow> string"
  time_stamp :: "nat \<Rightarrow> string"
  msecs :: "nat \<Rightarrow> int"
  j_object :: "string \<Rightarrow> 'j dict"
  j_compact :: "'j dict \<Rightarrow> string"
  j_bool :: "'j \<Rightarrow> bool"
  j_string :: "'j \<Rightarrow> string"
  j_array :: "'j \<Rightarrow> 'j list"
  j_variant :: "'j \<Rightarrow> 'v"
  j_undefined :: 'j
  j_of_string :: "string \<Rightarrow> 'j"
  j_of_bool :: "bool \<Rightarrow> 'j"
  j_of_double :: "double \<Rightarrow> 'j"
  j_of_longlong :: "int \<Rightarrow> 'j"

text \<open>\<open>QVariantMap::value\<close>, without and with a default, and \<open>QJsonObject::value\<close>.\<close>

definition val :: "('j, 'v) qt \<Rightarrow> 'v dict \<Rightarrow> string \<Rightarrow> 'v" where
  "val Q m k = (case m k of None \<Rightarrow> invalid Q | Some v \<Rightarrow> v)"

definition val_or :: "'v dict \<Rightarrow> string \<Rightarrow> 'v \<Rightarrow> 'v" where
  "val_or m k d = (case m k of None \<Rightarrow> d | Some v \<Rightarrow> v)"

definition jval :: "('j, 'v) qt \<Rightarrow> 'j dict \<Rightarrow> string \<Rightarrow> 'j" where
  "jval Q ob k = (case ob k of None \<Rightarrow> j_undefined Q | Some v \<Rightarrow> v)"

definition has :: "'a dict \<Rightarrow> string \<Rightarrow> bool" where
  "has m k \<longleftrightarrow> m k \<noteq> None"

text \<open>
  The documented behaviour that theorems name: a variant built from a value converts back to
  it, \<open>operator<\<close> of \<open>QString\<close> is a strict linear order.
\<close>

definition qt_laws :: "('j, 'v) qt \<Rightarrow> bool" where
  "qt_laws Q \<longleftrightarrow> (\<forall>b. to_bool Q (of_bool' Q b) = b) \<and> (\<forall>x. to_str Q (of_str Q x) = x) \<and>
     (\<forall>d. to_double Q (of_double Q d) = d) \<and>
     (\<forall>x. \<not> str_less Q x x) \<and> (\<forall>x y z. str_less Q x y \<and> str_less Q y z \<longrightarrow> str_less Q x z) \<and>
     (\<forall>x y. str_less Q x y \<or> x = y \<or> str_less Q y x)"

section \<open>An instance\<close>

text \<open>
  A small instance, to apply the theorems to: variants and JSON values are the same tree, a
  conversion that does not fit gives the default value, text is compared by its bytes.
\<close>

datatype tree = Undef | Bool bool | Real double | Num int | Text string | Items "tree list"
  | Fields "(string \<times> tree) list"

fun text_less :: "string \<Rightarrow> string \<Rightarrow> bool" where
  "text_less _ [] = False"
| "text_less [] (_ # _) = True"
| "text_less (a # as) (b # bs) \<longleftrightarrow>
     (of_char a :: nat) < of_char b \<or> (of_char a :: nat) = of_char b \<and> text_less as bs"

definition tree_qt :: "(tree, tree) qt" where
  "tree_qt = \<lparr>to_bool = (\<lambda>v. case v of Bool b \<Rightarrow> b | _ \<Rightarrow> False),
     to_str = (\<lambda>v. case v of Text s \<Rightarrow> s | _ \<Rightarrow> []),
     to_double = (\<lambda>v. case v of Real d \<Rightarrow> d | Num i \<Rightarrow> fp_of_int binary64 i | _ \<Rightarrow> Fp False 0),
     to_int = (\<lambda>v. case v of Num i \<Rightarrow> i | _ \<Rightarrow> 0), to_longlong = (\<lambda>v. case v of Num i \<Rightarrow> i | _ \<Rightarrow> 0),
     to_map = (\<lambda>v. case v of Fields fs \<Rightarrow> map_of fs | _ \<Rightarrow> Map.empty),
     to_list = (\<lambda>v. case v of Items vs \<Rightarrow> vs | _ \<Rightarrow> []),
     can_map = (\<lambda>v. case v of Fields _ \<Rightarrow> True | _ \<Rightarrow> False),
     can_list = (\<lambda>v. case v of Items _ \<Rightarrow> True | _ \<Rightarrow> False),
     is_valid = (\<lambda>v. v \<noteq> Undef), is_null = (\<lambda>v. v = Undef), invalid = Undef, of_bool' = Bool,
     of_str = Text, of_double = Real, of_ushort = (\<lambda>w. Num (uint w)), of_longlong = Num, list_eq = (=), reals_eq = (=),
     fuzzy_compare = (=), str_less = text_less, trimmed = (\<lambda>s. s), tr = (\<lambda>s. s), arg = (@),
     arg_int = (\<lambda>s _. s), arg_double = (\<lambda>s _. s), args = (\<lambda>s xs. s @ concat xs),
     time_stamp = (\<lambda>_. []), msecs = (\<lambda>_. 1000), j_object = (\<lambda>s. if s = ''{}'' then Map.empty else [''ok'' \<mapsto> Bool True]),
     j_compact = (\<lambda>_. ''{}''), j_bool = (\<lambda>v. case v of Bool b \<Rightarrow> b | _ \<Rightarrow> False),
     j_string = (\<lambda>v. case v of Text s \<Rightarrow> s | _ \<Rightarrow> []), j_array = (\<lambda>v. case v of Items vs \<Rightarrow> vs | _ \<Rightarrow> []),
     j_variant = (\<lambda>v. v), j_undefined = Undef, j_of_string = Text, j_of_bool = Bool, j_of_double = Real,
     j_of_longlong = Num\<rparr>"

lemma text_less_order:
  "\<not> text_less x x" "text_less x y \<Longrightarrow> text_less y z \<Longrightarrow> text_less x z"
  "text_less x y \<or> x = y \<or> text_less y x"
proof -
  show "\<not> text_less x x" by (induction x) auto
  show "text_less x y \<Longrightarrow> text_less y z \<Longrightarrow> text_less x z"
  proof (induction x y arbitrary: z rule: text_less.induct)
    case (3 a as b bs)
    then show ?case by (cases z) auto
  qed (auto elim: text_less.elims)
  show "text_less x y \<or> x = y \<or> text_less y x"
    by (induction x y rule: text_less.induct) (auto simp: neq_Nil_conv, metis neq_Nil_conv text_less.simps(2))
qed

lemma tree_qt_laws: "qt_laws tree_qt"
  using text_less_order by (auto simp: qt_laws_def tree_qt_def)

end
