(* ===== verification/Console_State.thy ===== *)
theory Console_State
  imports Qt_Interface
begin

text \<open>
  \<open>RobotState\<close> (\<open>ui/botcockpit/src/robotstate.hpp\<close>, \<open>robotstate.cpp\<close>): the object whose
  properties the console shows. Every member variable is a field of \<open>view\<close>, every \<open>emit\<close>
  appends to \<open>v_signals\<close>, in order. \<open>notified\<close> says which properties a signal speaks for, as the
  \<open>Q_PROPERTY\<close> declarations do; the contract \<open>tells\<close> is that no property changes without its
  signal.
\<close>

section \<open>State\<close>

datatype view_signal = ConnectedChanged | ConnectingChanged | ErrorStringChanged | HostChanged
  | PortChanged | HeartbeatRttMsChanged | ProtoChanged | ServerChanged | ConnChanged | ModeChanged
  | PhaseChanged | EstopChanged | ControlEnabledChanged | PoseChanged | BatteryChanged
  | HasRobotStateChanged | StateTsMsChanged | TaskChanged | FaultsChanged | LastCmdAckChanged
  | FaultsListChanged | NavStatusChanged | NavTrailChanged | TrackErrChanged | LogLinesChanged
  | AutoReconnectChanged | ReconnectAttemptsChanged

record 'v view =
  v_connected :: bool
  v_connecting :: bool
  v_error_string :: string
  v_host :: string
  v_port :: int
  v_rtt_ms :: int
  v_proto :: string
  v_server :: string
  v_conn :: string
  v_mode :: string
  v_phase :: string
  v_estop :: bool
  v_control_enabled :: bool
  v_pose_x :: double
  v_pose_y :: double
  v_pose_yaw :: double
  v_battery :: double
  v_has_robot_state :: bool
  v_state_ts_ms :: int
  v_task_id :: string
  v_task_type :: string
  v_task_status :: string
  v_faults_summary :: string
  v_fault_count :: int
  v_nav_status :: string
  v_nav_path_len :: int
  v_nav_idx :: int
  v_nav_path :: "double list list"
  v_nav_trail :: "double list list"
  v_nav_path_flat :: "double list"
  v_nav_trail_flat :: "double list"
  v_nav_goal_x :: double
  v_nav_goal_y :: double
  v_track_err :: double
  v_last_cmd_ack_text :: string
  v_last_cmd_ok :: bool
  v_faults_list :: "'v list"
  v_log_lines :: "string list"
  v_auto_reconnect :: bool
  v_reconnect_attempts :: int
  v_stamps :: nat
  v_signals :: "view_signal list"

definition zero :: double where "zero = Fp False 0"

definition init_view :: "'v view" where
  "init_view = \<lparr>v_connected = False, v_connecting = False, v_error_string = [], v_host = ''127.0.0.1'',
     v_port = 8765, v_rtt_ms = 0, v_proto = [], v_server = [], v_conn = ''OFFLINE'', v_mode = ''TELEOP'',
     v_phase = ''BOOT'', v_estop = False, v_control_enabled = False, v_pose_x = zero, v_pose_y = zero,
     v_pose_yaw = zero, v_battery = zero, v_has_robot_state = False, v_state_ts_ms = 0, v_task_id = [],
     v_task_type = [], v_task_status = ''NONE'', v_faults_summary = [], v_fault_count = 0,
     v_nav_status = ''IDLE'', v_nav_path_len = 0, v_nav_idx = 0, v_nav_path = [], v_nav_trail = [],
     v_nav_path_flat = [], v_nav_trail_flat = [], v_nav_goal_x = zero, v_nav_goal_y = zero,
     v_track_err = zero, v_last_cmd_ack_text = [], v_last_cmd_ok = False, v_faults_list = [],
     v_log_lines = [], v_auto_reconnect = True, v_reconnect_attempts = 0, v_stamps = 0, v_signals = []\<rparr>"

definition emit :: "view_signal \<Rightarrow> 'v view \<Rightarrow> 'v view" where
  "emit sg s = s\<lparr>v_signals := v_signals s @ [sg]\<rparr>"

section \<open>Setters\<close>

definition set_auto_reconnect :: "bool \<Rightarrow> 'v view \<Rightarrow> 'v view" where
  "set_auto_reconnect b s =
     (if v_auto_reconnect s = b then s else emit AutoReconnectChanged (s\<lparr>v_auto_reconnect := b\<rparr>))"

definition set_reconnect_attempts :: "int \<Rightarrow> 'v view \<Rightarrow> 'v view" where
  "set_reconnect_attempts n s =
     (if v_reconnect_attempts s = n then s
      else emit ReconnectAttemptsChanged (s\<lparr>v_reconnect_attempts := n\<rparr>))"

text \<open>\<open>while (log_lines_.size() > 80) log_lines_.removeLast();\<close>\<close>

function trim_log :: "string list \<Rightarrow> string list" where
  "trim_log ls = (if length ls > 80 then trim_log (butlast ls) else ls)"
  by pat_completeness auto
termination by (relation "measure length") auto

declare trim_log.simps [simp del]

definition append_log :: "('j, 'v) qt \<Rightarrow> string \<Rightarrow> 'v view \<Rightarrow> 'v view" where
  "append_log Q line s =
     (let stamped = time_stamp Q (v_stamps s) @ ''  '' @ line
      in emit LogLinesChanged
           (s\<lparr>v_stamps := Suc (v_stamps s), v_log_lines := trim_log (stamped # v_log_lines s)\<rparr>))"

definition set_last_cmd_ack :: "('j, 'v) qt \<Rightarrow> 'v dict \<Rightarrow> 'v view \<Rightarrow> 'v view" where
  "set_last_cmd_ack Q ack s =
     (let ok = to_bool Q (val Q ack ''ok'');
          cmd = to_str Q (val Q ack ''cmd'');
          status = to_str Q (val Q ack ''status'');
          reason = to_str Q (val Q ack ''reason'');
          t1 = (if cmd \<noteq> [] then cmd @ '' '' else cmd);
          t2 = t1 @ (if ok then ''OK'' else ''REJECTED'');
          t3 = (if status \<noteq> [] then t2 @ '' | '' @ status else t2);
          t4 = (if reason \<noteq> [] \<and> reason \<noteq> ''null'' then t3 @ '' | '' @ reason else t3);
          sq = val Q ack ''seq'';
          t5 = (if is_valid Q sq \<and> \<not> is_null Q sq then t4 @ '' | seq='' @ to_str Q sq else t4)
      in emit LastCmdAckChanged (s\<lparr>v_last_cmd_ok := ok, v_last_cmd_ack_text := t5\<rparr>))"

definition set_connecting :: "bool \<Rightarrow> 'v view \<Rightarrow> 'v view" where
  "set_connecting b s =
     (if v_connecting s = b then s else emit ConnectingChanged (s\<lparr>v_connecting := b\<rparr>))"

definition set_connected :: "bool \<Rightarrow> 'v view \<Rightarrow> 'v view" where
  "set_connected b s =
     (if v_connected s = b then s else emit ConnectedChanged (s\<lparr>v_connected := b\<rparr>))"

definition set_error_string :: "string \<Rightarrow> 'v view \<Rightarrow> 'v view" where
  "set_error_string e s =
     (if v_error_string s = e then s else emit ErrorStringChanged (s\<lparr>v_error_string := e\<rparr>))"

definition set_endpoint :: "string \<Rightarrow> int \<Rightarrow> 'v view \<Rightarrow> 'v view" where
  "set_endpoint host port s =
     (let s1 = (if v_host s \<noteq> host then emit HostChanged (s\<lparr>v_host := host\<rparr>) else s)
      in if v_port s1 \<noteq> port then emit PortChanged (s1\<lparr>v_port := port\<rparr>) else s1)"

definition set_heartbeat_rtt :: "int \<Rightarrow> 'v view \<Rightarrow> 'v view" where
  "set_heartbeat_rtt ms s =
     (if v_rtt_ms s = ms then s else emit HeartbeatRttMsChanged (s\<lparr>v_rtt_ms := ms\<rparr>))"

definition set_hello_info :: "string \<Rightarrow> string \<Rightarrow> 'v view \<Rightarrow> 'v view" where
  "set_hello_info proto server s =
     (let s1 = (if v_proto s \<noteq> proto then emit ProtoChanged (s\<lparr>v_proto := proto\<rparr>) else s)
      in if v_server s1 \<noteq> server then emit ServerChanged (s1\<lparr>v_server := server\<rparr>) else s1)"

definition reset_remote :: "'v view \<Rightarrow> 'v view" where
  "reset_remote s =
     (let s1 = s\<lparr>v_conn := ''OFFLINE'', v_mode := ''TELEOP'', v_phase := ''BOOT'', v_estop := False,
            v_control_enabled := False, v_pose_x := zero, v_pose_y := zero, v_pose_yaw := zero,
            v_battery := zero, v_has_robot_state := False, v_state_ts_ms := 0, v_task_id := [],
            v_task_type := [], v_task_status := ''NONE'', v_faults_summary := [], v_fault_count := 0,
            v_nav_path := [], v_nav_trail := [], v_nav_path_flat := [], v_nav_trail_flat := [],
            v_nav_idx := 0, v_nav_path_len := 0, v_rtt_ms := 0\<rparr>
      in fold emit [NavStatusChanged, NavTrailChanged, ConnChanged, ModeChanged, PhaseChanged,
           EstopChanged, ControlEnabledChanged, PoseChanged, BatteryChanged, HasRobotStateChanged,
           StateTsMsChanged, TaskChanged, FaultsChanged, HeartbeatRttMsChanged] s1)"

section \<open>applyState, in the order of the source\<close>

definition apply_conn :: "('j, 'v) qt \<Rightarrow> 'v dict \<Rightarrow> 'v view \<Rightarrow> 'v view" where
  "apply_conn Q m s =
     (if has m ''conn''
      then let v = to_str Q (val Q m ''conn'')
           in if v_conn s \<noteq> v then emit ConnChanged (s\<lparr>v_conn := v\<rparr>) else s
      else s)"

definition apply_mode :: "('j, 'v) qt \<Rightarrow> 'v dict \<Rightarrow> 'v view \<Rightarrow> 'v view" where
  "apply_mode Q m s =
     (if has m ''mode''
      then let v = to_str Q (val Q m ''mode'')
           in if v_mode s \<noteq> v then emit ModeChanged (s\<lparr>v_mode := v\<rparr>) else s
      else s)"

definition apply_phase :: "('j, 'v) qt \<Rightarrow> 'v dict \<Rightarrow> 'v view \<Rightarrow> 'v view" where
  "apply_phase Q m s =
     (if has m ''phase''
      then let v = to_str Q (val Q m ''phase'')
           in if v_phase s \<noteq> v then emit PhaseChanged (s\<lparr>v_phase := v\<rparr>) else s
      else s)"

definition apply_estop :: "('j, 'v) qt \<Rightarrow> 'v dict \<Rightarrow> 'v view \<Rightarrow> 'v view" where
  "apply_estop Q m s =
     (if has m ''estop''
      then let v = to_bool Q (val Q m ''estop'')
           in if v_estop s \<noteq> v then emit EstopChanged (s\<lparr>v_estop := v\<rparr>) else s
      else s)"

definition apply_control :: "('j, 'v) qt \<Rightarrow> 'v dict \<Rightarrow> 'v view \<Rightarrow> 'v view" where
  "apply_control Q m s =
     (if has m ''control_enabled''
      then let v = to_bool Q (val Q m ''control_enabled'')
           in if v_control_enabled s \<noteq> v then emit ControlEnabledChanged (s\<lparr>v_control_enabled := v\<rparr>) else s
      else s)"

definition apply_pose :: "('j, 'v) qt \<Rightarrow> 'v dict \<Rightarrow> 'v view \<Rightarrow> 'v view" where
  "apply_pose Q m s =
     (let pose = val Q m ''pose'' in
      if can_map Q pose
      then let pm = to_map Q pose;
               x = to_double Q (val_or pm ''x'' (of_double Q (v_pose_x s)));
               y = to_double Q (val_or pm ''y'' (of_double Q (v_pose_y s)));
               yaw = to_double Q (val_or pm ''yaw'' (of_double Q (v_pose_yaw s)))
           in if \<not> fp_eq binary64 x (v_pose_x s) \<or> \<not> fp_eq binary64 y (v_pose_y s) \<or>
                 \<not> fp_eq binary64 yaw (v_pose_yaw s)
              then emit PoseChanged (s\<lparr>v_pose_x := x, v_pose_y := y, v_pose_yaw := yaw\<rparr>)
              else s
      else s)"

definition apply_battery :: "('j, 'v) qt \<Rightarrow> 'v dict \<Rightarrow> 'v view \<Rightarrow> 'v view" where
  "apply_battery Q m s =
     (if has m ''battery''
      then let v = to_double Q (val Q m ''battery''); one = fp_lit binary64 1 1
           in if \<not> fuzzy_compare Q (fp_add binary64 (v_battery s) one) (fp_add binary64 v one)
              then emit BatteryChanged (s\<lparr>v_battery := v\<rparr>) else s
      else s)"

definition robot_speaks :: "('j, 'v) qt \<Rightarrow> 'v dict \<Rightarrow> bool" where
  "robot_speaks Q m =
     (let r0 = (has m ''battery'' \<or> has m ''nodes'' \<or> has m ''pose'');
          r1 = (if has m ''conn''
                then if to_str Q (val Q m ''conn'') = ''OFFLINE'' \<and> \<not> to_bool Q (val Q m ''control_enabled'')
                     then False else r0
                else r0)
      in if has m ''phase''
         then if to_str Q (val Q m ''phase'') = ''BOOT'' \<and> r1 \<and> \<not> to_bool Q (val Q m ''control_enabled'')
              then False else r1
         else r1)"

definition apply_robot_flag :: "('j, 'v) qt \<Rightarrow> 'v dict \<Rightarrow> 'v view \<Rightarrow> 'v view" where
  "apply_robot_flag Q m s =
     (if robot_speaks Q m \<noteq> v_has_robot_state s
      then emit HasRobotStateChanged (s\<lparr>v_has_robot_state := robot_speaks Q m\<rparr>) else s)"

definition apply_ts :: "('j, 'v) qt \<Rightarrow> 'v dict \<Rightarrow> 'v view \<Rightarrow> 'v view" where
  "apply_ts Q m s =
     (if has m ''ts_ms''
      then let ts = to_longlong Q (val Q m ''ts_ms'')
           in if ts \<noteq> v_state_ts_ms s then emit StateTsMsChanged (s\<lparr>v_state_ts_ms := ts\<rparr>) else s
      else s)"

definition apply_task :: "('j, 'v) qt \<Rightarrow> 'v dict \<Rightarrow> 'v view \<Rightarrow> 'v view" where
  "apply_task Q m s =
     (let task = val Q m ''task'' in
      if can_map Q task
      then let tm = to_map Q task;
               id = (if has tm ''id'' then to_str Q (val Q tm ''id'') else v_task_id s);
               ty = (if has tm ''type'' then to_str Q (val Q tm ''type'') else v_task_type s);
               st = to_str Q (val_or tm ''status'' (of_str Q (v_task_status s)))
           in if id \<noteq> v_task_id s \<or> ty \<noteq> v_task_type s \<or> st \<noteq> v_task_status s
              then emit TaskChanged (s\<lparr>v_task_id := id, v_task_type := ty, v_task_status := st\<rparr>)
              else s
      else s)"

fun join :: "string \<Rightarrow> string list \<Rightarrow> string" where
  "join _ [] = []"
| "join _ [p] = p"
| "join sep (p # q # ps) = p @ sep @ join sep (q # ps)"

definition apply_faults :: "('j, 'v) qt \<Rightarrow> 'v dict \<Rightarrow> 'v view \<Rightarrow> 'v view" where
  "apply_faults Q m s =
     (let faults = val Q m ''faults'' in
      if can_list Q faults
      then let fl = to_list Q faults;
               parts = map (\<lambda>item. to_str Q (val Q (to_map Q item) ''code'')) fl;
               s1 = s\<lparr>v_fault_count := int (length fl), v_faults_summary := join '', '' parts\<rparr>;
               s2 = (if \<not> list_eq Q fl (v_faults_list s1)
                     then emit FaultsListChanged (s1\<lparr>v_faults_list := fl\<rparr>) else s1)
           in emit FaultsChanged s2
      else s)"

text \<open>The lambda \<open>parseXYList\<close>: its first loop, its second loop, both.\<close>

fun flat_points :: "('j, 'v) qt \<Rightarrow> 'v list \<Rightarrow> (double \<times> double) list" where
  "flat_points Q (a # b # rest) =
     (let x = to_double Q a; y = to_double Q b
      in if \<not> is_fin binary64 x \<or> \<not> is_fin binary64 y then flat_points Q rest
         else (x, y) # flat_points Q rest)"
| "flat_points Q _ = []"

definition nested_point :: "('j, 'v) qt \<Rightarrow> 'v \<Rightarrow> double \<times> double" where
  "nested_point Q item =
     (let xy = to_list Q item
      in if length xy \<ge> 2 then (to_double Q (xy ! 0), to_double Q (xy ! 1))
         else let pm = to_map Q item
              in if has pm ''x'' \<and> has pm ''y''
                 then (to_double Q (val Q pm ''x''), to_double Q (val Q pm ''y''))
                 else (fp_nan binary64, fp_nan binary64))"

fun nested_points :: "('j, 'v) qt \<Rightarrow> 'v list \<Rightarrow> (double \<times> double) list" where
  "nested_points Q [] = []"
| "nested_points Q (item # items) =
     (case nested_point Q item of (x, y) \<Rightarrow>
        if \<not> is_fin binary64 x \<or> \<not> is_fin binary64 y then nested_points Q items
        else (x, y) # nested_points Q items)"

definition parse_xy :: "('j, 'v) qt \<Rightarrow> 'v \<Rightarrow> 'v \<Rightarrow> double list list \<times> double list" where
  "parse_xy Q flat_seq nested_seq =
     (let fl = to_list Q flat_seq;
          ps = (if length fl \<ge> 2 then flat_points Q fl else []);
          qs = (if ps \<noteq> [] then ps else nested_points Q (to_list Q nested_seq))
      in (map (\<lambda>(x, y). [x, y]) qs, concat (map (\<lambda>(x, y). [x, y]) qs)))"

text \<open>The assignments at the end of \<open>applyState\<close>, once the message is read.\<close>

definition show_nav :: "bool \<Rightarrow> bool \<Rightarrow> string \<Rightarrow> int \<Rightarrow> int \<Rightarrow> double list list \<Rightarrow> double list \<Rightarrow>
    double \<Rightarrow> double \<Rightarrow> double \<Rightarrow> double list list \<Rightarrow> double list \<Rightarrow> 'v view \<Rightarrow> 'v view" where
  "show_nav changed trail_dirty st plen idx pts path_flat gx gy te trail trail_flat s =
     (let s1 = s\<lparr>v_nav_status := (if st = [] then ''IDLE'' else st), v_nav_path_len := plen,
            v_nav_idx := idx, v_nav_path := pts, v_nav_path_flat := path_flat,
            v_nav_goal_x := gx, v_nav_goal_y := gy\<rparr>;
          s2 = (if \<not> fp_eq binary64 te (v_track_err s1)
                then emit TrackErrChanged (s1\<lparr>v_track_err := te\<rparr>) else s1);
          s3 = (if trail_dirty
                then emit NavTrailChanged (s2\<lparr>v_nav_trail := trail, v_nav_trail_flat := trail_flat\<rparr>)
                else s2)
      in if changed then emit NavStatusChanged s3 else s3)"

definition apply_nav :: "('j, 'v) qt \<Rightarrow> 'v dict \<Rightarrow> 'v view \<Rightarrow> 'v view" where
  "apply_nav Q m s =
     (let nav = val Q m ''nav'' in
      if can_map Q nav
      then let nm = to_map Q nav;
               st = to_str Q (val Q nm ''status'');
               plen = to_int Q (val Q nm ''path_len'');
               goal = to_map Q (val Q nm ''goal'');
               gx = to_double Q (val Q goal ''x'');
               gy = to_double Q (val Q goal ''y'');
               te = to_double Q (val Q nm ''track_err'');
               idx = to_int Q (val Q nm ''idx'');
               (pts, path_flat) = parse_xy Q (val Q nm ''path_flat'') (val Q nm ''path'');
               (trail, trail_flat) = parse_xy Q (val Q nm ''trail_flat'') (val Q nm ''trail'');
               changed = (st \<noteq> v_nav_status s \<or> plen \<noteq> v_nav_path_len s \<or> idx \<noteq> v_nav_idx s \<or>
                 \<not> fp_eq binary64 gx (v_nav_goal_x s) \<or> \<not> fp_eq binary64 gy (v_nav_goal_y s) \<or>
                 \<not> fp_eq binary64 te (v_track_err s) \<or> length pts \<noteq> length (v_nav_path s) \<or>
                 \<not> reals_eq Q path_flat (v_nav_path_flat s));
               trail_dirty = (length trail \<noteq> length (v_nav_trail s) \<or>
                 \<not> reals_eq Q trail_flat (v_nav_trail_flat s))
           in show_nav changed trail_dirty st plen idx pts path_flat gx gy te trail trail_flat s
      else s)"

definition apply_state :: "('j, 'v) qt \<Rightarrow> 'v dict \<Rightarrow> 'v view \<Rightarrow> 'v view" where
  "apply_state Q m s =
     (apply_nav Q m \<circ> apply_faults Q m \<circ> apply_task Q m \<circ> apply_ts Q m \<circ> apply_robot_flag Q m \<circ>
      apply_battery Q m \<circ> apply_pose Q m \<circ> apply_control Q m \<circ> apply_estop Q m \<circ> apply_phase Q m \<circ>
      apply_mode Q m \<circ> apply_conn Q m) s"

end
