(* ===== verification/Console_View.thy ===== *)
theory Console_View
  imports Console_State
begin

text \<open>
  What the console may rely on in its property object: no property changes without the signal
  that its declaration names (\<open>tells\<close>), the log holds at most eighty lines, the flat and the
  nested form of the route agree (\<open>view_ok\<close>), and applying a state a second time changes nothing.
\<close>

section \<open>The properties a signal speaks for\<close>

datatype 'v shown = SBool bool | SStr string | SInt int | SReal double | SReals "double list"
  | SPath "double list list" | SList "'v list" | SLines "string list"

fun notified :: "view_signal \<Rightarrow> 'v view \<Rightarrow> 'v shown list" where
  "notified ConnectedChanged s = [SBool (v_connected s)]"
| "notified ConnectingChanged s = [SBool (v_connecting s)]"
| "notified ErrorStringChanged s = [SStr (v_error_string s)]"
| "notified HostChanged s = [SStr (v_host s)]"
| "notified PortChanged s = [SInt (v_port s)]"
| "notified HeartbeatRttMsChanged s = [SInt (v_rtt_ms s)]"
| "notified ProtoChanged s = [SStr (v_proto s)]"
| "notified ServerChanged s = [SStr (v_server s)]"
| "notified ConnChanged s = [SStr (v_conn s)]"
| "notified ModeChanged s = [SStr (v_mode s)]"
| "notified PhaseChanged s = [SStr (v_phase s)]"
| "notified EstopChanged s = [SBool (v_estop s)]"
| "notified ControlEnabledChanged s = [SBool (v_control_enabled s)]"
| "notified PoseChanged s = [SReal (v_pose_x s), SReal (v_pose_y s), SReal (v_pose_yaw s)]"
| "notified BatteryChanged s = [SReal (v_battery s)]"
| "notified HasRobotStateChanged s = [SBool (v_has_robot_state s)]"
| "notified StateTsMsChanged s = [SInt (v_state_ts_ms s)]"
| "notified TaskChanged s = [SStr (v_task_id s), SStr (v_task_type s), SStr (v_task_status s)]"
| "notified FaultsChanged s = [SStr (v_faults_summary s), SInt (v_fault_count s)]"
| "notified NavStatusChanged s = [SStr (v_nav_status s), SInt (v_nav_path_len s), SInt (v_nav_idx s),
     SPath (v_nav_path s), SReals (v_nav_path_flat s), SReal (v_nav_goal_x s), SReal (v_nav_goal_y s)]"
| "notified NavTrailChanged s = [SPath (v_nav_trail s), SReals (v_nav_trail_flat s)]"
| "notified TrackErrChanged s = [SReal (v_track_err s)]"
| "notified LastCmdAckChanged s = [SStr (v_last_cmd_ack_text s), SBool (v_last_cmd_ok s)]"
| "notified FaultsListChanged s = [SList (v_faults_list s)]"
| "notified LogLinesChanged s = [SLines (v_log_lines s)]"
| "notified AutoReconnectChanged s = [SBool (v_auto_reconnect s)]"
| "notified ReconnectAttemptsChanged s = [SInt (v_reconnect_attempts s)]"

text \<open>
  Two values are the same to the console when they are equal, or equal for the comparison the
  code uses: \<open>==\<close> on numbers (\<open>0\<close> and \<open>-0\<close>), Qt's on lists.
\<close>

fun same_shown :: "('j, 'v) qt \<Rightarrow> 'v shown \<Rightarrow> 'v shown \<Rightarrow> bool" where
  "same_shown Q (SReal x) (SReal y) \<longleftrightarrow> x = y \<or> fp_eq binary64 y x"
| "same_shown Q (SReals xs) (SReals ys) \<longleftrightarrow> xs = ys \<or> reals_eq Q ys xs"
| "same_shown Q (SPath p) (SPath q) \<longleftrightarrow> p = q \<or> length q = length p \<and> reals_eq Q (concat q) (concat p)"
| "same_shown Q (SList xs) (SList ys) \<longleftrightarrow> xs = ys \<or> list_eq Q ys xs"
| "same_shown Q a b \<longleftrightarrow> a = b"

lemma same_shown_refl [simp]: "same_shown Q a a"
  by (cases a) simp_all

lemma same_all_refl [simp]: "list_all2 (same_shown Q) xs xs"
  by (simp add: list_all2_conv_all_nth)

definition tells :: "('j, 'v) qt \<Rightarrow> 'v view \<Rightarrow> 'v view \<Rightarrow> bool" where
  "tells Q s s' \<longleftrightarrow> (\<exists>sgs. v_signals s' = v_signals s @ sgs \<and>
     (\<forall>sg. sg \<notin> set sgs \<longrightarrow> list_all2 (same_shown Q) (notified sg s) (notified sg s')))"

text \<open>
  The same for a part of an operation that concerns only the signals \<open>S\<close>; parts with different
  signals compose.
\<close>

definition tells_only :: "view_signal set \<Rightarrow> ('j, 'v) qt \<Rightarrow> 'v view \<Rightarrow> 'v view \<Rightarrow> bool" where
  "tells_only S Q s s' \<longleftrightarrow> (\<exists>sgs. v_signals s' = v_signals s @ sgs \<and> set sgs \<subseteq> S \<and>
     (\<forall>sg. sg \<notin> S \<longrightarrow> notified sg s = notified sg s') \<and>
     (\<forall>sg \<in> S. sg \<notin> set sgs \<longrightarrow> list_all2 (same_shown Q) (notified sg s) (notified sg s')))"

lemma tells_only_tells: "tells_only S Q s s' \<Longrightarrow> tells Q s s'"
  unfolding tells_only_def tells_def by (metis same_all_refl)

lemma tells_onlyI:
  assumes "v_signals s' = v_signals s @ sgs" and "set sgs \<subseteq> S"
    and "\<And>sg. sg \<notin> S \<Longrightarrow> notified sg s = notified sg s'"
    and "\<And>sg. sg \<in> S \<Longrightarrow> sg \<notin> set sgs \<Longrightarrow> list_all2 (same_shown Q) (notified sg s) (notified sg s')"
  shows "tells_only S Q s s'"
  using assms unfolding tells_only_def by blast

lemma tells_only_others: "tells_only S Q s t \<Longrightarrow> sg \<notin> S \<Longrightarrow> notified sg t = notified sg s"
  by (auto simp: tells_only_def)

lemma tells_only_refl: "tells_only S Q s s"
  by (simp add: tells_only_def)

lemma tells_only_seq:
  assumes "tells_only S Q s s1" and "tells_only T Q s1 s2" and "S \<inter> T = {}"
  shows "tells_only (S \<union> T) Q s s2"
proof -
  from assms(1) obtain a where a: "v_signals s1 = v_signals s @ a" "set a \<subseteq> S"
    "\<And>sg. sg \<notin> S \<Longrightarrow> notified sg s = notified sg s1"
    "\<And>sg. sg \<in> S \<Longrightarrow> sg \<notin> set a \<Longrightarrow> list_all2 (same_shown Q) (notified sg s) (notified sg s1)"
    unfolding tells_only_def by blast
  from assms(2) obtain b where b: "v_signals s2 = v_signals s1 @ b" "set b \<subseteq> T"
    "\<And>sg. sg \<notin> T \<Longrightarrow> notified sg s1 = notified sg s2"
    "\<And>sg. sg \<in> T \<Longrightarrow> sg \<notin> set b \<Longrightarrow> list_all2 (same_shown Q) (notified sg s1) (notified sg s2)"
    unfolding tells_only_def by blast
  have "list_all2 (same_shown Q) (notified sg s) (notified sg s2)"
    if sg: "sg \<in> S \<union> T" "sg \<notin> set (a @ b)" for sg
  proof (cases "sg \<in> S")
    case True
    then have "notified sg s1 = notified sg s2" using assms(3) b(3) by blast
    with a(4) [OF True] sg(2) show ?thesis by simp
  next
    case False
    then show ?thesis using a(3) [OF False] b(4) sg by auto
  qed
  moreover have "notified sg s = notified sg s2" if "sg \<notin> S \<union> T" for sg using a(3) b(3) that by simp
  ultimately show ?thesis unfolding tells_only_def
    using a(1,2) b(1,2) by (intro exI [of _ "a @ b"]) auto
qed

section \<open>Well-formed views\<close>

definition view_ok :: "'v view \<Rightarrow> bool" where
  "view_ok s \<longleftrightarrow> concat (v_nav_path s) = v_nav_path_flat s \<and> concat (v_nav_trail s) = v_nav_trail_flat s \<and>
     v_nav_status s \<noteq> [] \<and> length (v_log_lines s) \<le> 80"

lemma init_view_ok: "view_ok init_view"
  by (simp add: view_ok_def init_view_def)

lemma trim_log_eq: "trim_log ls = take 80 ls"
proof (induction ls rule: trim_log.induct)
  case (1 ls)
  then show ?case
    by (cases "length ls > 80") (simp_all add: trim_log.simps [of ls] butlast_conv_take min.absorb2)
qed

lemmas view_setters = set_auto_reconnect_def set_reconnect_attempts_def append_log_def
  set_last_cmd_ack_def set_connecting_def set_connected_def set_error_string_def set_endpoint_def
  set_heartbeat_rtt_def set_hello_info_def

lemmas apply_parts = apply_conn_def apply_mode_def apply_phase_def apply_estop_def apply_control_def
  apply_pose_def apply_battery_def apply_robot_flag_def apply_ts_def apply_task_def apply_faults_def

lemma parse_xy_flat: "parse_xy Q a b = (p, f) \<Longrightarrow> concat p = f"
  by (auto simp: parse_xy_def Let_def)

lemma view_ok_frame [simp]:
  "view_ok (emit sg s) = view_ok s"
  "view_ok (s\<lparr>v_connected := b\<rparr>) = view_ok s" "view_ok (s\<lparr>v_connecting := b\<rparr>) = view_ok s"
  "view_ok (s\<lparr>v_error_string := x\<rparr>) = view_ok s" "view_ok (s\<lparr>v_host := x\<rparr>) = view_ok s"
  "view_ok (s\<lparr>v_port := i\<rparr>) = view_ok s" "view_ok (s\<lparr>v_rtt_ms := i\<rparr>) = view_ok s"
  "view_ok (s\<lparr>v_proto := x\<rparr>) = view_ok s" "view_ok (s\<lparr>v_server := x\<rparr>) = view_ok s"
  "view_ok (s\<lparr>v_conn := x\<rparr>) = view_ok s" "view_ok (s\<lparr>v_mode := x\<rparr>) = view_ok s"
  "view_ok (s\<lparr>v_phase := x\<rparr>) = view_ok s" "view_ok (s\<lparr>v_estop := b\<rparr>) = view_ok s"
  "view_ok (s\<lparr>v_control_enabled := b\<rparr>) = view_ok s" "view_ok (s\<lparr>v_battery := d\<rparr>) = view_ok s"
  "view_ok (s\<lparr>v_has_robot_state := b\<rparr>) = view_ok s" "view_ok (s\<lparr>v_state_ts_ms := i\<rparr>) = view_ok s"
  "view_ok (s\<lparr>v_task_status := x\<rparr>) = view_ok s" "view_ok (s\<lparr>v_last_cmd_ack_text := x\<rparr>) = view_ok s"
  "view_ok (s\<lparr>v_faults_list := vs\<rparr>) = view_ok s" "view_ok (s\<lparr>v_auto_reconnect := b\<rparr>) = view_ok s"
  "view_ok (s\<lparr>v_reconnect_attempts := i\<rparr>) = view_ok s"
  "view_ok (s\<lparr>v_pose_x := d\<rparr>) = view_ok s" "view_ok (s\<lparr>v_pose_y := d\<rparr>) = view_ok s"
  "view_ok (s\<lparr>v_pose_yaw := d\<rparr>) = view_ok s" "view_ok (s\<lparr>v_task_id := x\<rparr>) = view_ok s"
  "view_ok (s\<lparr>v_task_type := x\<rparr>) = view_ok s" "view_ok (s\<lparr>v_faults_summary := x\<rparr>) = view_ok s"
  "view_ok (s\<lparr>v_fault_count := i\<rparr>) = view_ok s" "view_ok (s\<lparr>v_last_cmd_ok := b\<rparr>) = view_ok s"
  by (simp_all add: view_ok_def emit_def)

lemma append_log_ok: "view_ok s \<Longrightarrow> view_ok (append_log Q line s)"
  by (simp add: append_log_def Let_def) (simp add: view_ok_def trim_log_eq)

lemma reset_remote_ok: "view_ok s \<Longrightarrow> view_ok (reset_remote s)"
  by (simp add: reset_remote_def Let_def) (simp add: view_ok_def)

lemma setters_ok:
  "view_ok (set_auto_reconnect b s) = view_ok s" "view_ok (set_reconnect_attempts n s) = view_ok s"
  "view_ok (set_last_cmd_ack Q ack s) = view_ok s"
  "view_ok (set_connecting b s) = view_ok s" "view_ok (set_connected b s) = view_ok s"
  "view_ok (set_error_string e s) = view_ok s" "view_ok (set_endpoint h p s) = view_ok s"
  "view_ok (set_heartbeat_rtt n s) = view_ok s" "view_ok (set_hello_info pr sv s) = view_ok s"
  unfolding view_setters Let_def by (simp_all only: view_ok_frame if_distrib [of view_ok] if_cancel)

lemma apply_parts_ok:
  "view_ok (apply_conn Q m s) = view_ok s" "view_ok (apply_mode Q m s) = view_ok s"
  "view_ok (apply_phase Q m s) = view_ok s" "view_ok (apply_estop Q m s) = view_ok s"
  "view_ok (apply_control Q m s) = view_ok s" "view_ok (apply_pose Q m s) = view_ok s"
  "view_ok (apply_battery Q m s) = view_ok s" "view_ok (apply_robot_flag Q m s) = view_ok s"
  "view_ok (apply_ts Q m s) = view_ok s" "view_ok (apply_task Q m s) = view_ok s"
  "view_ok (apply_faults Q m s) = view_ok s"
  unfolding apply_parts Let_def by (simp_all only: view_ok_frame if_distrib [of view_ok] if_cancel)

lemma show_nav_ok:
  "view_ok s \<Longrightarrow> concat p = f \<Longrightarrow> concat t = g \<Longrightarrow> view_ok (show_nav c d st n i p f gx gy te t g s)"
  by (simp add: show_nav_def Let_def view_ok_def emit_def)

lemma apply_nav_ok: "view_ok s \<Longrightarrow> view_ok (apply_nav Q m s)"
  by (simp add: apply_nav_def Let_def show_nav_ok parse_xy_flat split: prod.split)

lemma apply_state_ok: "view_ok s \<Longrightarrow> view_ok (apply_state Q m s)"
  by (simp add: apply_state_def apply_parts_ok apply_nav_ok)

section \<open>The notification contract\<close>

lemma tells_only_emit:
  assumes "\<And>sg. sg \<noteq> x \<Longrightarrow> notified sg s = notified sg s'" and "v_signals s' = v_signals s"
  shows "tells_only {x} Q s (emit x s')"
proof -
  have "notified sg (emit x s') = notified sg s'" for sg
    by (cases sg) (simp_all add: emit_def)
  then show ?thesis unfolding tells_only_def using assms
    by (intro exI [of _ "[x]"]) (simp add: emit_def)
qed

lemma notified_other:
  "sg \<noteq> ConnChanged \<Longrightarrow> notified sg (s\<lparr>v_conn := v\<rparr>) = notified sg s"
  "sg \<noteq> ModeChanged \<Longrightarrow> notified sg (s\<lparr>v_mode := v\<rparr>) = notified sg s"
  "sg \<noteq> PhaseChanged \<Longrightarrow> notified sg (s\<lparr>v_phase := v\<rparr>) = notified sg s"
  "sg \<noteq> EstopChanged \<Longrightarrow> notified sg (s\<lparr>v_estop := b\<rparr>) = notified sg s"
  "sg \<noteq> ControlEnabledChanged \<Longrightarrow> notified sg (s\<lparr>v_control_enabled := b\<rparr>) = notified sg s"
  "sg \<noteq> PoseChanged \<Longrightarrow> notified sg (s\<lparr>v_pose_x := x, v_pose_y := y, v_pose_yaw := z\<rparr>) = notified sg s"
  "sg \<noteq> BatteryChanged \<Longrightarrow> notified sg (s\<lparr>v_battery := x\<rparr>) = notified sg s"
  "sg \<noteq> HasRobotStateChanged \<Longrightarrow> notified sg (s\<lparr>v_has_robot_state := b\<rparr>) = notified sg s"
  "sg \<noteq> StateTsMsChanged \<Longrightarrow> notified sg (s\<lparr>v_state_ts_ms := i\<rparr>) = notified sg s"
  "sg \<noteq> TaskChanged \<Longrightarrow> notified sg (s\<lparr>v_task_id := u, v_task_type := v, v_task_status := w\<rparr>) = notified sg s"
  "sg \<noteq> AutoReconnectChanged \<Longrightarrow> notified sg (s\<lparr>v_auto_reconnect := b\<rparr>) = notified sg s"
  "sg \<noteq> ReconnectAttemptsChanged \<Longrightarrow> notified sg (s\<lparr>v_reconnect_attempts := i\<rparr>) = notified sg s"
  "sg \<noteq> LogLinesChanged \<Longrightarrow> notified sg (s\<lparr>v_stamps := n, v_log_lines := ls\<rparr>) = notified sg s"
  "sg \<noteq> LastCmdAckChanged \<Longrightarrow> notified sg (s\<lparr>v_last_cmd_ack_text := v, v_last_cmd_ok := b\<rparr>) = notified sg s"
  "sg \<noteq> ConnectingChanged \<Longrightarrow> notified sg (s\<lparr>v_connecting := b\<rparr>) = notified sg s"
  "sg \<noteq> ConnectedChanged \<Longrightarrow> notified sg (s\<lparr>v_connected := b\<rparr>) = notified sg s"
  "sg \<noteq> ErrorStringChanged \<Longrightarrow> notified sg (s\<lparr>v_error_string := v\<rparr>) = notified sg s"
  "sg \<noteq> HostChanged \<Longrightarrow> notified sg (s\<lparr>v_host := v\<rparr>) = notified sg s"
  "sg \<noteq> PortChanged \<Longrightarrow> notified sg (s\<lparr>v_port := i\<rparr>) = notified sg s"
  "sg \<noteq> HeartbeatRttMsChanged \<Longrightarrow> notified sg (s\<lparr>v_rtt_ms := i\<rparr>) = notified sg s"
  "sg \<noteq> ProtoChanged \<Longrightarrow> notified sg (s\<lparr>v_proto := v\<rparr>) = notified sg s"
  "sg \<noteq> ServerChanged \<Longrightarrow> notified sg (s\<lparr>v_server := v\<rparr>) = notified sg s"
  by (cases sg; simp)+

lemma apply_parts_tell:
  "tells_only {ConnChanged} Q s (apply_conn Q m s)" "tells_only {ModeChanged} Q s (apply_mode Q m s)"
  "tells_only {PhaseChanged} Q s (apply_phase Q m s)" "tells_only {EstopChanged} Q s (apply_estop Q m s)"
  "tells_only {ControlEnabledChanged} Q s (apply_control Q m s)"
  "tells_only {PoseChanged} Q s (apply_pose Q m s)" "tells_only {BatteryChanged} Q s (apply_battery Q m s)"
  "tells_only {HasRobotStateChanged} Q s (apply_robot_flag Q m s)"
  "tells_only {StateTsMsChanged} Q s (apply_ts Q m s)" "tells_only {TaskChanged} Q s (apply_task Q m s)"
  by (simp_all add: apply_parts Let_def tells_only_refl tells_only_emit notified_other)

lemma setters_tell:
  "tells Q s (set_auto_reconnect b s)" "tells Q s (set_reconnect_attempts n s)"
  "tells Q s (append_log Q line s)" "tells Q s (set_connecting b s)"
  "tells Q s (set_connected b s)" "tells Q s (set_error_string e s)" "tells Q s (set_heartbeat_rtt n s)"
  by (simp_all add: view_setters Let_def tells_only_refl [THEN tells_only_tells]
      tells_only_emit [THEN tells_only_tells] notified_other)

lemma set_last_cmd_ack_only: "tells_only {LastCmdAckChanged} Q s (set_last_cmd_ack Q ack s)"
proof -
  have "tells_only {LastCmdAckChanged} Q s (emit LastCmdAckChanged (s\<lparr>v_last_cmd_ok := b, v_last_cmd_ack_text := x\<rparr>))" for b x
  proof (rule tells_only_emit)
    show "sg \<noteq> LastCmdAckChanged \<Longrightarrow>
      notified sg s = notified sg (s\<lparr>v_last_cmd_ok := b, v_last_cmd_ack_text := x\<rparr>)" for sg by (cases sg) simp_all
  qed simp
  then show ?thesis unfolding set_last_cmd_ack_def Let_def .
qed

lemma set_last_cmd_ack_tells: "tells Q s (set_last_cmd_ack Q ack s)"
  by (rule tells_only_tells [OF set_last_cmd_ack_only])

lemma pair_setters_tell: "tells Q s (set_endpoint h p s)" "tells Q s (set_hello_info pr sv s)"
proof -
  define e where "e t = (if v_host t \<noteq> h then emit HostChanged (t\<lparr>v_host := h\<rparr>) else t)" for t :: "'b view"
  define f where "f t = (if v_port t \<noteq> p then emit PortChanged (t\<lparr>v_port := p\<rparr>) else t)" for t :: "'b view"
  have "tells_only {HostChanged} Q s (e s)" "tells_only {PortChanged} Q t (f t)" for t
    by (simp_all add: e_def f_def tells_only_refl tells_only_emit notified_other)
  from tells_only_seq [OF this] have "tells Q s (f (e s))" by (auto intro: tells_only_tells)
  then show "tells Q s (set_endpoint h p s)" by (simp add: set_endpoint_def Let_def e_def f_def)
next
  define e where "e t = (if v_proto t \<noteq> pr then emit ProtoChanged (t\<lparr>v_proto := pr\<rparr>) else t)" for t :: "'b view"
  define f where "f t = (if v_server t \<noteq> sv then emit ServerChanged (t\<lparr>v_server := sv\<rparr>) else t)" for t :: "'b view"
  have "tells_only {ProtoChanged} Q s (e s)" "tells_only {ServerChanged} Q t (f t)" for t
    by (simp_all add: e_def f_def tells_only_refl tells_only_emit notified_other)
  from tells_only_seq [OF this] have "tells Q s (f (e s))" by (auto intro: tells_only_tells)
  then show "tells Q s (set_hello_info pr sv s)" by (simp add: set_hello_info_def Let_def e_def f_def)
qed

lemma apply_faults_tells: "tells_only {FaultsChanged, FaultsListChanged} Q s (apply_faults Q m s)"
proof -
  have "tells_only {FaultsChanged, FaultsListChanged} Q s
      (emit FaultsChanged (emit FaultsListChanged (s\<lparr>v_fault_count := n, v_faults_summary := x, v_faults_list := fl\<rparr>)))"
    (is "tells_only ?S Q s ?s'") for fl n x
  proof (rule tells_onlyI)
    show "v_signals ?s' = v_signals s @ [FaultsListChanged, FaultsChanged]" by (simp add: emit_def)
    show "sg \<notin> ?S \<Longrightarrow> notified sg s = notified sg ?s'" for sg by (cases sg) (simp_all add: emit_def)
  qed auto
  moreover have "tells_only {FaultsChanged, FaultsListChanged} Q s
      (emit FaultsChanged (s\<lparr>v_fault_count := n, v_faults_summary := x\<rparr>))" (is "tells_only ?S Q s ?s'") for n x
  proof (rule tells_onlyI)
    show "v_signals ?s' = v_signals s @ [FaultsChanged]" by (simp add: emit_def)
    show "sg \<notin> ?S \<Longrightarrow> notified sg s = notified sg ?s'" for sg by (cases sg) (simp_all add: emit_def)
  qed (auto simp: emit_def)
  ultimately show ?thesis by (simp add: apply_faults_def Let_def tells_only_refl)
qed

lemma show_nav_signals: "v_signals (show_nav c d st n i p f gx gy te t g s) = v_signals s @
    (if \<not> fp_eq binary64 te (v_track_err s) then [TrackErrChanged] else []) @
    (if d then [NavTrailChanged] else []) @ (if c then [NavStatusChanged] else [])"
  by (simp add: show_nav_def Let_def emit_def)

lemma show_nav_others:
  "sg \<notin> {NavStatusChanged, NavTrailChanged, TrackErrChanged} \<Longrightarrow>
    notified sg (show_nav c d st n i p f gx gy te t g s) = notified sg s"
  "\<not> d \<Longrightarrow> notified NavTrailChanged (show_nav c d st n i p f gx gy te t g s) = notified NavTrailChanged s"
  "fp_eq binary64 te (v_track_err s) \<Longrightarrow>
    notified TrackErrChanged (show_nav c d st n i p f gx gy te t g s) = notified TrackErrChanged s"
  by (cases sg; simp add: show_nav_def Let_def emit_def) (simp_all add: show_nav_def Let_def emit_def)

lemma show_nav_status: "notified NavStatusChanged (show_nav c d st n i p f gx gy te t g s) =
    [SStr (if st = [] then ''IDLE'' else st), SInt n, SInt i, SPath p, SReals f, SReal gx, SReal gy]"
  by (simp add: show_nav_def Let_def emit_def)

lemma show_nav_tells:
  assumes "view_ok s" and "concat p = f"
    and "\<not> c \<Longrightarrow> st = v_nav_status s \<and> n = v_nav_path_len s \<and> i = v_nav_idx s \<and>
      fp_eq binary64 gx (v_nav_goal_x s) \<and> fp_eq binary64 gy (v_nav_goal_y s) \<and>
      length p = length (v_nav_path s) \<and> reals_eq Q f (v_nav_path_flat s)"
  shows "tells_only {NavStatusChanged, NavTrailChanged, TrackErrChanged} Q s
    (show_nav c d st n i p f gx gy te t g s)" (is "tells_only ?S Q s ?s'")
proof (rule tells_onlyI [OF show_nav_signals])
  fix sg
  assume sg: "sg \<in> ?S" "sg \<notin> set ((if \<not> fp_eq binary64 te (v_track_err s) then [TrackErrChanged] else []) @
    (if d then [NavTrailChanged] else []) @ (if c then [NavStatusChanged] else []))"
  consider "sg = NavStatusChanged" "\<not> c" | "sg = NavTrailChanged" "\<not> d" | "sg = TrackErrChanged" "fp_eq binary64 te (v_track_err s)"
    using sg by (auto split: if_splits)
  then show "list_all2 (same_shown Q) (notified sg s) (notified sg ?s')"
  proof cases
    case 1
    show ?thesis using assms(1,2) assms(3) [OF 1(2)] unfolding 1(1) show_nav_status by (simp add: view_ok_def)
  qed (simp_all only: show_nav_others same_all_refl not_False_eq_True)
next
  show "notified sg s = notified sg ?s'" if "sg \<notin> ?S" for sg using show_nav_others(1) [OF that] by (rule sym)
qed auto

lemma apply_nav_tells:
  assumes "view_ok s"
  shows "tells_only {NavStatusChanged, NavTrailChanged, TrackErrChanged} Q s (apply_nav Q m s)"
proof -
  let ?nm = "to_map Q (val Q m ''nav'')"
  obtain p f where 1: "parse_xy Q (val Q ?nm ''path_flat'') (val Q ?nm ''path'') = (p, f)" by fastforce
  obtain t g where 2: "parse_xy Q (val Q ?nm ''trail_flat'') (val Q ?nm ''trail'') = (t, g)" by fastforce
  show ?thesis
  proof (cases "can_map Q (val Q m ''nav'')")
    case True
    show ?thesis unfolding apply_nav_def Let_def 1 2 prod.case if_P [OF True]
      by (rule show_nav_tells [OF assms parse_xy_flat [OF 1]]) blast
  next
    case False
    then show ?thesis by (simp add: apply_nav_def tells_only_refl)
  qed
qed

lemma apply_state_only:
  assumes "view_ok s"
  shows "tells_only {ConnChanged, ModeChanged, PhaseChanged, EstopChanged, ControlEnabledChanged, PoseChanged,
    BatteryChanged, HasRobotStateChanged, StateTsMsChanged, TaskChanged, FaultsChanged, FaultsListChanged,
    NavStatusChanged, NavTrailChanged, TrackErrChanged} Q s (apply_state Q m s)" (is "tells_only ?S _ _ _")
proof -
  let ?s3 = "apply_phase Q m (apply_mode Q m (apply_conn Q m s))"
  let ?s6 = "apply_pose Q m (apply_control Q m (apply_estop Q m ?s3))"
  let ?s9 = "apply_ts Q m (apply_robot_flag Q m (apply_battery Q m ?s6))"
  let ?s = "apply_faults Q m (apply_task Q m ?s9)"
  have "tells_only ({ConnChanged} \<union> {ModeChanged} \<union> {PhaseChanged}) Q s ?s3" (is "tells_only ?A _ _ _")
    by (rule tells_only_seq [OF tells_only_seq [OF apply_parts_tell(1,2)] apply_parts_tell(3)]) simp_all
  note 3 = this
  have "tells_only (?A \<union> {EstopChanged} \<union> {ControlEnabledChanged} \<union> {PoseChanged}) Q s ?s6" (is "tells_only ?B _ _ _")
    by (rule tells_only_seq [OF tells_only_seq [OF tells_only_seq [OF 3 apply_parts_tell(4)] apply_parts_tell(5)] apply_parts_tell(6)]) simp_all
  note 6 = this
  have "tells_only (?B \<union> {BatteryChanged} \<union> {HasRobotStateChanged} \<union> {StateTsMsChanged}) Q s ?s9" (is "tells_only ?C _ _ _")
    by (rule tells_only_seq [OF tells_only_seq [OF tells_only_seq [OF 6 apply_parts_tell(7)] apply_parts_tell(8)] apply_parts_tell(9)]) simp_all
  note 9 = this
  have "tells_only (?C \<union> {TaskChanged} \<union> {FaultsChanged, FaultsListChanged}) Q s ?s"
    by (rule tells_only_seq [OF tells_only_seq [OF 9 apply_parts_tell(10)] apply_faults_tells]) simp_all
  note 11 = this
  have "view_ok ?s" using assms by (simp add: apply_parts_ok)
  note 15 = tells_only_seq [OF 11 apply_nav_tells [OF this]]
  have "tells_only ?S Q s (apply_nav Q m ?s)" by (rule 15 [THEN subst [rotated, where P = "\<lambda>S. tells_only S Q s (apply_nav Q m ?s)"]]) auto
  then show ?thesis by (simp add: apply_state_def)
qed

lemma apply_state_tells: "view_ok s \<Longrightarrow> tells Q s (apply_state Q m s)"
  by (rule tells_only_tells [OF apply_state_only])

text \<open>A state message says nothing of the connection.\<close>

lemma apply_state_keeps:
  assumes "view_ok s"
  shows "v_connected (apply_state Q m s) = v_connected s" "v_connecting (apply_state Q m s) = v_connecting s"
    "v_auto_reconnect (apply_state Q m s) = v_auto_reconnect s"
    "v_reconnect_attempts (apply_state Q m s) = v_reconnect_attempts s"
  using tells_only_others [OF apply_state_only [OF assms], of ConnectedChanged Q m]
    tells_only_others [OF apply_state_only [OF assms], of ConnectingChanged Q m]
    tells_only_others [OF apply_state_only [OF assms], of AutoReconnectChanged Q m]
    tells_only_others [OF apply_state_only [OF assms], of ReconnectAttemptsChanged Q m] by simp_all

lemma reset_remote_tells: "tells Q s (reset_remote s)"
proof -
  let ?S = "[NavStatusChanged, NavTrailChanged, ConnChanged, ModeChanged, PhaseChanged,
           EstopChanged, ControlEnabledChanged, PoseChanged, BatteryChanged, HasRobotStateChanged,
           StateTsMsChanged, TaskChanged, FaultsChanged, HeartbeatRttMsChanged]"
  have "tells_only (set ?S) Q s (reset_remote s)"
  proof (rule tells_onlyI)
    show "v_signals (reset_remote s) = v_signals s @ ?S" by (simp add: reset_remote_def Let_def emit_def)
    show "sg \<notin> set ?S \<Longrightarrow> notified sg s = notified sg (reset_remote s)" for sg
      by (cases sg) (simp_all add: reset_remote_def Let_def emit_def)
  qed auto
  then show ?thesis by (rule tells_only_tells)
qed

section \<open>Every operation\<close>

datatype 'v view_op = SetAutoReconnect bool | SetReconnectAttempts int | AppendLog string
  | SetLastCmdAck "'v dict" | SetConnecting bool | SetConnected bool | SetErrorString string
  | SetEndpoint string int | SetHeartbeatRtt int | SetHelloInfo string string | ResetRemote
  | ApplyState "'v dict"

fun view_do :: "('j, 'v) qt \<Rightarrow> 'v view_op \<Rightarrow> 'v view \<Rightarrow> 'v view" where
  "view_do Q (SetAutoReconnect b) = set_auto_reconnect b"
| "view_do Q (SetReconnectAttempts n) = set_reconnect_attempts n"
| "view_do Q (AppendLog line) = append_log Q line"
| "view_do Q (SetLastCmdAck ack) = set_last_cmd_ack Q ack"
| "view_do Q (SetConnecting b) = set_connecting b"
| "view_do Q (SetConnected b) = set_connected b"
| "view_do Q (SetErrorString e) = set_error_string e"
| "view_do Q (SetEndpoint host port) = set_endpoint host port"
| "view_do Q (SetHeartbeatRtt ms) = set_heartbeat_rtt ms"
| "view_do Q (SetHelloInfo proto server) = set_hello_info proto server"
| "view_do Q ResetRemote = reset_remote"
| "view_do Q (ApplyState m) = apply_state Q m"

lemma view_do_ok: "view_ok s \<Longrightarrow> view_ok (view_do Q op s)"
  by (cases op) (simp_all add: setters_ok append_log_ok reset_remote_ok apply_state_ok)

lemma view_do_tells: "view_ok s \<Longrightarrow> tells Q s (view_do Q op s)"
  by (cases op) (simp_all add: setters_tell pair_setters_tell set_last_cmd_ack_tells reset_remote_tells apply_state_tells)

interpretation view_runs: step_system "\<lambda>s op. Some (view_do Q op s)" view_ok "\<lambda>_. True" for Q
  by unfold_locales (simp add: view_do_ok)

lemma run_view: "run_steps (\<lambda>s op. Some (view_do Q op s)) s ops = Some (fold (view_do Q) ops s)"
  by (induction ops arbitrary: s) simp_all

text \<open>C21: The console never shows a stale property. After any sequence of operations on the property
  object, the next operation changes no property without emitting, after its change, the signal
  its declaration names; two values count as the same where the code's own comparison says so.
  And the log never holds more than eighty lines.\<close>

theorem every_change_notified:
  "tells Q (fold (view_do Q) ops init_view) (view_do Q op (fold (view_do Q) ops init_view)) \<and>
   length (v_log_lines (fold (view_do Q) ops init_view)) \<le> 80"
proof -
  have "view_ok (fold (view_do Q) ops init_view)"
    using view_runs.run_inv [OF init_view_ok, of ops Q] by (simp add: run_view list_all_iff)
  then show ?thesis by (simp add: view_do_tells) (simp add: view_ok_def)
qed

section \<open>Applying a state twice\<close>

text \<open>
  A part of \<open>apply_state\<close> that owns the signals \<open>S\<close>: it leaves every other property alone, what
  it makes of its own depends on nothing but them, and a second time it changes nothing.
\<close>

definition view_part :: "view_signal set \<Rightarrow> ('v view \<Rightarrow> 'v view) \<Rightarrow> bool" where
  "view_part S X \<longleftrightarrow> (\<forall>s. \<forall>sg. sg \<notin> S \<longrightarrow> notified sg (X s) = notified sg s) \<and>
     (\<forall>s t. (\<forall>sg \<in> S. notified sg s = notified sg t) \<longrightarrow> (\<forall>sg \<in> S. notified sg (X s) = notified sg (X t))) \<and>
     (\<forall>s. \<forall>sg \<in> S. notified sg (X (X s)) = notified sg (X s))"

lemma view_part_idem: "view_part S X \<Longrightarrow> notified sg (X (X s)) = notified sg (X s)"
  by (cases "sg \<in> S") (auto simp: view_part_def)

lemma view_part_seq:
  assumes "view_part S X" and "view_part T Y" and "S \<inter> T = {}"
  shows "view_part (S \<union> T) (Y \<circ> X)"
proof -
  have x: "\<And>s sg. sg \<notin> S \<Longrightarrow> notified sg (X s) = notified sg s"
    "\<And>s t sg. (\<And>g. g \<in> S \<Longrightarrow> notified g s = notified g t) \<Longrightarrow> sg \<in> S \<Longrightarrow> notified sg (X s) = notified sg (X t)"
    "\<And>s sg. sg \<in> S \<Longrightarrow> notified sg (X (X s)) = notified sg (X s)"
    using assms(1) unfolding view_part_def by blast+
  have y: "\<And>s sg. sg \<notin> T \<Longrightarrow> notified sg (Y s) = notified sg s"
    "\<And>s t sg. (\<And>g. g \<in> T \<Longrightarrow> notified g s = notified g t) \<Longrightarrow> sg \<in> T \<Longrightarrow> notified sg (Y s) = notified sg (Y t)"
    "\<And>s sg. sg \<in> T \<Longrightarrow> notified sg (Y (Y s)) = notified sg (Y s)"
    using assms(2) unfolding view_part_def by blast+
  have st: "\<And>g. g \<in> S \<Longrightarrow> g \<notin> T" "\<And>g. g \<in> T \<Longrightarrow> g \<notin> S" using assms(3) by auto
  have s: "notified sg (Y (X s)) = notified sg (X s)" if "sg \<in> S" for sg s using y(1) st(1) that by simp
  have t: "notified sg (Y (X s)) = notified sg (Y s)" if "sg \<in> T" for sg s
    using that by (intro y(2)) (simp_all add: x(1) st(2))
  show ?thesis unfolding view_part_def o_def
  proof (intro conjI allI impI ballI)
    show "notified sg (Y (X v)) = notified sg v" if "sg \<notin> S \<union> T" for sg v using that x(1) y(1) by simp
    show "notified sg (Y (X u)) = notified sg (Y (X v))"
      if e: "\<forall>g \<in> S \<union> T. notified g u = notified g v" and sg: "sg \<in> S \<union> T" for u v sg
    proof (cases "sg \<in> S")
      case True
      then show ?thesis unfolding s [OF True] using e by (intro x(2)) auto
    next
      case False
      then have "sg \<in> T" using sg by simp
      then show ?thesis unfolding t [OF \<open>sg \<in> T\<close>] using e by (intro y(2)) auto
    qed
    show "notified sg (Y (X (Y (X v)))) = notified sg (Y (X v))" if sg: "sg \<in> S \<union> T" for sg v
    proof (cases "sg \<in> S")
      case True
      have "notified sg (X (Y (X v))) = notified sg (X (X v))" using True by (intro x(2)) (simp_all add: s)
      then show ?thesis using True by (simp add: s x(3))
    next
      case False
      then have T: "sg \<in> T" using sg by simp
      have "notified sg (Y (Y (X v))) = notified sg (Y (X v))" using T by (rule y(3))
      then show ?thesis using T by (simp add: t)
    qed
  qed
qed

lemma view_partI:
  assumes "\<And>s. tells_only S Q s (X s)"
    and "\<And>s t sg. \<forall>g \<in> S. notified g s = notified g t \<Longrightarrow> sg \<in> S \<Longrightarrow> notified sg (X s) = notified sg (X t)"
    and "\<And>s sg. sg \<in> S \<Longrightarrow> notified sg (X (X s)) = notified sg (X s)"
  shows "view_part S X"
  unfolding view_part_def using tells_only_others [OF assms(1)] assms(2,3) by blast

lemma notified_emit [simp]: "notified sg (emit g s) = notified sg s"
  by (cases sg) (simp_all add: emit_def)

lemma guarded_part:
  assumes "\<And>s. X s = (if C s then emit g (U s) else s)" and "\<And>s. tells_only {g} Q s (X s)"
    and "\<And>s t. notified g s = notified g t \<Longrightarrow> C s = C t \<and> notified g (U s) = notified g (U t)"
    and "\<And>s. notified g (U (emit g (U s))) = notified g (U s)"
  shows "view_part {g} X"
proof (rule view_partI [OF assms(2)])
  show "notified sg (X s) = notified sg (X t)"
    if "\<forall>h \<in> {g}. notified h s = notified h t" "sg \<in> {g}" for s t sg
    using that assms(3) [of s t] by (simp add: assms(1))
  show "notified sg (X (X s)) = notified sg (X s)" if "sg \<in> {g}" for s sg
  proof (cases "C s")
    case True
    then have "X s = emit g (U s)" by (simp add: assms(1))
    with that assms(4) show ?thesis by (simp add: assms(1))
  next
    case False
    then show ?thesis by (simp add: assms(1))
  qed
qed

lemma simple_parts:
  "view_part {ConnChanged} (apply_conn Q m)" "view_part {ModeChanged} (apply_mode Q m)"
  "view_part {PhaseChanged} (apply_phase Q m)" "view_part {EstopChanged} (apply_estop Q m)"
  "view_part {ControlEnabledChanged} (apply_control Q m)" "view_part {BatteryChanged} (apply_battery Q m)"
  "view_part {HasRobotStateChanged} (apply_robot_flag Q m)" "view_part {StateTsMsChanged} (apply_ts Q m)"
  by (rule view_partI [OF apply_parts_tell(1)] view_partI [OF apply_parts_tell(2)]
      view_partI [OF apply_parts_tell(3)] view_partI [OF apply_parts_tell(4)]
      view_partI [OF apply_parts_tell(5)] view_partI [OF apply_parts_tell(7)]
      view_partI [OF apply_parts_tell(8)] view_partI [OF apply_parts_tell(9)];
    simp add: apply_parts Let_def emit_def)+

lemma default_taken:
  assumes "qt_laws Q"
  shows "to_double Q (val_or pm k (of_double Q (to_double Q (val_or pm k d)))) = to_double Q (val_or pm k d)"
    and "to_str Q (val_or pm k (of_str Q (to_str Q (val_or pm k d)))) = to_str Q (val_or pm k d)"
  using assms by (simp_all add: qt_laws_def val_or_def split: option.split)

lemma pose_part:
  fixes Q :: "('j, 'v) qt"
  assumes "qt_laws Q"
  shows "view_part {PoseChanged} (apply_pose Q m)"
proof -
  define pm where "pm = to_map Q (val Q m ''pose'')"
  define x where "x d = to_double Q (val_or pm ''x'' (of_double Q d))" for d
  define y where "y d = to_double Q (val_or pm ''y'' (of_double Q d))" for d
  define z where "z d = to_double Q (val_or pm ''yaw'' (of_double Q d))" for d
  let ?C = "\<lambda>s. can_map Q (val Q m ''pose'') \<and> (\<not> fp_eq binary64 (x (v_pose_x s)) (v_pose_x s) \<or>
    \<not> fp_eq binary64 (y (v_pose_y s)) (v_pose_y s) \<or> \<not> fp_eq binary64 (z (v_pose_yaw s)) (v_pose_yaw s))"
  let ?U = "\<lambda>s :: 'v view. s\<lparr>v_pose_x := x (v_pose_x s), v_pose_y := y (v_pose_y s), v_pose_yaw := z (v_pose_yaw s)\<rparr>"
  have "apply_pose Q m s = (if ?C s then emit PoseChanged (?U s) else s)" for s
    by (simp add: apply_pose_def Let_def pm_def x_def y_def z_def)
  moreover have "x (x d) = x d" "y (y d) = y d" "z (z d) = z d" for d
    using default_taken(1) [OF assms] by (simp_all add: x_def y_def z_def)
  ultimately show ?thesis
    by (intro guarded_part [where C = ?C and U = ?U, OF _ apply_parts_tell(6)]) (simp_all add: emit_def)
qed

lemma task_part:
  fixes Q :: "('j, 'v) qt"
  assumes "qt_laws Q"
  shows "view_part {TaskChanged} (apply_task Q m)"
proof -
  define tm where "tm = to_map Q (val Q m ''task'')"
  define x where "x d = (if has tm ''id'' then to_str Q (val Q tm ''id'') else d)" for d
  define y where "y d = (if has tm ''type'' then to_str Q (val Q tm ''type'') else d)" for d
  define z where "z d = to_str Q (val_or tm ''status'' (of_str Q d))" for d
  let ?C = "\<lambda>s. can_map Q (val Q m ''task'') \<and>
    (x (v_task_id s) \<noteq> v_task_id s \<or> y (v_task_type s) \<noteq> v_task_type s \<or> z (v_task_status s) \<noteq> v_task_status s)"
  let ?U = "\<lambda>s :: 'v view. s\<lparr>v_task_id := x (v_task_id s), v_task_type := y (v_task_type s), v_task_status := z (v_task_status s)\<rparr>"
  have "apply_task Q m s = (if ?C s then emit TaskChanged (?U s) else s)" for s
    unfolding apply_task_def Let_def tm_def x_def y_def z_def
    by (cases "can_map Q (val Q m ''task'')") (simp_all only: if_True if_False simp_thms)
  moreover have "x (x d) = x d" "y (y d) = y d" "z (z d) = z d" for d
    using default_taken(2) [OF assms] by (simp_all add: x_def y_def z_def)
  ultimately show ?thesis
    by (intro guarded_part [where C = ?C and U = ?U, OF _ apply_parts_tell(10)]) (simp_all add: emit_def)
qed

lemma faults_values:
  fixes s :: "'v view"
  shows "v_fault_count (apply_faults Q m s) =
      (if can_list Q (val Q m ''faults'') then int (length (to_list Q (val Q m ''faults''))) else v_fault_count s)"
    and "v_faults_summary (apply_faults Q m s) =
      (if can_list Q (val Q m ''faults'')
       then join '', '' (map (\<lambda>item. to_str Q (val Q (to_map Q item) ''code'')) (to_list Q (val Q m ''faults'')))
       else v_faults_summary s)"
    and "v_faults_list (apply_faults Q m s) =
      (if can_list Q (val Q m ''faults'') \<and> \<not> list_eq Q (to_list Q (val Q m ''faults'')) (v_faults_list s)
       then to_list Q (val Q m ''faults'') else v_faults_list s)"
  by (simp_all add: apply_faults_def Let_def emit_def)

lemma faults_part: "view_part {FaultsChanged, FaultsListChanged} (apply_faults Q m)"
  by (rule view_partI [OF apply_faults_tells]) (auto simp: faults_values)

lemma nav_part:
  fixes Q :: "('j, 'v) qt"
  shows "view_part {NavStatusChanged, NavTrailChanged, TrackErrChanged} (apply_nav Q m)"
proof -
  let ?S = "{NavStatusChanged, NavTrailChanged, TrackErrChanged}"
  let ?nm = "to_map Q (val Q m ''nav'')"
  obtain p f where 1: "parse_xy Q (val Q ?nm ''path_flat'') (val Q ?nm ''path'') = (p, f)" by fastforce
  obtain t g where 2: "parse_xy Q (val Q ?nm ''trail_flat'') (val Q ?nm ''trail'') = (t, g)" by fastforce
  define c where "c = can_map Q (val Q m ''nav'')"
  define te where "te = to_double Q (val Q ?nm ''track_err'')"
  define d where "d s = (length t \<noteq> length (v_nav_trail s) \<or> \<not> reals_eq Q g (v_nav_trail_flat s))" for s :: "'v view"
  have "\<exists>ch st n i gx gy. \<forall>s. apply_nav Q m s = (if c then show_nav (ch s) (d s) st n i p f gx gy te t g s else s)"
    unfolding apply_nav_def Let_def 1 2 prod.case c_def te_def d_def by (rule exI)+ (rule allI, rule refl)
  then obtain ch st n i gx gy where
    eq: "\<And>s. apply_nav Q m s = (if c then show_nav (ch s) (d s) st n i p f gx gy te t g s else s)" by blast
  have trail: "v_nav_trail (apply_nav Q m s) = (if c \<and> d s then t else v_nav_trail s)"
    "v_nav_trail_flat (apply_nav Q m s) = (if c \<and> d s then g else v_nav_trail_flat s)"
    "v_track_err (apply_nav Q m s) = (if c \<and> \<not> fp_eq binary64 te (v_track_err s) then te else v_track_err s)" for s
    by (simp_all add: eq show_nav_def Let_def emit_def)
  have status: "notified NavStatusChanged (apply_nav Q m s) = (if c
      then [SStr (if st = [] then ''IDLE'' else st), SInt n, SInt i, SPath p, SReals f, SReal gx, SReal gy]
      else notified NavStatusChanged s)" for s
    unfolding eq by (simp only: show_nav_status split: if_split) simp
  show ?thesis unfolding view_part_def
  proof (intro conjI allI impI)
    show "notified sg (apply_nav Q m s) = notified sg s" if "sg \<notin> ?S" for sg s
      by (simp add: eq show_nav_others(1) [OF that])
    show "\<forall>sg \<in> ?S. notified sg s = notified sg u \<Longrightarrow>
        \<forall>sg \<in> ?S. notified sg (apply_nav Q m s) = notified sg (apply_nav Q m u)" for s u
      by (simp add: trail status d_def del: notified.simps(20))
    show "\<forall>sg \<in> ?S. notified sg (apply_nav Q m (apply_nav Q m s)) = notified sg (apply_nav Q m s)" for s
      by (simp add: trail status d_def del: notified.simps(20))
  qed
qed

text \<open>A snapshot that arrives again changes nothing the console shows: after applying a state, applying
  the same state once more leaves every property as it is, whatever keys the state has and
  whichever of them Qt can convert.\<close>

lemma state_applied_twice:
  fixes Q :: "('j, 'v) qt"
  assumes "qt_laws Q"
  shows "notified sg (apply_state Q m (apply_state Q m s)) = notified sg (apply_state Q m s)"
proof -
  note seq = view_part_seq
  let ?X3 = "apply_phase Q m \<circ> (apply_mode Q m \<circ> apply_conn Q m)"
  let ?X6 = "apply_pose Q m \<circ> (apply_control Q m \<circ> (apply_estop Q m \<circ> ?X3))"
  let ?X9 = "apply_ts Q m \<circ> (apply_robot_flag Q m \<circ> (apply_battery Q m \<circ> ?X6))"
  let ?X = "apply_nav Q m \<circ> (apply_faults Q m \<circ> (apply_task Q m \<circ> ?X9))"
  have 3: "view_part ({ConnChanged} \<union> {ModeChanged} \<union> {PhaseChanged}) ?X3" (is "view_part ?A _")
    by (rule seq [OF seq [OF simple_parts(1,2)] simple_parts(3)]) simp_all
  have 6: "view_part (?A \<union> {EstopChanged} \<union> {ControlEnabledChanged} \<union> {PoseChanged}) ?X6" (is "view_part ?B _")
    by (rule seq [OF seq [OF seq [OF 3 simple_parts(4)] simple_parts(5)] pose_part [OF assms]]) simp_all
  have 9: "view_part (?B \<union> {BatteryChanged} \<union> {HasRobotStateChanged} \<union> {StateTsMsChanged}) ?X9" (is "view_part ?C _")
    by (rule seq [OF seq [OF seq [OF 6 simple_parts(6)] simple_parts(7)] simple_parts(8)]) simp_all
  have "view_part (?C \<union> {TaskChanged} \<union> {FaultsChanged, FaultsListChanged} \<union>
      {NavStatusChanged, NavTrailChanged, TrackErrChanged}) ?X"
    by (rule seq [OF seq [OF seq [OF 9 task_part [OF assms]] faults_part] nav_part]) simp_all
  from view_part_idem [OF this] show ?thesis by (simp add: apply_state_def)
qed

definition demo_snapshot :: "tree dict" where
  "demo_snapshot = [''phase'' \<mapsto> Text ''IDLE'', ''control_enabled'' \<mapsto> Bool True,
     ''pose'' \<mapsto> Fields [(''x'', Real (fp_lit binary64 3 2))], ''task'' \<mapsto> Fields [(''status'', Text ''DONE'')],
     ''faults'' \<mapsto> Items [Fields [(''code'', Text ''E_STUCK''), (''level'', Text ''ERROR'')]]]"

lemma state_applied_twice_witness:
  "\<forall>sg. notified sg (apply_state tree_qt demo_snapshot (apply_state tree_qt demo_snapshot init_view)) =
   notified sg (apply_state tree_qt demo_snapshot init_view)"
  by (intro allI state_applied_twice [OF tree_qt_laws])

end
