(* ===== verification/Console_Tables.thy ===== *)
theory Console_Tables
  imports Qt_Interface "HOL-Library.Multiset"
begin

text \<open>
  The table models the console shows: \<open>FaultTableModel\<close> (\<open>faulttablemodel.cpp\<close>), which sorts and
  filters the faults, and \<open>NodeTableModel\<close> (\<open>nodetablemodel.cpp\<close>). \<open>std::sort\<close> is a parameter:
  C++ promises a sorted permutation (\<open>sorts\<close>) and leaves the order of equivalent rows open. A
  reset of a model is counted, for the views that hear of it.
\<close>

section \<open>Indices\<close>

record model_index =
  mi_valid :: bool
  mi_row :: int
  mi_column :: int

definition DisplayRole :: int where "DisplayRole = 0"
definition UserRole :: int where "UserRole = 256"

section \<open>The fault table\<close>

record fault_row =
  fr_code :: string
  fr_level :: string
  fr_node :: string
  fr_detail :: string
  fr_active :: bool

record fault_table =
  ft_all :: "fault_row list"
  ft_visible :: "fault_row list"
  ft_filter :: string
  ft_resets :: nat

definition init_faults :: fault_table where
  "init_faults = \<lparr>ft_all = [], ft_visible = [], ft_filter = [], ft_resets = 0\<rparr>"

definition CodeRole :: int where "CodeRole = UserRole + 1"
definition LevelRole :: int where "LevelRole = CodeRole + 1"
definition NodeRole :: int where "NodeRole = LevelRole + 1"
definition DetailRole :: int where "DetailRole = NodeRole + 1"
definition ActiveRole :: int where "ActiveRole = DetailRole + 1"

definition fault_rows :: "model_index \<Rightarrow> fault_table \<Rightarrow> int" where
  "fault_rows parent t = (if mi_valid parent then 0 else int (length (ft_visible t)))"

definition fault_columns :: "model_index \<Rightarrow> int" where
  "fault_columns parent = (if mi_valid parent then 0 else 4)"

definition fault_data :: "('j, 'v) qt \<Rightarrow> model_index \<Rightarrow> int \<Rightarrow> fault_table \<Rightarrow> 'v" where
  "fault_data Q ix role t =
     (if \<not> mi_valid ix \<or> mi_row ix < 0 \<or> mi_row ix \<ge> int (length (ft_visible t)) then invalid Q
      else let r = ft_visible t ! nat (mi_row ix) in
        if role = CodeRole \<or> role = DisplayRole
        then of_str Q (if mi_column ix = 1 then fr_level r
               else if mi_column ix = 2 then fr_node r
               else if mi_column ix = 3 then fr_detail r
               else fr_code r)
        else if role = LevelRole then of_str Q (fr_level r)
        else if role = NodeRole then of_str Q (fr_node r)
        else if role = DetailRole then of_str Q (fr_detail r)
        else if role = ActiveRole then of_bool' Q (fr_active r)
        else invalid Q)"

definition fault_role_names :: "int \<rightharpoonup> string" where
  "fault_role_names = [CodeRole \<mapsto> ''code'', LevelRole \<mapsto> ''level'', NodeRole \<mapsto> ''node'',
     DetailRole \<mapsto> ''detail'', ActiveRole \<mapsto> ''active'']"

definition fault_header :: "int \<Rightarrow> string" where
  "fault_header section =
     (if section = 0 then ''code'' else if section = 1 then ''level''
      else if section = 2 then ''node'' else if section = 3 then ''detail'' else [])"

definition rebuild_visible :: "fault_table \<Rightarrow> fault_table" where
  "rebuild_visible t =
     t\<lparr>ft_visible := filter (\<lambda>r. ft_filter t = [] \<or> fr_level r = ft_filter t) (ft_all t),
       ft_resets := Suc (ft_resets t)\<rparr>"

definition set_level_filter :: "string \<Rightarrow> fault_table \<Rightarrow> fault_table" where
  "set_level_filter level t =
     (if ft_filter t = level then t else rebuild_visible (t\<lparr>ft_filter := level\<rparr>))"

definition fault_row_of :: "('j, 'v) qt \<Rightarrow> 'v \<Rightarrow> fault_row" where
  "fault_row_of Q item =
     (let m = to_map Q item
      in \<lparr>fr_code = to_str Q (val Q m ''code''), fr_level = to_str Q (val Q m ''level''),
          fr_node = to_str Q (val Q m ''node''), fr_detail = to_str Q (val Q m ''detail''),
          fr_active = to_bool Q (val_or m ''active'' (of_bool' Q True))\<rparr>)"

definition rank :: "string \<Rightarrow> nat" where
  "rank lv = (if lv = ''ERROR'' then 0 else if lv = ''WARN'' then 1 else 2)"

definition fault_before :: "('j, 'v) qt \<Rightarrow> fault_row \<Rightarrow> fault_row \<Rightarrow> bool" where
  "fault_before Q a b \<longleftrightarrow>
     (if rank (fr_level a) \<noteq> rank (fr_level b) then rank (fr_level a) < rank (fr_level b)
      else str_less Q (fr_code a) (fr_code b))"

type_synonym std_sort = "(fault_row \<Rightarrow> fault_row \<Rightarrow> bool) \<Rightarrow> fault_row list \<Rightarrow> fault_row list"

definition set_faults :: "('j, 'v) qt \<Rightarrow> std_sort \<Rightarrow> 'v list \<Rightarrow> fault_table \<Rightarrow> fault_table" where
  "set_faults Q srt faults t =
     rebuild_visible (t\<lparr>ft_all := srt (fault_before Q) (map (fault_row_of Q) faults)\<rparr>)"

section \<open>The node table\<close>

record node_row =
  nr_name :: string
  nr_status :: string
  nr_last_hb :: int

definition NameRole :: int where "NameRole = UserRole + 1"
definition StatusRole :: int where "StatusRole = NameRole + 1"
definition LastHbRole :: int where "LastHbRole = StatusRole + 1"

definition node_rows :: "model_index \<Rightarrow> node_row list \<Rightarrow> int" where
  "node_rows parent rows = (if mi_valid parent then 0 else int (length rows))"

definition node_columns :: "model_index \<Rightarrow> int" where
  "node_columns parent = (if mi_valid parent then 0 else 3)"

definition node_data :: "('j, 'v) qt \<Rightarrow> model_index \<Rightarrow> int \<Rightarrow> node_row list \<Rightarrow> 'v" where
  "node_data Q ix role rows =
     (if \<not> mi_valid ix \<or> mi_row ix < 0 \<or> mi_row ix \<ge> int (length rows) then invalid Q
      else let row = rows ! nat (mi_row ix) in
        if role = DisplayRole \<or> role = NameRole
        then if mi_column ix = 0 \<or> role = NameRole then of_str Q (nr_name row)
             else if mi_column ix = 1 then of_str Q (nr_status row)
             else of_longlong Q (nr_last_hb row)
        else if role = StatusRole then of_str Q (nr_status row)
        else if role = LastHbRole then of_longlong Q (nr_last_hb row)
        else invalid Q)"

definition node_role_names :: "int \<rightharpoonup> string" where
  "node_role_names = [NameRole \<mapsto> ''name'', StatusRole \<mapsto> ''status'', LastHbRole \<mapsto> ''lastHbMs'']"

definition node_header :: "int \<Rightarrow> string" where
  "node_header section =
     (if section = 0 then ''name'' else if section = 1 then ''status''
      else if section = 2 then ''last_hb'' else [])"

definition node_row_of :: "('j, 'v) qt \<Rightarrow> 'v \<Rightarrow> node_row" where
  "node_row_of Q item =
     (let m = to_map Q item
      in \<lparr>nr_name = to_str Q (val Q m ''name''), nr_status = to_str Q (val Q m ''status''),
          nr_last_hb = to_longlong Q (val Q m ''last_hb_ms'')\<rparr>)"

definition set_nodes :: "('j, 'v) qt \<Rightarrow> 'v list \<Rightarrow> node_row list" where
  "set_nodes Q nodes = map (node_row_of Q) nodes"

section \<open>Sorting\<close>

text \<open>What C++ promises of \<open>std::sort\<close> for a strict weak order.\<close>

definition weak_order :: "('a \<Rightarrow> 'a \<Rightarrow> bool) \<Rightarrow> bool" where
  "weak_order lt \<longleftrightarrow> (\<forall>x. \<not> lt x x) \<and> (\<forall>x y z. lt x y \<and> lt y z \<longrightarrow> lt x z) \<and>
     (\<forall>x y z. \<not> lt x y \<and> \<not> lt y z \<longrightarrow> \<not> lt x z)"

definition sorts :: "std_sort \<Rightarrow> bool" where
  "sorts srt \<longleftrightarrow> (\<forall>lt xs. weak_order lt \<longrightarrow>
     mset (srt lt xs) = mset xs \<and> sorted_wrt (\<lambda>a b. \<not> lt b a) (srt lt xs))"

definition in_order :: "('j, 'v) qt \<Rightarrow> fault_row \<Rightarrow> fault_row \<Rightarrow> bool" where
  "in_order Q a b \<longleftrightarrow> rank (fr_level a) < rank (fr_level b) \<or>
     rank (fr_level a) = rank (fr_level b) \<and> \<not> str_less Q (fr_code b) (fr_code a)"

lemma not_before: "\<not> fault_before Q b a \<longleftrightarrow> in_order Q a b"
  by (auto simp: fault_before_def in_order_def)

lemma in_order_trans:
  assumes "qt_laws Q" and "in_order Q a b" and "in_order Q b c"
  shows "in_order Q a c"
proof -
  have trans: "str_less Q x y \<Longrightarrow> str_less Q y z \<Longrightarrow> str_less Q x z"
    and linear: "str_less Q x y \<or> x = y \<or> str_less Q y x" for x y z
    using assms(1) unfolding qt_laws_def by blast+
  have less: "str_less Q (fr_code c) (fr_code a) \<Longrightarrow> str_less Q (fr_code b) (fr_code a) \<or> str_less Q (fr_code c) (fr_code b)"
    using trans [of "fr_code c" "fr_code a" "fr_code b"] linear [of "fr_code a" "fr_code b"] by auto
  show ?thesis
  proof (cases "rank (fr_level a) < rank (fr_level c)")
    case False
    then have "rank (fr_level a) = rank (fr_level b)" "rank (fr_level b) = rank (fr_level c)"
      using assms(2,3) by (auto simp: in_order_def)
    then show ?thesis using assms(2,3) less by (auto simp: in_order_def)
  qed (simp add: in_order_def)
qed

lemma fault_before_weak:
  assumes "qt_laws Q"
  shows "weak_order (fault_before Q)"
  unfolding weak_order_def
proof (intro conjI allI impI)
  have less: "\<not> str_less Q x x" "str_less Q x y \<Longrightarrow> str_less Q y z \<Longrightarrow> str_less Q x z" for x y z
    using assms unfolding qt_laws_def by metis+
  show "\<not> fault_before Q x x" for x by (simp add: fault_before_def less(1))
  show "fault_before Q x z" if "fault_before Q x y \<and> fault_before Q y z" for x y z
  proof (cases "rank (fr_level x) = rank (fr_level y) \<and> rank (fr_level y) = rank (fr_level z)")
    case True
    then show ?thesis using that less(2) by (simp add: fault_before_def) blast
  next
    case False
    then have "rank (fr_level x) < rank (fr_level z)"
      using that by (auto simp: fault_before_def split: if_splits)
    then show ?thesis by (simp add: fault_before_def)
  qed
  show "\<not> fault_before Q x z" if "\<not> fault_before Q x y \<and> \<not> fault_before Q y z" for x y z
    using that in_order_trans [OF assms] unfolding not_before by blast
qed

text \<open>Insertion sort keeps the promise.\<close>

fun insert_row :: "(fault_row \<Rightarrow> fault_row \<Rightarrow> bool) \<Rightarrow> fault_row \<Rightarrow> fault_row list \<Rightarrow> fault_row list" where
  "insert_row lt x [] = [x]"
| "insert_row lt x (y # ys) = (if lt y x then y # insert_row lt x ys else x # y # ys)"

definition insertion_sort :: std_sort where
  "insertion_sort lt xs = foldr (insert_row lt) xs []"

lemma insert_row_set: "mset (insert_row lt x ys) = add_mset x (mset ys)"
  by (induction ys) auto

lemma insert_row_sorted:
  assumes "weak_order lt"
  shows "sorted_wrt (\<lambda>a b. \<not> lt b a) ys \<Longrightarrow> sorted_wrt (\<lambda>a b. \<not> lt b a) (insert_row lt x ys)"
proof (induction ys)
  case (Cons y ys)
  have s: "set (insert_row lt x ys) = insert x (set ys)"
    using insert_row_set [of lt x ys] by (metis set_mset_add_mset_insert set_mset_mset)
  show ?case
  proof (cases "lt y x")
    case True
    then have "\<not> lt x y" using assms unfolding weak_order_def by blast
    then show ?thesis using Cons True by (simp add: s)
  next
    case False
    then have "\<not> lt z x" if "\<not> lt z y" for z using assms that unfolding weak_order_def by blast
    then show ?thesis using Cons.prems False by simp
  qed
qed simp

lemma insertion_sort_sorts: "sorts insertion_sort"
proof -
  have "mset (insertion_sort lt xs) = mset xs" for lt xs
    by (induction xs) (simp_all add: insertion_sort_def insert_row_set)
  moreover have "weak_order lt \<Longrightarrow> sorted_wrt (\<lambda>a b. \<not> lt b a) (insertion_sort lt xs)" for lt xs
    by (induction xs) (simp_all add: insertion_sort_def insert_row_sorted)
  ultimately show ?thesis by (simp add: sorts_def)
qed

section \<open>What the fault table shows\<close>

datatype 'v table_op = SetFaults "'v list" | SetLevelFilter string

fun table_do :: "('j, 'v) qt \<Rightarrow> std_sort \<Rightarrow> 'v table_op \<Rightarrow> fault_table \<Rightarrow> fault_table" where
  "table_do Q srt (SetFaults faults) = set_faults Q srt faults"
| "table_do Q srt (SetLevelFilter level) = set_level_filter level"

text \<open>The contents as the operations so far left them.\<close>

fun last_faults :: "'v list \<Rightarrow> 'v table_op list \<Rightarrow> 'v list" where
  "last_faults fs [] = fs"
| "last_faults fs (SetFaults faults # ops) = last_faults faults ops"
| "last_faults fs (SetLevelFilter _ # ops) = last_faults fs ops"

fun last_filter :: "string \<Rightarrow> 'v table_op list \<Rightarrow> string" where
  "last_filter l [] = l"
| "last_filter l (SetFaults _ # ops) = last_filter l ops"
| "last_filter l (SetLevelFilter level # ops) = last_filter level ops"

definition faults_ok :: "('j, 'v) qt \<Rightarrow> 'v list \<Rightarrow> fault_table \<Rightarrow> bool" where
  "faults_ok Q faults t \<longleftrightarrow> mset (ft_all t) = mset (map (fault_row_of Q) faults) \<and>
     sorted_wrt (in_order Q) (ft_all t) \<and>
     ft_visible t = filter (\<lambda>r. ft_filter t = [] \<or> fr_level r = ft_filter t) (ft_all t)"

lemma table_run:
  assumes "qt_laws Q" and "sorts srt" and "faults_ok Q fs t"
  shows "faults_ok Q (last_faults fs ops) (fold (table_do Q srt) ops t) \<and>
    ft_filter (fold (table_do Q srt) ops t) = last_filter (ft_filter t) ops"
  using assms(3)
proof (induction ops arbitrary: fs t)
  case (Cons op ops)
  show ?case
  proof (cases op)
    case (SetFaults faults)
    have "(\<lambda>a b. \<not> fault_before Q b a) = in_order Q" by (simp add: fun_eq_iff not_before)
    then have "mset (srt (fault_before Q) xs) = mset xs \<and> sorted_wrt (in_order Q) (srt (fault_before Q) xs)" for xs
      using assms(2) fault_before_weak [OF assms(1)] unfolding sorts_def by metis
    then have "faults_ok Q faults (set_faults Q srt faults t)"
      by (simp add: faults_ok_def set_faults_def rebuild_visible_def del: map_map)
    from Cons.IH [OF this] show ?thesis by (simp add: SetFaults set_faults_def rebuild_visible_def)
  next
    case (SetLevelFilter level)
    have "faults_ok Q fs (set_level_filter level t)"
      using Cons.prems by (simp add: faults_ok_def set_level_filter_def rebuild_visible_def)
    moreover have "ft_filter (set_level_filter level t) = level"
      by (simp add: set_level_filter_def rebuild_visible_def)
    ultimately show ?thesis using Cons.IH [of fs "set_level_filter level t"] by (simp add: SetLevelFilter)
  qed
qed simp

text \<open>C32: The fault table shows exactly the reported faults that pass the filter, errors first, then
  warnings, then the rest, and by code within each: whatever faults were set and filters chosen
  before, for every sorting routine that keeps what C++ promises.\<close>

theorem fault_table_shows_sorted_faults:
  assumes "qt_laws Q" and "sorts srt"
  shows "let t = fold (table_do Q srt) ops init_faults; level = last_filter [] ops in
    mset (ft_visible t) = mset (filter (\<lambda>r. level = [] \<or> fr_level r = level)
      (map (fault_row_of Q) (last_faults [] ops))) \<and> sorted_wrt (in_order Q) (ft_visible t)"
proof -
  let ?t = "fold (table_do Q srt) ops init_faults"
  have "faults_ok Q [] init_faults" by (simp add: faults_ok_def init_faults_def)
  from table_run [OF assms this, of ops] have ok: "faults_ok Q (last_faults [] ops) ?t"
    and l: "ft_filter ?t = last_filter [] ops" by (simp_all add: init_faults_def)
  then show ?thesis
    by (simp add: faults_ok_def Let_def sorted_wrt_filter mset_filter del: map_map)
qed

theorem fault_table_shows_sorted_faults_witness:
  "\<exists>w e. ft_visible (fold (table_do tree_qt insertion_sort)
      [SetFaults [Fields [(''code'', Text ''W_NAV''), (''level'', Text ''WARN'')],
                  Fields [(''code'', Text ''E_STUCK''), (''level'', Text ''ERROR'')]]] init_faults) = [e, w] \<and>
     fr_level e = ''ERROR'' \<and> fr_level w = ''WARN'' \<and> sorted_wrt (in_order tree_qt) [e, w]"
  using fault_table_shows_sorted_faults [OF tree_qt_laws insertion_sort_sorts,
      of "[SetFaults [Fields [(''code'', Text ''W_NAV''), (''level'', Text ''WARN'')],
                  Fields [(''code'', Text ''E_STUCK''), (''level'', Text ''ERROR'')]]]"]
  by (simp add: Let_def set_faults_def rebuild_visible_def init_faults_def insertion_sort_def
      fault_before_def fault_row_of_def val_def val_or_def tree_qt_def rank_def)

end
