(* ===== verification/Ui_Frame_Codec.thy ===== *)
theory Ui_Frame_Codec
  imports Frame_Codec
begin

unbundle bit_operations_syntax

text \<open>
  The operator console's own frame codec (\<open>ui/botcockpit/src/frame_codec.cpp\<close>), a second
  implementation of the format of \<open>Frame_Codec\<close>: the encoder, the decoder's buffer operations
  and the loop of \<open>SocketWorker::onReadyRead\<close> that takes every complete frame. It is
  translated on its own and interpreted as a \<open>frame_stream\<close> of its own; the equivalence
  with the bridge's codec then gives that each side reads what the other writes.
\<close>

section \<open>The codec\<close>

record ui_frame =
  ui_type :: u8
  ui_flags :: u8
  ui_seq :: u16
  ui_payload :: string

definition ui_kMinFrameLength :: u32 where
  "ui_kMinFrameLength = 4"

definition ui_kMaxFrameLength :: u32 where
  "ui_kMaxFrameLength = 64 * 1024"

definition ui_encode_frame :: "u8 \<Rightarrow> u8 \<Rightarrow> u16 \<Rightarrow> string \<Rightarrow> bytes" where
  "ui_encode_frame ty flags sq payload =
     (let len = 4 + (word_of_nat (length payload) :: u32)
      in [ucast (len AND 0xFF),
          ucast (drop_bit 8 len AND 0xFF),
          ucast (drop_bit 16 len AND 0xFF),
          ucast (drop_bit 24 len AND 0xFF),
          ty,
          flags,
          ucast (sq AND 0xFF),
          ucast (drop_bit 8 sq AND 0xFF)] @ map byte_of_char payload)"

text \<open>\<open>append\<close> takes a pointer that may be null: \<open>None\<close>.\<close>

definition ui_decoder_append :: "bytes \<Rightarrow> bytes option \<Rightarrow> bytes" where
  "ui_decoder_append buf data = (case data of None \<Rightarrow> buf | Some d \<Rightarrow> if d = [] then buf else buf @ d)"

definition ui_frame_length_of :: "bytes \<Rightarrow> u32" where
  "ui_frame_length_of buf =
     ucast (buf ! 0) OR push_bit 8 (ucast (buf ! 1)) OR
     push_bit 16 (ucast (buf ! 2)) OR push_bit 24 (ucast (buf ! 3))"

definition ui_decoder_next :: "bytes \<Rightarrow> bytes \<times> ui_frame option" where
  "ui_decoder_next buf =
     (if length buf < 4 then (buf, None)
      else let len = ui_frame_length_of buf in
        if len < ui_kMinFrameLength \<or> len > ui_kMaxFrameLength then ([], None)
        else if length buf < unat (4 + len) then (buf, None)
        else (drop (4 + unat len) buf,
              Some \<lparr>ui_type = buf ! 4, ui_flags = buf ! 5,
                    ui_seq = ucast (buf ! 6) OR push_bit 8 (ucast (buf ! 7)),
                    ui_payload = map char_of_byte (drop 8 (take (4 + unat len) buf))\<rparr>))"

definition ui_decoder_clear :: "bytes \<Rightarrow> bytes" where
  "ui_decoder_clear buf = []"

section \<open>Equivalence with the bridge's codec\<close>

definition bridge_frame :: "ui_frame \<Rightarrow> frame" where
  "bridge_frame f = \<lparr>ftype = ui_type f, fflags = ui_flags f, fseq = ui_seq f, fpayload = ui_payload f\<rparr>"

definition ui_frame_of :: "frame \<Rightarrow> ui_frame" where
  "ui_frame_of f = \<lparr>ui_type = ftype f, ui_flags = fflags f, ui_seq = fseq f, ui_payload = fpayload f\<rparr>"

lemma frame_translation [simp]: "bridge_frame (ui_frame_of f) = f" "ui_frame_of (bridge_frame g) = g"
  by (simp_all add: bridge_frame_def ui_frame_of_def)

lemma frame_translation_map [simp]:
  "map bridge_frame (map ui_frame_of fs) = fs" "map ui_frame_of (map bridge_frame gs) = gs"
  by (simp_all add: o_def)

lemma ui_encode_frame_eq: "ui_encode_frame = encode_frame"
  by (simp add: fun_eq_iff ui_encode_frame_def encode_frame_def)

lemma ui_decoder_next_eq: "ui_decoder_next buf = (case decoder_next buf of (r, f) \<Rightarrow> (r, map_option ui_frame_of f))"
  by (simp add: ui_decoder_next_def decoder_next_def ui_frame_length_of_def frame_length_of_def ui_frame_of_def
      ui_kMinFrameLength_def kMinFrameLength_def ui_kMaxFrameLength_def kMaxFrameLength_def Let_def)

lemma ui_decoder_next_shrinks: "ui_decoder_next buf = (buf', Some f) \<Longrightarrow> length buf' < length buf"
  by (auto simp: ui_decoder_next_eq split: prod.splits dest: decoder_next_shrinks)

text \<open>\<open>while (decoder_.next(frame)) handleFrame(frame);\<close>\<close>

function ui_drain :: "bytes \<Rightarrow> ui_frame list \<times> bytes" where
  "ui_drain buf =
     (case ui_decoder_next buf of
        (buf', None) \<Rightarrow> ([], buf')
      | (buf', Some f) \<Rightarrow> (let (fs, r) = ui_drain buf' in (f # fs, r)))"
  by pat_completeness auto
termination
  by (relation "measure length") (auto dest: ui_decoder_next_shrinks [OF sym])

declare ui_drain.simps [simp del]

lemma ui_drain_eq: "ui_drain buf = (case decoder_drain buf of (fs, r) \<Rightarrow> (map ui_frame_of fs, r))"
proof (induction buf rule: decoder_drain.induct)
  case (1 buf)
  obtain r fo where n: "decoder_next buf = (r, fo)" by fastforce
  show ?case
  proof (cases fo)
    case None
    then show ?thesis by (simp add: ui_drain.simps [of buf] decoder_drain.simps [of buf] ui_decoder_next_eq n)
  next
    case (Some f)
    with "1" [of r fo f] n show ?thesis
      by (simp add: ui_drain.simps [of buf] decoder_drain.simps [of buf] ui_decoder_next_eq split_beta)
  qed
qed

lemma ui_feed_all_eq:
  "feed_all ui_drain buf cs = (case feed_all decoder_drain buf cs of (fs, r) \<Rightarrow> (map ui_frame_of fs, r))"
  by (induction cs arbitrary: buf) (simp_all add: ui_drain_eq split_beta)

section \<open>The console's stream\<close>

definition ui_encode :: "ui_frame \<Rightarrow> bytes" where
  "ui_encode f = ui_encode_frame (ui_type f) (ui_flags f) (ui_seq f) (ui_payload f)"

definition ui_frame_ok :: "ui_frame \<Rightarrow> bool" where
  "ui_frame_ok f \<longleftrightarrow> length (ui_payload f) \<le> 65532"

lemma ui_encode_eq: "ui_encode f = encode (bridge_frame f)"
  by (simp add: ui_encode_def encode_def ui_encode_frame_eq bridge_frame_def)

lemma ui_encode_map: "concat (map ui_encode us) = concat (map encode (map bridge_frame us))"
  by (induction us) (simp_all add: ui_encode_eq)

lemma ui_frame_ok_eq: "ui_frame_ok f = frame_ok (bridge_frame f)"
  by (simp add: ui_frame_ok_def frame_ok_def bridge_frame_def)

interpretation ui_codec: frame_stream ui_encode ui_decoder_next ui_drain ui_frame_ok
proof
  fix f and rest :: bytes
  show "ui_frame_ok f \<Longrightarrow> ui_decoder_next (ui_encode f @ rest) = (rest, Some f)"
    by (simp add: ui_decoder_next_eq ui_encode_eq ui_frame_ok_eq bridge_codec.nxt_enc)
next
  fix f and p :: bytes
  show "ui_frame_ok f \<Longrightarrow> strict_prefix p (ui_encode f) \<Longrightarrow> ui_decoder_next p = (p, None)"
    by (simp add: ui_decoder_next_eq ui_encode_eq ui_frame_ok_eq bridge_codec.nxt_partial)
next
  fix f
  show "ui_encode f \<noteq> []" by (simp add: ui_encode_eq bridge_codec.enc_nonempty)
next
  fix buf
  show "ui_drain buf =
    (case ui_decoder_next buf of (buf', None) \<Rightarrow> ([], buf')
     | (buf', Some f) \<Rightarrow> (let (fs, r) = ui_drain buf' in (f # fs, r)))"
    by (rule ui_drain.simps)
qed

text \<open>C33: The two codecs speak the same format. However TCP cuts the stream, the bridge takes from
  the console exactly the frames the console sent, and the console from the bridge exactly those
  of the bridge; the unfinished frame at the end stays in the buffer.\<close>

theorem console_and_bridge_interoperate:
  assumes "list_all ui_frame_ok us" and "list_all frame_ok bs" and "ui_frame_ok u" and "frame_ok b"
    and "strict_prefix p (ui_encode u)" and "strict_prefix q (encode b)"
    and "concat up = concat (map ui_encode us) @ p" and "concat down = concat (map encode bs) @ q"
  shows "feed_all decoder_drain (decoder_clear buf) up = (map bridge_frame us, p) \<and>
    feed_all ui_drain (ui_decoder_clear buf) down = (map ui_frame_of bs, q)"
proof
  have nil: "decoder_drain [] = ([], [])" by (subst decoder_drain.simps) (simp add: decoder_next_def)
  have "concat up = concat (map encode (map bridge_frame us)) @ p" using assms(7) unfolding ui_encode_map .
  moreover have "list_all frame_ok (map bridge_frame us)"
    using assms(1) by (simp add: list_all_iff ui_frame_ok_eq)
  ultimately show "feed_all decoder_drain (decoder_clear buf) up = (map bridge_frame us, p)"
    using assms(3,5) nil unfolding decoder_clear_def
    by (intro bridge_codec.feed_all_stream [of _ "bridge_frame u"]) (simp_all add: ui_frame_ok_eq ui_encode_eq)
  have "ui_drain [] = ([], [])" by (simp add: ui_drain_eq nil)
  moreover have "list_all ui_frame_ok (map ui_frame_of bs)" "ui_frame_ok (ui_frame_of b)"
    using assms(2,4) by (simp_all add: list_all_iff ui_frame_ok_eq)
  moreover have "concat down = concat (map ui_encode (map ui_frame_of bs)) @ q"
    using assms(8) unfolding ui_encode_map frame_translation_map .
  ultimately show "feed_all ui_drain (ui_decoder_clear buf) down = (map ui_frame_of bs, q)"
    using assms(6) unfolding ui_decoder_clear_def
    by (intro ui_codec.feed_all_stream [of _ "ui_frame_of b"]) (simp_all add: ui_encode_eq)
qed

theorem console_and_bridge_interoperate_witness:
  "feed_all decoder_drain (decoder_clear []) [[6, 0, 0], [0, 0x22, 3, 1, 0, 0x7B, 0x7D, 6]] =
     ([\<lparr>ftype = 0x22, fflags = 3, fseq = 1, fpayload = ''{}''\<rparr>], [6])"
proof -
  let ?u = "\<lparr>ui_type = 0x22, ui_flags = 3, ui_seq = 1, ui_payload = ''{}''\<rparr>"
  have e: "ui_encode ?u = [6, 0, 0, 0, 0x22, 3, 1, 0, 0x7B, 0x7D]"
    by (simp add: ui_encode_def ui_encode_frame_def byte_of_char_def of_char_def)
  show ?thesis
    using console_and_bridge_interoperate [of "[?u]" "[]" ?u "bridge_frame ?u" "[6]" "[]"
        "[[6, 0, 0], [0, 0x22, 3, 1, 0, 0x7B, 0x7D, 6]]" "[]" "[]"]
    by (simp add: e ui_encode_eq [symmetric] ui_frame_ok_eq [symmetric]) (simp add: ui_frame_ok_def bridge_frame_def)
qed

end
