(* ===== verification/Console_Worker.thy ===== *)
theory Console_Worker
  imports Qt_Interface Ui_Frame_Codec
begin

text \<open>
  \<open>SocketWorker\<close> (\<open>ui/botcockpit/src/socketworker.cpp\<close>): the console's side of the protocol, on
  its own thread. The TCP socket is Qt's: its state and its operations are parameters
  (\<open>socket_api\<close>), a call that may emit \<open>disconnected()\<close> before it returns says whether it did.
  The slots are state transformers; \<open>w_tx\<close> collects what was written to the socket, \<open>w_out\<close> the
  signals to the controller, which Qt queues. The clock is the sequence \<open>msecs\<close>, read one by one.
\<close>

section \<open>Protocol constants\<close>

definition ui_MSG_HEARTBEAT :: u8 where "ui_MSG_HEARTBEAT = 0x01"
definition ui_MSG_HELLO :: u8 where "ui_MSG_HELLO = 0x02"
definition ui_MSG_HELLO_ACK :: u8 where "ui_MSG_HELLO_ACK = 0x03"
definition ui_MSG_STATE_SNAPSHOT :: u8 where "ui_MSG_STATE_SNAPSHOT = 0x10"
definition ui_MSG_STATE_DELTA :: u8 where "ui_MSG_STATE_DELTA = 0x11"
definition ui_MSG_CMD_MODE :: u8 where "ui_MSG_CMD_MODE = 0x20"
definition ui_MSG_CMD_TASK :: u8 where "ui_MSG_CMD_TASK = 0x21"
definition ui_MSG_CMD_ESTOP :: u8 where "ui_MSG_CMD_ESTOP = 0x22"
definition ui_MSG_CMD_RESET :: u8 where "ui_MSG_CMD_RESET = 0x23"
definition ui_MSG_CMD_ACK :: u8 where "ui_MSG_CMD_ACK = 0x2F"
definition ui_FLAG_NEED_ACK :: u8 where "ui_FLAG_NEED_ACK = 0x01"
definition ui_FLAG_URGENT :: u8 where "ui_FLAG_URGENT = 0x02"

definition kHeartbeatTimeoutMs :: u64 where "kHeartbeatTimeoutMs = 3000"

section \<open>The socket\<close>

datatype sock_state = UnconnectedState | HostLookupState | ConnectingState | ConnectedState
  | BoundState | ClosingState | ListeningState

record 's socket_api =
  so_state :: "'s \<Rightarrow> sock_state"
  so_connect :: "string \<Rightarrow> u16 \<Rightarrow> 's \<Rightarrow> 's"
  so_disconnect :: "'s \<Rightarrow> 's \<times> bool"
  so_abort :: "'s \<Rightarrow> 's \<times> bool"
  so_write :: "bytes \<Rightarrow> 's \<Rightarrow> 's"
  so_read_all :: "'s \<Rightarrow> bytes \<times> 's"
  so_error :: "'s \<Rightarrow> string"

section \<open>State\<close>

datatype 'v worker_signal = WConnected | WDisconnected | WHelloAck "'v dict" | WState "'v dict"
  | WNodes "'v list" | WRtt int | WCmdAck "'v dict" | WError string

text \<open>\<open>last_rx_ms_\<close> is a signed 64-bit number; as a word it is the same pattern.\<close>

record ('v, 's) worker =
  w_socket :: 's
  w_hb_timer :: bool
  w_timeout_timer :: bool
  w_decoder :: bytes
  w_next_seq :: u16
  w_hb_send_ts :: "u16 \<rightharpoonup> int"
  w_pending_cmd_name :: "u16 \<rightharpoonup> string"
  w_last_rx_ms :: u64
  w_hello_sent :: bool
  w_hello_ok :: bool
  w_reads :: nat
  w_tx :: "bytes list"
  w_out :: "'v worker_signal list"

definition init_worker :: "'s \<Rightarrow> ('v, 's) worker" where
  "init_worker so = \<lparr>w_socket = so, w_hb_timer = False, w_timeout_timer = False, w_decoder = [],
     w_next_seq = 1, w_hb_send_ts = Map.empty, w_pending_cmd_name = Map.empty, w_last_rx_ms = 0,
     w_hello_sent = False, w_hello_ok = False, w_reads = 0, w_tx = [], w_out = []\<rparr>"

definition w_emit :: "'v worker_signal \<Rightarrow> ('v, 's) worker \<Rightarrow> ('v, 's) worker" where
  "w_emit sg w = w\<lparr>w_out := w_out w @ [sg]\<rparr>"

text \<open>\<open>QDateTime::currentMSecsSinceEpoch()\<close> and \<open>nowMs()\<close>.\<close>

definition current_msecs :: "('j, 'v) qt \<Rightarrow> ('v, 's) worker \<Rightarrow> int \<times> ('v, 's) worker" where
  "current_msecs Q w = (msecs Q (w_reads w), w\<lparr>w_reads := Suc (w_reads w)\<rparr>)"

definition now_u64 :: "('j, 'v) qt \<Rightarrow> ('v, 's) worker \<Rightarrow> u64 \<times> ('v, 's) worker" where
  "now_u64 Q w = (case current_msecs Q w of (t, w1) \<Rightarrow> (word_of_int t, w1))"

section \<open>Connecting and disconnecting\<close>

definition on_socket_disconnected :: "('v, 's) worker \<Rightarrow> ('v, 's) worker" where
  "on_socket_disconnected w = w_emit WDisconnected (w\<lparr>w_hb_timer := False, w_timeout_timer := False\<rparr>)"

text \<open>A call on the socket that may emit \<open>disconnected()\<close>, with the slot that it runs.\<close>

definition close_call :: "('s \<Rightarrow> 's \<times> bool) \<Rightarrow> ('v, 's) worker \<Rightarrow> ('v, 's) worker" where
  "close_call f w =
     (case f (w_socket w) of (so, emitted) \<Rightarrow>
        let w1 = w\<lparr>w_socket := so\<rparr> in if emitted then on_socket_disconnected w1 else w1)"

definition connect_to_host :: "('j, 'v) qt \<Rightarrow> 's socket_api \<Rightarrow> string \<Rightarrow> int \<Rightarrow> ('v, 's) worker \<Rightarrow> ('v, 's) worker" where
  "connect_to_host Q S host port w =
     (let w1 = (if so_state S (w_socket w) \<noteq> UnconnectedState then close_call (so_abort S) w else w);
          w2 = w1\<lparr>w_decoder := ui_decoder_clear (w_decoder w1), w_hb_send_ts := Map.empty,
            w_pending_cmd_name := Map.empty, w_hello_sent := False, w_hello_ok := False\<rparr>;
          (t, w3) = now_u64 Q w2;
          w4 = w3\<lparr>w_last_rx_ms := t\<rparr>
      in w4\<lparr>w_socket := so_connect S host (word_of_int port) (w_socket w4)\<rparr>)"

definition disconnect_from_host :: "'s socket_api \<Rightarrow> ('v, 's) worker \<Rightarrow> ('v, 's) worker" where
  "disconnect_from_host S w =
     (let w1 = w\<lparr>w_hb_timer := False, w_timeout_timer := False\<rparr>
      in if so_state S (w_socket w1) \<noteq> UnconnectedState
         then let w2 = close_call (so_disconnect S) w1
              in if so_state S (w_socket w2) \<noteq> UnconnectedState then close_call (so_abort S) w2 else w2
         else w1)"

definition fail_and_close :: "'s socket_api \<Rightarrow> string \<Rightarrow> ('v, 's) worker \<Rightarrow> ('v, 's) worker" where
  "fail_and_close S message w = disconnect_from_host S (w_emit (WError message) w)"

section \<open>Sending\<close>

text \<open>\<open>next_seq_++\<close>, stepping over 0.\<close>

definition take_seq :: "('v, 's) worker \<Rightarrow> u16 \<times> ('v, 's) worker" where
  "take_seq w =
     (let sq = w_next_seq w; n = sq + 1 in (sq, w\<lparr>w_next_seq := (if n = 0 then 1 else n)\<rparr>))"

definition w_write :: "'s socket_api \<Rightarrow> bytes \<Rightarrow> ('v, 's) worker \<Rightarrow> ('v, 's) worker" where
  "w_write S bs w = w\<lparr>w_socket := so_write S bs (w_socket w), w_tx := w_tx w @ [bs]\<rparr>"

definition worker_send :: "'s socket_api \<Rightarrow> u8 \<Rightarrow> u8 \<Rightarrow> string \<Rightarrow> ('v, 's) worker \<Rightarrow> u16 \<times> ('v, 's) worker" where
  "worker_send S ty flags payload w =
     (if so_state S (w_socket w) \<noteq> ConnectedState then (0, w)
      else case take_seq w of (sq, w1) \<Rightarrow> (sq, w_write S (ui_encode_frame ty flags sq payload) w1))"

definition note_cmd :: "string \<Rightarrow> u16 \<times> ('v, 's) worker \<Rightarrow> ('v, 's) worker" where
  "note_cmd name r =
     (case r of (sq, w) \<Rightarrow>
        if sq \<noteq> 0 then w\<lparr>w_pending_cmd_name := (w_pending_cmd_name w)(sq \<mapsto> name)\<rparr> else w)"

definition send_cmd_mode :: "('j, 'v) qt \<Rightarrow> 's socket_api \<Rightarrow> string \<Rightarrow> ('v, 's) worker \<Rightarrow> ('v, 's) worker" where
  "send_cmd_mode Q S mode w =
     note_cmd ''CMD_MODE'' (worker_send S ui_MSG_CMD_MODE ui_FLAG_NEED_ACK
       (j_compact Q [''mode'' \<mapsto> j_of_string Q mode]) w)"

definition send_cmd_task :: "('j, 'v) qt \<Rightarrow> 's socket_api \<Rightarrow> string \<Rightarrow> string \<Rightarrow> double \<Rightarrow> double \<Rightarrow> double \<Rightarrow>
    ('v, 's) worker \<Rightarrow> ('v, 's) worker" where
  "send_cmd_task Q S task_id ty x y timeout_s w =
     (let ob = [''task_id'' \<mapsto> j_of_string Q task_id, ''type'' \<mapsto> j_of_string Q ty];
          ob1 = (if ty = ''goto''
                 then ob(''x'' \<mapsto> j_of_double Q x, ''y'' \<mapsto> j_of_double Q y, ''timeout_s'' \<mapsto> j_of_double Q timeout_s)
                 else ob)
      in note_cmd ''CMD_TASK'' (worker_send S ui_MSG_CMD_TASK ui_FLAG_NEED_ACK (j_compact Q ob1) w))"

definition send_cmd_estop :: "('j, 'v) qt \<Rightarrow> 's socket_api \<Rightarrow> string \<Rightarrow> ('v, 's) worker \<Rightarrow> ('v, 's) worker" where
  "send_cmd_estop Q S reason w =
     note_cmd ''CMD_ESTOP'' (worker_send S ui_MSG_CMD_ESTOP (or ui_FLAG_URGENT ui_FLAG_NEED_ACK)
       (j_compact Q [''reason'' \<mapsto> j_of_string Q reason]) w)"

definition send_cmd_reset :: "('j, 'v) qt \<Rightarrow> 's socket_api \<Rightarrow> ('v, 's) worker \<Rightarrow> ('v, 's) worker" where
  "send_cmd_reset Q S w =
     note_cmd ''CMD_RESET'' (worker_send S ui_MSG_CMD_RESET ui_FLAG_NEED_ACK
       (j_compact Q [''confirm'' \<mapsto> j_of_bool Q True]) w)"

definition hello_object :: "('j, 'v) qt \<Rightarrow> 'j dict" where
  "hello_object Q = [''client'' \<mapsto> j_of_string Q ''BotCockpit'', ''ui_version'' \<mapsto> j_of_string Q ''0.1.0'',
     ''proto_min'' \<mapsto> j_of_string Q ''0.1'', ''proto_max'' \<mapsto> j_of_string Q ''0.1'']"

definition on_socket_connected :: "('j, 'v) qt \<Rightarrow> 's socket_api \<Rightarrow> ('v, 's) worker \<Rightarrow> ('v, 's) worker" where
  "on_socket_connected Q S w =
     (let (t, w1) = now_u64 Q (w_emit WConnected w);
          w2 = w1\<lparr>w_last_rx_ms := t\<rparr>;
          w3 = snd (worker_send S ui_MSG_HELLO 0 (j_compact Q (hello_object Q)) w2)
      in w3\<lparr>w_hello_sent := True, w_hb_timer := True, w_timeout_timer := True\<rparr>)"

section \<open>Timers\<close>

definition on_heartbeat_tick :: "('j, 'v) qt \<Rightarrow> 's socket_api \<Rightarrow> ('v, 's) worker \<Rightarrow> ('v, 's) worker" where
  "on_heartbeat_tick Q S w =
     (if so_state S (w_socket w) \<noteq> ConnectedState then w
      else let (ts, w1) = current_msecs Q w;
               payload = j_compact Q [''ts_ms'' \<mapsto> j_of_longlong Q ts, ''role'' \<mapsto> j_of_string Q ''console''];
               (sq, w2) = take_seq w1;
               w3 = w2\<lparr>w_hb_send_ts := (w_hb_send_ts w2)(sq \<mapsto> ts)\<rparr>
           in w_write S (ui_encode_frame ui_MSG_HEARTBEAT 0 sq payload) w3)"

text \<open>The lambda of \<open>timeout_timer_\<close>: an unsigned difference.\<close>

definition on_timeout_tick :: "('j, 'v) qt \<Rightarrow> 's socket_api \<Rightarrow> ('v, 's) worker \<Rightarrow> ('v, 's) worker" where
  "on_timeout_tick Q S w =
     (if so_state S (w_socket w) \<noteq> ConnectedState then w
      else if w_last_rx_ms w = 0 then w
      else case now_u64 Q w of (t, w1) \<Rightarrow>
        if t - w_last_rx_ms w1 > kHeartbeatTimeoutMs then fail_and_close S ''heartbeat timeout'' w1 else w1)"

section \<open>Receiving\<close>

definition variant_map :: "('j, 'v) qt \<Rightarrow> 'j dict \<Rightarrow> 'v dict" where
  "variant_map Q ob = (\<lambda>k. map_option (j_variant Q) (ob k))"

definition hello_info :: "('j, 'v) qt \<Rightarrow> 'j dict \<Rightarrow> 'v dict" where
  "hello_info Q ob = [''ok'' \<mapsto> of_bool' Q (j_bool Q (jval Q ob ''ok'')),
     ''proto'' \<mapsto> of_str Q (j_string Q (jval Q ob ''proto'')),
     ''server'' \<mapsto> of_str Q (j_string Q (jval Q ob ''server'')),
     ''reason'' \<mapsto> of_str Q (j_string Q (jval Q ob ''reason''))]"

definition on_bridge_heartbeat :: "('j, 'v) qt \<Rightarrow> u16 \<Rightarrow> ('v, 's) worker \<Rightarrow> ('v, 's) worker" where
  "on_bridge_heartbeat Q sq w =
     (let send_ts = (case w_hb_send_ts w sq of None \<Rightarrow> 0 | Some ts \<Rightarrow> ts);
          w1 = w\<lparr>w_hb_send_ts := (w_hb_send_ts w)(sq := None)\<rparr>
      in if send_ts > 0
         then case current_msecs Q w1 of (t, w2) \<Rightarrow> w_emit (WRtt (sint (word_of_int (t - send_ts) :: u32))) w2
         else w1)"

definition full_ack :: "('j, 'v) qt \<Rightarrow> 'j dict \<Rightarrow> u16 \<Rightarrow> ('v, 's) worker \<Rightarrow> 'v dict" where
  "full_ack Q ob sq w =
     (let ack = variant_map Q ob;
          ack1 = (if \<not> has ack ''seq'' \<or> is_null Q (val Q ack ''seq'')
                  then ack(''seq'' \<mapsto> of_ushort Q sq) else ack)
      in if \<not> has ack1 ''cmd''
         then ack1(''cmd'' \<mapsto> of_str Q (case w_pending_cmd_name w sq of None \<Rightarrow> [] | Some nm \<Rightarrow> nm))
         else ack1)"

definition worker_frame :: "('j, 'v) qt \<Rightarrow> ui_frame \<Rightarrow> ('v, 's) worker \<Rightarrow> ('v, 's) worker" where
  "worker_frame Q f w =
     (let ob = j_object Q (ui_payload f) in
      if ui_type f = ui_MSG_HELLO_ACK
      then w_emit (WHelloAck (hello_info Q ob)) (w\<lparr>w_hello_ok := j_bool Q (jval Q ob ''ok'')\<rparr>)
      else if ui_type f = ui_MSG_HEARTBEAT
      then if j_string Q (jval Q ob ''role'') = ''bridge'' then on_bridge_heartbeat Q (ui_seq f) w else w
      else if ui_type f = ui_MSG_STATE_SNAPSHOT \<or> ui_type f = ui_MSG_STATE_DELTA
      then let w1 = w_emit (WState (variant_map Q ob)) w
           in if has ob ''nodes''
              then w_emit (WNodes (map (j_variant Q) (j_array Q (jval Q ob ''nodes'')))) w1 else w1
      else if ui_type f = ui_MSG_CMD_ACK
      then w_emit (WCmdAck (full_ack Q ob (ui_seq f) w))
             (w\<lparr>w_pending_cmd_name := (w_pending_cmd_name w)(ui_seq f := None)\<rparr>)
      else w)"

definition on_ready_read :: "('j, 'v) qt \<Rightarrow> 's socket_api \<Rightarrow> ('v, 's) worker \<Rightarrow> ('v, 's) worker" where
  "on_ready_read Q S w =
     (let (data, so) = so_read_all S (w_socket w);
          (t, w1) = now_u64 Q (w\<lparr>w_socket := so\<rparr>);
          w2 = w1\<lparr>w_last_rx_ms := t\<rparr>;
          (fs, buf) = ui_drain (ui_decoder_append (w_decoder w2) (Some data))
      in fold (worker_frame Q) fs (w2\<lparr>w_decoder := buf\<rparr>))"

section \<open>The worker's thread\<close>

text \<open>
  What the event loop delivers: calls queued by the controller, signals of the socket (with the
  socket as Qt left it), ticks of the timers that run.
\<close>

datatype worker_call = StartWorker string int | StopWorker | WorkerCmdMode string
  | WorkerCmdTask string string double double double | WorkerCmdEstop string | WorkerCmdReset

fun do_call :: "('j, 'v) qt \<Rightarrow> 's socket_api \<Rightarrow> worker_call \<Rightarrow> ('v, 's) worker \<Rightarrow> ('v, 's) worker" where
  "do_call Q S (StartWorker host port) = connect_to_host Q S host port"
| "do_call Q S StopWorker = disconnect_from_host S"
| "do_call Q S (WorkerCmdMode mode) = send_cmd_mode Q S mode"
| "do_call Q S (WorkerCmdTask task_id ty x y timeout_s) = send_cmd_task Q S task_id ty x y timeout_s"
| "do_call Q S (WorkerCmdEstop reason) = send_cmd_estop Q S reason"
| "do_call Q S WorkerCmdReset = send_cmd_reset Q S"

datatype 's loop_event = SockConnected 's | SockDisconnected 's | SockReadyRead 's | SockError 's
  | HeartbeatTick | TimeoutTick

fun event_loop :: "('j, 'v) qt \<Rightarrow> 's socket_api \<Rightarrow> 's loop_event \<Rightarrow> ('v, 's) worker \<Rightarrow> ('v, 's) worker" where
  "event_loop Q S (SockConnected so) w = on_socket_connected Q S (w\<lparr>w_socket := so\<rparr>)"
| "event_loop Q S (SockDisconnected so) w = on_socket_disconnected (w\<lparr>w_socket := so\<rparr>)"
| "event_loop Q S (SockReadyRead so) w = on_ready_read Q S (w\<lparr>w_socket := so\<rparr>)"
| "event_loop Q S (SockError so) w = fail_and_close S (so_error S so) (w\<lparr>w_socket := so\<rparr>)"
| "event_loop Q S HeartbeatTick w = (if w_hb_timer w then on_heartbeat_tick Q S w else w)"
| "event_loop Q S TimeoutTick w = (if w_timeout_timer w then on_timeout_tick Q S w else w)"

end
