(* ===== verification/Console_Connection.thy ===== *)
theory Console_Connection
  imports Console_View Console_Tables Console_Worker
begin

text \<open>
  \<open>ConnectionController\<close> (\<open>ui/botcockpit/src/connectioncontroller.cpp\<close>): the session of the
  console, on the thread of the user interface. It owns the property object and the node table,
  schedules reconnects, and talks to the worker through queued calls and signals. The pointers to
  the property object and the node table are set once, in \<open>main\<close>, and the branches for missing
  ones are left out. \<open>console_step\<close> is the whole process: both threads, their queues and what
  the user does.
\<close>

section \<open>State\<close>

text \<open>\<open>k_timer\<close> is the single-shot reconnect timer with its delay while it runs; \<open>k_calls\<close> the
  calls to the worker that Qt has queued.\<close>

record 'v controller =
  k_view :: "'v view"
  k_nodes :: "node_row list"
  k_faults :: fault_table
  k_timer :: "int option"
  k_last_host :: string
  k_last_port :: int
  k_backoff_s :: int
  k_manual_disconnect :: bool
  k_reconnect_pending :: bool
  k_hello_ok :: bool
  k_calls :: "worker_call list"

definition init_controller :: "'v controller" where
  "init_controller = \<lparr>k_view = init_view, k_nodes = [], k_faults = init_faults, k_timer = None,
     k_last_host = [], k_last_port = 8765, k_backoff_s = 1, k_manual_disconnect = False,
     k_reconnect_pending = False, k_hello_ok = False, k_calls = []\<rparr>"

definition on_view :: "('v view \<Rightarrow> 'v view) \<Rightarrow> 'v controller \<Rightarrow> 'v controller" where
  "on_view f k = k\<lparr>k_view := f (k_view k)\<rparr>"

definition log_text :: "('j, 'v) qt \<Rightarrow> string \<Rightarrow> 'v controller \<Rightarrow> 'v controller" where
  "log_text Q line = on_view (append_log Q line)"

definition k_emit :: "worker_call \<Rightarrow> 'v controller \<Rightarrow> 'v controller" where
  "k_emit c k = k\<lparr>k_calls := k_calls k @ [c]\<rparr>"

section \<open>What the user does\<close>

definition connect_to_server :: "('j, 'v) qt \<Rightarrow> string \<Rightarrow> int \<Rightarrow> 'v controller \<Rightarrow> 'v controller" where
  "connect_to_server Q host port k =
     (let k1 = k\<lparr>k_manual_disconnect := False, k_backoff_s := 1, k_timer := None\<rparr>
      in if v_connected (k_view k1) \<or> v_connecting (k_view k1) then k1
         else let k2 = k1\<lparr>k_last_host := host, k_last_port := port\<rparr>;
                  k3 = on_view (set_error_string [] \<circ> set_connecting True \<circ> set_endpoint host port) k2;
                  k4 = log_text Q (arg_int Q (arg Q (tr Q ''connect %1:%2'') host) port) k3
              in k_emit (StartWorker host port) k4)"

definition disconnect_from_server :: "('j, 'v) qt \<Rightarrow> 'v controller \<Rightarrow> 'v controller" where
  "disconnect_from_server Q k =
     (let k1 = k\<lparr>k_manual_disconnect := True, k_timer := None\<rparr>;
          k2 = log_text Q (tr Q ''manual disconnect'') (on_view (set_reconnect_attempts 0) k1)
      in k_emit StopWorker k2)"

definition cmd_mode_click :: "('j, 'v) qt \<Rightarrow> string \<Rightarrow> 'v controller \<Rightarrow> 'v controller" where
  "cmd_mode_click Q mode k =
     (if \<not> v_connected (k_view k) then k
      else k_emit (WorkerCmdMode mode) (log_text Q (arg Q (tr Q ''CMD_MODE %1'') mode) k))"

definition cmd_task_goto :: "('j, 'v) qt \<Rightarrow> string \<Rightarrow> double \<Rightarrow> double \<Rightarrow> 'v controller \<Rightarrow> 'v controller" where
  "cmd_task_goto Q task_id x y k =
     (if \<not> v_connected (k_view k) then k
      else let id = trimmed Q task_id;
               line = arg_double Q (arg_double Q (arg Q (tr Q ''CMD_TASK goto id=%1 (%2,%3)'')
                 (if id = [] then ''auto'' else id)) x) y
           in k_emit (WorkerCmdTask id ''goto'' x y (fp_lit binary64 30 1)) (log_text Q line k))"

definition cmd_task_simple :: "('j, 'v) qt \<Rightarrow> string \<Rightarrow> 'v controller \<Rightarrow> 'v controller" where
  "cmd_task_simple Q ty k =
     (if \<not> v_connected (k_view k) then k
      else k_emit (WorkerCmdTask [] ty zero zero zero) (log_text Q (arg Q (tr Q ''CMD_TASK %1'') ty) k))"

definition cmd_estop_click :: "('j, 'v) qt \<Rightarrow> string \<Rightarrow> 'v controller \<Rightarrow> 'v controller" where
  "cmd_estop_click Q reason k =
     (if \<not> v_connected (k_view k) then k
      else k_emit (WorkerCmdEstop reason) (log_text Q (arg Q (tr Q ''CMD_ESTOP %1'') reason) k))"

definition cmd_reset_click :: "('j, 'v) qt \<Rightarrow> 'v controller \<Rightarrow> 'v controller" where
  "cmd_reset_click Q k =
     (if \<not> v_connected (k_view k) then k
      else k_emit WorkerCmdReset (log_text Q (tr Q ''CMD_RESET'') k))"

section \<open>Reconnecting\<close>

text \<open>The em dash of the log line, in UTF-8.\<close>

definition reconnect_line :: string where
  "reconnect_line = ''reconnect in %1s (%2) '' @ [CHR 0xE2, CHR 0x80, CHR 0x94] @ '' %3''"

definition schedule_reconnect :: "('j, 'v) qt \<Rightarrow> string \<Rightarrow> 'v controller \<Rightarrow> 'v controller" where
  "schedule_reconnect Q why k =
     (if k_manual_disconnect k \<or> \<not> v_auto_reconnect (k_view k) then k
      else if k_last_host k = [] then k
      else if k_reconnect_pending k \<and> k_timer k \<noteq> None then k
      else let k1 = k\<lparr>k_reconnect_pending := True\<rparr>;
               k2 = on_view (set_reconnect_attempts (v_reconnect_attempts (k_view k1) + 1)) k1;
               delay = k_backoff_s k2;
               k3 = k2\<lparr>k_backoff_s := min (k_backoff_s k2 * 2) 10\<rparr>;
               line = arg Q (arg_int Q (arg_int Q (tr Q reconnect_line) delay)
                 (v_reconnect_attempts (k_view k3))) why;
               k4 = log_text Q line k3
           in k4\<lparr>k_timer := Some (delay * 1000)\<rparr>)"

definition on_reconnect_timer :: "'v controller \<Rightarrow> 'v controller" where
  "on_reconnect_timer k =
     (let k1 = k\<lparr>k_reconnect_pending := False\<rparr>
      in if k_manual_disconnect k1 then k1
         else if v_connected (k_view k1) then k1
         else let k2 = on_view (set_error_string [] \<circ> set_connecting True) k1;
                  k3 = k2\<lparr>k_hello_ok := False\<rparr>
              in k_emit (StartWorker (k_last_host k3) (k_last_port k3)) k3)"

section \<open>Signals of the worker\<close>

text \<open>The ellipsis of the log line, in UTF-8.\<close>

definition waiting_line :: string where
  "waiting_line = ''TCP connected, waiting HELLO'' @ [CHR 0xE2, CHR 0x80, CHR 0xA6]"

definition on_connected :: "('j, 'v) qt \<Rightarrow> 'v controller \<Rightarrow> 'v controller" where
  "on_connected Q k =
     (let k1 = k\<lparr>k_timer := None, k_reconnect_pending := False, k_hello_ok := False\<rparr>
      in log_text Q (tr Q waiting_line)
           (on_view (set_error_string [] \<circ> set_connected False \<circ> set_connecting True) k1))"

definition on_disconnected :: "('j, 'v) qt \<Rightarrow> 'v controller \<Rightarrow> 'v controller" where
  "on_disconnected Q k =
     (let was_hello = k_hello_ok k;
          k1 = on_view (reset_remote \<circ> set_connected False \<circ> set_connecting False) (k\<lparr>k_hello_ok := False\<rparr>);
          k2 = log_text Q (tr Q ''disconnected'') (k1\<lparr>k_nodes := set_nodes Q []\<rparr>)
      in if \<not> was_hello \<and> \<not> k_manual_disconnect k2
         then schedule_reconnect Q ''tcp/protocol disconnect'' k2
         else schedule_reconnect Q ''disconnect'' k2)"

definition on_hello_ack :: "('j, 'v) qt \<Rightarrow> 'v dict \<Rightarrow> 'v controller \<Rightarrow> 'v controller" where
  "on_hello_ack Q info k =
     (if \<not> to_bool Q (val Q info ''ok'')
      then let reason = to_str Q (val Q info ''reason'');
               k1 = log_text Q (arg Q (tr Q ''HELLO rejected: %1'') reason) (on_view (set_error_string reason) k);
               k2 = on_view (set_connecting False \<circ> set_connected False) (k1\<lparr>k_hello_ok := False\<rparr>);
               k3 = k_emit StopWorker (k2\<lparr>k_manual_disconnect := False\<rparr>)
           in schedule_reconnect Q ''hello rejected'' k3
      else let k1 = on_view (set_hello_info (to_str Q (val Q info ''proto'')) (to_str Q (val Q info ''server''))) k;
               k2 = k1\<lparr>k_hello_ok := True, k_reconnect_pending := False, k_timer := None\<rparr>;
               k3 = (on_view (set_reconnect_attempts 0) k2)\<lparr>k_backoff_s := 1\<rparr>;
               k4 = on_view (set_error_string [] \<circ> set_connected True \<circ> set_connecting False) k3
           in log_text Q (arg Q (arg Q (tr Q ''HELLO_ACK proto=%1 server=%2'') (v_proto (k_view k4)))
                (v_server (k_view k4))) k4)"

text \<open>
  \<open>main\<close> connects \<open>faultsListChanged\<close> to the fault table: the slot runs inside the emission, when
  the list is already the new one and stays so.
\<close>

definition on_state :: "('j, 'v) qt \<Rightarrow> std_sort \<Rightarrow> 'v dict \<Rightarrow> 'v controller \<Rightarrow> 'v controller" where
  "on_state Q srt m k =
     (let v = apply_state Q m (k_view k);
          emitted = drop (length (v_signals (k_view k))) (v_signals v);
          k1 = k\<lparr>k_view := v\<rparr>
      in if FaultsListChanged \<in> set emitted
         then k1\<lparr>k_faults := set_faults Q srt (v_faults_list v) (k_faults k1)\<rparr> else k1)"

definition on_nodes :: "('j, 'v) qt \<Rightarrow> 'v list \<Rightarrow> 'v controller \<Rightarrow> 'v controller" where
  "on_nodes Q nodes k = k\<lparr>k_nodes := set_nodes Q nodes\<rparr>"

definition on_rtt :: "int \<Rightarrow> 'v controller \<Rightarrow> 'v controller" where
  "on_rtt ms = on_view (set_heartbeat_rtt ms)"

definition on_cmd_ack :: "('j, 'v) qt \<Rightarrow> 'v dict \<Rightarrow> 'v controller \<Rightarrow> 'v controller" where
  "on_cmd_ack Q ack k =
     (let k1 = on_view (set_last_cmd_ack Q ack) k;
          cmd = to_str Q (val Q ack ''cmd'');
          ok = to_bool Q (val Q ack ''ok'');
          reason = to_str Q (val Q ack ''reason'')
      in log_text Q (args Q (tr Q ''ACK %1 %2%3'') [cmd, if ok then ''OK'' else ''NACK'',
           if reason = [] then [] else '' '' @ reason]) k1)"

definition on_error :: "('j, 'v) qt \<Rightarrow> string \<Rightarrow> 'v controller \<Rightarrow> 'v controller" where
  "on_error Q message k =
     log_text Q (arg Q (tr Q ''error: %1'') message)
       (on_view (reset_remote \<circ> set_error_string message \<circ> set_connected False \<circ> set_connecting False)
         (k\<lparr>k_hello_ok := False\<rparr>))"

fun on_signal :: "('j, 'v) qt \<Rightarrow> std_sort \<Rightarrow> 'v worker_signal \<Rightarrow> 'v controller \<Rightarrow> 'v controller" where
  "on_signal Q srt WConnected = on_connected Q"
| "on_signal Q srt WDisconnected = on_disconnected Q"
| "on_signal Q srt (WHelloAck info) = on_hello_ack Q info"
| "on_signal Q srt (WState m) = on_state Q srt m"
| "on_signal Q srt (WNodes nodes) = on_nodes Q nodes"
| "on_signal Q srt (WRtt ms) = on_rtt ms"
| "on_signal Q srt (WCmdAck ack) = on_cmd_ack Q ack"
| "on_signal Q srt (WError message) = on_error Q message"

section \<open>The console process\<close>

datatype user_action = UserConnect string int | UserDisconnect | UserMode string
  | UserGoto string double double | UserTask string | UserEstop string | UserReset
  | UserAutoReconnect bool | UserFilter string

fun user_step :: "('j, 'v) qt \<Rightarrow> user_action \<Rightarrow> 'v controller \<Rightarrow> 'v controller" where
  "user_step Q (UserConnect host port) k = connect_to_server Q host port k"
| "user_step Q UserDisconnect k = disconnect_from_server Q k"
| "user_step Q (UserMode mode) k = cmd_mode_click Q mode k"
| "user_step Q (UserGoto task_id x y) k = cmd_task_goto Q task_id x y k"
| "user_step Q (UserTask ty) k = cmd_task_simple Q ty k"
| "user_step Q (UserEstop reason) k = cmd_estop_click Q reason k"
| "user_step Q UserReset k = cmd_reset_click Q k"
| "user_step Q (UserAutoReconnect b) k = on_view (set_auto_reconnect b) k"
| "user_step Q (UserFilter level) k = k\<lparr>k_faults := set_level_filter level (k_faults k)\<rparr>"

record ('v, 's) console =
  cn_ctl :: "'v controller"
  cn_worker :: "('v, 's) worker"

text \<open>
  The scheduler picks what happens next: a user action, the reconnect timer firing if it runs,
  the next queued call reaching the worker, the next queued signal reaching the controller, or
  an event of the worker's own loop.
\<close>

datatype 's console_event = User user_action | ReconnectTimeout | DeliverCall | DeliverSignal
  | Loop_Event "'s loop_event"

fun console_step :: "('j, 'v) qt \<Rightarrow> std_sort \<Rightarrow> 's socket_api \<Rightarrow> ('v, 's) console \<Rightarrow> 's console_event \<Rightarrow> ('v, 's) console" where
  "console_step Q srt S c (User a) = c\<lparr>cn_ctl := user_step Q a (cn_ctl c)\<rparr>"
| "console_step Q srt S c ReconnectTimeout =
     (if k_timer (cn_ctl c) = None then c
      else c\<lparr>cn_ctl := on_reconnect_timer ((cn_ctl c)\<lparr>k_timer := None\<rparr>)\<rparr>)"
| "console_step Q srt S c DeliverCall =
     (case k_calls (cn_ctl c) of [] \<Rightarrow> c
      | call # calls \<Rightarrow> c\<lparr>cn_ctl := (cn_ctl c)\<lparr>k_calls := calls\<rparr>, cn_worker := do_call Q S call (cn_worker c)\<rparr>)"
| "console_step Q srt S c DeliverSignal =
     (case w_out (cn_worker c) of [] \<Rightarrow> c
      | sg # sgs \<Rightarrow> c\<lparr>cn_worker := (cn_worker c)\<lparr>w_out := sgs\<rparr>, cn_ctl := on_signal Q srt sg (cn_ctl c)\<rparr>)"
| "console_step Q srt S c (Loop_Event e) = c\<lparr>cn_worker := event_loop Q S e (cn_worker c)\<rparr>"

definition init_console :: "'s \<Rightarrow> ('v, 's) console" where
  "init_console so = \<lparr>cn_ctl = init_controller, cn_worker = init_worker so\<rparr>"

end
