(* ===== verification/Console_Session.thy ===== *)
theory Console_Session
  imports Console_Connection
begin

text \<open>
  The session of the console as a state machine: the invariant of the controller over all runs of
  the process (\<open>console_runs\<close>), what may be sent when, how reconnecting backs off, and where it
  gives up.
\<close>

section \<open>What the setters leave alone\<close>

lemma setters_keep [simp]:
  "v_connected (append_log Q l s) = v_connected s" "v_connecting (append_log Q l s) = v_connecting s"
  "v_auto_reconnect (append_log Q l s) = v_auto_reconnect s"
  "v_connected (set_error_string e s) = v_connected s" "v_connecting (set_error_string e s) = v_connecting s"
  "v_auto_reconnect (set_error_string e s) = v_auto_reconnect s"
  "v_connected (set_endpoint h p s) = v_connected s" "v_connecting (set_endpoint h p s) = v_connecting s"
  "v_auto_reconnect (set_endpoint h p s) = v_auto_reconnect s"
  "v_connected (set_reconnect_attempts n s) = v_connected s" "v_connecting (set_reconnect_attempts n s) = v_connecting s"
  "v_auto_reconnect (set_reconnect_attempts n s) = v_auto_reconnect s"
  "v_connected (set_hello_info pr sv s) = v_connected s" "v_connecting (set_hello_info pr sv s) = v_connecting s"
  "v_auto_reconnect (set_hello_info pr sv s) = v_auto_reconnect s"
  "v_connected (set_heartbeat_rtt n s) = v_connected s" "v_connecting (set_heartbeat_rtt n s) = v_connecting s"
  "v_auto_reconnect (set_heartbeat_rtt n s) = v_auto_reconnect s"
  "v_reconnect_attempts (set_heartbeat_rtt n s) = v_reconnect_attempts s"
  "v_reconnect_attempts (append_log Q l s) = v_reconnect_attempts s"
  "v_reconnect_attempts (set_error_string e s) = v_reconnect_attempts s"
  "v_reconnect_attempts (set_connected b s) = v_reconnect_attempts s"
  "v_reconnect_attempts (set_connecting b s) = v_reconnect_attempts s"
  "v_reconnect_attempts (reset_remote s) = v_reconnect_attempts s"
  "v_reconnect_attempts (set_endpoint h p s) = v_reconnect_attempts s"
  "v_reconnect_attempts (set_reconnect_attempts n s) = n"
  "v_connected (set_auto_reconnect b s) = v_connected s" "v_connecting (set_auto_reconnect b s) = v_connecting s"
  "v_auto_reconnect (set_auto_reconnect b s) = b"
  "v_connected (reset_remote s) = v_connected s" "v_connecting (reset_remote s) = v_connecting s"
  "v_auto_reconnect (reset_remote s) = v_auto_reconnect s"
  "v_connected (set_connected b s) = b" "v_connecting (set_connected b s) = v_connecting s"
  "v_auto_reconnect (set_connected b s) = v_auto_reconnect s"
  "v_connected (set_connecting b s) = v_connected s" "v_connecting (set_connecting b s) = b"
  "v_auto_reconnect (set_connecting b s) = v_auto_reconnect s"
  by (simp_all add: append_log_def set_error_string_def set_endpoint_def set_reconnect_attempts_def
      set_hello_info_def set_heartbeat_rtt_def set_auto_reconnect_def reset_remote_def set_connected_def
      set_connecting_def emit_def Let_def)

lemma set_last_cmd_ack_keeps [simp]:
  "v_connected (set_last_cmd_ack Q a s) = v_connected s" "v_connecting (set_last_cmd_ack Q a s) = v_connecting s"
  "v_auto_reconnect (set_last_cmd_ack Q a s) = v_auto_reconnect s"
  "v_reconnect_attempts (set_last_cmd_ack Q a s) = v_reconnect_attempts s"
  using tells_only_others [OF set_last_cmd_ack_only [of Q s a], of ConnectedChanged]
    tells_only_others [OF set_last_cmd_ack_only [of Q s a], of ConnectingChanged]
    tells_only_others [OF set_last_cmd_ack_only [of Q s a], of AutoReconnectChanged]
    tells_only_others [OF set_last_cmd_ack_only [of Q s a], of ReconnectAttemptsChanged] by simp_all

lemmas view_ok_ops = setters_ok append_log_ok reset_remote_ok apply_state_ok

section \<open>The invariant\<close>

definition backoff_steps :: "int list" where
  "backoff_steps = [1, 2, 4, 8, 10]"

definition session_inv :: "'v controller \<Rightarrow> bool" where
  "session_inv k \<longleftrightarrow> v_connected (k_view k) = k_hello_ok k \<and>
     \<not> (v_connected (k_view k) \<and> v_connecting (k_view k)) \<and>
     k_backoff_s k \<in> set backoff_steps \<and> view_ok (k_view k) \<and>
     (\<forall>d. k_timer k = Some d \<longrightarrow> \<not> k_manual_disconnect k \<and> k_reconnect_pending k \<and> k_last_host k \<noteq> [] \<and>
        \<not> v_connected (k_view k) \<and> \<not> v_connecting (k_view k) \<and> d \<in> set (map (\<lambda>b. b * 1000) backoff_steps))"

lemma init_session: "session_inv init_controller"
  by (simp add: session_inv_def init_controller_def init_view_def backoff_steps_def view_ok_def)

lemmas controller_defs = on_view_def log_text_def k_emit_def

lemma user_inv: "session_inv k \<Longrightarrow> session_inv (user_step Q a k)"
  by (cases a) (auto simp: session_inv_def controller_defs connect_to_server_def disconnect_from_server_def
      cmd_mode_click_def cmd_task_goto_def cmd_task_simple_def cmd_estop_click_def cmd_reset_click_def Let_def
      view_ok_ops backoff_steps_def)

lemma schedule_inv:
  assumes "session_inv k" and "\<not> v_connected (k_view k)" and "\<not> v_connecting (k_view k)"
  shows "session_inv (schedule_reconnect Q why k)"
  using assms by (auto simp: session_inv_def schedule_reconnect_def controller_defs Let_def view_ok_ops backoff_steps_def)

lemma timer_inv: "session_inv k \<Longrightarrow> session_inv (on_reconnect_timer (k\<lparr>k_timer := None\<rparr>))"
  by (auto simp: session_inv_def on_reconnect_timer_def controller_defs Let_def view_ok_ops)

lemma on_state_inv: "session_inv k \<Longrightarrow> session_inv (on_state Q srt m k)"
  by (auto simp: session_inv_def on_state_def Let_def apply_state_keeps view_ok_ops)

lemma hello_inv: "session_inv k \<Longrightarrow> session_inv (on_hello_ack Q info k)"
proof (cases "to_bool Q (val Q info ''ok'')")
  case True
  assume "session_inv k"
  then show ?thesis using True
    by (auto simp: session_inv_def on_hello_ack_def controller_defs Let_def view_ok_ops backoff_steps_def)
next
  case False
  assume k: "session_inv k"
  have "session_inv k' \<Longrightarrow> \<not> v_connected (k_view k') \<Longrightarrow> \<not> v_connecting (k_view k') \<Longrightarrow>
    session_inv (schedule_reconnect Q ''hello rejected'' k')" for k' by (rule schedule_inv)
  then show ?thesis using False k
    unfolding on_hello_ack_def Let_def
    by (auto intro!: schedule_inv) (auto simp: session_inv_def controller_defs view_ok_ops)
qed

lemma disconnected_inv: "session_inv k \<Longrightarrow> session_inv (on_disconnected Q k)"
  unfolding on_disconnected_def Let_def
  by (auto intro!: schedule_inv) (auto simp: session_inv_def controller_defs view_ok_ops)

lemma signal_inv: "session_inv k \<Longrightarrow> session_inv (on_signal Q srt sg k)"
proof (cases sg)
  assume k: "session_inv k"
  {
    case WConnected
    with k show ?thesis by (auto simp: on_connected_def session_inv_def controller_defs Let_def view_ok_ops)
  next
    case WDisconnected
    with k show ?thesis by (simp add: disconnected_inv)
  next
    case (WHelloAck info)
    with k show ?thesis by (simp add: hello_inv)
  next
    case (WState m)
    with k show ?thesis by (simp add: on_state_inv)
  next
    case (WNodes nodes)
    with k show ?thesis by (auto simp: session_inv_def on_nodes_def)
  next
    case (WRtt ms)
    with k show ?thesis by (auto simp: session_inv_def on_rtt_def controller_defs view_ok_ops)
  next
    case (WCmdAck ack)
    with k show ?thesis by (auto simp: session_inv_def on_cmd_ack_def controller_defs Let_def view_ok_ops)
  next
    case (WError message)
    with k show ?thesis by (auto simp: session_inv_def on_error_def controller_defs view_ok_ops)
  }
qed

section \<open>The worker's frames\<close>

text \<open>The frames written so far carry the sequence numbers 1, 2, ..., 65535, 1, ... in turn.\<close>

definition seq_at :: "nat \<Rightarrow> u16" where
  "seq_at i = word_of_nat (1 + i mod 65535)"

definition numbered :: "('v, 's) worker \<Rightarrow> bool" where
  "numbered w \<longleftrightarrow> w_next_seq w = seq_at (length (w_tx w)) \<and>
     (\<forall>i < length (w_tx w). \<exists>ty flags payload. w_tx w ! i = ui_encode_frame ty flags (seq_at i) payload)"

lemma unat_small: "n < 65536 \<Longrightarrow> unat (word_of_nat n :: u16) = n"
  by (simp add: unat_of_nat)

lemma seq_at_nonzero: "seq_at i \<noteq> 0"
proof -
  have "unat (seq_at i) = 1 + i mod 65535" unfolding seq_at_def by (rule unat_small) simp
  then show ?thesis by (metis Suc_eq_plus1_left nat.distinct(1) unsigned_0)
qed

lemma seq_at_Suc: "seq_at (Suc i) = (if seq_at i + 1 = 0 then 1 else seq_at i + 1)"
proof (cases "i mod 65535 = 65534")
  case True
  then have "Suc i mod 65535 = 0" by (simp add: mod_Suc)
  with True show ?thesis by (simp add: seq_at_def)
next
  case False
  then have s: "Suc i mod 65535 = Suc (i mod 65535)" by (simp add: mod_Suc)
  have "i mod 65535 < 65535" by simp
  with False have "unat (word_of_nat (2 + i mod 65535) :: u16) = 2 + i mod 65535" by (intro unat_small) simp
  then have "(word_of_nat (2 + i mod 65535) :: u16) \<noteq> 0" by (metis add_2_eq_Suc nat.distinct(1) unsigned_0)
  then show ?thesis by (simp add: seq_at_def s algebra_simps)
qed

lemma numbered_frame:
  "w_tx w' = w_tx w \<Longrightarrow> w_next_seq w' = w_next_seq w \<Longrightarrow> numbered w \<Longrightarrow> numbered w'"
  by (simp add: numbered_def)

lemma numbered_write:
  assumes "numbered w" and "w_next_seq w1 = (if w_next_seq w + 1 = 0 then 1 else w_next_seq w + 1)"
    and "w_tx w1 = w_tx w @ [ui_encode_frame ty flags (w_next_seq w) payload]"
  shows "numbered w1"
  using assms by (auto simp: numbered_def seq_at_Suc nth_append less_Suc_eq)

lemma worker_send_numbered: "numbered w \<Longrightarrow> numbered (snd (worker_send S ty flags payload w))"
  by (auto simp: worker_send_def take_seq_def w_write_def Let_def intro!: numbered_write [of w])

lemma note_cmd_numbered: "numbered (snd r) \<Longrightarrow> numbered (note_cmd nm r)"
  by (cases r) (auto simp: note_cmd_def intro: numbered_frame [of _ "snd r"])

lemma close_numbered [simp]: "numbered (close_call f w) = numbered w"
  by (simp add: close_call_def on_socket_disconnected_def w_emit_def numbered_def Let_def split: prod.split)

lemma disconnect_numbered [simp]: "numbered (disconnect_from_host S w) = numbered w"
proof -
  have "numbered (w\<lparr>w_hb_timer := False, w_timeout_timer := False\<rparr>) = numbered w" by (simp add: numbered_def)
  then show ?thesis by (simp add: disconnect_from_host_def Let_def)
qed

lemma connect_numbered: "numbered w \<Longrightarrow> numbered (connect_to_host Q S host port w)"
  unfolding connect_to_host_def Let_def now_u64_def current_msecs_def
  by (simp add: numbered_def) (simp add: numbered_def [symmetric])

lemma call_numbered: "numbered w \<Longrightarrow> numbered (do_call Q S c w)"
  by (cases c) (simp_all add: connect_numbered send_cmd_mode_def send_cmd_task_def send_cmd_estop_def
      send_cmd_reset_def note_cmd_numbered worker_send_numbered Let_def)

lemma worker_frame_numbered: "numbered w \<Longrightarrow> numbered (worker_frame Q f w)"
  by (simp add: worker_frame_def on_bridge_heartbeat_def current_msecs_def w_emit_def numbered_def Let_def)

lemma ready_read_numbered: "numbered w \<Longrightarrow> numbered (on_ready_read Q S w)"
proof -
  have f: "numbered v \<Longrightarrow> numbered (fold (worker_frame Q) fs v)" for fs v
    by (induction fs arbitrary: v) (simp_all add: worker_frame_numbered)
  show "numbered w \<Longrightarrow> numbered (on_ready_read Q S w)"
    by (auto simp: on_ready_read_def now_u64_def current_msecs_def Let_def split: prod.split intro!: f)
      (simp add: numbered_def)
qed

lemma numbered_upd [simp]:
  "numbered (w\<lparr>w_socket := so\<rparr>) = numbered w" "numbered (w_emit sg w) = numbered w"
  "numbered (w\<lparr>w_last_rx_ms := t\<rparr>) = numbered w" "numbered (w\<lparr>w_reads := n\<rparr>) = numbered w"
  "numbered (w\<lparr>w_hello_sent := b\<rparr>) = numbered w" "numbered (w\<lparr>w_hb_timer := b\<rparr>) = numbered w"
  "numbered (w\<lparr>w_timeout_timer := b\<rparr>) = numbered w" "numbered (w\<lparr>w_out := sgs\<rparr>) = numbered w"
  by (simp_all add: numbered_def w_emit_def)

lemma heartbeat_numbered: "numbered w \<Longrightarrow> numbered (on_heartbeat_tick Q S w)"
  by (auto simp: on_heartbeat_tick_def current_msecs_def take_seq_def w_write_def Let_def intro!: numbered_write [of w])

lemma loop_numbered: "numbered w \<Longrightarrow> numbered (event_loop Q S e w)"
  by (cases e) (simp_all add: on_socket_connected_def on_socket_disconnected_def on_timeout_tick_def fail_and_close_def
      now_u64_def current_msecs_def Let_def worker_send_numbered ready_read_numbered heartbeat_numbered)

section \<open>The process\<close>

definition console_inv :: "('v, 's) console \<Rightarrow> bool" where
  "console_inv c \<longleftrightarrow> session_inv (cn_ctl c) \<and> numbered (cn_worker c)"

lemma session_inv_calls [simp]: "session_inv (k\<lparr>k_calls := cs\<rparr>) = session_inv k"
  by (simp add: session_inv_def)

lemma console_step_inv: "console_inv c \<Longrightarrow> console_inv (console_step Q srt S c e)"
proof (cases e)
  assume c: "console_inv c"
  {
    case (User a)
    with c show ?thesis by (simp add: console_inv_def user_inv)
  next
    case ReconnectTimeout
    with c show ?thesis by (simp add: console_inv_def timer_inv)
  next
    case DeliverCall
    with c show ?thesis by (simp add: console_inv_def call_numbered split: list.split)
  next
    case DeliverSignal
    with c show ?thesis by (simp add: console_inv_def signal_inv split: list.split)
  next
    case (Loop_Event x)
    with c show ?thesis by (simp add: console_inv_def loop_numbered)
  }
qed

lemma init_console_inv: "console_inv (init_console so)"
  by (simp add: console_inv_def init_console_def init_session) (simp add: numbered_def init_worker_def seq_at_def)

interpretation console_runs: step_system "\<lambda>c e. Some (console_step Q srt S c e)" console_inv "\<lambda>_. True" for Q srt S
  by unfold_locales (simp add: console_step_inv)

definition console_run :: "('j, 'v) qt \<Rightarrow> std_sort \<Rightarrow> 's socket_api \<Rightarrow> 's \<Rightarrow> 's console_event list \<Rightarrow> ('v, 's) console" where
  "console_run Q srt S so es = foldl (console_step Q srt S) (init_console so) es"

lemma run_console: "run_steps (\<lambda>c e. Some (console_step Q srt S c e)) c es = Some (foldl (console_step Q srt S) c es)"
  by (induction es arbitrary: c) simp_all

lemma console_run_inv: "console_inv (console_run Q srt S so es)"
  using console_runs.run_inv [OF init_console_inv, of es Q srt S so]
  by (simp add: run_console console_run_def list_all_iff)

section \<open>The session, traced back to what happened\<close>

text \<open>
  What reaches the controller in a run, in order: the actions of the user (\<open>Inl\<close>) and the signals of
  the worker (\<open>Inr\<close>). The timer adds nothing to it.
\<close>

definition input_of :: "('v, 's) console \<Rightarrow> 's console_event \<Rightarrow> (user_action + 'v worker_signal) list" where
  "input_of c e = (case e of User a \<Rightarrow> [Inl a] | DeliverSignal \<Rightarrow> map Inr (take 1 (w_out (cn_worker c))) | _ \<Rightarrow> [])"

fun console_inputs :: "('j, 'v) qt \<Rightarrow> std_sort \<Rightarrow> 's socket_api \<Rightarrow> ('v, 's) console \<Rightarrow> 's console_event list \<Rightarrow>
    (user_action + 'v worker_signal) list" where
  "console_inputs Q srt S c [] = []"
| "console_inputs Q srt S c (e # es) = input_of c e @ console_inputs Q srt S (console_step Q srt S c e) es"

text \<open>An answer to HELLO, and what it says.\<close>

fun accepts :: "('j, 'v) qt \<Rightarrow> user_action + 'v worker_signal \<Rightarrow> bool" where
  "accepts Q (Inr (WHelloAck info)) = to_bool Q (val Q info ''ok'')"
| "accepts Q _ = False"

fun rejects :: "('j, 'v) qt \<Rightarrow> user_action + 'v worker_signal \<Rightarrow> bool" where
  "rejects Q (Inr (WHelloAck info)) \<longleftrightarrow> \<not> to_bool Q (val Q info ''ok'')"
| "rejects Q _ = False"

text \<open>What ends a session: a rejection, an error, the loss of the link and a new link.\<close>

fun ends_session :: "('j, 'v) qt \<Rightarrow> user_action + 'v worker_signal \<Rightarrow> bool" where
  "ends_session Q (Inr WConnected) = True"
| "ends_session Q (Inr WDisconnected) = True"
| "ends_session Q (Inr (WError e)) = True"
| "ends_session Q x = rejects Q x"

fun asks_to_connect :: "user_action + 'v worker_signal \<Rightarrow> bool" where
  "asks_to_connect (Inl (UserConnect host port)) = True"
| "asks_to_connect _ = False"

text \<open>\<open>p\<close> happened, and nothing that undoes it has happened since.\<close>

definition last_was :: "('a \<Rightarrow> bool) \<Rightarrow> ('a \<Rightarrow> bool) \<Rightarrow> 'a list \<Rightarrow> bool" where
  "last_was p undoes xs \<longleftrightarrow> (\<exists>before x since. xs = before @ x # since \<and> p x \<and> (\<forall>y \<in> set since. \<not> undoes y))"

lemma last_was_Nil [simp]: "\<not> last_was p u []"
  by (simp add: last_was_def)

lemma last_was_snoc: "last_was p u (xs @ [x]) \<longleftrightarrow> p x \<or> \<not> u x \<and> last_was p u xs"
proof
  assume "last_was p u (xs @ [x])"
  then obtain before y since where h: "xs @ [x] = before @ y # since" "p y" "\<forall>z \<in> set since. \<not> u z"
    by (auto simp: last_was_def)
  show "p x \<or> \<not> u x \<and> last_was p u xs"
  proof (cases since rule: rev_cases)
    case Nil
    with h show ?thesis by simp
  next
    case (snoc since' z)
    with h(1) have "xs = before @ y # since'" "z = x" by simp_all
    with h snoc show ?thesis by (auto simp: last_was_def)
  qed
next
  assume "p x \<or> \<not> u x \<and> last_was p u xs"
  then show "last_was p u (xs @ [x])"
  proof
    assume "p x"
    then show ?thesis by (auto simp: last_was_def intro!: exI [of _ xs])
  next
    assume "\<not> u x \<and> last_was p u xs"
    then obtain before y since where "\<not> u x" "xs = before @ y # since" "p y" "\<forall>z \<in> set since. \<not> u z"
      by (auto simp: last_was_def)
    then show ?thesis unfolding last_was_def
      by (intro exI [of _ before] exI [of _ y] exI [of _ "since @ [x]"]) auto
  qed
qed

definition accepted :: "('j, 'v) qt \<Rightarrow> (user_action + 'v worker_signal) list \<Rightarrow> bool" where
  "accepted Q = last_was (accepts Q) (ends_session Q)"

definition user_left :: "('j, 'v) qt \<Rightarrow> (user_action + 'v worker_signal) list \<Rightarrow> bool" where
  "user_left Q = last_was (\<lambda>x. x = Inl UserDisconnect) (\<lambda>x. asks_to_connect x \<or> rejects Q x)"

text \<open>The two flags of the controller are these facts about the run.\<close>

definition traced :: "('j, 'v) qt \<Rightarrow> (user_action + 'v worker_signal) list \<Rightarrow> 'v controller \<Rightarrow> bool" where
  "traced Q xs k \<longleftrightarrow> k_hello_ok k = accepted Q xs \<and> k_manual_disconnect k = user_left Q xs"

lemma schedule_flags [simp]:
  "k_hello_ok (schedule_reconnect Q why k) = k_hello_ok k"
  "k_manual_disconnect (schedule_reconnect Q why k) = k_manual_disconnect k"
  by (simp_all add: schedule_reconnect_def controller_defs Let_def)

lemma traced_user: "traced Q xs k \<Longrightarrow> traced Q (xs @ [Inl a]) (user_step Q a k)"
  by (cases a) (simp_all add: traced_def accepted_def user_left_def last_was_snoc controller_defs connect_to_server_def
      disconnect_from_server_def cmd_mode_click_def cmd_task_goto_def cmd_task_simple_def cmd_estop_click_def
      cmd_reset_click_def Let_def)

lemma traced_signal: "traced Q xs k \<Longrightarrow> traced Q (xs @ [Inr sg]) (on_signal Q srt sg k)"
  by (cases sg) (simp_all add: traced_def accepted_def user_left_def last_was_snoc controller_defs on_connected_def
      on_disconnected_def on_hello_ack_def on_state_def on_nodes_def on_rtt_def on_cmd_ack_def on_error_def Let_def)

lemma traced_timer:
  assumes "traced Q xs k" and "session_inv k"
  shows "traced Q xs (on_reconnect_timer (k\<lparr>k_timer := None\<rparr>))"
  using assms by (simp add: traced_def session_inv_def on_reconnect_timer_def controller_defs Let_def)

lemma traced_step:
  assumes "traced Q xs (cn_ctl c)" and "console_inv c"
  shows "traced Q (xs @ input_of c e) (cn_ctl (console_step Q srt S c e))"
proof (cases e)
  case (User a)
  then show ?thesis using assms(1) by (simp add: input_of_def traced_user)
next
  case ReconnectTimeout
  then show ?thesis using assms by (simp add: input_of_def console_inv_def traced_timer)
next
  case DeliverCall
  then show ?thesis using assms(1) by (simp add: input_of_def traced_def split: list.split)
next
  case DeliverSignal
  then show ?thesis using assms(1) by (simp add: input_of_def traced_signal split: list.split)
next
  case (Loop_Event x)
  then show ?thesis using assms(1) by (simp add: input_of_def)
qed

lemma traced_run:
  "traced Q xs (cn_ctl c) \<Longrightarrow> console_inv c \<Longrightarrow>
    traced Q (xs @ console_inputs Q srt S c es) (cn_ctl (foldl (console_step Q srt S) c es))"
proof (induction es arbitrary: xs c)
  case (Cons e es)
  from Cons.IH [OF traced_step [OF Cons.prems] console_step_inv [OF Cons.prems(2)]] show ?case by simp
qed simp

text \<open>C20: The console fails closed. In every run of the process it says it is connected exactly when an
  answer to HELLO has accepted the session and no rejection, no error, no loss of the link and no new link has
  come since; and never while it is still connecting. A reconnect only waits while the session is down and no attempt is
  under way, with a delay of 1, 2, 4, 8 or 10 seconds, and not after a disconnect by the user, unless
  the user asked to connect again since, or a rejection came since.\<close>

theorem console_fails_closed:
  "let k = cn_ctl (console_run Q srt S so es); xs = console_inputs Q srt S (init_console so) es in
     v_connected (k_view k) = last_was (accepts Q) (ends_session Q) xs \<and> \<not> (v_connected (k_view k) \<and> v_connecting (k_view k)) \<and>
     (k_timer k = None \<or> k_timer k \<in> Some ` {1000, 2000, 4000, 8000, 10000} \<and> \<not> v_connected (k_view k) \<and>
        \<not> v_connecting (k_view k) \<and>
        \<not> last_was (\<lambda>x. x = Inl UserDisconnect) (\<lambda>x. asks_to_connect x \<or> rejects Q x) xs)"
proof -
  define k where "k = cn_ctl (console_run Q srt S so es)"
  define xs where "xs = console_inputs Q srt S (init_console so) es"
  have "traced Q [] (cn_ctl (init_console so))"
    by (simp add: traced_def accepted_def user_left_def init_console_def init_controller_def)
  from traced_run [OF this init_console_inv, of srt S es]
  have t: "k_hello_ok k = last_was (accepts Q) (ends_session Q) xs"
    "k_manual_disconnect k = last_was (\<lambda>x. x = Inl UserDisconnect) (\<lambda>x. asks_to_connect x \<or> rejects Q x) xs"
    by (simp_all add: traced_def accepted_def user_left_def console_run_def k_def xs_def)
  have "session_inv k" using console_run_inv [of Q srt S so es] by (simp add: console_inv_def k_def)
  then show ?thesis unfolding k_def [symmetric] xs_def [symmetric] Let_def
    by (cases "k_timer k") (auto simp: session_inv_def backoff_steps_def simp flip: t)
qed

text \<open>C25: The frames of the console are numbered in turn: over every run of the process, through
  disconnects and reconnects, the frames written to the socket carry the numbers 1 to 65535 and
  then 1 again; 0, which the code reserves for "not sent", is never used.\<close>

theorem frames_numbered_in_turn:
  "\<exists>fs. w_tx (cn_worker (console_run Q srt S so es)) =
     map (\<lambda>i. case fs ! i of (ty, flags, payload) \<Rightarrow> ui_encode_frame ty flags (seq_at i) payload) [0..<length fs] \<and>
     (0 :: u16) \<notin> range seq_at"
proof -
  define w where "w = cn_worker (console_run Q srt S so es)"
  have "\<forall>i. \<exists>f. i < length (w_tx w) \<longrightarrow>
      w_tx w ! i = (case f of (ty, flags, payload) \<Rightarrow> ui_encode_frame ty flags (seq_at i) payload)"
    using console_run_inv [of Q srt S so es] unfolding console_inv_def numbered_def w_def by fastforce
  then obtain f where "\<And>i. i < length (w_tx w) \<Longrightarrow>
      w_tx w ! i = (case f i of (ty, flags, payload) \<Rightarrow> ui_encode_frame ty flags (seq_at i) payload)" by metis
  then have "w_tx w = map (\<lambda>i. case map f [0..<length (w_tx w)] ! i of (ty, flags, payload) \<Rightarrow>
      ui_encode_frame ty flags (seq_at i) payload) [0..<length (map f [0..<length (w_tx w)])]"
    by (intro nth_equalityI) simp_all
  moreover have "(0 :: u16) \<notin> range seq_at" using seq_at_nonzero by (metis rangeE)
  ultimately show ?thesis unfolding w_def by blast
qed

end
