(* ===== verification/Console_Rules.thy ===== *)
theory Console_Rules
  imports Console_Session
begin

text \<open>
  The rules of the console's session: commands only within one, reconnecting with backoff, what
  ends it for good, what a disconnect clears, and the watchdog of the link.
\<close>

section \<open>Commands\<close>

fun call_of :: "('j, 'v) qt \<Rightarrow> user_action \<Rightarrow> worker_call option" where
  "call_of Q (UserMode mode) = Some (WorkerCmdMode mode)"
| "call_of Q (UserGoto task_id x y) = Some (WorkerCmdTask (trimmed Q task_id) ''goto'' x y (fp_lit binary64 30 1))"
| "call_of Q (UserTask ty) = Some (WorkerCmdTask [] ty zero zero zero)"
| "call_of Q (UserEstop reason) = Some (WorkerCmdEstop reason)"
| "call_of Q UserReset = Some WorkerCmdReset"
| "call_of Q _ = None"

lemma command_calls:
  assumes "call_of Q a = Some call"
  shows "user_step Q a k = (if v_connected (k_view k) then user_step Q a k else k)"
    and "v_connected (k_view k) \<Longrightarrow> k_calls (user_step Q a k) = k_calls k @ [call]"
  using assms by (cases a; auto simp: cmd_mode_click_def cmd_task_goto_def cmd_task_simple_def cmd_estop_click_def
      cmd_reset_click_def controller_defs Let_def)+

text \<open>Commands belong to an accepted session. After any run of the process, a command of the user
  (mode, goto, task, emergency stop, reset) changes nothing at all unless the last handshake was
  accepted; if it was, exactly one call with the user's arguments is queued for the worker, behind
  those before it.\<close>

lemma commands_only_in_session:
  assumes "call_of Q a = Some call"
  shows "let c = console_run Q srt S so es; c' = console_step Q srt S c (User a) in
     if k_hello_ok (cn_ctl c) then k_calls (cn_ctl c') = k_calls (cn_ctl c) @ [call] else c' = c"
proof -
  let ?c = "console_run Q srt S so es"
  have h: "v_connected (k_view (cn_ctl ?c)) = k_hello_ok (cn_ctl ?c)"
    using console_run_inv [of Q srt S so es] by (simp add: console_inv_def session_inv_def)
  show ?thesis
  proof (cases "k_hello_ok (cn_ctl ?c)")
    case True
    then show ?thesis using command_calls(2) [OF assms, of "cn_ctl ?c"] h by (simp add: Let_def)
  next
    case False
    then have "user_step Q a (cn_ctl ?c) = cn_ctl ?c" using command_calls(1) [OF assms, of "cn_ctl ?c"] h by simp
    with False show ?thesis by (simp add: Let_def)
  qed
qed

text \<open>A small socket, to apply the theorems to: its own state, and calls that take effect at once.\<close>

definition plain_socket :: "sock_state socket_api" where
  "plain_socket = \<lparr>so_state = (\<lambda>so. so), so_connect = (\<lambda>_ _ _. ConnectingState),
     so_disconnect = (\<lambda>so. (UnconnectedState, so = ConnectedState)),
     so_abort = (\<lambda>so. (UnconnectedState, so = ConnectedState)), so_write = (\<lambda>_ so. so),
     so_read_all = (\<lambda>so. ([], so)), so_error = (\<lambda>_. ''refused'')\<rparr>"

abbreviation demo_run :: "sock_state console_event list \<Rightarrow> (tree, sock_state) console" where
  "demo_run \<equiv> console_run tree_qt insertion_sort plain_socket UnconnectedState"

theorem commands_only_in_session_witness:
  "console_step tree_qt insertion_sort plain_socket (demo_run []) (User (UserEstop ''operator'')) = demo_run []"
  using commands_only_in_session [of tree_qt "UserEstop ''operator''" "WorkerCmdEstop ''operator''"
      insertion_sort plain_socket UnconnectedState "[]"]
  by (simp add: Let_def) (simp add: console_run_def init_console_def init_controller_def)

section \<open>Reconnecting\<close>

text \<open>
  One failed attempt: the worker's signals before the link goes down, none of them an answer to
  HELLO, then the disconnect, then the reconnect timer. \<open>trying\<close> is what the attempts have in common.
\<close>

fun before_hello :: "'v worker_signal \<Rightarrow> bool" where
  "before_hello (WHelloAck _) = False"
| "before_hello WDisconnected = False"
| "before_hello _ = True"

definition failed_attempt :: "('j, 'v) qt \<Rightarrow> std_sort \<Rightarrow> 'v worker_signal list \<Rightarrow> 'v controller \<Rightarrow> 'v controller" where
  "failed_attempt Q srt sgs k =
     on_reconnect_timer ((on_disconnected Q (fold (on_signal Q srt) sgs k))\<lparr>k_timer := None\<rparr>)"

definition backoff_at :: "nat \<Rightarrow> int" where
  "backoff_at n = min (2 ^ n) 10"

definition trying :: "nat \<Rightarrow> int \<Rightarrow> 'v controller \<Rightarrow> bool" where
  "trying n a k \<longleftrightarrow> view_ok (k_view k) \<and> \<not> k_manual_disconnect k \<and> v_auto_reconnect (k_view k) \<and>
     k_last_host k \<noteq> [] \<and> k_timer k = None \<and> k_backoff_s k = backoff_at n \<and> v_reconnect_attempts (k_view k) = a"

lemma trying_signal:
  assumes "trying n a k" and "before_hello sg"
  shows "trying n a (on_signal Q srt sg k) \<and> k_calls (on_signal Q srt sg k) = k_calls k \<and>
    k_last_host (on_signal Q srt sg k) = k_last_host k \<and> k_last_port (on_signal Q srt sg k) = k_last_port k"
  using assms by (cases sg) (simp_all add: trying_def on_connected_def on_state_def on_nodes_def on_rtt_def
      on_cmd_ack_def on_error_def controller_defs Let_def view_ok_ops apply_state_keeps)

lemma trying_signals:
  "trying n a k \<Longrightarrow> list_all before_hello sgs \<Longrightarrow> trying n a (fold (on_signal Q srt) sgs k) \<and>
    k_calls (fold (on_signal Q srt) sgs k) = k_calls k \<and>
    k_last_host (fold (on_signal Q srt) sgs k) = k_last_host k \<and> k_last_port (fold (on_signal Q srt) sgs k) = k_last_port k"
proof (induction sgs arbitrary: k)
  case (Cons sg sgs)
  note t = trying_signal [OF Cons.prems(1), of sg Q srt]
  from Cons.prems(2) t have "trying n a (on_signal Q srt sg k)" by simp
  from Cons.IH [OF this] Cons.prems(2) t show ?case by simp
qed simp

lemma backoff_Suc: "min (backoff_at n * 2) 10 = backoff_at (Suc n)"
  by (simp add: backoff_at_def min_def)

lemma trying_disconnected:
  assumes "trying n a k"
  shows "k_timer (on_disconnected Q k) = Some (backoff_at n * 1000)"
    and "v_reconnect_attempts (k_view (on_disconnected Q k)) = a + 1"
    and "trying (Suc n) (a + 1) ((on_disconnected Q k)\<lparr>k_timer := None\<rparr>)"
    and "k_calls (on_disconnected Q k) = k_calls k" and "k_last_host (on_disconnected Q k) = k_last_host k"
    and "k_last_port (on_disconnected Q k) = k_last_port k" and "\<not> v_connected (k_view (on_disconnected Q k))"
  using assms by (simp_all add: trying_def on_disconnected_def schedule_reconnect_def controller_defs Let_def
      view_ok_ops backoff_Suc)

lemma trying_attempt:
  assumes "trying n a k" and "list_all before_hello sgs"
  shows "trying (Suc n) (a + 1) (failed_attempt Q srt sgs k)"
    and "k_calls (failed_attempt Q srt sgs k) = k_calls k @ [StartWorker (k_last_host k) (k_last_port k)]"
    and "k_last_host (failed_attempt Q srt sgs k) = k_last_host k"
    and "k_last_port (failed_attempt Q srt sgs k) = k_last_port k"
proof -
  note s = trying_signals [OF assms, of Q srt]
  note d = trying_disconnected [OF conjunct1 [OF s], of Q]
  show "trying (Suc n) (a + 1) (failed_attempt Q srt sgs k)"
    using d(3) d(7) by (simp add: failed_attempt_def on_reconnect_timer_def trying_def controller_defs Let_def view_ok_ops)
  show "k_calls (failed_attempt Q srt sgs k) = k_calls k @ [StartWorker (k_last_host k) (k_last_port k)]"
    using d(3,4,5,6,7) s by (simp add: failed_attempt_def on_reconnect_timer_def trying_def controller_defs Let_def)
  show "k_last_host (failed_attempt Q srt sgs k) = k_last_host k" "k_last_port (failed_attempt Q srt sgs k) = k_last_port k"
    using d(5,6) s by (simp_all add: failed_attempt_def on_reconnect_timer_def controller_defs Let_def)
qed

text \<open>C24: An attempt that ends in a disconnect is followed by another, with the delays of the protocol. From a
  connect with automatic reconnection on, after any number of attempts that each ended in the worker's
  \<open>disconnected()\<close> without an answer to HELLO, whatever else the worker reported in them, the next
  such disconnect starts the timer with 1, 2, 4, 8, then always 10 seconds, counts the attempt, and
  every attempt asked the worker for the same host and port. A refused connection is not such an attempt: it ends
  without \<open>disconnected()\<close>, and nothing follows it.\<close>

theorem reconnect_backs_off:
  fixes Q :: "('j, 'v) qt"
  assumes "trying 0 a k" and "list_all before_hello (concat attempts)" and "list_all before_hello sgs"
  shows "let k1 = fold (failed_attempt Q srt) attempts k;
             k2 = on_disconnected Q (fold (on_signal Q srt) sgs k1); n = length attempts in
     k_timer k2 = Some (min (2 ^ n) 10 * 1000) \<and> v_reconnect_attempts (k_view k2) = a + int n + 1 \<and>
     k_calls k1 = k_calls k @ replicate n (StartWorker (k_last_host k) (k_last_port k))"
proof -
  have "trying (m + length attempts) (b + int (length attempts)) (fold (failed_attempt Q srt) attempts k) \<and>
    k_calls (fold (failed_attempt Q srt) attempts k) =
      k_calls k @ replicate (length attempts) (StartWorker (k_last_host k) (k_last_port k))"
    if "trying m b k" for m b and k :: "'v controller"
    using that assms(2)
  proof (induction attempts arbitrary: m b k)
    case (Cons x xs)
    then have x: "list_all before_hello x" by simp
    note t = trying_attempt [OF Cons.prems(1) x, of Q srt]
    from Cons.IH [OF t(1)] Cons.prems(2) show ?case by (simp add: t algebra_simps)
  qed simp
  from this [OF assms(1)] have k1: "trying (length attempts) (a + int (length attempts)) (fold (failed_attempt Q srt) attempts k)"
    "k_calls (fold (failed_attempt Q srt) attempts k) =
      k_calls k @ replicate (length attempts) (StartWorker (k_last_host k) (k_last_port k))" by simp_all
  from trying_disconnected [OF conjunct1 [OF trying_signals [OF k1(1) assms(3), of Q srt]], of Q] k1(2)
  show ?thesis by (simp add: Let_def backoff_at_def)
qed

theorem reconnect_backs_off_witness:
  "let k = connect_to_server tree_qt ''robot'' 8765 init_controller;
       k1 = fold (failed_attempt tree_qt insertion_sort) [[WConnected], [], [], []] k in
     k_timer (on_disconnected tree_qt k1) = Some 10000"
proof -
  have "trying 0 0 (connect_to_server tree_qt ''robot'' 8765 init_controller)"
    by (simp add: trying_def connect_to_server_def controller_defs Let_def view_ok_ops init_controller_def
        init_view_ok backoff_at_def) (simp add: init_view_def)
  from reconnect_backs_off [OF this, of "[[WConnected], [], [], []]" "[]" tree_qt insertion_sort]
  show ?thesis by (simp add: Let_def)
qed

section \<open>Where reconnecting ends\<close>

text \<open>C31: A refused connection is not tried again. When the socket reports an error and is left
  unconnected, so that Qt has no \<open>disconnected()\<close> to emit, the controller takes the error and then
  nothing more ever happens by itself: no timer runs, no call is queued, and every timer event or
  delivery leaves the whole process as it is, with automatic reconnection still on. The comment in
  \<open>onError\<close> expects a disconnect signal that does not come.\<close>

theorem refused_connection_not_retried:
  assumes "k_calls (cn_ctl c) = []" and "w_out (cn_worker c) = []" and "k_timer (cn_ctl c) = None"
    and "so_state S so = UnconnectedState"
    and "set es \<subseteq> {ReconnectTimeout, DeliverCall, DeliverSignal, Loop_Event HeartbeatTick, Loop_Event TimeoutTick}"
  shows "let c1 = foldl (console_step Q srt S) c [Loop_Event (SockError so), DeliverSignal] in
     foldl (console_step Q srt S) c1 es = c1 \<and> k_timer (cn_ctl c1) = None \<and> k_calls (cn_ctl c1) = [] \<and>
     v_error_string (k_view (cn_ctl c1)) = so_error S so \<and> \<not> v_connecting (k_view (cn_ctl c1)) \<and>
     v_auto_reconnect (k_view (cn_ctl c1)) = v_auto_reconnect (k_view (cn_ctl c)) \<and>
     k_manual_disconnect (cn_ctl c1) = k_manual_disconnect (cn_ctl c)"
proof -
  define c1 where "c1 = foldl (console_step Q srt S) c [Loop_Event (SockError so), DeliverSignal]"
  have c1: "c1 = c\<lparr>cn_ctl := on_error Q (so_error S so) (cn_ctl c), cn_worker := (cn_worker c)
      \<lparr>w_socket := so, w_hb_timer := False, w_timeout_timer := False\<rparr>\<rparr>"
    using assms(2,4) by (simp add: c1_def fail_and_close_def disconnect_from_host_def w_emit_def Let_def)
  have rest: "k_timer (cn_ctl c1) = None" "k_calls (cn_ctl c1) = []" "w_out (cn_worker c1) = []"
    "\<not> w_hb_timer (cn_worker c1)" "\<not> w_timeout_timer (cn_worker c1)"
    using assms(1-3) by (simp_all add: c1 on_error_def controller_defs)
  have "foldl (console_step Q srt S) c1 es = c1"
    using assms(5) by (induction es) (auto simp: rest)
  moreover have "v_error_string (k_view (cn_ctl c1)) = so_error S so"
    by (simp add: c1 on_error_def controller_defs append_log_def reset_remote_def set_error_string_def emit_def Let_def)
  ultimately show ?thesis unfolding c1_def [symmetric] Let_def using rest
    by (simp add: c1 on_error_def controller_defs)
qed

theorem refused_connection_not_retried_witness:
  "let c = demo_run [User (UserConnect ''robot'' 8765), DeliverCall];
       c1 = foldl (console_step tree_qt insertion_sort plain_socket) c [Loop_Event (SockError UnconnectedState), DeliverSignal] in
     foldl (console_step tree_qt insertion_sort plain_socket) c1 [ReconnectTimeout, Loop_Event TimeoutTick] = c1 \<and>
     v_error_string (k_view (cn_ctl c1)) = ''refused''"
proof -
  let ?c = "demo_run [User (UserConnect ''robot'' 8765), DeliverCall]"
  have k: "k_calls (cn_ctl ?c) = []" "k_timer (cn_ctl ?c) = None" "w_out (cn_worker ?c) = []"
    by (simp_all add: console_run_def init_console_def init_controller_def connect_to_server_def controller_defs
        init_view_def init_worker_def connect_to_host_def plain_socket_def now_u64_def current_msecs_def Let_def)
  have so: "so_state plain_socket UnconnectedState = UnconnectedState" "so_error plain_socket UnconnectedState = ''refused''"
    by (simp_all add: plain_socket_def)
  have es: "set [ReconnectTimeout, Loop_Event TimeoutTick] \<subseteq>
      {ReconnectTimeout, DeliverCall, DeliverSignal, Loop_Event HeartbeatTick, Loop_Event TimeoutTick :: sock_state console_event}"
    by simp
  show ?thesis using refused_connection_not_retried [OF k(1,3,2) so(1) es, of tree_qt insertion_sort]
    unfolding Let_def so(2) by blast
qed

fun hello_rejected :: "('j, 'v) qt \<Rightarrow> 'v worker_signal \<Rightarrow> bool" where
  "hello_rejected Q (WHelloAck info) \<longleftrightarrow> \<not> to_bool Q (val Q info ''ok'')"
| "hello_rejected Q _ = False"

lemma manual_signal:
  assumes "k_manual_disconnect k" and "k_timer k = None" and "\<not> hello_rejected Q sg"
  shows "k_manual_disconnect (on_signal Q srt sg k) \<and> k_timer (on_signal Q srt sg k) = None \<and>
    k_calls (on_signal Q srt sg k) = k_calls k \<and> k_last_host (on_signal Q srt sg k) = k_last_host k"
  using assms by (cases sg) (simp_all add: on_connected_def on_disconnected_def on_hello_ack_def on_state_def on_nodes_def
      on_rtt_def on_cmd_ack_def on_error_def schedule_reconnect_def controller_defs Let_def)

text \<open>A manual disconnect holds until a handshake is rejected. After the user disconnects, no signal of
  the worker starts a timer or queues a call behind the stop, with one exception: an answer to
  HELLO that was already queued and rejects it takes the user's decision back, and with automatic
  reconnection on the console connects again by itself.\<close>

theorem manual_disconnect_until_rejection:
  assumes "list_all (\<lambda>sg. \<not> hello_rejected Q sg) sgs"
  shows "let k1 = fold (on_signal Q srt) sgs (disconnect_from_server Q k);
             k2 = on_hello_ack Q info k1 in
     k_manual_disconnect k1 \<and> k_timer k1 = None \<and> k_calls k1 = k_calls k @ [StopWorker] \<and>
     (hello_rejected Q (WHelloAck info) \<and> v_auto_reconnect (k_view k1) \<and> k_last_host k \<noteq> [] \<longrightarrow>
        \<not> k_manual_disconnect k2 \<and> k_timer k2 = Some (k_backoff_s k1 * 1000))"
proof -
  have "k_manual_disconnect m \<Longrightarrow> k_timer m = None \<Longrightarrow> k_manual_disconnect (fold (on_signal Q srt) sgs m) \<and>
      k_timer (fold (on_signal Q srt) sgs m) = None \<and> k_calls (fold (on_signal Q srt) sgs m) = k_calls m \<and>
      k_last_host (fold (on_signal Q srt) sgs m) = k_last_host m" for m
    using assms
  proof (induction sgs arbitrary: m)
    case (Cons sg sgs)
    then have "\<not> hello_rejected Q sg" by simp
    note t = manual_signal [OF Cons.prems(1,2) this, of srt]
    from Cons.IH [of "on_signal Q srt sg m"] Cons.prems(3) t show ?case by simp
  qed simp
  from this [of "disconnect_from_server Q k"] have k1:
    "k_manual_disconnect (fold (on_signal Q srt) sgs (disconnect_from_server Q k))"
    "k_timer (fold (on_signal Q srt) sgs (disconnect_from_server Q k)) = None"
    "k_calls (fold (on_signal Q srt) sgs (disconnect_from_server Q k)) = k_calls k @ [StopWorker]"
    "k_last_host (fold (on_signal Q srt) sgs (disconnect_from_server Q k)) = k_last_host k"
    by (simp_all add: disconnect_from_server_def controller_defs Let_def)
  then show ?thesis by (simp add: on_hello_ack_def schedule_reconnect_def controller_defs Let_def)
qed

theorem manual_disconnect_until_rejection_witness:
  "let k = (connect_to_server tree_qt ''robot'' 8765 init_controller);
       k1 = fold (on_signal tree_qt insertion_sort) [WConnected] (disconnect_from_server tree_qt k) in
     k_calls k1 = k_calls k @ [StopWorker] \<and> k_timer (on_hello_ack tree_qt [''ok'' \<mapsto> Bool False] k1) = Some 1000"
proof -
  let ?k = "connect_to_server tree_qt ''robot'' 8765 init_controller"
  let ?k1 = "fold (on_signal tree_qt insertion_sort) [WConnected] (disconnect_from_server tree_qt ?k)"
  have "v_auto_reconnect (k_view ?k1)" "k_last_host ?k = ''robot''" "k_backoff_s ?k1 = 1"
    by (simp_all add: connect_to_server_def disconnect_from_server_def on_connected_def controller_defs Let_def
        init_controller_def) (simp_all add: init_view_def)
  moreover have "hello_rejected tree_qt (WHelloAck [''ok'' \<mapsto> Bool False])" by (simp add: val_def tree_qt_def)
  ultimately show ?thesis
    using manual_disconnect_until_rejection [of tree_qt "[WConnected]" insertion_sort ?k "[''ok'' \<mapsto> Bool False]"]
    by (simp add: Let_def)
qed

section \<open>What a disconnect clears\<close>

text \<open>
  A disconnect withdraws control and the robot's state, but \<open>resetRemote\<close> forgets the list of
  faults, the state of the navigation, its goal and the tracking error: the fault table and the map
  go on showing those of the lost session, next to a fault count of zero.
\<close>

lemma disconnect_clears:
  "v_control_enabled (k_view (on_disconnected Q k)) = False" "v_has_robot_state (k_view (on_disconnected Q k)) = False"
  "v_phase (k_view (on_disconnected Q k)) = ''BOOT''" "v_fault_count (k_view (on_disconnected Q k)) = 0"
  "k_nodes (on_disconnected Q k) = []"
  by (simp_all add: on_disconnected_def schedule_reconnect_def controller_defs Let_def append_log_def emit_def
      set_reconnect_attempts_def reset_remote_def set_nodes_def)

lemma setters_leave:
  "v_faults_list (append_log Q l s) = v_faults_list s" "v_nav_status (append_log Q l s) = v_nav_status s"
  "v_nav_goal_x (append_log Q l s) = v_nav_goal_x s" "v_track_err (append_log Q l s) = v_track_err s"
  "v_faults_list (set_reconnect_attempts n s) = v_faults_list s" "v_nav_status (set_reconnect_attempts n s) = v_nav_status s"
  "v_nav_goal_x (set_reconnect_attempts n s) = v_nav_goal_x s" "v_track_err (set_reconnect_attempts n s) = v_track_err s"
  "v_faults_list (reset_remote s) = v_faults_list s" "v_nav_status (reset_remote s) = v_nav_status s"
  "v_nav_goal_x (reset_remote s) = v_nav_goal_x s" "v_track_err (reset_remote s) = v_track_err s"
  "v_faults_list (set_connected b s) = v_faults_list s" "v_nav_status (set_connected b s) = v_nav_status s"
  "v_nav_goal_x (set_connected b s) = v_nav_goal_x s" "v_track_err (set_connected b s) = v_track_err s"
  "v_faults_list (set_connecting b s) = v_faults_list s" "v_nav_status (set_connecting b s) = v_nav_status s"
  "v_nav_goal_x (set_connecting b s) = v_nav_goal_x s" "v_track_err (set_connecting b s) = v_track_err s"
  by (simp_all add: append_log_def set_reconnect_attempts_def reset_remote_def set_connected_def
      set_connecting_def emit_def Let_def)

lemma disconnect_leaves:
  "v_faults_list (k_view (on_disconnected Q k)) = v_faults_list (k_view k)" "k_faults (on_disconnected Q k) = k_faults k"
  "v_nav_status (k_view (on_disconnected Q k)) = v_nav_status (k_view k)"
  "v_nav_goal_x (k_view (on_disconnected Q k)) = v_nav_goal_x (k_view k)"
  "v_track_err (k_view (on_disconnected Q k)) = v_track_err (k_view k)"
  by (simp_all add: on_disconnected_def schedule_reconnect_def controller_defs Let_def setters_leave)

section \<open>The watchdog of the link\<close>

text \<open>The watchdog closes a silent link, and one on which the clock went back. With the socket connected
  and the last bytes read at \<open>t0\<close>, a tick of the timer at \<open>t1\<close> keeps the link exactly when
  \<open>t1\<close> is at most three seconds after \<open>t0\<close>; since the code subtracts without sign, any
  \<open>t1\<close> before \<open>t0\<close>, by a single millisecond, counts as a timeout.\<close>

theorem watchdog_decides:
  assumes "w_timeout_timer w" and "so_state S (w_socket w) = ConnectedState"
    and "w_last_rx_ms w = word_of_int t0" and "0 < t0" and "t0 < 2 ^ 63"
    and "t1 = msecs Q (w_reads w)" and "0 \<le> t1" and "t1 < 2 ^ 63"
  shows "event_loop Q S TimeoutTick w =
    (if t0 \<le> t1 \<and> t1 - t0 \<le> 3000 then w\<lparr>w_reads := Suc (w_reads w)\<rparr>
     else fail_and_close S ''heartbeat timeout'' (w\<lparr>w_reads := Suc (w_reads w)\<rparr>))"
proof -
  have "uint (word_of_int t1 - word_of_int t0 :: u64) = (t1 - t0) mod 2 ^ 64"
    by (simp add: uint_word_ariths uint_word_of_int mod_diff_eq)
  also have "\<dots> = (if t0 \<le> t1 then t1 - t0 else t1 - t0 + 2 ^ 64)"
  proof (cases "t0 \<le> t1")
    case True
    then show ?thesis using assms(4,8) by simp
  next
    case False
    then have "(t1 - t0 + 2 ^ 64) mod 2 ^ 64 = t1 - t0 + 2 ^ 64" using assms(5,7) by (intro mod_pos_pos_trivial) simp_all
    with False show ?thesis by simp
  qed
  finally have u: "uint (word_of_int t1 - word_of_int t0 :: u64) = (if t0 \<le> t1 then t1 - t0 else t1 - t0 + 2 ^ 64)" .
  have "kHeartbeatTimeoutMs < word_of_int t1 - word_of_int t0 \<longleftrightarrow> \<not> (t0 \<le> t1 \<and> t1 - t0 \<le> 3000)"
    using assms(5,7) by (auto simp: kHeartbeatTimeoutMs_def word_less_alt u)
  moreover have "(word_of_int t0 :: u64) \<noteq> 0"
  proof
    assume "(word_of_int t0 :: u64) = 0"
    then have "uint (word_of_int t0 :: u64) = 0" by simp
    then have "t0 mod 2 ^ 64 = 0" by (simp only: uint_word_of_int) simp
    moreover have "t0 mod 2 ^ 64 = t0" using assms(4,5) by (intro mod_pos_pos_trivial) simp_all
    ultimately show False using assms(4) by simp
  qed
  ultimately show ?thesis using assms(1-3) unfolding assms(6)
    by (simp add: on_timeout_tick_def now_u64_def current_msecs_def)
qed

theorem watchdog_decides_witness:
  "let w = (init_worker ConnectedState :: (tree, sock_state) worker)\<lparr>w_timeout_timer := True, w_last_rx_ms := 1001\<rparr> in
     event_loop tree_qt plain_socket TimeoutTick w =
       fail_and_close plain_socket ''heartbeat timeout'' (w\<lparr>w_reads := Suc (w_reads w)\<rparr>)"
  using watchdog_decides [of "(init_worker ConnectedState :: (tree, sock_state) worker)\<lparr>w_timeout_timer := True, w_last_rx_ms := 1001\<rparr>"
      plain_socket 1001 1000 tree_qt]
  by (simp add: init_worker_def plain_socket_def tree_qt_def Let_def)

end
