(* ===== verification/Main_Programs.thy ===== *)
theory Main_Programs
  imports Console_Rules Protocol Robot_Props
begin

text \<open>
  The entry points of the console (\<open>ui/botcockpit/src/main.cpp\<close>) and of the robot
  (\<open>sim/src/main.cpp\<close>), with the destructors that run when they end. The console leaves its event
  loop with a code, then the objects go in the reverse order of their declaration: the controller
  asks the worker to disconnect and waits for it, while the worker's thread goes on with what is
  queued before. The objects of the user interface are declared before the loop runs and read by QML
  under the names that \<open>main\<close> gives them; QML is left out.
\<close>

section \<open>The robot\<close>

text \<open>\<open>spin\<close> runs the callbacks until ROS shuts down; the destructor cancels the timer.\<close>

definition destroy_robot :: "robot \<Rightarrow> robot" where
  "destroy_robot s = s\<lparr>tick_timer := False\<rparr>"

definition robot_main :: "env \<Rightarrow> event list \<Rightarrow> (int \<times> robot) option" where
  "robot_main E es = map_option (\<lambda>s. (0, destroy_robot s)) (run_steps (robot_step E) init_robot es)"

section \<open>The console\<close>

definition main_url :: string where
  "main_url = ''qrc:/Main.qml''"

text \<open>
  \<open>a_exit\<close> is the code once \<open>QCoreApplication::exit\<close> has been called; \<open>a_dying\<close> holds from the
  blocking call of the controller's destructor on, \<open>a_gone\<close> when the worker's thread has ended.
\<close>

record ('v, 's) app =
  a_console :: "('v, 's) console"
  a_exit :: "int option"
  a_dying :: bool
  a_gone :: bool

definition init_app :: "'s \<Rightarrow> ('v, 's) app" where
  "init_app so = \<lparr>a_console = init_console so, a_exit = None, a_dying = False, a_gone = False\<rparr>"

text \<open>
  What can happen: an event of the two threads; the queued \<open>objectCreated\<close> of the engine, with
  whether there is an object, and its URL; a call of \<open>exit\<close> from elsewhere, as when the last window
  is closed; the destructor of the controller; the end of the worker's thread.
\<close>

datatype 's app_event = Event "'s console_event" | Object_Created bool string | Exit_Call int | Destroy | Thread_Ends

fun worker_thread :: "'s console_event \<Rightarrow> bool" where
  "worker_thread DeliverCall = True"
| "worker_thread (Loop_Event _) = True"
| "worker_thread _ = False"

definition object_created :: "bool \<Rightarrow> string \<Rightarrow> ('v, 's) app \<Rightarrow> ('v, 's) app" where
  "object_created obj url a = (if \<not> obj \<and> url = main_url then a\<lparr>a_exit := Some (- 1)\<rparr> else a)"

text \<open>\<open>~ConnectionController\<close>, up to the blocking call, which is queued behind the others.\<close>

definition destroy_controller :: "'v controller \<Rightarrow> 'v controller" where
  "destroy_controller k = k_emit StopWorker (k\<lparr>k_manual_disconnect := True, k_timer := None\<rparr>)"

text \<open>The thread has quit and \<open>~SocketWorker\<close> has run.\<close>

definition destroy_worker :: "'s socket_api \<Rightarrow> ('v, 's) worker \<Rightarrow> ('v, 's) worker" where
  "destroy_worker S w = disconnect_from_host S w"

definition app_step :: "('j, 'v) qt \<Rightarrow> std_sort \<Rightarrow> 's socket_api \<Rightarrow> ('v, 's) app \<Rightarrow> 's app_event \<Rightarrow> ('v, 's) app" where
  "app_step Q srt S a ev =
     (if a_gone a then a
      else case ev of
        Event e \<Rightarrow> if a_exit a = None \<or> worker_thread e then a\<lparr>a_console := console_step Q srt S (a_console a) e\<rparr> else a
      | Object_Created obj url \<Rightarrow> if a_exit a = None then object_created obj url a else a
      | Exit_Call code \<Rightarrow> if a_exit a = None then a\<lparr>a_exit := Some code\<rparr> else a
      | Destroy \<Rightarrow>
          if a_exit a \<noteq> None \<and> \<not> a_dying a
          then a\<lparr>a_console := (a_console a)\<lparr>cn_ctl := destroy_controller (cn_ctl (a_console a))\<rparr>, a_dying := True\<rparr> else a
      | Thread_Ends \<Rightarrow>
          if a_dying a \<and> k_calls (cn_ctl (a_console a)) = []
          then a\<lparr>a_console := (a_console a)\<lparr>cn_worker := destroy_worker S (cn_worker (a_console a))\<rparr>, a_gone := True\<rparr> else a)"

text \<open>\<open>main\<close> returns the code when everything is gone.\<close>

definition console_main :: "('j, 'v) qt \<Rightarrow> std_sort \<Rightarrow> 's socket_api \<Rightarrow> 's \<Rightarrow> 's app_event list \<Rightarrow> int option" where
  "console_main Q srt S so es = (let a = foldl (app_step Q srt S) (init_app so) es in if a_gone a then a_exit a else None)"

section \<open>The end of the console\<close>

text \<open>While the worker's thread runs alone, it takes one call after the other.\<close>

abbreviation app_run :: "('j, 'v) qt \<Rightarrow> std_sort \<Rightarrow> 's socket_api \<Rightarrow> ('v, 's) app \<Rightarrow> 's app_event list \<Rightarrow> ('v, 's) app" where
  "app_run Q srt S \<equiv> foldl (app_step Q srt S)"

lemma worker_takes_calls:
  assumes "list_all worker_thread es" and "a_exit a = Some code" and "\<not> a_gone a"
  shows "let a' = app_run Q srt S a (map Event es) in
    k_calls (cn_ctl (a_console a')) = drop (count_list es DeliverCall) (k_calls (cn_ctl (a_console a))) \<and>
    a_exit a' = Some code \<and> a_dying a' = a_dying a \<and> \<not> a_gone a' \<and> k_timer (cn_ctl (a_console a')) = k_timer (cn_ctl (a_console a))"
  using assms
proof (induction es arbitrary: a)
  case (Cons e es)
  then show ?case
    by (cases e; cases "k_calls (cn_ctl (a_console a))") (auto simp: app_step_def Let_def)
qed simp

lemma closed_fields:
  "w_socket (close_call f w) = fst (f (w_socket w))" "w_hb_timer (close_call f w) \<Longrightarrow> w_hb_timer w"
  "w_timeout_timer (close_call f w) \<Longrightarrow> w_timeout_timer w" "w_tx (close_call f w) = w_tx w"
  "w_pending_cmd_name (close_call f w) = w_pending_cmd_name w"
  by (auto simp: close_call_def on_socket_disconnected_def w_emit_def Let_def split: prod.splits if_splits)

lemma disconnected_worker:
  assumes "\<And>so. so_state S (fst (so_abort S so)) = UnconnectedState"
  shows "so_state S (w_socket (disconnect_from_host S w)) = UnconnectedState" "\<not> w_hb_timer (disconnect_from_host S w)"
    "\<not> w_timeout_timer (disconnect_from_host S w)"
  using assms by (auto simp: disconnect_from_host_def closed_fields(1) Let_def dest!: closed_fields(2,3))

lemma gone_dying: "a_gone (app_run Q srt S a es) \<Longrightarrow> (a_gone a \<Longrightarrow> a_dying a) \<Longrightarrow> a_dying (app_run Q srt S a es)"
proof (induction es arbitrary: a)
  case (Cons e es)
  have "a_gone (app_step Q srt S a e) \<Longrightarrow> a_dying (app_step Q srt S a e)"
    using Cons.prems(2) by (cases e) (auto simp: app_step_def object_created_def split: if_splits)
  with Cons.IH Cons.prems(1) show ?case by simp
qed simp

text \<open>C22: The console ends. Once the event loop has been left and the controller's destructor runs, whatever the worker's
  thread does besides, it needs one turn more than calls are waiting; then the thread ends, \<open>main\<close>
  returns the code with which the loop was left, no call is left behind, no timer runs on either side, the
  socket is closed, and nothing happens any more.\<close>

theorem console_quits:
  assumes "a = app_run Q srt S (init_app so) es" and "a_exit a = Some code" and "\<not> a_dying a" and "list_all worker_thread ws"
    and "length (k_calls (cn_ctl (a_console a))) < count_list ws DeliverCall"
    and "\<forall>so. so_state S (fst (so_abort S so)) = UnconnectedState"
  shows "let quit = Destroy # map Event ws @ [Thread_Ends]; a' = app_run Q srt S a quit;
      k = cn_ctl (a_console a'); w = cn_worker (a_console a')
    in console_main Q srt S so (es @ quit) = Some code \<and> k_calls k = [] \<and> k_timer k = None \<and> \<not> w_hb_timer w \<and>
      \<not> w_timeout_timer w \<and> so_state S (w_socket w) = UnconnectedState \<and> (\<forall>es'. app_run Q srt S a' es' = a')"
proof -
  have g: "\<not> a_gone a" using assms(1,3) gone_dying [of Q srt S "init_app so" es] by (auto simp: init_app_def)
  define b where "b = app_step Q srt S a Destroy"
  have b: "a_exit b = Some code" "a_dying b" "\<not> a_gone b" "k_timer (cn_ctl (a_console b)) = None"
    "k_calls (cn_ctl (a_console b)) = k_calls (cn_ctl (a_console a)) @ [StopWorker]"
    using assms(2,3) g by (simp_all add: b_def app_step_def destroy_controller_def k_emit_def)
  define d where "d = app_run Q srt S b (map Event ws)"
  have d: "k_calls (cn_ctl (a_console d)) = []" "a_exit d = Some code" "a_dying d" "\<not> a_gone d" "k_timer (cn_ctl (a_console d)) = None"
    using worker_takes_calls [OF assms(4) b(1,3), of Q srt S] assms(5) b(2,4,5) by (simp_all add: d_def Let_def)
  define a' where "a' = app_step Q srt S d Thread_Ends"
  have a': "a_gone a'" "a_exit a' = Some code" "k_calls (cn_ctl (a_console a')) = []" "k_timer (cn_ctl (a_console a')) = None"
    "cn_worker (a_console a') = disconnect_from_host S (cn_worker (a_console d))"
    using d by (simp_all add: a'_def app_step_def destroy_worker_def)
  have stays: "app_run Q srt S a' es' = a'" for es' using a'(1) by (induction es') (simp_all add: app_step_def)
  have run: "app_run Q srt S a (Destroy # map Event ws @ [Thread_Ends]) = a'" by (simp add: a'_def d_def b_def)
  moreover have "console_main Q srt S so (es @ Destroy # map Event ws @ [Thread_Ends]) = Some code"
    using run a'(1,2) assms(1) by (simp add: console_main_def Let_def)
  ultimately show ?thesis unfolding Let_def run using a' stays by (simp add: disconnected_worker [OF assms(6) [rule_format]])
qed

theorem console_quits_witness:
  "console_main tree_qt insertion_sort plain_socket UnconnectedState
     [Object_Created False ''qrc:/Main.qml'', Destroy, Event DeliverCall, Thread_Ends] = Some (- 1)"
proof -
  have "\<forall>so. so_state plain_socket (fst (so_abort plain_socket so)) = UnconnectedState" by (simp add: plain_socket_def)
  from console_quits [OF refl _ _ _ _ this, of tree_qt insertion_sort UnconnectedState "[Object_Created False ''qrc:/Main.qml'']"
      "- 1" "[DeliverCall]"]
  show ?thesis
    by (simp add: Let_def) (simp add: app_step_def object_created_def main_url_def init_app_def init_console_def init_controller_def)
qed

section \<open>A command before a disconnect\<close>

text \<open>
  What Qt documents of a TCP socket: \<open>write\<close> appends to a buffer that the event loop sends later;
  \<open>disconnectFromHost\<close> with data in the buffer enters \<open>ClosingState\<close> to send it first; \<open>abort\<close>
  discards the buffer. \<open>buffered\<close> is the buffer and \<open>handed\<close> what the operating system has been given.
\<close>

definition buffers_writes :: "'s socket_api \<Rightarrow> ('s \<Rightarrow> bytes) \<Rightarrow> ('s \<Rightarrow> bytes) \<Rightarrow> bool" where
  "buffers_writes S buffered handed \<longleftrightarrow>
     (\<forall>so bs. so_state S so = ConnectedState \<longrightarrow> so_state S (so_write S bs so) = ConnectedState \<and>
        buffered (so_write S bs so) = buffered so @ bs \<and> handed (so_write S bs so) = handed so) \<and>
     (\<forall>so. so_state S so = ConnectedState \<and> buffered so \<noteq> [] \<longrightarrow> so_state S (fst (so_disconnect S so)) = ClosingState \<and>
        buffered (fst (so_disconnect S so)) = buffered so \<and> handed (fst (so_disconnect S so)) = handed so) \<and>
     (\<forall>so. buffered (fst (so_abort S so)) = [] \<and> handed (fst (so_abort S so)) = handed so)"

text \<open>C23: An emergency stop clicked right before a disconnect is lost. After any run of the console, in a session with
  a connected socket and no call waiting: when the user clicks emergency stop and then disconnect,
  and the worker takes both calls in one turn of its loop, the frame of the emergency stop is written to
  the socket and expected to be answered, but the operating system is never given it: it was still in the buffer
  that \<open>disconnectFromHost\<close> discards when it calls \<open>abort\<close> at once.\<close>

theorem estop_lost_by_disconnect:
  assumes "c = console_run Q srt S so es" and "k_hello_ok (cn_ctl c)" and "k_calls (cn_ctl c) = []"
    and "so_state S (w_socket (cn_worker c)) = ConnectedState" and "buffers_writes S buffered handed"
  shows "let w = cn_worker (foldl (console_step Q srt S) c [User (UserEstop reason), User UserDisconnect, DeliverCall, DeliverCall])
    in (\<exists>f. ftype f = MSG_CMD_ESTOP \<and> w_tx w = w_tx (cn_worker c) @ [encode f] \<and>
          w_pending_cmd_name w (fseq f) = Some ''CMD_ESTOP'') \<and>
       handed (w_socket w) = handed (w_socket (cn_worker c)) \<and> buffered (w_socket w) = []"
proof -
  let ?k = "cn_ctl c" and ?w = "cn_worker c"
  have inv: "console_inv c" unfolding assms(1) by (rule console_run_inv)
  then have conn: "v_connected (k_view ?k)" and sq: "w_next_seq ?w \<noteq> 0"
    using assms(2) seq_at_nonzero by (auto simp: console_inv_def session_inv_def numbered_def)
  define f where "f = \<lparr>ftype = MSG_CMD_ESTOP, fflags = or ui_FLAG_URGENT ui_FLAG_NEED_ACK, fseq = w_next_seq ?w,
    fpayload = j_compact Q [''reason'' \<mapsto> j_of_string Q reason]\<rparr>"
  define w1 where "w1 = send_cmd_estop Q S reason ?w"
  have "k_calls (user_step Q UserDisconnect (user_step Q (UserEstop reason) ?k)) = [WorkerCmdEstop reason, StopWorker]"
    using command_calls(2) [OF call_of.simps(4) conn] assms(3)
    by (simp add: disconnect_from_server_def on_view_def log_text_def k_emit_def Let_def del: user_step.simps(5))
  then have w: "cn_worker (foldl (console_step Q srt S) c [User (UserEstop reason), User UserDisconnect, DeliverCall, DeliverCall]) =
      disconnect_from_host S w1" by (simp add: w1_def del: user_step.simps)
  have w1: "w_tx w1 = w_tx ?w @ [encode f]" "w_pending_cmd_name w1 (fseq f) = Some ''CMD_ESTOP''"
    "w_socket w1 = so_write S (encode f) (w_socket ?w)"
    using assms(4) sq by (simp_all add: w1_def send_cmd_estop_def worker_send_def take_seq_def w_write_def note_cmd_def
        f_def encode_def ui_encode_frame_eq ui_MSG_CMD_ESTOP_def MSG_CMD_ESTOP_def Let_def)
  have b: "so_state S (w_socket w1) = ConnectedState" "buffered (w_socket w1) \<noteq> []" "handed (w_socket w1) = handed (w_socket ?w)"
    using assms(4,5) bridge_codec.enc_nonempty [of f] by (simp_all add: buffers_writes_def w1(3))
  have "w_tx (disconnect_from_host S w1) = w_tx w1" "w_pending_cmd_name (disconnect_from_host S w1) = w_pending_cmd_name w1"
    by (simp_all add: disconnect_from_host_def closed_fields(4,5) Let_def)
  moreover have "handed (w_socket (disconnect_from_host S w1)) = handed (w_socket ?w) \<and> buffered (w_socket (disconnect_from_host S w1)) = []"
    using assms(5) b by (simp add: disconnect_from_host_def closed_fields(1) buffers_writes_def Let_def)
  ultimately show ?thesis unfolding Let_def w using w1
    by (intro conjI exI [of _ f]) (simp_all add: f_def)
qed

text \<open>A socket with a buffer, to apply the theorem to: its state, the buffer, the bytes handed over, and a hello to read.\<close>

definition buffer_socket :: "(sock_state \<times> bytes \<times> bytes) socket_api" where
  "buffer_socket = \<lparr>so_state = fst, so_connect = (\<lambda>_ _ _. (ConnectingState, [], [])),
     so_disconnect = (\<lambda>(st, b, h). if st = ConnectedState \<and> b \<noteq> [] then ((ClosingState, b, h), False) else ((UnconnectedState, [], h), st = ConnectedState)),
     so_abort = (\<lambda>(st, b, h). ((UnconnectedState, [], h), st \<noteq> UnconnectedState)), so_write = (\<lambda>x (st, b, h). (st, b @ x, h)),
     so_read_all = (\<lambda>so. (ui_encode \<lparr>ui_type = ui_MSG_HELLO_ACK, ui_flags = 0, ui_seq = 1, ui_payload = ''ok''\<rparr>, so)),
     so_error = (\<lambda>_. [])\<rparr>"

definition buffered_session :: "(sock_state \<times> bytes \<times> bytes) console_event list" where
  "buffered_session = [Loop_Event (SockConnected (ConnectedState, [], [])), DeliverSignal,
     Loop_Event (SockReadyRead (ConnectedState, [], [])), DeliverSignal]"

theorem estop_lost_by_disconnect_witness:
  "let c = console_run tree_qt insertion_sort buffer_socket (UnconnectedState, [], []) buffered_session;
     w = cn_worker (foldl (console_step tree_qt insertion_sort buffer_socket) c
       [User (UserEstop ''operator''), User UserDisconnect, DeliverCall, DeliverCall])
   in w_tx w \<noteq> w_tx (cn_worker c) \<and> snd (snd (w_socket w)) = snd (snd (w_socket (cn_worker c))) \<and> fst (snd (w_socket w)) = []"
proof -
  let ?c = "console_run tree_qt insertion_sort buffer_socket (UnconnectedState, [], []) buffered_session"
  let ?f = "\<lparr>ui_type = ui_MSG_HELLO_ACK, ui_flags = 0, ui_seq = 1, ui_payload = ''ok''\<rparr>"
  have "ui_drain [] = ([], [])" by (subst ui_drain.simps) (simp add: ui_decoder_next_def)
  then have d: "ui_drain (ui_encode ?f) = ([?f], [])"
    using ui_codec.drain_frame [of ?f "[]"] by (simp add: ui_frame_ok_def)
  have so: "so_state buffer_socket = fst" "so_write buffer_socket = (\<lambda>x (st, b, h). (st, b @ x, h))"
    "so_read_all buffer_socket = (\<lambda>so. (ui_encode ?f, so))" by (simp_all add: buffer_socket_def)
  have app: "ui_decoder_append [] (Some x) = x" for x by (simp add: ui_decoder_append_def)
  have ack: "to_bool tree_qt (val tree_qt (hello_info tree_qt (j_object tree_qt ''ok'')) ''ok'')"
    by (simp add: hello_info_def val_def jval_def tree_qt_def)
  have c: "k_hello_ok (cn_ctl ?c)" "k_calls (cn_ctl ?c) = []" "so_state buffer_socket (w_socket (cn_worker ?c)) = ConnectedState"
    by (simp_all add: console_run_def buffered_session_def init_console_def init_controller_def init_worker_def so d
        on_view_def log_text_def k_emit_def now_u64_def current_msecs_def
        on_socket_connected_def w_emit_def worker_send_def take_seq_def w_write_def on_connected_def on_ready_read_def
        app worker_frame_def ack on_hello_ack_def Let_def)
  have b: "buffers_writes buffer_socket (fst \<circ> snd) (snd \<circ> snd)" by (auto simp: buffers_writes_def buffer_socket_def)
  from estop_lost_by_disconnect [OF refl c b, of "''operator''"] show ?thesis by (auto simp: Let_def simp del: console_step.simps)
qed

end
