(* ===== verification/Bridge_Watch.thy ===== *)
theory Bridge_Watch
  imports Bridge_Props
begin

text \<open>
  The watchdog of the bridge (\<open>TcpServer::heartbeat_watchdog\<close>): exactly which clients a round shuts
  down, with the unsigned difference of the two readings of the clock written out, and what it
  does to a client that says hello late.
\<close>

section \<open>One round\<close>

lemma hb_expired_shut [simp]: "hb_expired now (cl\<lparr>c_shut := b\<rparr>) = hb_expired now cl"
  by (simp add: hb_expired_def)

lemma hb_expired_sent: "sent_more cl cl' \<Longrightarrow> hb_expired now cl' = hb_expired now cl"
  by (auto simp: hb_expired_def dest!: sent_more_fields)

lemma fold_shut:
  assumes "c < length (s_objs s)"
  shows "client_of (fold (\<lambda>c s'. if c_fd (client_of s' c) \<ge> 0 \<and> hb_expired now (client_of s' c)
      then set_client c (\<lambda>cl. cl\<lparr>c_shut := True\<rparr>) s' else s') cs s) c =
    (if c \<in> set cs \<and> c_fd (client_of s c) \<ge> 0 \<and> hb_expired now (client_of s c)
     then (client_of s c)\<lparr>c_shut := True\<rparr> else client_of s c)"
  using assms by (induction cs arbitrary: s) auto

text \<open>A round changes nothing of a client but what it sends and whether its socket is shut down.\<close>

lemma watchdog_client:
  assumes "s_running s" and "c < length (s_objs s)"
  shows "\<exists>cl. sent_more (client_of s c) cl \<and> client_of (watchdog P s) c =
    (if c \<in> set (s_clients s) \<and> c_fd (client_of s c) \<ge> 0 \<and> hb_expired (p_clock P (s_reads s)) (client_of s c)
     then cl\<lparr>c_shut := True\<rparr> else cl)"
proof -
  let ?now = "p_clock P (s_reads s)"
  define s1 where "s1 = s\<lparr>s_reads := Suc (s_reads s)\<rparr>"
  define s2 where "s2 = (if ?now - s_last_tx s1 \<ge> word_of_int HB_INTERVAL_MS
    then send_to_all P MSG_HEARTBEAT 0 (heartbeat_json ?now) (s1\<lparr>s_last_tx := ?now\<rparr>) else s1)"
  have s1: "client_of s1 c = client_of s c" "client_of (s1\<lparr>s_last_tx := ?now\<rparr>) c = client_of s c"
    "length (s_objs s1) = length (s_objs s)" "s_clients s1 = s_clients s"
    by (simp_all add: s1_def client_of_def)
  have s2: "sent_more (client_of s c) (client_of s2 c)" "length (s_objs s2) = length (s_objs s)" "s_clients s2 = s_clients s"
    using only_sent_client [OF only_sent_all, of c "s1\<lparr>s_last_tx := ?now\<rparr>"] assms(2) s1
    by (auto simp: s2_def)
  have "watchdog P s = fold (\<lambda>c s'. if c_fd (client_of s' c) \<ge> 0 \<and> hb_expired ?now (client_of s' c)
      then set_client c (\<lambda>cl. cl\<lparr>c_shut := True\<rparr>) s' else s') (s_clients s) s2"
    using assms(1) s2(3) by (simp add: watchdog_def s_now_def s1_def s2_def Let_def)
  moreover have "hb_expired ?now (client_of s2 c) = hb_expired ?now (client_of s c)"
    "c_fd (client_of s2 c) = c_fd (client_of s c)"
    using hb_expired_sent [OF s2(1)] sent_more_fields [OF s2(1)] by auto
  ultimately show ?thesis using s2(1,2) assms(2) by (auto simp: fold_shut)
qed

text \<open>C29: The watchdog of the bridge shuts down exactly the silent clients, and everyone when the clock is
  set back. A round shuts the socket of a connected client when the reading of the clock is more
  than 3 s after its last heartbeat (once it has said hello) or more than 6 s after anything it sent
  (before), and also when it is earlier than that moment, unless by almost 2^64 ms. A client shut
  before stays so, and nothing else of its session changes.\<close>

theorem watchdog_shuts_silent:
  assumes "s_running s" and "c \<in> set (s_clients s)" and "c < length (s_objs s)"
  shows "let cl = client_of s c; cl' = client_of (bridge_step P s Watchdog) c; now = unat (p_clock P (s_reads s));
      seen = unat (if c_hello_ok cl then c_last_hb_rx_ms cl else c_last_rx_ms cl);
      limit = (if c_hello_ok cl then 3000 else 6000)
    in (c_shut cl' \<longleftrightarrow> c_shut cl \<or> (c_fd cl \<ge> 0 \<and> seen > 0 \<and>
          (seen + limit < now \<or> (now < seen \<and> seen + limit < now + 2 ^ 64)))) \<and>
      c_fd cl' = c_fd cl \<and> c_hello_ok cl' = c_hello_ok cl \<and> c_decoder cl' = c_decoder cl \<and> c_batch cl' = c_batch cl"
proof -
  define cl where "cl = client_of s c"
  define now where "now = p_clock P (s_reads s)"
  define seen where "seen = (if c_hello_ok cl then c_last_hb_rx_ms cl else c_last_rx_ms cl)"
  define limit :: nat where "limit = (if c_hello_ok cl then 3000 else 6000)"
  obtain cl1 where cl1: "sent_more cl cl1"
    "client_of (bridge_step P s Watchdog) c = (if c_fd cl \<ge> 0 \<and> hb_expired now cl then cl1\<lparr>c_shut := True\<rparr> else cl1)"
    using watchdog_client [OF assms(1,3), of P] assms(2) by (auto simp: bridge_step_def cl_def now_def)
  have "unat (if c_hello_ok cl then word_of_int HB_TIMEOUT_MS else word_of_int (HB_TIMEOUT_MS * 2) :: u64) = limit"
    by (simp add: HB_TIMEOUT_MS_def limit_def)
  then have "hb_expired now cl \<longleftrightarrow> 0 < unat seen \<and> limit < unat (now - seen)"
    by (simp add: hb_expired_def Let_def word_less_nat_alt unat_gt_0 flip: seen_def)
  also have "limit < unat (now - seen) \<longleftrightarrow> unat seen + limit < unat now \<or>
      (unat now < unat seen \<and> unat seen + limit < unat now + 2 ^ 64)"
    using unsigned_less [of seen, where ?'a = nat] by (auto simp: unat_sub_if')
  finally show ?thesis using cl1(2) sent_more_fields [OF cl1(1)]
    by (auto simp: Let_def simp flip: cl_def now_def seen_def limit_def)
qed

section \<open>A late hello\<close>

text \<open>What the step that accepts a hello does to its client.\<close>

lemma client_call_state [simp]: "client_of (snd (call_state P C s)) c = client_of s c"
  by (simp add: client_of_def)

lemma hello_accepts:
  assumes "c < length (s_objs s)" and "proto_supported (fpayload f)"
  shows "sent_more ((client_of s c)\<lparr>c_hello_ok := True\<rparr>) (client_of (handle_hello P C c f s) c)"
proof -
  let ?s1 = "send_to P c MSG_HELLO_ACK (fseq f) hello_ok_json s"
  have "sent_more (client_of s c) (client_of ?s1 c)" using only_sent_client [OF only_sent_send assms(1)] .
  then have "sent_more ((client_of s c)\<lparr>c_hello_ok := True\<rparr>) ((client_of ?s1 c)\<lparr>c_hello_ok := True\<rparr>)"
    by (cases "client_of s c"; cases "client_of ?s1 c") (simp add: sent_more_def)
  also have "sent_more \<dots> (client_of (handle_hello P C c f s) c)"
    using only_sent_client [OF only_sent_send, of c "snd (call_state P C (set_client c (\<lambda>cl. cl\<lparr>c_hello_ok := True\<rparr>) ?s1))"]
      assms by (simp add: handle_hello_def split_beta Let_def)
  finally (sent_more_trans) show ?thesis .
qed

lemma frame_accepts_hello:
  assumes "c < length (s_objs s)" and "s_running s" and "c_fd (client_of s c) \<ge> 0"
    and "c_batch (client_of s c) = f # fs" and "ftype f = MSG_HELLO" and "proto_supported (fpayload f)"
  shows "sent_more ((client_of s c)\<lparr>c_hello_ok := True, c_batch := fs\<rparr>) (client_of (client_frame P C c s) c)"
    and "s_running (client_frame P C c s)" and "s_clients (client_frame P C c s) = s_clients s"
    and "length (s_objs (client_frame P C c s)) = length (s_objs s)"
    and "client_of (client_frame P C c s) c = client_of (handle_hello P C c f (set_client c (\<lambda>cl. cl\<lparr>c_batch := fs\<rparr>) s)) c"
proof -
  let ?s = "set_client c (\<lambda>cl. cl\<lparr>c_batch := fs\<rparr>) s"
  let ?h = "handle_hello P C c f ?s"
  have m: "sent_more ((client_of s c)\<lparr>c_batch := fs, c_hello_ok := True\<rparr>) (client_of ?h c)"
    using hello_accepts [of c ?s f P C] assms(1,6) by simp
  have h: "s_running ?h" "s_clients ?h = s_clients s" "length (s_objs ?h) = length (s_objs s)"
    using assms(2) by (simp_all add: handle_hello_def split_beta Let_def)
  have fd: "c_fd (client_of ?h c) \<ge> 0" "c_batch (client_of ?h c) = fs"
    using sent_more_fields [OF m] assms(3) by simp_all
  have "client_frame P C c s = (if fs = [] then loop_test c (set_client c (\<lambda>cl. cl\<lparr>c_batch := []\<rparr>) ?h) else ?h)"
    using assms(4,5) fd(1) by (simp add: client_frame_def handle_frame_def Let_def)
  moreover have "loop_test c (set_client c (\<lambda>cl. cl\<lparr>c_batch := []\<rparr>) ?h) = set_client c (\<lambda>cl. cl\<lparr>c_batch := []\<rparr>) ?h"
    using h(1,3) fd(1) assms(1) by (simp add: loop_test_def)
  ultimately have r: "client_frame P C c s = ?h \<or> (fs = [] \<and> client_frame P C c s = set_client c (\<lambda>cl. cl\<lparr>c_batch := []\<rparr>) ?h)"
    by metis
  have "client_of (set_client c (\<lambda>cl. cl\<lparr>c_batch := []\<rparr>) ?h) c = client_of ?h c" if "fs = []"
    using fd(2) that h(3) assms(1) by simp
  with r have e: "client_of (client_frame P C c s) c = client_of ?h c" by (elim disjE) simp_all
  then show "client_of (client_frame P C c s) c = client_of ?h c" .
  have "(client_of s c)\<lparr>c_batch := fs, c_hello_ok := True\<rparr> = (client_of s c)\<lparr>c_hello_ok := True, c_batch := fs\<rparr>"
    by (cases "client_of s c") simp
  with m e show "sent_more ((client_of s c)\<lparr>c_hello_ok := True, c_batch := fs\<rparr>) (client_of (client_frame P C c s) c)" by simp
  from r h show "s_running (client_frame P C c s)" "s_clients (client_frame P C c s) = s_clients s"
    "length (s_objs (client_frame P C c s)) = length (s_objs s)" by (elim disjE; simp)+
qed

text \<open>C30: A console that says hello more than 3 s after it connected is accepted and cut off. The hello does
  not count as a heartbeat: when the last one (or, without one, the moment the client was accepted) lies more than
  3 s back, the step that accepts the session leaves the client open and in session, and the next round of
  the watchdog shuts its socket, although the bridge has just heard from it.\<close>

theorem late_hello_cut_off:
  assumes "thread_of c s" and "s_running s" and "c \<in> set (s_clients s)" and "c_fd (client_of s c) \<ge> 0"
    and "c_batch (client_of s c) = f # fs" and "ftype f = MSG_HELLO" and "proto_supported (fpayload f)"
    and "s1 = bridge_step P s (Frame c)" and "c_last_hb_rx_ms (client_of s c) > 0"
    and "p_clock P (s_reads s1) - c_last_hb_rx_ms (client_of s c) > 3000"
  shows "c_hello_ok (client_of s1 c) \<and> c_fd (client_of s1 c) \<ge> 0 \<and>
    c_last_rx_ms (client_of s1 c) = c_last_rx_ms (client_of s c) \<and>
    c_shut (client_of (bridge_step P s1 Watchdog) c)"
proof -
  have c: "c < length (s_objs s)" using assms(1) by (simp add: thread_of_def)
  have s1: "s1 = client_frame P node_callbacks c s" using assms(1,8) by (simp add: bridge_step_def)
  note h = frame_accepts_hello [OF c assms(2,4,5,6,7), of P node_callbacks, folded s1]
  have f: "c_hello_ok (client_of s1 c)" "c_fd (client_of s1 c) \<ge> 0" "c_last_rx_ms (client_of s1 c) = c_last_rx_ms (client_of s c)"
    "c_last_hb_rx_ms (client_of s1 c) = c_last_hb_rx_ms (client_of s c)"
    using sent_more_fields [OF h(1)] assms(4) by simp_all
  moreover have "hb_expired (p_clock P (s_reads s1)) (client_of s1 c)"
    using f assms(9,10) by (simp add: hb_expired_def HB_TIMEOUT_MS_def)
  ultimately show ?thesis
    using watchdog_client [OF h(2), of c P] c h(3,4) assms(3) by (auto simp: bridge_step_def)
qed

section \<open>Witnesses\<close>

text \<open>A console that connected at 96 000 ms and says hello at 100 000 ms.\<close>

definition late_console :: "(bridge, wait) server" where
  "late_console = init_server\<lparr>s_running := True, s_clients := [0],
     s_objs := [(new_client 5 96000)\<lparr>c_last_rx_ms := 100000, c_batch := [demo_frame MSG_HELLO 1]\<rparr>]\<rparr>"

lemma late_console_fields:
  "client_of late_console 0 = (new_client 5 96000)\<lparr>c_last_rx_ms := 100000, c_batch := [demo_frame MSG_HELLO 1]\<rparr>"
  "s_running late_console" "s_clients late_console = [0]" "length (s_objs late_console) = 1" "thread_of 0 late_console"
  by (simp_all add: late_console_def client_of_def thread_of_def new_client_def)

theorem watchdog_shuts_silent_witness:
  "\<not> c_shut (client_of (bridge_step demo_platform late_console Watchdog) 0)"
  using watchdog_shuts_silent [of late_console 0 demo_platform]
  by (simp add: late_console_fields new_client_def demo_platform_def Let_def)

lemma demo_payload_supported: "proto_supported ''{}''"
proof -
  have "find_key_value ''proto_min'' ''{}'' = None" "find_key_value ''proto_max'' ''{}'' = None"
    by (subst find_key_value.simps, simp add: quoted_def dq_def)+
  then show ?thesis by (simp add: proto_supported_def get_string_def)
qed

theorem late_hello_cut_off_witness:
  "c_shut (client_of (bridge_step demo_platform (bridge_step demo_platform late_console (Frame 0)) Watchdog) 0)"
  using late_hello_cut_off [of 0 late_console "demo_frame MSG_HELLO 1" "[]" _ demo_platform, OF _ _ _ _ _ _ _ refl]
  by (simp add: late_console_fields new_client_def demo_platform_def demo_frame_def demo_payload_supported)

end
