(* ===== verification/Handshake.thy ===== *)
theory Handshake
  imports Bridge_Watch Console_Rules
begin

text \<open>
  The handshake, from the console's socket to the bridge and back: the text of the hello, what the
  bridge makes of it, and the session the console opens on the answer. What the console's JSON
  library writes and reads of these two messages is named (\<open>json_writes_hello\<close>,
  \<open>json_reads_ack\<close>); that the kernel takes some bytes of every \<open>send\<close> is \<open>sends_progress\<close>.
\<close>

section \<open>The bridge\<close>

definition sends_progress :: "platform \<Rightarrow> bool" where
  "sends_progress P \<longleftrightarrow> (\<forall>k n. 0 < n \<longrightarrow> 0 < p_send P k n)"

lemma send_bytes_all: "sends_progress P \<Longrightarrow> \<exists>k'. send_bytes P k xs = (xs, True, k')"
proof (induction P k xs rule: send_bytes.induct)
  case (1 P k xs)
  show ?case
  proof (cases "xs = []")
    case False
    then have n: "0 < p_send P k (length xs)" using 1(2) by (simp add: sends_progress_def)
    with 1(1) [OF False refl] 1(2) obtain k' where
      "send_bytes P (Suc k) (drop (nat (p_send P k (length xs))) xs) = (drop (nat (p_send P k (length xs))) xs, True, k')"
      by auto
    with n False show ?thesis by (subst send_bytes.simps) (simp add: Let_def)
  qed (simp add: send_bytes.simps)
qed

lemma send_to_sent:
  assumes "sends_progress P" and "c < length (s_objs s)" and "c_fd (client_of s c) \<ge> 0"
  shows "c_sent (client_of (send_to P c ty sq payload s) c) = c_sent (client_of s c) @ encode_frame ty 0 sq payload"
proof -
  obtain k' where "send_bytes P (s_sends s) (encode_frame ty 0 sq payload) = (encode_frame ty 0 sq payload, True, k')"
    using send_bytes_all [OF assms(1)] by blast
  moreover have "client_of (s\<lparr>s_sends := k'\<rparr>) c = client_of s c" for k' by (simp add: client_of_def)
  ultimately show ?thesis using assms(2,3) by (simp add: send_to_def send_frame_def)
qed

definition hello_ack :: "u16 \<Rightarrow> frame" where
  "hello_ack sq = \<lparr>ftype = MSG_HELLO_ACK, fflags = 0, fseq = sq, fpayload = hello_ok_json\<rparr>"

lemma hello_answered:
  assumes "sends_progress P" and "c < length (s_objs s)" and "c_fd (client_of s c) \<ge> 0" and "proto_supported (fpayload f)"
  shows "prefix (c_sent (client_of s c) @ encode (hello_ack (fseq f))) (c_sent (client_of (handle_hello P C c f s) c))"
proof -
  let ?s1 = "send_to P c MSG_HELLO_ACK (fseq f) hello_ok_json s"
  let ?s3 = "snd (call_state P C (set_client c (\<lambda>cl. cl\<lparr>c_hello_ok := True\<rparr>) ?s1))"
  have "c_sent (client_of ?s3 c) = c_sent (client_of s c) @ encode (hello_ack (fseq f))"
    using send_to_sent [OF assms(1-3)] assms(2) by (simp add: hello_ack_def encode_def)
  moreover have "sent_more (client_of ?s3 c) (client_of (handle_hello P C c f s) c)"
    using only_sent_client [OF only_sent_send, of c ?s3] assms(2,4) by (simp add: handle_hello_def split_beta Let_def)
  ultimately show ?thesis by (simp add: sent_more_def)
qed

lemma frame_answers_hello:
  assumes "sends_progress P" and "c < length (s_objs s)" and "s_running s" and "c_fd (client_of s c) \<ge> 0"
    and "c_batch (client_of s c) = f # fs" and "ftype f = MSG_HELLO" and "proto_supported (fpayload f)"
  shows "prefix (c_sent (client_of s c) @ encode (hello_ack (fseq f))) (c_sent (client_of (client_frame P C c s) c))"
proof -
  let ?s = "set_client c (\<lambda>cl. cl\<lparr>c_batch := fs\<rparr>) s"
  have "c < length (s_objs ?s)" "c_fd (client_of ?s c) \<ge> 0" "c_sent (client_of ?s c) = c_sent (client_of s c)"
    using assms(2,4) by simp_all
  with hello_answered [OF assms(1) this(1,2) assms(7), of C] frame_accepts_hello(5) [OF assms(2-7), of P C]
  show ?thesis by simp
qed

section \<open>The console\<close>

text \<open>The hello as \<open>QJsonDocument::toJson(Compact)\<close> writes it: members in the order of their keys.\<close>

definition hello_text :: string where
  "hello_text = ''{'' @ quoted ''client'' @ '':'' @ quoted ''BotCockpit'' @ '','' @ quoted ''proto_max'' @ '':'' @ quoted ''0.1'' @
     '','' @ quoted ''proto_min'' @ '':'' @ quoted ''0.1'' @ '','' @ quoted ''ui_version'' @ '':'' @ quoted ''0.1.0'' @ ''}''"

definition json_writes_hello :: "('j, 'v) qt \<Rightarrow> bool" where
  "json_writes_hello Q \<longleftrightarrow> j_compact Q [''client'' \<mapsto> j_of_string Q ''BotCockpit'', ''ui_version'' \<mapsto> j_of_string Q ''0.1.0'',
     ''proto_min'' \<mapsto> j_of_string Q ''0.1'', ''proto_max'' \<mapsto> j_of_string Q ''0.1''] = hello_text"

text \<open>The members of the bridge's answer, as \<open>QJsonDocument::fromJson\<close> reads them.\<close>

definition json_reads_ack :: "('j, 'v) qt \<Rightarrow> bool" where
  "json_reads_ack Q \<longleftrightarrow> (let ob = j_object Q hello_ok_json in j_bool Q (jval Q ob ''ok'') \<and>
     j_string Q (jval Q ob ''proto'') = ''0.1'' \<and> j_string Q (jval Q ob ''server'') = ''botcockpit_bridge/0.1.0'')"

lemma hello_text_supported: "proto_supported hello_text"
proof -
  have "find_key_value ''proto_min'' hello_text =
      Some (quoted ''0.1'' @ '','' @ quoted ''ui_version'' @ '':'' @ quoted ''0.1.0'' @ ''}'')"
    by (subst find_key_value.simps) (simp add: hello_text_def quoted_def dq_def skip_ws_def is_space_def)
  moreover have "parse_json_string_at (quoted ''0.1'' @ r) [] = (True, ''0.1'')" for r
    by (simp add: parse_json_string_at_def quoted_def dq_def bs_def)
  ultimately show ?thesis by (simp add: proto_supported_def get_string_def PROTO_VERSION_def)
qed

lemma hello_info_shown: "v_proto (set_hello_info p sv s) = p" "v_server (set_hello_info p sv s) = sv"
  by (simp_all add: set_hello_info_def emit_def Let_def)

lemma shown_keeps [simp]:
  "v_proto (append_log Q l s) = v_proto s" "v_server (append_log Q l s) = v_server s"
  "v_proto (set_error_string e s) = v_proto s" "v_server (set_error_string e s) = v_server s"
  "v_proto (set_reconnect_attempts n s) = v_proto s" "v_server (set_reconnect_attempts n s) = v_server s"
  "v_proto (set_connected b s) = v_proto s" "v_server (set_connected b s) = v_server s"
  "v_proto (set_connecting b s) = v_proto s" "v_server (set_connecting b s) = v_server s"
  by (simp_all add: append_log_def set_error_string_def set_reconnect_attempts_def set_connected_def set_connecting_def
      emit_def Let_def)

text \<open>The controller opens the session on the bridge's answer.\<close>

lemma accepted_opens_session:
  assumes "qt_laws Q" and "json_reads_ack Q" and "k' = on_hello_ack Q (hello_info Q (j_object Q hello_ok_json)) k"
  shows "k_hello_ok k'" and "v_connected (k_view k')" and "\<not> v_connecting (k_view k')" and "k_timer k' = None"
    and "v_proto (k_view k') = ''0.1''" and "v_server (k_view k') = ''botcockpit_bridge/0.1.0''"
proof -
  have "to_bool Q (val Q (hello_info Q (j_object Q hello_ok_json)) ''ok'')"
    "to_str Q (val Q (hello_info Q (j_object Q hello_ok_json)) ''proto'') = ''0.1''"
    "to_str Q (val Q (hello_info Q (j_object Q hello_ok_json)) ''server'') = ''botcockpit_bridge/0.1.0''"
    using assms(1,2) by (simp_all add: hello_info_def val_def json_reads_ack_def qt_laws_def Let_def)
  then show "k_hello_ok k'" and "v_connected (k_view k')" and "\<not> v_connecting (k_view k')" and "k_timer k' = None"
    and "v_proto (k_view k') = ''0.1''" and "v_server (k_view k') = ''botcockpit_bridge/0.1.0''"
    by (simp_all add: assms(3) on_hello_ack_def controller_defs hello_info_shown Let_def)
qed

lemma worker_frame_out: "prefix (w_out w) (w_out (worker_frame Q f w))"
  by (simp add: worker_frame_def on_bridge_heartbeat_def current_msecs_def w_emit_def Let_def)

lemma worker_frames_out: "prefix (w_out w) (w_out (fold (worker_frame Q) fs w))"
  by (induction fs arbitrary: w) (auto intro: prefix_order.trans worker_frame_out)

text \<open>The worker reads the answer first, whatever follows it in the same read.\<close>

lemma answer_read:
  assumes "so_read_all S (w_socket w) = (encode (hello_ack sq) @ later, so')" and "w_decoder w = []"
  shows "\<exists>sgs. w_out (on_ready_read Q S w) = w_out w @ WHelloAck (hello_info Q (j_object Q hello_ok_json)) # sgs"
proof -
  let ?u = "ui_frame_of (hello_ack sq)"
  have "length hello_ok_json \<le> 100"
    by (simp add: hello_ok_json_def quoted_def PROTO_VERSION_def SERVER_NAME_def)
  then have "ui_frame_ok ?u" by (simp add: ui_frame_ok_eq frame_ok_def hello_ack_def)
  then obtain fs buf where d: "ui_drain (encode (hello_ack sq) @ later) = (?u # fs, buf)"
    using ui_codec.drain_frame [of ?u later] by (auto simp: ui_encode_eq Let_def split: prod.splits)
  have app: "ui_decoder_append [] (Some x) = x" for x by (simp add: ui_decoder_append_def)
  let ?w = "w\<lparr>w_socket := so', w_reads := Suc (w_reads w), w_last_rx_ms := word_of_int (msecs Q (w_reads w)), w_decoder := buf\<rparr>"
  have "on_ready_read Q S w = fold (worker_frame Q) fs (worker_frame Q ?u ?w)"
    using assms d by (simp add: on_ready_read_def now_u64_def current_msecs_def app Let_def)
  moreover have "w_out (worker_frame Q ?u ?w) = w_out w @ [WHelloAck (hello_info Q (j_object Q hello_ok_json))]"
    by (simp add: worker_frame_def w_emit_def hello_ack_def ui_frame_of_def ui_MSG_HELLO_ACK_def MSG_HELLO_ACK_def Let_def)
  ultimately show ?thesis using worker_frames_out [of "worker_frame Q ?u ?w" Q fs] by (auto elim: prefixE)
qed

section \<open>Both together\<close>

text \<open>C6: The handshake opens the session on both sides. When the console's socket is connected, the worker writes
  one hello; however TCP cuts it, the bridge decodes exactly that frame. The bridge, whenever it
  handles it for a client that is connected, takes the client into session and sends the answer before anything
  else; and when the console reads that answer, whatever follows it and whether or not the
  controller has heard of the connection before, the session is open: connected, no reconnect
  waiting, with the version and the server that the bridge has sent.\<close>

theorem handshake_opens_session:
  assumes "qt_laws Q" and "json_writes_hello Q" and "json_reads_ack Q" and "sends_progress P"
    and "w_out (cn_worker c) = []" and "w_decoder (cn_worker c) = []" and "so_state S so = ConnectedState"
    and "c1 = console_step Q srt S c (Loop_Event (SockConnected so))"
  shows "\<exists>hello bs. ftype hello = MSG_HELLO \<and> fseq hello = w_next_seq (cn_worker c) \<and> w_tx (cn_worker c1) = w_tx (cn_worker c) @ [bs] \<and>
    (\<forall>chunks. concat chunks = bs \<longrightarrow> feed_all decoder_drain [] chunks = ([hello], [])) \<and>
    (\<forall>s t fs. thread_of t s \<and> s_running s \<and> c_fd (client_of s t) \<ge> 0 \<and> c_batch (client_of s t) = hello # fs \<longrightarrow>
      (let cl = client_of (bridge_step P s (Frame t)) t
       in c_hello_ok cl \<and> prefix (c_sent (client_of s t) @ encode (hello_ack (fseq hello))) (c_sent cl))) \<and>
    (\<forall>so2 so3 later read es. read = Loop_Event (SockReadyRead so2) \<and> 
      so_read_all S so2 = (encode (hello_ack (fseq hello)) @ later, so3) \<and>
      (es = [DeliverSignal, read, DeliverSignal] \<or> es = [read, DeliverSignal, DeliverSignal]) \<longrightarrow>
      (let k = cn_ctl (foldl (console_step Q srt S) c1 es)
       in k_hello_ok k \<and> v_connected (k_view k) \<and> \<not> v_connecting (k_view k) \<and> k_timer k = None \<and>
          v_proto (k_view k) = ''0.1'' \<and> v_server (k_view k) = ''botcockpit_bridge/0.1.0''))"
proof -
  define hello where "hello = \<lparr>ftype = MSG_HELLO, fflags = 0, fseq = w_next_seq (cn_worker c), fpayload = hello_text\<rparr>"
  let ?answer = "encode (hello_ack (fseq hello))"
  have writes: "j_compact Q (hello_object Q) = hello_text" using assms(2) by (simp add: json_writes_hello_def hello_object_def)
  have c1: "w_tx (cn_worker c1) = w_tx (cn_worker c) @ [encode hello]" "w_out (cn_worker c1) = [WConnected]"
    "w_decoder (cn_worker c1) = []" "cn_ctl c1 = cn_ctl c"
    using assms(5,6,7) by (simp_all add: assms(8) on_socket_connected_def w_emit_def now_u64_def current_msecs_def
        worker_send_def take_seq_def w_write_def writes hello_def encode_def ui_encode_frame_eq ui_MSG_HELLO_def MSG_HELLO_def Let_def)
  have ok: "frame_ok hello" by (simp add: frame_ok_def hello_def hello_text_def quoted_def)
  have nil: "decoder_drain [] = ([], [])" by (subst decoder_drain.simps) (simp add: decoder_next_def)
  have decoded: "feed_all decoder_drain [] chunks = ([hello], [])" if "concat chunks = encode hello" for chunks
    using bridge_codec.feed_all_stream [of "[hello]" hello "[]" "[]" chunks] ok nil that bridge_codec.enc_nonempty [of hello]
    by (simp add: strict_prefix_def)
  have accepted: "c_hello_ok (client_of (bridge_step P s (Frame t)) t) \<and>
      prefix (c_sent (client_of s t) @ ?answer) (c_sent (client_of (bridge_step P s (Frame t)) t))"
    if "thread_of t s" "s_running s" "c_fd (client_of s t) \<ge> 0" "c_batch (client_of s t) = hello # fs" for s t fs
    using that hello_text_supported frame_accepts_hello(1) [of t s hello fs P node_callbacks]
      frame_answers_hello [OF assms(4), of t s hello fs node_callbacks]
    by (auto simp: thread_of_def bridge_step_def hello_def dest!: sent_more_fields)
  have opened: "let k = cn_ctl (foldl (console_step Q srt S) c1 es)
      in k_hello_ok k \<and> v_connected (k_view k) \<and> \<not> v_connecting (k_view k) \<and> k_timer k = None \<and>
         v_proto (k_view k) = ''0.1'' \<and> v_server (k_view k) = ''botcockpit_bridge/0.1.0''"
    if "so_read_all S so2 = (?answer @ later, so3)" and
      "es = [DeliverSignal, Loop_Event (SockReadyRead so2), DeliverSignal] \<or>
       es = [Loop_Event (SockReadyRead so2), DeliverSignal, DeliverSignal]" for so2 so3 later es
  proof -
    let ?info = "hello_info Q (j_object Q hello_ok_json)"
    have read: "\<exists>sgs. w_out (on_ready_read Q S (w\<lparr>w_socket := so2\<rparr>)) = w_out w @ WHelloAck ?info # sgs"
      if "w_decoder w = []" for w :: "('b, 'c) worker"
      using answer_read [of S "w\<lparr>w_socket := so2\<rparr>" "fseq hello" later so3 Q] \<open>so_read_all S so2 = _\<close> that by simp
    obtain sgs where s: "w_out (on_ready_read Q S ((cn_worker c1)\<lparr>w_socket := so2\<rparr>)) = WConnected # WHelloAck ?info # sgs"
      using read [OF c1(3)] c1(2) by auto
    obtain sgs' where s': "w_out (on_ready_read Q S ((cn_worker c1)\<lparr>w_out := [], w_socket := so2\<rparr>)) = WHelloAck ?info # sgs'"
      using read [of "(cn_worker c1)\<lparr>w_out := []\<rparr>"] c1(3) by auto
    have "cn_ctl (foldl (console_step Q srt S) c1 es) = on_hello_ack Q ?info (on_connected Q (cn_ctl c))"
      using that(2) c1(2,4) s s' by (elim disjE) simp_all
    then show ?thesis using accepted_opens_session [OF assms(1,3) refl] by (simp add: Let_def)
  qed
  show ?thesis
  proof (rule exI [of _ hello], rule exI [of _ "encode hello"], intro conjI allI impI)
    show "ftype hello = MSG_HELLO" "fseq hello = w_next_seq (cn_worker c)" by (simp_all add: hello_def)
    show "w_tx (cn_worker c1) = w_tx (cn_worker c) @ [encode hello]" by (rule c1(1))
    show "feed_all decoder_drain [] chunks = ([hello], [])" if "concat chunks = encode hello" for chunks
      using that by (rule decoded)
    show "let cl = client_of (bridge_step P s (Frame t)) t
      in c_hello_ok cl \<and> prefix (c_sent (client_of s t) @ ?answer) (c_sent cl)"
      if "thread_of t s \<and> s_running s \<and> c_fd (client_of s t) \<ge> 0 \<and> c_batch (client_of s t) = hello # fs" for s t fs
      using accepted [of t s fs] that by (simp add: Let_def)
  qed (elim conjE, rule opened, assumption, simp)
qed

section \<open>Witness\<close>

text \<open>Qt's JSON on the two messages, and a socket from which the bridge's answer can be read.\<close>

definition json_qt :: "(tree, tree) qt" where
  "json_qt = tree_qt\<lparr>j_compact := (\<lambda>ob. if ob ''client'' = Some (Text ''BotCockpit'') then hello_text else ''{}''),
     j_object := (\<lambda>txt. if txt = hello_ok_json
       then [''ok'' \<mapsto> Bool True, ''proto'' \<mapsto> Text ''0.1'', ''server'' \<mapsto> Text ''botcockpit_bridge/0.1.0''] else Map.empty)\<rparr>"

definition answering_socket :: "sock_state socket_api" where
  "answering_socket = plain_socket\<lparr>so_read_all := (\<lambda>so. (encode (hello_ack 1) @ [], so))\<rparr>"

theorem handshake_opens_session_witness:
  "k_hello_ok (cn_ctl (foldl (console_step json_qt insertion_sort answering_socket) (init_console UnconnectedState)
     [Loop_Event (SockConnected ConnectedState), DeliverSignal, Loop_Event (SockReadyRead ConnectedState), DeliverSignal]))"
proof -
  have "to_bool json_qt = to_bool tree_qt" "of_bool' json_qt = of_bool' tree_qt" "to_str json_qt = to_str tree_qt"
    "of_str json_qt = of_str tree_qt" "to_double json_qt = to_double tree_qt" "of_double json_qt = of_double tree_qt"
    "str_less json_qt = str_less tree_qt" by (simp_all add: json_qt_def)
  then have "qt_laws json_qt = qt_laws tree_qt" by (simp only: qt_laws_def)
  with tree_qt_laws have q: "qt_laws json_qt" by blast
  have js: "json_writes_hello json_qt" "json_reads_ack json_qt"
    by (simp_all add: json_writes_hello_def json_reads_ack_def json_qt_def jval_def tree_qt_def)
  have p: "sends_progress demo_platform" by (simp add: sends_progress_def demo_platform_def)
  have w: "w_out (cn_worker (init_console UnconnectedState :: (tree, sock_state) console)) = []"
    "w_decoder (cn_worker (init_console UnconnectedState :: (tree, sock_state) console)) = []"
    "w_next_seq (cn_worker (init_console UnconnectedState :: (tree, sock_state) console)) = 1"
    by (simp_all add: init_console_def init_worker_def)
  have so: "so_state answering_socket ConnectedState = ConnectedState"
    "so_read_all answering_socket ConnectedState = (encode (hello_ack 1) @ [], ConnectedState)"
    by (simp_all add: answering_socket_def plain_socket_def)
  let ?c = "console_step json_qt insertion_sort answering_socket (init_console UnconnectedState) (Loop_Event (SockConnected ConnectedState))"
  from handshake_opens_session [OF q js p w(1,2) so(1) refl, of insertion_sort]
  show ?thesis
  proof (elim exE conjE)
    fix hello :: frame
    assume f: "fseq hello = w_next_seq (cn_worker (init_console UnconnectedState :: (tree, sock_state) console))"
    assume a: "\<forall>so2 so3 later read es. read = Loop_Event (SockReadyRead so2) \<and>
      so_read_all answering_socket so2 = (encode (hello_ack (fseq hello)) @ later, so3) \<and>
      (es = [DeliverSignal, read, DeliverSignal] \<or> es = [read, DeliverSignal, DeliverSignal]) \<longrightarrow>
      (let k = cn_ctl (foldl (console_step json_qt insertion_sort answering_socket) ?c es)
       in k_hello_ok k \<and> v_connected (k_view k) \<and> \<not> v_connecting (k_view k) \<and> k_timer k = None \<and>
          v_proto (k_view k) = ''0.1'' \<and> v_server (k_view k) = ''botcockpit_bridge/0.1.0'')"
    from a [THEN spec [of _ ConnectedState], THEN spec [of _ ConnectedState], THEN spec [of _ "[]"],
        THEN spec [of _ "Loop_Event (SockReadyRead ConnectedState)"],
        THEN spec [of _ "[DeliverSignal, Loop_Event (SockReadyRead ConnectedState), DeliverSignal]"]] so(2) f w(3)
    show ?thesis by (simp del: console_step.simps add: Let_def)
  qed
qed

end
