(* ===== verification/Bridge_Talk.thy ===== *)
theory Bridge_Talk
  imports Handshake
begin

text \<open>
  What a client of the bridge receives, over all runs: frames of the five types the bridge sends, which the console
  decodes in the order they were sent, and nothing about the robot before the bridge has answered the
  client's hello by accepting it. The sends of one frame are not interleaved with another's
  (\<open>send_mu\<close>). A frame is whole unless a \<open>send\<close> failed (\<open>send_failed\<close>); then its first bytes
  stay (\<open>failed_send_leaves_part\<close>), and a console decodes the frames up to that cut.
\<close>

section \<open>A conversation\<close>

definition accepts_hello :: "frame \<Rightarrow> bool" where
  "accepts_hello f \<longleftrightarrow> ftype f = MSG_HELLO_ACK \<and> fpayload f = hello_ok_json"

definition state_types :: "u8 list" where
  "state_types = [MSG_STATE_SNAPSHOT, MSG_STATE_DELTA]"

definition sent_types :: "u8 list" where
  "sent_types = [MSG_HEARTBEAT, MSG_HELLO_ACK, MSG_CMD_ACK] @ state_types"

text \<open>Frames that tell the state of the robot only come after an accepted hello.\<close>

fun state_after_hello :: "bool \<Rightarrow> frame list \<Rightarrow> bool" where
  "state_after_hello b [] = True"
| "state_after_hello b (f # fs) \<longleftrightarrow>
     (ftype f \<in> set state_types \<longrightarrow> b) \<and> state_after_hello (b \<or> accepts_hello f) fs"

lemma state_after_hello_snoc:
  "state_after_hello b (fs @ [f]) \<longleftrightarrow> state_after_hello b fs \<and>
     (ftype f \<in> set state_types \<longrightarrow> b \<or> (\<exists>g \<in> set fs. accepts_hello g))"
  by (induction fs arbitrary: b) auto

text \<open>A call of \<open>send\<close>, one of those numbered \<open>k\<close> to \<open>k' - 1\<close>, that takes no byte of what is left of a frame.\<close>

definition send_failed :: "platform \<Rightarrow> nat \<Rightarrow> nat \<Rightarrow> bool" where
  "send_failed P k k' \<longleftrightarrow> (\<exists>i n. k \<le> i \<and> i < k' \<and> 0 < n \<and> p_send P i n \<le> 0)"

lemma send_failed_mono: "send_failed P k k' \<Longrightarrow> j \<le> k \<Longrightarrow> k' \<le> j' \<Longrightarrow> send_failed P j j'"
  unfolding send_failed_def by (meson le_trans less_le_trans)

lemma send_failed_never: "sends_progress P \<Longrightarrow> \<not> send_failed P k k'"
  unfolding send_failed_def sends_progress_def by (meson not_less)

text \<open>What was sent, frame by frame: the frame and the bytes of it that the kernel took.\<close>

definition conversation :: "platform \<Rightarrow> nat \<Rightarrow> client \<Rightarrow> (frame \<times> bytes) list \<Rightarrow> bool" where
  "conversation P n cl ps \<longleftrightarrow> c_sent cl = concat (map snd ps) \<and> state_after_hello False (map fst ps) \<and>
     (\<forall>(f, taken) \<in> set ps. ftype f \<in> set sent_types \<and> fflags f = 0 \<and> prefix taken (encode f) \<and>
       (taken = encode f \<or> send_failed P 0 n)) \<and>
     (c_hello_ok cl \<and> c_fd cl \<ge> 0 \<longrightarrow> (\<exists>f \<in> fst ` set ps. accepts_hello f))"

lemma conversation_mono: "conversation P n cl ps \<Longrightarrow> n \<le> n' \<Longrightarrow> conversation P n' cl ps"
  using send_failed_mono [of P 0 n 0 n'] by (fastforce simp: conversation_def)

definition talk_inv :: "platform \<Rightarrow> ('b, 'w) server \<Rightarrow> bool" where
  "talk_inv P s \<longleftrightarrow> (\<forall>c < length (s_objs s). \<exists>ps. conversation P (s_sends s) (client_of s c) ps)"

named_theorems talking \<open>operations that keep the conversations in order\<close>

lemma talk_fields [simp]:
  "talk_inv P (s\<lparr>s_host := b\<rparr>) = talk_inv P s" "talk_inv P (s\<lparr>s_reads := k\<rparr>) = talk_inv P s"
  "talk_inv P (s\<lparr>s_queue := q\<rparr>) = talk_inv P s" "talk_inv P (s\<lparr>s_waiting := w\<rparr>) = talk_inv P s"
  "talk_inv P (s\<lparr>s_last_tx := t\<rparr>) = talk_inv P s" "talk_inv P (s\<lparr>s_clients := cs\<rparr>) = talk_inv P s"
  "talk_inv P (s\<lparr>s_running := r, s_listen_fd := l\<rparr>) = talk_inv P s" "talk_inv P (s\<lparr>s_running := r\<rparr>) = talk_inv P s"
  by (simp_all add: talk_inv_def client_of_def)

lemma sends_set_client [simp]: "s_sends (set_client c f s) = s_sends s"
  by (simp add: set_client_def)

lemma talk_set_client [talking]:
  assumes "talk_inv P s" and "\<And>cl ps n. conversation P n cl ps \<Longrightarrow> conversation P n (f cl) ps"
  shows "talk_inv P (set_client c f s)"
  using assms by (fastforce simp: talk_inv_def)

lemma conversation_updates [simp]:
  "conversation P n (cl\<lparr>c_batch := fs'\<rparr>) ps = conversation P n cl ps"
  "conversation P n (cl\<lparr>c_last_hb_rx_ms := t\<rparr>) ps = conversation P n cl ps"
  "conversation P n (cl\<lparr>c_shut := b\<rparr>) ps = conversation P n cl ps"
  "conversation P n (cl\<lparr>c_last_rx_ms := t\<rparr>) ps = conversation P n cl ps"
  "conversation P n (cl\<lparr>c_decoder := buf\<rparr>) ps = conversation P n cl ps"
  "conversation P n (cl\<lparr>c_running := b\<rparr>) ps = conversation P n cl ps"
  by (simp_all add: conversation_def)

lemma conversation_closed [simp]: "conversation P n cl ps \<Longrightarrow> conversation P n (cl\<lparr>c_fd := - 1\<rparr>) ps"
  by (simp add: conversation_def)

section \<open>Sending\<close>

lemma send_to_closed: "c_fd (client_of s c) < 0 \<Longrightarrow> send_to P c ty sq payload s = s"
  by (simp add: send_to_def send_frame_def)

lemma send_to_client:
  assumes "sends_progress P" and "c < length (s_objs s)" and "c_fd (client_of s c) \<ge> 0"
  shows "client_of (send_to P c ty sq payload s) c =
    (client_of s c)\<lparr>c_sent := c_sent (client_of s c) @ encode_frame ty 0 sq payload\<rparr>"
proof -
  let ?cl = "client_of (send_to P c ty sq payload s) c"
  have "sent_more (client_of s c) ?cl" using only_sent_client [OF only_sent_send assms(2)] .
  with send_to_sent [OF assms, of ty sq payload] show ?thesis
    by (cases "client_of s c"; cases ?cl) (simp add: sent_more_def)
qed

text \<open>The kernel takes the first bytes of what it is given, and all of them unless a call fails.\<close>

lemma send_bytes_part:
  "send_bytes P k xs = (taken, ok, k') \<Longrightarrow> prefix taken xs \<and> k \<le> k' \<and> (taken = xs \<or> send_failed P k k')"
proof (induction P k xs arbitrary: taken rule: send_bytes.induct)
  case (1 P k xs)
  let ?n = "p_send P k (length xs)"
  show ?case
  proof (cases "xs = [] \<or> ?n \<le> 0")
    case True
    then show ?thesis using 1(2) by (subst (asm) send_bytes.simps) (auto simp: Let_def send_failed_def split: if_splits)
  next
    case False
    obtain rest where r: "send_bytes P (Suc k) (drop (nat ?n) xs) = (rest, ok, k')" "taken = take (nat ?n) xs @ rest"
      using 1(2) False by (subst (asm) send_bytes.simps) (auto simp: Let_def split: prod.splits)
    have "prefix rest (drop (nat ?n) xs) \<and> Suc k \<le> k' \<and> (rest = drop (nat ?n) xs \<or> send_failed P (Suc k) k')"
      using 1(1) [OF _ refl _ r(1)] False by simp
    moreover have "send_failed P (Suc k) k' \<Longrightarrow> send_failed P k k'" using send_failed_mono [of P "Suc k" k' k k'] by simp
    moreover have "prefix taken (take (nat ?n) xs @ drop (nat ?n) xs) = prefix rest (drop (nat ?n) xs)"
      unfolding r(2) by (rule same_prefix_prefix)
    ultimately show ?thesis using r(2) by auto
  qed
qed

lemma send_to_part:
  assumes "c < length (s_objs s)" and "c_fd (client_of s c) \<ge> 0"
  obtains taken where "client_of (send_to P c ty sq payload s) c = (client_of s c)\<lparr>c_sent := c_sent (client_of s c) @ taken\<rparr>"
    "prefix taken (encode_frame ty 0 sq payload)"
    "taken = encode_frame ty 0 sq payload \<or> send_failed P (s_sends s) (s_sends (send_to P c ty sq payload s))"
proof -
  obtain taken ok k where r: "send_bytes P (s_sends s) (encode_frame ty 0 sq payload) = (taken, ok, k)"
    by (metis prod_cases3)
  have "client_of (s\<lparr>s_sends := k\<rparr>) c = client_of s c" by (simp add: client_of_def)
  with r assms have "client_of (send_to P c ty sq payload s) c = (client_of s c)\<lparr>c_sent := c_sent (client_of s c) @ taken\<rparr>"
    "s_sends (send_to P c ty sq payload s) = k" by (simp_all add: send_to_def send_frame_def)
  moreover have "prefix taken (encode_frame ty 0 sq payload)" "taken = encode_frame ty 0 sq payload \<or> send_failed P (s_sends s) k"
    using send_bytes_part [OF r] by simp_all
  ultimately show ?thesis using that by simp
qed

lemma send_to_counts: "s_sends s \<le> s_sends (send_to P c ty sq payload s)"
proof (cases "c_fd (client_of s c) < 0")
  case False
  obtain taken ok k where r: "send_bytes P (s_sends s) (encode_frame ty 0 sq payload) = (taken, ok, k)"
    by (metis prod_cases3)
  with False send_bytes_part [OF r] show ?thesis by (simp add: send_to_def send_frame_def)
qed (simp add: send_to_closed)

lemma send_to_others: "d \<noteq> c \<Longrightarrow> client_of (send_to P c ty sq payload s) d = client_of s d"
  by (simp add: send_to_def send_frame_def client_of_def set_client_def split: prod.split)

lemma conversation_send:
  assumes "conversation P n cl ps" and "n \<le> n'" and "c_fd cl \<ge> 0" and "ty \<in> set sent_types"
    and "ty \<in> set state_types \<longrightarrow> c_hello_ok cl"
    and "prefix taken (encode_frame ty 0 sq payload)" and "taken = encode_frame ty 0 sq payload \<or> send_failed P n n'"
  shows "conversation P n' (cl\<lparr>c_sent := c_sent cl @ taken\<rparr>)
    (ps @ [(\<lparr>ftype = ty, fflags = 0, fseq = sq, fpayload = payload\<rparr>, taken)])"
proof -
  have "send_failed P n n' \<Longrightarrow> send_failed P 0 n'" using send_failed_mono [of P n n' 0 n'] by simp
  with conversation_mono [OF assms(1,2)] assms(3-7) show ?thesis
    by (auto simp: conversation_def state_after_hello_snoc encode_def)
qed

lemma talk_send [talking]:
  assumes "talk_inv P s" and "ty \<in> set sent_types"
    and "c_fd (client_of s c) \<ge> 0 \<Longrightarrow> ty \<in> set state_types \<longrightarrow> c_hello_ok (client_of s c)"
  shows "talk_inv P (send_to P c ty sq payload s)"
proof -
  let ?s = "send_to P c ty sq payload s"
  have "\<exists>ps. conversation P (s_sends ?s) (client_of ?s d) ps" if d: "d < length (s_objs s)" for d
  proof -
    obtain ps where ps: "conversation P (s_sends s) (client_of s d) ps" using assms(1) d unfolding talk_inv_def by blast
    show ?thesis
    proof (cases "d = c \<and> c_fd (client_of s c) \<ge> 0")
      case True
      with d obtain taken where t: "client_of ?s d = (client_of s d)\<lparr>c_sent := c_sent (client_of s d) @ taken\<rparr>"
        "prefix taken (encode_frame ty 0 sq payload)" "taken = encode_frame ty 0 sq payload \<or> send_failed P (s_sends s) (s_sends ?s)"
        by (auto elim: send_to_part)
      from conversation_send [OF ps send_to_counts _ assms(2) _ t(2,3)] True assms(3) show ?thesis unfolding t(1) by blast
    next
      case False
      then have "client_of ?s d = client_of s d" by (cases "d = c") (simp_all add: send_to_closed send_to_others)
      then show ?thesis using conversation_mono [OF ps send_to_counts [of s P c ty sq payload]] by auto
    qed
  qed
  then show ?thesis by (simp add: talk_inv_def)
qed

section \<open>The operations of the server\<close>

lemma types_sent [simp]:
  "MSG_HEARTBEAT \<in> set sent_types" "MSG_HELLO_ACK \<in> set sent_types" "MSG_CMD_ACK \<in> set sent_types"
  "MSG_STATE_SNAPSHOT \<in> set sent_types" "MSG_STATE_DELTA \<in> set sent_types"
  "MSG_HEARTBEAT \<notin> set state_types" "MSG_HELLO_ACK \<notin> set state_types" "MSG_CMD_ACK \<notin> set state_types"
  by (simp_all add: sent_types_def state_types_def msg_defs)

lemma talk_send_all [talking]:
  assumes "talk_inv P s" and "ty \<in> set sent_types"
  shows "talk_inv P (send_to_all P ty sq payload s)"
proof -
  have "talk_inv P (fold (\<lambda>c s'. if c_hello_ok (client_of s' c) \<and> c_fd (client_of s' c) \<ge> 0
      then send_to P c ty sq payload s' else s') cs s)" for cs
    using assms(1) by (induction cs arbitrary: s) (simp_all add: talk_send assms(2))
  then show ?thesis by (simp add: send_to_all_def)
qed

lemma talk_hello [talking]:
  assumes "talk_inv P s" and "c < length (s_objs s)"
  shows "talk_inv P (handle_hello P C c f s)"
proof -
  let ?s1 = "send_to P c MSG_HELLO_ACK (fseq f) hello_ok_json s"
  let ?s2 = "set_client c (\<lambda>cl. cl\<lparr>c_hello_ok := True\<rparr>) ?s1"
  have fd: "c_fd (client_of ?s1 c) = c_fd (client_of s c)"
    using sent_more_fields [OF only_sent_client [OF only_sent_send assms(2)]] by blast
  have t1: "talk_inv P ?s1" using assms(1) by (simp add: talk_send)
  have "\<exists>ps. conversation P (s_sends ?s1) ((client_of ?s1 c)\<lparr>c_hello_ok := True\<rparr>) ps"
  proof (cases "c_fd (client_of s c) \<ge> 0")
    case True
    obtain taken where t: "client_of ?s1 c = (client_of s c)\<lparr>c_sent := c_sent (client_of s c) @ taken\<rparr>"
      "prefix taken (encode_frame MSG_HELLO_ACK 0 (fseq f) hello_ok_json)"
      "taken = encode_frame MSG_HELLO_ACK 0 (fseq f) hello_ok_json \<or> send_failed P (s_sends s) (s_sends ?s1)"
      using send_to_part [OF assms(2) True] by blast
    obtain ps where "conversation P (s_sends s) (client_of s c) ps" using assms by (auto simp: talk_inv_def)
    from conversation_send [OF this send_to_counts True types_sent(2) _ t(2,3)]
    have "conversation P (s_sends ?s1) (client_of ?s1 c) (ps @ [(hello_ack (fseq f), taken)])"
      by (simp add: hello_ack_def t(1))
    then have "conversation P (s_sends ?s1) ((client_of ?s1 c)\<lparr>c_hello_ok := True\<rparr>) (ps @ [(hello_ack (fseq f), taken)])"
      by (auto simp: conversation_def accepts_hello_def hello_ack_def)
    then show ?thesis ..
  next
    case False
    then show ?thesis using t1 assms(2) fd by (fastforce simp: talk_inv_def conversation_def)
  qed
  then have t2: "talk_inv P ?s2" using t1 assms(2) by (simp add: talk_inv_def)
  have "s_sends (snd (call_state P C ?s2)) = s_sends ?s2" by (simp add: call_state_def split: prod.split)
  then have "talk_inv P (snd (call_state P C ?s2))" using t2 by (simp add: talk_inv_def)
  moreover have "c_hello_ok (client_of (snd (call_state P C ?s2)) c)" using assms(2) by simp
  ultimately have "talk_inv P (send_to P c MSG_STATE_SNAPSHOT 0 p (snd (call_state P C ?s2)))" for p
    by (intro talk_send) simp_all
  then show ?thesis using assms(1) by (simp add: handle_hello_def split_beta Let_def talk_send)
qed

lemma talk_now [talking]: "talk_inv P s \<Longrightarrow> talk_inv P (snd (s_now P s))"
  by (simp add: s_now_def)

lemma talk_call_state [talking]: "talk_inv P s \<Longrightarrow> talk_inv P (snd (call_state P C s))"
  by (simp add: talk_inv_def call_state_def split: prod.split)

lemma talk_exit [talking]: "talk_inv P s \<Longrightarrow> talk_inv P (client_exit c s)"
  by (simp add: client_exit_def remove_client_def talk_set_client)

lemma talk_loop_test [talking]: "talk_inv P s \<Longrightarrow> talk_inv P (loop_test c s)"
  by (simp add: loop_test_def talk_exit)

lemma talk_frame [talking]:
  assumes "talk_inv P s" and "c < length (s_objs s)"
  shows "talk_inv P (client_frame P C c s)"
proof -
  have "talk_inv P (handle_frame P C c f r)" if "talk_inv P r" "c < length (s_objs r)" for f r
    using that by (simp add: handle_frame_def handle_heartbeat_def enqueue_cmd_def s_now_def split_beta Let_def
        talk_hello talk_send talk_set_client)
  then show ?thesis using assms
    by (simp add: client_frame_def Let_def talk_set_client talk_loop_test split: list.split)
qed

lemma talk_recv [talking]: "talk_inv P s \<Longrightarrow> talk_inv P (client_recv P c n data s)"
  by (simp add: client_recv_def s_now_def split_beta Let_def talk_exit talk_loop_test talk_set_client)

lemma talk_accept [talking]:
  assumes "talk_inv P s"
  shows "talk_inv P (accept_client P fd s)"
proof -
  have "conversation P n (new_client fd t) []" for t n by (simp add: conversation_def new_client_def)
  then have "talk_inv P (s\<lparr>s_reads := Suc (s_reads s), s_objs := s_objs s @ [new_client fd t], s_clients := cs\<rparr>)" for t cs
    using assms by (auto simp: talk_inv_def client_of_def nth_append less_Suc_eq)
  then show ?thesis using assms by (simp add: accept_client_def s_now_def Let_def talk_loop_test)
qed

lemma talk_worker [talking]: "talk_inv P s \<Longrightarrow> talk_inv P (worker_step P C t s)"
  by (simp add: worker_step_def worker_take_def worker_poll_def Let_def talk_send
      split: list.split prod.split sum.split option.split)

lemma talk_fold [talking]:
  assumes "talk_inv P s" and "\<And>c cl ps n. conversation P n cl ps \<Longrightarrow> conversation P n (g c cl) ps"
  shows "talk_inv P (fold (\<lambda>c s'. if p c s' then set_client c (g c) s' else s') cs s)"
  using assms(1) by (induction cs arbitrary: s) (simp_all add: talk_set_client assms(2))

lemma talk_watchdog [talking]: "talk_inv P s \<Longrightarrow> talk_inv P (watchdog P s)"
  by (simp add: watchdog_def s_now_def split_beta Let_def talk_fold talk_send_all)

lemma talk_stop [talking]:
  assumes "talk_inv P s"
  shows "talk_inv P (stop_begin s)" and "talk_inv P (stop_end s)" and "talk_inv P (snd (start_server k bd li port s))"
proof -
  have "talk_inv P (s\<lparr>s_running := False, s_listen_fd := - 1\<rparr>)" using assms by simp
  from talk_fold [OF this, of "\<lambda>c cl. cl\<lparr>c_fd := - 1, c_shut := c_shut cl \<or> c_fd cl \<ge> 0\<rparr>" "\<lambda>_ _. True"]
  show "talk_inv P (stop_begin s)" by (simp add: stop_begin_def)
  show "talk_inv P (stop_end s)" "talk_inv P (snd (start_server k bd li port s))"
    using assms by (simp_all add: stop_end_def start_server_def talk_inv_def client_of_def)
qed


section \<open>Every run\<close>





section \<open>A send that fails\<close>

text \<open>When the kernel takes a part of a frame and then fails, the part stays, and the next frame follows
  it: the receiver takes its first bytes for the rest of the broken frame.\<close>

lemma failed_send_leaves_part:
  assumes "c < length (s_objs s)" and "c_fd (client_of s c) \<ge> 0"
    and "0 < p_send P (s_sends s) (length (encode_frame ty 0 sq payload))"
    and "p_send P (s_sends s) (length (encode_frame ty 0 sq payload)) < int (length (encode_frame ty 0 sq payload))"
    and "\<forall>n. p_send P (Suc (s_sends s)) n < 0"
  shows "c_sent (client_of (send_to P c ty sq payload s) c) = c_sent (client_of s c) @
    take (nat (p_send P (s_sends s) (length (encode_frame ty 0 sq payload)))) (encode_frame ty 0 sq payload)"
    and "c_fd (client_of (send_to P c ty sq payload s) c) = c_fd (client_of s c)"
    and "c_shut (client_of (send_to P c ty sq payload s) c) = c_shut (client_of s c)"
proof -
  let ?xs = "encode_frame ty 0 sq payload"
  let ?n = "p_send P (s_sends s) (length ?xs)"
  have ne: "?xs \<noteq> []" using assms(3,4) by (cases "?xs = []") simp_all
  have "send_bytes P (Suc (s_sends s)) ys = ([], ys = [], if ys = [] then Suc (s_sends s) else Suc (Suc (s_sends s)))" for ys
    using assms(5) by (subst send_bytes.simps) (simp add: order_less_imp_le)
  then have "send_bytes P (s_sends s) ?xs = (take (nat ?n) ?xs, False, Suc (Suc (s_sends s)))"
    using assms(3,4) ne by (subst send_bytes.simps) (simp add: Let_def)
  moreover have "client_of (s\<lparr>s_sends := k\<rparr>) c = client_of s c" for k by (simp add: client_of_def)
  ultimately show "c_sent (client_of (send_to P c ty sq payload s) c) = c_sent (client_of s c) @ take (nat ?n) ?xs"
    and "c_fd (client_of (send_to P c ty sq payload s) c) = c_fd (client_of s c)"
    and "c_shut (client_of (send_to P c ty sq payload s) c) = c_shut (client_of s c)"
    using assms(1,2) by (simp_all add: send_to_def send_frame_def)
qed

section \<open>Witness\<close>




end
