(* ===== verification/State_Path.thy ===== *)
theory State_Path
  imports Bridge_Talk Command_Path
begin

text \<open>
  The robot's state on its way through the bridge. The bridge looks for a member of the text with
  \<open>find_key_value\<close>, which passes over strings that only look like the key: \<open>overlooked\<close> says of a part of
  the text that the search goes over it, whatever follows, and holds of every member the robot writes
  before \<open>estop\<close>, whatever its strings contain. So the bridge reads the flag the robot wrote, and
  relays the text as it is.
\<close>

section \<open>Parts of the text the search goes over\<close>

definition closers :: "char set" where
  "closers = {CHR '','', CHR ''}'', CHR '']''}"

definition key_ok :: "string \<Rightarrow> bool" where
  "key_ok key \<longleftrightarrow> key \<noteq> [] \<and> dq \<notin> set key \<and> bs \<notin> set key \<and> hd key \<notin> insert (CHR '':'') closers"

definition overlooked :: "string \<Rightarrow> string \<Rightarrow> bool" where
  "overlooked key f \<longleftrightarrow> (\<forall>c rest. c \<in> closers \<longrightarrow> find_key_value key (f @ c # rest) = find_key_value key (c # rest))"

lemma find_key_value_eq:
  "find_key_value key s = (case find_after (quoted key) s of None \<Rightarrow> None
     | Some r \<Rightarrow> (case skip_ws r of
          c # cs \<Rightarrow> if c = CHR '':'' then (let v = skip_ws cs in if v = [] then None else Some v) else find_key_value key r
        | [] \<Rightarrow> find_key_value key r))"
  by (subst find_key_value.simps) (simp add: quoted_def)

lemma find_key_value_cong:
  "find_after (quoted key) s = find_after (quoted key) t \<Longrightarrow> find_key_value key s = find_key_value key t"
  by (subst (1 2) find_key_value_eq) simp

lemma find_key_skip: "dq \<notin> set pre \<Longrightarrow> find_key_value key (pre @ s) = find_key_value key s"
  by (intro find_key_value_cong find_after_skip) (simp_all add: quoted_def)

lemma closer_facts: "c \<in> closers \<Longrightarrow> c \<noteq> dq \<and> dq \<noteq> c \<and> c \<noteq> CHR '':'' \<and> \<not> is_space c"
  by (auto simp: closers_def dq_def is_space_def)

lemma find_key_closer: "c \<in> closers \<Longrightarrow> find_key_value key (c # s) = find_key_value key s"
  using find_key_skip [of "[c]" key s] closer_facts [of c] by simp

lemma overlooked_plain: "dq \<notin> set f \<Longrightarrow> overlooked key f"
  by (simp add: overlooked_def find_key_skip)

text \<open>A string, whatever it contains: if the key matches, it matches up to the closing quote.\<close>

lemma key_in_esc:
  "dq \<notin> set key \<Longrightarrow> bs \<notin> set key \<Longrightarrow> prefix (key @ [dq]) (esc v @ dq # rest) \<Longrightarrow> esc v = key"
proof (induction key arbitrary: v)
  case Nil
  then show ?case by (cases v) (auto simp: esc_def split: if_splits)
next
  case (Cons k key)
  then show ?case by (cases v) (auto simp: esc_def split: if_splits)
qed

lemma find_in_string:
  assumes "key_ok key" and "c \<in> closers"
  shows "find_after (quoted key) (esc v @ dq # c # rest) \<in> {Some (c # rest), find_after (quoted key) (c # rest)}"
    and "find_after (quoted key) (dq # esc v @ dq # c # rest) \<in> {Some (c # rest), find_after (quoted key) (c # rest)}"
proof -
  have quote: "find_after (quoted key) (dq # esc v @ dq # c # rest) =
      (if esc v = key then Some (c # rest) else find_after (quoted key) (esc v @ dq # c # rest))" for v
    using assms(1) key_in_esc [of key v "c # rest"] by (auto simp: quoted_def key_ok_def)
  have nil: "find_after (quoted key) (dq # c # rest) = find_after (quoted key) (c # rest)"
    using assms by (cases key) (auto simp: quoted_def key_ok_def)
  have other: "a \<noteq> dq \<Longrightarrow> find_after (quoted key) (a # s) = find_after (quoted key) s" for a s
    by (simp add: quoted_def)
  show "find_after (quoted key) (esc v @ dq # c # rest) \<in> {Some (c # rest), find_after (quoted key) (c # rest)}" for v
  proof (induction v)
    case Nil
    with nil show ?case by (simp add: esc_def del: find_after.simps)
  next
    case (Cons a v)
    have "esc (a # v) = (if a = dq \<or> a = bs then bs # a # esc v else a # esc v)" by (simp add: esc_def)
    then show ?case using Cons.IH quote [of v] by (auto simp: other simp del: find_after.simps)
  qed
  from this [of v] show "find_after (quoted key) (dq # esc v @ dq # c # rest) \<in> {Some (c # rest), find_after (quoted key) (c # rest)}"
    using quote [of v] by (auto simp del: find_after.simps)
qed

lemma overlooked_string: "key_ok key \<Longrightarrow> overlooked key (dq # esc v @ [dq])"
proof -
  assume k: "key_ok key"
  have "find_key_value key (dq # esc v @ dq # c # rest) = find_key_value key (c # rest)" if c: "c \<in> closers" for c rest
  proof -
    consider "find_after (quoted key) (dq # esc v @ dq # c # rest) = Some (c # rest)"
      | "find_after (quoted key) (dq # esc v @ dq # c # rest) = find_after (quoted key) (c # rest)"
      using find_in_string(2) [OF k c, of v rest] by blast
    then show ?thesis
    proof cases
      case 1
      then show ?thesis using closer_facts [OF c]
        by (subst find_key_value_eq) (simp add: skip_ws_def)
    next
      case 2
      then show ?thesis by (rule find_key_value_cong)
    qed
  qed
  then show ?thesis by (simp add: overlooked_def)
qed

section \<open>The members of the state\<close>

lemma overlooked_append: "dq \<notin> set f \<Longrightarrow> overlooked key g \<Longrightarrow> overlooked key (f @ g)"
  by (simp add: overlooked_def find_key_skip)

lemma overlooked_closed: "overlooked key f \<Longrightarrow> c \<in> closers \<Longrightarrow> overlooked key (f @ [c])"
  by (simp add: overlooked_def find_key_closer)

lemma overlooked_then: "overlooked key f \<Longrightarrow> c \<in> closers \<Longrightarrow> overlooked key g \<Longrightarrow> overlooked key (f @ c # g)"
  by (simp add: overlooked_def find_key_closer)

lemma take_to_quote: "dq \<notin> set k \<Longrightarrow> takeWhile (\<lambda>c. c \<noteq> dq) (k @ dq # r) = k"
  by (induction k) auto

lemma overlooked_raw:
  assumes "key_ok key" and "k \<noteq> key" and "dq \<notin> set k" and "overlooked key f"
  shows "overlooked key (raw_field k f)"
proof -
  have "\<not> prefix (key @ [dq]) (k @ dq # r)" for r
  proof
    assume "prefix (key @ [dq]) (k @ dq # r)"
    then obtain z where "key @ dq # z = k @ dq # r" by (auto elim: prefixE)
    moreover have "dq \<notin> set key" using assms(1) by (simp add: key_ok_def)
    ultimately show False using assms(2,3) take_to_quote by metis
  qed
  then have "find_after (quoted key) (dq # k @ dq # r) = find_after (quoted key) (k @ dq # r)" for r
    by (simp add: quoted_def)
  moreover have "find_after (quoted key) (k @ dq # r) = find_after (quoted key) (dq # r)" for r
    using assms(3) by (intro find_after_skip) (simp_all add: quoted_def)
  moreover have "find_after (quoted key) (dq # CHR '':'' # r) = find_after (quoted key) r" for r
    using assms(1) by (cases key) (auto simp: quoted_def key_ok_def dq_def)
  ultimately have "find_key_value key (quoted k @ CHR '':'' # r) = find_key_value key r" for r
    by (intro find_key_value_cong) (simp add: quoted_def)
  then show ?thesis using assms(4) by (simp add: overlooked_def raw_field_def)
qed

lemma overlooked_str_field:
  "key_ok key \<Longrightarrow> k \<noteq> key \<Longrightarrow> dq \<notin> set k \<Longrightarrow> overlooked key (str_field k v)"
  using overlooked_raw [OF _ _ _ overlooked_string, of key k v] by (simp add: str_field_def raw_field_def)

lemma overlooked_null_or_str: "key_ok key \<Longrightarrow> overlooked key (null_or_str v)"
  by (simp add: null_or_str_def overlooked_string) (simp add: overlooked_plain dq_def)

lemma commas_snoc: "commas (xs @ [x]) = (if xs = [] then x else commas xs @ CHR '','' # x)"
proof -
  let ?f = "\<lambda>ys i. (if i \<noteq> 0 then '','' else []) @ ys ! i"
  have "map (?f (xs @ [x])) [0..<length xs] = map (?f xs) [0..<length xs]"
    by (rule map_cong) (simp_all add: nth_append)
  then have "concat (map (?f (xs @ [x])) [0..<length xs]) = commas xs" by (simp only: commas_def)
  moreover have "commas (xs @ [x]) = concat (map (?f (xs @ [x])) [0..<length xs]) @ ?f (xs @ [x]) (length xs)"
    by (simp add: commas_def)
  ultimately show ?thesis by (auto simp: commas_def)
qed

lemma commas_nil [simp]: "commas [] = []" "commas [x] = x"
  by (simp_all add: commas_def)

lemma overlooked_commas: "(\<And>x. x \<in> set xs \<Longrightarrow> overlooked key x) \<Longrightarrow> overlooked key (commas xs)"
proof (induction xs rule: rev_induct)
  case (snoc x xs)
  then show ?case by (auto simp: commas_snoc closers_def intro!: overlooked_then)
qed (simp add: overlooked_plain)

lemma overlooked_braces:
  "overlooked key f \<Longrightarrow> overlooked key (CHR ''{'' # f @ ''}'')" "overlooked key f \<Longrightarrow> overlooked key (CHR ''['' # f @ '']'')"
  using overlooked_append [of "''{''" key "f @ ''}''"] overlooked_append [of "''[''" key "f @ '']''"]
    overlooked_closed [of key f "CHR ''}''"] overlooked_closed [of key f "CHR '']''"]
  by (simp_all add: closers_def dq_def)

section \<open>Numbers\<close>

lemma dec_pad_no_dq: "dq \<notin> set (dec_pad k n)"
  using dec_nat_no_dq by (auto simp: dec_pad_def Let_def dq_def)

lemma to_string_g_no_dq: "dq \<notin> set (to_string_g x)"
proof -
  have "set (strip_zeros s) \<subseteq> set s" for s by (auto simp: strip_zeros_def dest: set_dropWhileD)
  then have "dq \<notin> set (point_frac (dec_pad k n))" for k n
    using dec_pad_no_dq [of k n] by (auto simp: point_frac_def Let_def dq_def)
  then show ?thesis using dec_nat_no_dq dec_pad_no_dq
    by (auto simp: to_string_g_def sign_str_def dq_def Let_def split_beta)
qed

section \<open>The flag, as the bridge reads it\<close>

lemma commas_split:
  "xs \<noteq> [] \<Longrightarrow> \<exists>t. commas (xs @ y # ys) = commas xs @ CHR '','' # y @ t"
proof (induction ys rule: rev_induct)
  case Nil
  then show ?case by (simp add: commas_snoc)
next
  case (snoc z ys)
  then obtain t where "commas (xs @ y # ys) = commas xs @ CHR '','' # y @ t" by blast
  then show ?case using commas_snoc [of "xs @ y # ys" z] by simp
qed

lemmas passing = overlooked_braces overlooked_commas overlooked_str_field overlooked_raw overlooked_null_or_str

definition state_keys :: "string set" where
  "state_keys = {''ts_ms'', ''conn'', ''mode'', ''phase'', ''heartbeat_rtt_ms'', ''nodes'', ''pose'', ''battery'', ''task'', ''faults'',
     ''name'', ''status'', ''last_hb_ms'', ''x'', ''y'', ''yaw'', ''id'', ''type'', ''code'', ''level'', ''node'', ''detail'', ''active''}"

lemma overlooked_values:
  "overlooked key (clock_str E r)" "overlooked key (bool_str b)" "overlooked key (to_string_g x)" "overlooked key ''0''"
  "key_ok key \<Longrightarrow> overlooked key (quoted (conn_str s))"
proof -
  show "overlooked key (clock_str E r)" "overlooked key (to_string_g x)"
    using dec_nat_no_dq to_string_g_no_dq by (simp_all add: clock_str_def overlooked_plain)
  show "overlooked key (bool_str b)" "overlooked key ''0''" by (simp_all add: overlooked_plain bool_str_def dq_def)
  have "quoted (conn_str s) = dq # esc (conn_str s) @ [dq]"
    by (simp add: conn_str_def quoted_def esc_def dq_def bs_def)
  then show "key_ok key \<Longrightarrow> overlooked key (quoted (conn_str s))" by (simp add: overlooked_string)
qed

lemma overlooked_nodes:
  assumes "key_ok key" and "key \<notin> state_keys"
  shows "overlooked key (node_json E r n)"
proof -
  have "node_json E r n = CHR ''{'' # commas [str_field ''name'' (nh_name n), str_field ''status'' (nh_status n),
      raw_field ''last_hb_ms'' (clock_str E r)] @ ''}''"
    by (simp add: node_json_def commas_def upt_conv_Cons)
  then show ?thesis using assms by (auto simp: state_keys_def dq_def intro!: passing overlooked_values)
qed

lemma overlooked_faults:
  assumes "key_ok key" and "key \<notin> state_keys"
  shows "overlooked key (fault_json E r f)"
proof -
  have "fault_json E r f = CHR ''{'' # commas [raw_field ''ts_ms'' (clock_str E r), str_field ''code'' (f_code f),
      str_field ''level'' (f_level f), str_field ''node'' (f_node f), str_field ''detail'' (f_detail f),
      raw_field ''active'' (bool_str (f_active f))] @ ''}''"
    by (simp add: fault_json_def commas_def upt_conv_Cons)
  then show ?thesis using assms by (auto simp: state_keys_def dq_def intro!: passing overlooked_values)
qed

text \<open>The members before \<open>estop\<close>, and what follows them.\<close>

definition first_members :: "env \<Rightarrow> robot \<Rightarrow> string list" where
  "first_members E s =
     [raw_field ''ts_ms'' (clock_str E (reads s)), raw_field ''conn'' (quoted (conn_str s)),
      str_field ''mode'' (mode s), str_field ''phase'' (phase s), raw_field ''heartbeat_rtt_ms'' ''0'',
      raw_field ''nodes'' (''['' @ commas (map (\<lambda>(i, n). node_json E (reads s + 1 + i) n) (enumerate 0 (nodes s))) @ '']''),
      raw_field ''pose'' (''{'' @ commas [raw_field ''x'' (to_string_g (pose_x s)), raw_field ''y'' (to_string_g (pose_y s)),
        raw_field ''yaw'' (to_string_g (pose_yaw s))] @ ''}''),
      raw_field ''battery'' (to_string_g (battery s)),
      raw_field ''task'' (''{'' @ commas [raw_field ''id'' (null_or_str (task_id s)), raw_field ''type'' (null_or_str (task_type s)),
        str_field ''status'' (task_status s)] @ ''}''),
      raw_field ''faults'' (''['' @ commas (map (\<lambda>(i, f). fault_json E (reads s + 1 + length (nodes s) + i) f)
        (enumerate 0 (faults s))) @ '']'')]"

lemma first_members_overlooked:
  assumes "key_ok key" and "key \<notin> state_keys"
  shows "overlooked key (commas (first_members E s))"
proof (rule overlooked_commas)
  have "overlooked key (node_json E r n)" "overlooked key (fault_json E r f)" for r n f
    using overlooked_nodes [OF assms] overlooked_faults [OF assms] by simp_all
  then show "overlooked key x" if "x \<in> set (first_members E s)" for x
    using assms that by (auto simp: first_members_def state_keys_def dq_def intro!: passing overlooked_values)
qed

lemma state_json_split:
  "\<exists>t. build_state_json E s = CHR ''{'' # commas (first_members E s) @ CHR '','' # raw_field ''estop'' (bool_str (estop s)) @ t"
proof -
  let ?rest = "[raw_field ''control_enabled'' (bool_str (control_enabled s)), raw_field ''nav'' (nav_json s)]"
  have "build_state_json E s = CHR ''{'' # commas (first_members E s @ raw_field ''estop'' (bool_str (estop s)) # ?rest) @ ''}''"
    by (simp add: build_state_json_def first_members_def) (simp add: commas_def upt_conv_Cons)
  then show ?thesis
    using commas_split [of "first_members E s" "raw_field ''estop'' (bool_str (estop s))" ?rest]
    by (auto simp: first_members_def)
qed

lemma bridge_reads_estop: "get_bool (build_state_json E s) ''estop'' = Some (estop s)"
proof -
  have k: "key_ok ''estop''" "''estop'' \<notin> state_keys" by (simp_all add: key_ok_def state_keys_def closers_def dq_def bs_def)
  obtain t where t: "build_state_json E s =
      CHR ''{'' # commas (first_members E s) @ CHR '','' # raw_field ''estop'' (bool_str (estop s)) @ t"
    using state_json_split by blast
  have "find_key_value ''estop'' (build_state_json E s) =
      find_key_value ''estop'' (raw_field ''estop'' (bool_str (estop s)) @ t)"
    using first_members_overlooked [OF k, of E s] find_key_skip [of "''{''" "''estop''"] find_key_closer [of "CHR '',''" "''estop''"]
    by (simp add: t overlooked_def closers_def dq_def)
  also have "\<dots> = Some (bool_str (estop s) @ t)"
    by (subst find_key_value_eq) (simp add: raw_field_def quoted_def skip_ws_def bool_str_def is_space_def)
  finally show ?thesis by (simp add: get_bool_def bool_str_def)
qed

section \<open>What the bridge relays\<close>

lemma find_after_infix: "find_after nd (p @ nd @ r) \<noteq> None"
proof (induction p)
  case Nil
  then show ?case by (cases nd; cases r) simp_all
next
  case (Cons a p)
  then show ?case by simp
qed

lemma conn_in_state:
  "contains (build_state_json E s) (quoted ''conn'')" "contains (offline_json t) (quoted ''conn'')"
proof -
  let ?ts = "raw_field ''ts_ms'' (clock_str E (reads s))" and ?conn = "raw_field ''conn'' (quoted (conn_str s))"
  have "\<exists>ys. build_state_json E s = ''{'' @ commas ([?ts] @ ?conn # ys) @ ''}''"
    unfolding build_state_json_def by (rule exI) (simp only: append_Cons append_Nil)
  then obtain ys u where "build_state_json E s = ''{'' @ (?ts @ CHR '','' # ?conn @ u) @ ''}''"
    using commas_split [of "[?ts]" ?conn] by (metis commas_nil(2) list.distinct(1))
  then have "build_state_json E s = (CHR ''{'' # ?ts @ '','') @ quoted ''conn'' @ (CHR '':'' # quoted (conn_str s) @ u @ ''}'')"
    by (simp add: raw_field_def)
  then show "contains (build_state_json E s) (quoted ''conn'')" unfolding contains_def using find_after_infix by metis
  have "offline_json t = (''{'' @ quoted ''ts_ms'' @ '':'' @ dec_nat (unat t) @ '','') @ quoted ''conn'' @
      drop (length ((''{'' @ quoted ''ts_ms'' @ '':'' @ dec_nat (unat t) @ '','') @ quoted ''conn'')) (offline_json t)"
    by (simp add: offline_json_def quoted_def)
  then show "contains (offline_json t) (quoted ''conn'')" unfolding contains_def using find_after_infix by metis
qed

lemma relayed_as_is:
  "inject_runtime_fields (build_state_json E r) conn_value = build_state_json E r"
  "inject_runtime_fields (offline_json t) conn_value = offline_json t"
  using conn_in_state(1) [of E r] conn_in_state(2) [of t]
  by (simp_all add: inject_runtime_fields_def) (simp_all add: build_state_json_def offline_json_def)

lemma send_all_part:
  assumes "distinct (s_clients s)" and "c < length (s_objs s)"
  shows "\<exists>taken. c_sent (client_of (send_to_all P ty sq payload s) c) = c_sent (client_of s c) @ taken \<and>
    (if c \<in> set (s_clients s) \<and> c_hello_ok (client_of s c) \<and> c_fd (client_of s c) \<ge> 0
     then prefix taken (encode_frame ty 0 sq payload) \<and>
       (taken = encode_frame ty 0 sq payload \<or> send_failed P (s_sends s) (s_sends (send_to_all P ty sq payload s)))
     else taken = [])"
proof -
  let ?send = "\<lambda>c s'. if c_hello_ok (client_of s' c) \<and> c_fd (client_of s' c) \<ge> 0 then send_to P c ty sq payload s' else s'"
  let ?xs = "encode_frame ty 0 sq payload"
  have "s_sends s \<le> s_sends (fold ?send cs s) \<and> (distinct cs \<longrightarrow> c < length (s_objs s) \<longrightarrow>
      (\<exists>taken. c_sent (client_of (fold ?send cs s) c) = c_sent (client_of s c) @ taken \<and>
        (if c \<in> set cs \<and> c_hello_ok (client_of s c) \<and> c_fd (client_of s c) \<ge> 0
         then prefix taken ?xs \<and> (taken = ?xs \<or> send_failed P (s_sends s) (s_sends (fold ?send cs s))) else taken = [])))" for cs
  proof (induction cs arbitrary: s)
    case (Cons d cs)
    let ?r = "?send d s"
    have le: "s_sends s \<le> s_sends ?r" by (simp add: send_to_counts)
    have far: "s_sends ?r \<le> s_sends (fold ?send (d # cs) s)" using Cons.IH [of ?r] by simp
    have "\<exists>taken. c_sent (client_of (fold ?send (d # cs) s) c) = c_sent (client_of s c) @ taken \<and>
        (if c \<in> set (d # cs) \<and> c_hello_ok (client_of s c) \<and> c_fd (client_of s c) \<ge> 0
         then prefix taken ?xs \<and> (taken = ?xs \<or> send_failed P (s_sends s) (s_sends (fold ?send (d # cs) s))) else taken = [])"
      if dc: "distinct (d # cs)" "c < length (s_objs s)"
    proof -
      have len: "c < length (s_objs ?r)" using dc(2) by simp
      with Cons.IH [of ?r] dc(1) obtain rest where rest: "c_sent (client_of (fold ?send cs ?r) c) = c_sent (client_of ?r c) @ rest"
        "if c \<in> set cs \<and> c_hello_ok (client_of ?r c) \<and> c_fd (client_of ?r c) \<ge> 0
         then prefix rest ?xs \<and> (rest = ?xs \<or> send_failed P (s_sends ?r) (s_sends (fold ?send cs ?r))) else rest = []"
        by auto
      have up: "send_failed P (s_sends ?r) (s_sends (fold ?send cs ?r)) \<Longrightarrow> send_failed P (s_sends s) (s_sends (fold ?send cs ?r))"
        "send_failed P (s_sends s) (s_sends ?r) \<Longrightarrow> send_failed P (s_sends s) (s_sends (fold ?send cs ?r))"
        using send_failed_mono le far by (fastforce simp del: if_split)+
      show ?thesis
      proof (cases "d = c \<and> c_hello_ok (client_of s c) \<and> c_fd (client_of s c) \<ge> 0")
        case True
        then obtain taken where t: "client_of ?r c = (client_of s c)\<lparr>c_sent := c_sent (client_of s c) @ taken\<rparr>" "prefix taken ?xs"
          "taken = ?xs \<or> send_failed P (s_sends s) (s_sends ?r)"
          using send_to_part [OF dc(2), of P ty sq payload] by auto
        have "rest = []" using rest(2) True dc(1) by auto
        with rest(1) t up(2) True show ?thesis by (intro exI [of _ taken]) auto
      next
        case False
        then have same: "client_of ?r c = client_of s c" by (cases "d = c") (auto simp: send_to_others)
        have iff: "(c \<in> set (d # cs) \<and> c_hello_ok (client_of s c) \<and> c_fd (client_of s c) \<ge> 0) =
            (c \<in> set cs \<and> c_hello_ok (client_of s c) \<and> c_fd (client_of s c) \<ge> 0)" using False by auto
        have "if c \<in> set (d # cs) \<and> c_hello_ok (client_of s c) \<and> c_fd (client_of s c) \<ge> 0
           then prefix rest ?xs \<and> (rest = ?xs \<or> send_failed P (s_sends s) (s_sends (fold ?send cs ?r))) else rest = []"
          using rest(2) up(1) unfolding iff same by argo
        with rest(1) show ?thesis unfolding same fold_simps by blast
      qed
    qed
    with le far show ?case by auto
  qed simp
  from this [of "s_clients s"] assms show ?thesis unfolding send_to_all_def by blast
qed

lemma send_all_client:
  assumes "sends_progress P" and "distinct (s_clients s)" and "c < length (s_objs s)"
  shows "c_sent (client_of (send_to_all P ty sq payload s) c) = c_sent (client_of s c) @
    (if c \<in> set (s_clients s) \<and> c_hello_ok (client_of s c) \<and> c_fd (client_of s c) \<ge> 0
     then encode_frame ty 0 sq payload else [])"
  using send_all_part [OF assms(2,3), of P ty sq payload] send_failed_never [OF assms(1)] by (auto split: if_split_asm)

text \<open>Every round of the delta timer relays the robot's last state, or says that there is none. In every
  reachable state of a running bridge whose last state came from the robot, one round sends every client in
  session exactly one frame, whole unless a send of the round fails, and the other clients nothing: the
  robot's text as the robot wrote it while it is less than 3 s old, and otherwise the offline state.\<close>

theorem delta_relays_state:
  assumes "run_steps (\<lambda>s e. Some (bridge_step P s e)) init_server es = Some s"
    and "s_running s" and "b_state_json (s_host s) = build_state_json E r" and "c < length (s_objs s)"
  shows "let cl = client_of s c; last_ms = b_last_state_ms (s_host s); now = p_clock P (s_reads s);
      relayed = (if 0 < last_ms \<and> now - last_ms < 3000 then build_state_json E r
        else offline_json (if 0 < last_ms then p_clock P (Suc (s_reads s)) else now));
      whole = encode \<lparr>ftype = MSG_STATE_DELTA, fflags = 0, fseq = 0, fpayload = relayed\<rparr>;
      s' = bridge_step P s Delta_Timer
    in \<exists>taken. c_sent (client_of s' c) = c_sent cl @ taken \<and>
      (if c \<in> set (s_clients s) \<and> c_hello_ok cl \<and> c_fd cl \<ge> 0
       then prefix taken whole \<and> (taken = whole \<or> send_failed P (s_sends s) (s_sends s')) else taken = [])"
proof -
  have d: "distinct (s_clients s)" using bridge_run_inv [OF assms(1)] by (simp add: bridge_inv_def)
  obtain raw k where rk: "state_for_tcp (p_clock P) (s_reads s) (s_host s) = (raw, k)" by fastforce
  have raw: "raw = (if 0 < b_last_state_ms (s_host s) \<and> p_clock P (s_reads s) - b_last_state_ms (s_host s) < 3000
      then build_state_json E r
      else offline_json (if 0 < b_last_state_ms (s_host s) then p_clock P (Suc (s_reads s)) else p_clock P (s_reads s)))"
    using rk assms(3) by (auto simp: state_for_tcp_def robot_state_fresh_def HB_TIMEOUT_MS_def split: prod.splits if_splits)
  then have as_is: "inject_runtime_fields raw ''OFFLINE'' = raw" by (simp add: relayed_as_is)
  have b: "broadcast_state_delta P node_callbacks s = send_to_all P MSG_STATE_DELTA 0 raw (s\<lparr>s_reads := k\<rparr>)"
    using assms(2) rk as_is by (simp add: broadcast_state_delta_def call_state_def node_callbacks_def)
  have "c_sent (client_of (bridge_step P s Delta_Timer) c) =
      c_sent (client_of (send_to_all P MSG_STATE_DELTA 0 raw (s\<lparr>s_reads := k\<rparr>)) c)"
    "s_sends (bridge_step P s Delta_Timer) = s_sends (send_to_all P MSG_STATE_DELTA 0 raw (s\<lparr>s_reads := k\<rparr>))"
    using b by (simp_all add: bridge_step_def delta_timer_cb_def client_of_def Let_def)
  note same = this
  have k: "client_of (s\<lparr>s_reads := k\<rparr>) c = client_of s c" "s_sends (s\<lparr>s_reads := k\<rparr>) = s_sends s"
    "s_clients (s\<lparr>s_reads := k\<rparr>) = s_clients s" "s_objs (s\<lparr>s_reads := k\<rparr>) = s_objs s" by (simp_all add: client_of_def)
  have e: "encode \<lparr>ftype = MSG_STATE_DELTA, fflags = 0, fseq = 0, fpayload = raw\<rparr> = encode_frame MSG_STATE_DELTA 0 0 raw"
    by (simp add: encode_def)
  have "\<exists>taken. c_sent (client_of (bridge_step P s Delta_Timer) c) = c_sent (client_of s c) @ taken \<and>
      (if c \<in> set (s_clients s) \<and> c_hello_ok (client_of s c) \<and> c_fd (client_of s c) \<ge> 0
       then prefix taken (encode \<lparr>ftype = MSG_STATE_DELTA, fflags = 0, fseq = 0, fpayload = raw\<rparr>) \<and>
         (taken = encode \<lparr>ftype = MSG_STATE_DELTA, fflags = 0, fseq = 0, fpayload = raw\<rparr> \<or>
          send_failed P (s_sends s) (s_sends (bridge_step P s Delta_Timer)))
       else taken = [])"
    unfolding same e using send_all_part [of "s\<lparr>s_reads := k\<rparr>" c P MSG_STATE_DELTA 0 raw, unfolded k, OF d assms(4)] .
  then show ?thesis unfolding Let_def raw .
qed

text \<open>C7: The bridge follows the robot's emergency stop. After the robot's state has arrived and while it is less
  than 3 s old, the next command of a client in session is decided by the flag in the robot, whatever texts
  its state contains: in emergency stop a task or a switch to AUTO is not published, and the client gets
  the rejection with the reason \<open>estop_active\<close>; in every other case the command is published.\<close>

theorem bridge_follows_robot_estop:
  assumes "sends_progress P" and "s_queue s = j # js" and "s_waiting s = None" and "j_cmd j \<noteq> ''CMD_ESTOP''"
    and "j_client j < length (s_objs s)" and "c_fd (client_of s (j_client j)) \<ge> 0" and "c_hello_ok (client_of s (j_client j))"
    and "0 < p_clock P (s_reads s)" and "p_clock P (Suc (s_reads s)) - p_clock P (s_reads s) < 3000"
    and "s1 = bridge_step P s (Robot_State (build_state_json E r))" and "s2 = bridge_step P s1 (Worker t)"
  shows "if estop r \<and> estop_guarded (j_cmd j) (j_payload j)
    then b_cmds (s_host s2) = b_cmds (s_host s) \<and>
      c_sent (client_of s2 (j_client j)) = c_sent (client_of s (j_client j)) @ encode \<lparr>ftype = MSG_CMD_ACK, fflags = 0,
        fseq = j_seq j, fpayload = rejection (j_seq j) (j_cmd j) ''estop_active''\<rparr>
    else b_cmds (s_host s2) = b_cmds (s_host s) @ [envelope (j_cmd j) (j_seq j) (j_payload j)] \<and>
      c_sent (client_of s2 (j_client j)) = c_sent (client_of s (j_client j))"
proof -
  let ?c = "j_client j"
  define b where "b = on_robot_state (p_clock P (s_reads s)) (build_state_json E r) (s_host s)"
  have s1: "s1 = s\<lparr>s_reads := Suc (s_reads s), s_host := b\<rparr>"
    by (simp add: assms(10) bridge_step_def ros_state_def s_now_def b_def)
  define s1' where "s1' = s1\<lparr>s_queue := js\<rparr>"
  have cl: "client_of s1' i = client_of s i" "length (s_objs s1') = length (s_objs s)" for i
    by (simp_all add: s1'_def s1 client_of_def)
  have fresh: "robot_state_fresh (p_clock P) (Suc (s_reads s)) b = (True, Suc (Suc (s_reads s)))"
    using assms(8,9) by (simp add: robot_state_fresh_def b_def on_robot_state_def HB_TIMEOUT_MS_def)
  have flag: "get_bool (b_state_json b) ''estop'' = Some (estop r)" "b_cmds b = b_cmds (s_host s)"
    by (simp_all add: b_def on_robot_state_def bridge_reads_estop)
  have s2: "s2 = worker_take P node_callbacks t s1"
    using assms(3) by (simp add: assms(11) bridge_step_def worker_step_def s1)
  show ?thesis
  proof (cases "estop r \<and> estop_guarded (j_cmd j) (j_payload j)")
    case True
    then have "s2 = send_to P ?c MSG_CMD_ACK (j_seq j) (rejection (j_seq j) (j_cmd j) ''estop_active'')
        (s1'\<lparr>s_reads := Suc (Suc (s_reads s)), s_host := b\<rparr>)"
      using assms(2,4,6,7) cl(1) fresh flag
      by (simp add: s2 worker_take_def s1 s1'_def node_callbacks_def handle_command_def Let_def)
    then show ?thesis
      using True send_to_sent [OF assms(1), of ?c "s1'\<lparr>s_reads := Suc (Suc (s_reads s)), s_host := b\<rparr>"] cl assms(5,6) flag(2)
      by (simp add: encode_def)
  next
    case False
    then have "s_host s2 = publish_cmd_envelope (j_cmd j) (j_seq j) (j_payload j)
        (b\<lparr>b_pending := (b_pending b)(j_seq j \<mapsto> \<lparr>pc_done = False, pc_ack_json = []\<rparr>)\<rparr>) \<and> s_objs s2 = s_objs s"
      using assms(2,4,6,7) cl(1) fresh flag
      by (auto simp: s2 worker_take_def s1 s1'_def node_callbacks_def handle_command_def Let_def)
    then show ?thesis using False flag(2) by (auto simp: publish_cmd_envelope_def client_of_def)
  qed
qed

section \<open>Witnesses\<close>

theorem delta_relays_state_witness:
  "\<exists>s. run_steps (\<lambda>s e. Some (bridge_step demo_platform s e)) init_server
      [Start 3 True True 8765, Accept 5, Robot_State (build_state_json any_env ready_robot)] = Some s \<and>
    s_running s \<and> c_sent (client_of (bridge_step demo_platform s Delta_Timer) 0) = c_sent (client_of s 0)"
proof -
  let ?es = "[Start 3 True True 8765, Accept 5, Robot_State (build_state_json any_env ready_robot)]"
  define s where "s = foldl (bridge_step demo_platform) init_server ?es"
  have r: "run_steps (\<lambda>s e. Some (bridge_step demo_platform s e)) init_server ?es = Some s" by (simp add: s_def)
  have f: "s_running s" "b_state_json (s_host s) = build_state_json any_env ready_robot" "0 < length (s_objs s)"
    "\<not> c_hello_ok (client_of s 0)"
    by (simp_all add: s_def bridge_step_def start_server_def init_server_def accept_client_def s_now_def loop_test_def
        client_of_def new_client_def ros_state_def on_robot_state_def Let_def)
  from delta_relays_state [OF r f(1-3)] f(4) have "c_sent (client_of (bridge_step demo_platform s Delta_Timer) 0) = c_sent (client_of s 0)"
    by (simp add: Let_def)
  with r f(1) show ?thesis by blast
qed

theorem bridge_follows_robot_estop_witness:
  "b_cmds (s_host (bridge_step demo_platform (bridge_step demo_platform
     (demo_bridge []\<lparr>s_queue := [\<lparr>j_client = 0, j_seq = 9, j_cmd = ''CMD_TASK'', j_payload = ''{}''\<rparr>]\<rparr>)
     (Robot_State (build_state_json any_env (ready_robot\<lparr>estop := True\<rparr>)))) (Worker 0))) = []"
proof -
  let ?j = "\<lparr>j_client = 0, j_seq = 9, j_cmd = ''CMD_TASK'', j_payload = ''{}''\<rparr>"
  let ?s = "demo_bridge []\<lparr>s_queue := [?j]\<rparr>"
  have p: "sends_progress demo_platform" by (simp add: sends_progress_def demo_platform_def)
  have f: "s_queue ?s = ?j # []" "s_waiting ?s = None" "j_cmd ?j \<noteq> ''CMD_ESTOP''" "j_client ?j < length (s_objs ?s)"
    "c_fd (client_of ?s (j_client ?j)) \<ge> 0" "c_hello_ok (client_of ?s (j_client ?j))"
    "0 < p_clock demo_platform (s_reads ?s)"
    "p_clock demo_platform (Suc (s_reads ?s)) - p_clock demo_platform (s_reads ?s) < 3000" "b_cmds (s_host ?s) = []"
    by (simp_all add: demo_bridge_def init_server_def init_bridge_def client_of_def new_client_def demo_platform_def)
  from bridge_follows_robot_estop [OF p f(1-8) refl refl, of "ready_robot\<lparr>estop := True\<rparr>" any_env 0] f(9)
  show ?thesis by (simp add: estop_guarded_def)
qed

end
