(* ===== verification/Operator_View.thy ===== *)
theory Operator_View
  imports State_Path Handshake Robot_Rules
begin

text \<open>
  What the operator sees of the robot: the text the robot publishes, through the bridge's timer, the
  wire and the console's JSON library to the properties that the user interface shows.
  \<open>json_reads_state\<close> names what the library reads in such a text; what becomes of it on the way
  is proved.
\<close>

section \<open>The properties after a state message\<close>

lemma parts_leave:
  "sg \<noteq> ModeChanged \<Longrightarrow> notified sg (apply_mode Q m s) = notified sg s"
  "sg \<noteq> PhaseChanged \<Longrightarrow> notified sg (apply_phase Q m s) = notified sg s"
  "sg \<noteq> EstopChanged \<Longrightarrow> notified sg (apply_estop Q m s) = notified sg s"
  "sg \<noteq> ControlEnabledChanged \<Longrightarrow> notified sg (apply_control Q m s) = notified sg s"
  "sg \<noteq> PoseChanged \<Longrightarrow> notified sg (apply_pose Q m s) = notified sg s"
  "sg \<noteq> BatteryChanged \<Longrightarrow> notified sg (apply_battery Q m s) = notified sg s"
  "sg \<noteq> HasRobotStateChanged \<Longrightarrow> notified sg (apply_robot_flag Q m s) = notified sg s"
  "sg \<noteq> StateTsMsChanged \<Longrightarrow> notified sg (apply_ts Q m s) = notified sg s"
  "sg \<noteq> TaskChanged \<Longrightarrow> notified sg (apply_task Q m s) = notified sg s"
  "sg \<notin> {FaultsChanged, FaultsListChanged} \<Longrightarrow> notified sg (apply_faults Q m s) = notified sg s"
  "sg \<notin> {NavStatusChanged, NavTrailChanged, TrackErrChanged} \<Longrightarrow> notified sg (apply_nav Q m s) = notified sg s"
  by (rule tells_only_others [OF apply_parts_tell(2)] tells_only_others [OF apply_parts_tell(3)]
      tells_only_others [OF apply_parts_tell(4)] tells_only_others [OF apply_parts_tell(5)]
      tells_only_others [OF apply_parts_tell(6)] tells_only_others [OF apply_parts_tell(7)]
      tells_only_others [OF apply_parts_tell(8)] tells_only_others [OF apply_parts_tell(9)]
      tells_only_others [OF apply_parts_tell(10)] tells_only_others [OF apply_faults_tells]; simp)+
    (use nav_part [of Q m] in \<open>simp add: view_part_def\<close>)

lemma apply_state_shows:
  "has m ''conn'' \<Longrightarrow> v_conn (apply_state Q m s) = to_str Q (val Q m ''conn'')"
  "has m ''mode'' \<Longrightarrow> v_mode (apply_state Q m s) = to_str Q (val Q m ''mode'')"
  "has m ''phase'' \<Longrightarrow> v_phase (apply_state Q m s) = to_str Q (val Q m ''phase'')"
  "has m ''estop'' \<Longrightarrow> v_estop (apply_state Q m s) = to_bool Q (val Q m ''estop'')"
  "has m ''control_enabled'' \<Longrightarrow> v_control_enabled (apply_state Q m s) = to_bool Q (val Q m ''control_enabled'')"
  "v_has_robot_state (apply_state Q m s) = robot_speaks Q m"
proof -
  let ?c = "apply_conn Q m s"
  let ?m = "apply_mode Q m ?c"
  let ?p = "apply_phase Q m ?m"
  let ?e = "apply_estop Q m ?p"
  let ?r = "apply_battery Q m (apply_pose Q m (apply_control Q m ?e))"
  have "notified ConnChanged (apply_state Q m s) = notified ConnChanged ?c"
    "notified ModeChanged (apply_state Q m s) = notified ModeChanged ?m"
    "notified PhaseChanged (apply_state Q m s) = notified PhaseChanged ?p"
    "notified EstopChanged (apply_state Q m s) = notified EstopChanged ?e"
    "notified ControlEnabledChanged (apply_state Q m s) = notified ControlEnabledChanged (apply_control Q m ?e)"
    "notified HasRobotStateChanged (apply_state Q m s) = notified HasRobotStateChanged (apply_robot_flag Q m ?r)"
    by (simp_all add: apply_state_def parts_leave del: notified.simps)
  note eqs = this
  have here: "has m ''conn'' \<Longrightarrow> v_conn ?c = to_str Q (val Q m ''conn'')"
    "has m ''mode'' \<Longrightarrow> v_mode (apply_mode Q m t) = to_str Q (val Q m ''mode'')"
    "has m ''phase'' \<Longrightarrow> v_phase (apply_phase Q m t) = to_str Q (val Q m ''phase'')"
    "has m ''estop'' \<Longrightarrow> v_estop (apply_estop Q m t) = to_bool Q (val Q m ''estop'')"
    "has m ''control_enabled'' \<Longrightarrow> v_control_enabled (apply_control Q m t) = to_bool Q (val Q m ''control_enabled'')"
    "v_has_robot_state (apply_robot_flag Q m t) = robot_speaks Q m" for t
    by (simp_all add: apply_conn_def apply_mode_def apply_phase_def apply_estop_def apply_control_def
        apply_robot_flag_def emit_def Let_def)
  show "has m ''conn'' \<Longrightarrow> v_conn (apply_state Q m s) = to_str Q (val Q m ''conn'')"
    and "has m ''mode'' \<Longrightarrow> v_mode (apply_state Q m s) = to_str Q (val Q m ''mode'')"
    and "has m ''phase'' \<Longrightarrow> v_phase (apply_state Q m s) = to_str Q (val Q m ''phase'')"
    and "has m ''estop'' \<Longrightarrow> v_estop (apply_state Q m s) = to_bool Q (val Q m ''estop'')"
    and "has m ''control_enabled'' \<Longrightarrow> v_control_enabled (apply_state Q m s) = to_bool Q (val Q m ''control_enabled'')"
    and "v_has_robot_state (apply_state Q m s) = robot_speaks Q m"
    using eqs here by simp_all
qed

section \<open>What Qt reads in a state\<close>

definition json_reads_state :: "('j, 'v) qt \<Rightarrow> string \<Rightarrow> string \<Rightarrow> string \<Rightarrow> string \<Rightarrow> bool \<Rightarrow> bool \<Rightarrow> bool" where
  "json_reads_state Q txt conn md ph est control \<longleftrightarrow> (let m = variant_map Q (j_object Q txt) in
     list_all (has m) [''conn'', ''mode'', ''phase'', ''estop'', ''control_enabled'', ''battery'', ''nodes'', ''pose''] \<and>
     to_str Q (val Q m ''conn'') = conn \<and> to_str Q (val Q m ''mode'') = md \<and> to_str Q (val Q m ''phase'') = ph \<and>
     to_bool Q (val Q m ''estop'') = est \<and> to_bool Q (val Q m ''control_enabled'') = control)"

text \<open>The properties, as the operator sees them; \<open>present\<close> is \<open>hasRobotState\<close>.\<close>

definition displays :: "'v view \<Rightarrow> string \<Rightarrow> string \<Rightarrow> string \<Rightarrow> bool \<Rightarrow> bool \<Rightarrow> bool \<Rightarrow> bool" where
  "displays v conn md ph est control present \<longleftrightarrow> v_conn v = conn \<and> v_mode v = md \<and> v_phase v = ph \<and> v_estop v = est \<and>
     v_control_enabled v = control \<and> v_has_robot_state v = present"

lemma state_text_shown:
  assumes "json_reads_state Q txt conn md ph est control"
  shows "displays (k_view (on_state Q srt (variant_map Q (j_object Q txt)) k)) conn md ph est control
    (control \<or> conn \<noteq> ''OFFLINE'' \<and> ph \<noteq> ''BOOT'')"
proof -
  let ?m = "variant_map Q (j_object Q txt)"
  have "k_view (on_state Q srt ?m k) = apply_state Q ?m (k_view k)" by (simp add: on_state_def Let_def)
  moreover have "robot_speaks Q ?m = (control \<or> conn \<noteq> ''OFFLINE'' \<and> ph \<noteq> ''BOOT'')"
    using assms by (auto simp: robot_speaks_def json_reads_state_def Let_def)
  ultimately show ?thesis using assms by (simp add: displays_def apply_state_shows json_reads_state_def Let_def)
qed

section \<open>The console reads a relayed state\<close>

definition state_frame :: "string \<Rightarrow> frame" where
  "state_frame txt = \<lparr>ftype = MSG_STATE_DELTA, fflags = 0, fseq = 0, fpayload = txt\<rparr>"

text \<open>The worker reads a state first, whatever follows it in the same read.\<close>

lemma state_read:
  assumes "so_read_all S (w_socket w) = (encode (state_frame txt) @ later, so')" and "w_decoder w = []"
    and "length txt \<le> 65532"
  shows "\<exists>sgs. w_out (on_ready_read Q S w) = w_out w @ WState (variant_map Q (j_object Q txt)) # sgs"
proof -
  let ?u = "ui_frame_of (state_frame txt)"
  have "ui_frame_ok ?u" using assms(3) by (simp add: ui_frame_ok_eq frame_ok_def state_frame_def)
  then obtain fs buf where d: "ui_drain (encode (state_frame txt) @ later) = (?u # fs, buf)"
    using ui_codec.drain_frame [of ?u later] by (auto simp: ui_encode_eq Let_def split: prod.splits)
  have app: "ui_decoder_append [] (Some x) = x" for x by (simp add: ui_decoder_append_def)
  let ?w = "w\<lparr>w_socket := so', w_reads := Suc (w_reads w), w_last_rx_ms := word_of_int (msecs Q (w_reads w)), w_decoder := buf\<rparr>"
  have "on_ready_read Q S w = fold (worker_frame Q) fs (worker_frame Q ?u ?w)"
    using assms d by (simp add: on_ready_read_def now_u64_def current_msecs_def app Let_def)
  moreover have "prefix (w_out w @ [WState (variant_map Q (j_object Q txt))]) (w_out (worker_frame Q ?u ?w))"
    by (simp add: worker_frame_def w_emit_def state_frame_def ui_frame_of_def ui_MSG_HELLO_ACK_def ui_MSG_HEARTBEAT_def
        ui_MSG_STATE_SNAPSHOT_def ui_MSG_STATE_DELTA_def MSG_STATE_DELTA_def Let_def)
  ultimately have "prefix (w_out w @ [WState (variant_map Q (j_object Q txt))]) (w_out (on_ready_read Q S w))"
    using worker_frames_out [of "worker_frame Q ?u ?w" Q fs] by (auto intro: prefix_order.trans)
  then show ?thesis by (auto elim: prefixE)
qed

lemma console_shows_text:
  assumes "w_out (cn_worker con) = []" and "w_decoder (cn_worker con) = []"
    and "so_read_all S so = (encode (state_frame txt) @ later, so')" and "length txt \<le> 65532"
    and "json_reads_state Q txt conn md ph est control"
  shows "displays (k_view (cn_ctl (foldl (console_step Q srt S) con [Loop_Event (SockReadyRead so), DeliverSignal])))
    conn md ph est control (control \<or> conn \<noteq> ''OFFLINE'' \<and> ph \<noteq> ''BOOT'')"
proof -
  obtain sgs where "w_out (on_ready_read Q S ((cn_worker con)\<lparr>w_socket := so\<rparr>)) = WState (variant_map Q (j_object Q txt)) # sgs"
    using state_read [of S "(cn_worker con)\<lparr>w_socket := so\<rparr>" "txt" later so' Q] assms by auto
  then show ?thesis using state_text_shown [OF assms(5), of srt "cn_ctl con"] by simp
qed


section \<open>From the robot to the operator\<close>

lemma dec_nat_length: "0 < k \<Longrightarrow> n < 10 ^ k \<Longrightarrow> length (dec_nat n) \<le> k"
proof (induction n arbitrary: k rule: dec_nat.induct)
  case (1 n)
  show ?case
  proof (cases "n < 10")
    case True
    then show ?thesis using 1(2) by (subst dec_nat.simps) simp
  next
    case False
    then obtain j where j: "k = Suc j" "0 < j" using 1(2,3) by (cases k; cases "k - 1") auto
    with 1(3) have "n div 10 < 10 ^ j" by (simp add: div_less_iff_less_mult mult.commute)
    with 1(1) [OF False j(2)] False j(1) show ?thesis by (subst dec_nat.simps) simp
  qed
qed

lemma offline_json_length: "length (offline_json t) \<le> 65532"
proof -
  have "unat t < 2 ^ 64" using unsigned_less [of t] by simp
  also have "(2 :: nat) ^ 64 < 10 ^ 20" by simp
  finally have "length (dec_nat (unat t)) \<le> 20" by (intro dec_nat_length) simp_all
  then show ?thesis by (simp add: offline_json_def quoted_def)
qed

text \<open>C8: The operator sees the robot as it is, or that it is not there. In every reachable state of a running
  bridge whose last state came from the robot, one round of the delta timer sends every client in
  session exactly one frame, whole unless a send of the round takes no byte, and the other clients
  nothing. The frame carries the robot's own text if the state is less than 3 s old, and the offline
  state otherwise. A console that reads the whole frame, whatever follows, when the text fits a
  frame and its JSON library reads the text's members, then shows the robot's connection, mode, phase,
  emergency stop and control permission as they are in the robot, or a robot that is offline, out of control
  and not present, whatever it showed before.\<close>

theorem operator_sees_robot:
  assumes "run_steps (\<lambda>s e. Some (bridge_step P s e)) init_server es = Some s"
    and "s_running s" and "b_state_json (s_host s) = build_state_json E r" and "c < length (s_objs s)"
  shows "let cl = client_of s c; last_ms = b_last_state_ms (s_host s);
      fresh = (0 < last_ms \<and> p_clock P (s_reads s) - last_ms < 3000);
      in_session = (c \<in> set (s_clients s) \<and> c_hello_ok cl \<and> c_fd cl \<ge> 0);
      s' = bridge_step P s Delta_Timer
    in (\<not> in_session \<longrightarrow> c_sent (client_of s' c) = c_sent cl) \<and>
      (in_session \<longrightarrow> (\<exists>t taken. let sent_text = (if fresh then build_state_json E r else offline_json t);
          whole = encode (state_frame sent_text)
        in c_sent (client_of s' c) = c_sent cl @ taken \<and> prefix taken whole \<and>
          (taken = whole \<or> send_failed P (s_sends s) (s_sends s')) \<and>
          (\<forall>Q srt S con so so' later. w_out (cn_worker con) = [] \<and> w_decoder (cn_worker con) = [] \<and>
             so_read_all S so = (whole @ later, so') \<and> length sent_text \<le> 65532 \<and>
             (if fresh then json_reads_state Q sent_text (conn_str r) (mode r) (phase r) (estop r) (control_enabled r)
              else json_reads_state Q sent_text ''OFFLINE'' ''TELEOP'' ''BOOT'' False False) \<longrightarrow>
             (let v = k_view (cn_ctl (foldl (console_step Q srt S) con [Loop_Event (SockReadyRead so), DeliverSignal]))
              in if fresh
                 then displays v (conn_str r) (mode r) (phase r) (estop r) (control_enabled r)
                   (control_enabled r \<or> conn_str r \<noteq> ''OFFLINE'' \<and> phase r \<noteq> ''BOOT'')
                 else displays v ''OFFLINE'' ''TELEOP'' ''BOOT'' False False False))))"
proof -
  let ?cl = "client_of s c" and ?last = "b_last_state_ms (s_host s)" and ?now = "p_clock P (s_reads s)"
  let ?s' = "bridge_step P s Delta_Timer"
  let ?fresh = "0 < ?last \<and> ?now - ?last < 3000"
  let ?in = "c \<in> set (s_clients s) \<and> c_hello_ok ?cl \<and> c_fd ?cl \<ge> 0"
  let ?shown = "\<lambda>Q srt S con so. k_view (cn_ctl (foldl (console_step Q srt S) con [Loop_Event (SockReadyRead so), DeliverSignal]))"
  define t where "t = (if 0 < ?last then p_clock P (Suc (s_reads s)) else ?now)"
  define relayed where "relayed = (if ?fresh then build_state_json E r else offline_json t)"
  obtain taken where sent: "c_sent (client_of ?s' c) = c_sent ?cl @ taken" and
    part: "if ?in then prefix taken (encode (state_frame relayed)) \<and>
        (taken = encode (state_frame relayed) \<or> send_failed P (s_sends s) (s_sends ?s')) else taken = []"
    using delta_relays_state [OF assms] unfolding Let_def relayed_def t_def state_frame_def by blast
  have seen: "if ?fresh
      then displays v (conn_str r) (mode r) (phase r) (estop r) (control_enabled r)
        (control_enabled r \<or> conn_str r \<noteq> ''OFFLINE'' \<and> phase r \<noteq> ''BOOT'')
      else displays v ''OFFLINE'' ''TELEOP'' ''BOOT'' False False False"
    if read: "w_out (cn_worker con) = [] \<and> w_decoder (cn_worker con) = [] \<and> so_read_all S so = (encode (state_frame relayed) @ later, so') \<and>
        length relayed \<le> 65532 \<and>
        (if ?fresh then json_reads_state Q relayed (conn_str r) (mode r) (phase r) (estop r) (control_enabled r)
         else json_reads_state Q relayed ''OFFLINE'' ''TELEOP'' ''BOOT'' False False)"
      and v: "v = k_view (cn_ctl (foldl (console_step Q srt S) con [Loop_Event (SockReadyRead so), DeliverSignal]))"
    for Q :: "('j, 'v) qt" and srt S and con :: "('v, 's) console" and so so' later v
  proof (cases ?fresh)
    case True
    with read have "json_reads_state Q relayed (conn_str r) (mode r) (phase r) (estop r) (control_enabled r)" by simp
    from console_shows_text [OF _ _ _ _ this, of con S so later so' srt] read show ?thesis
      unfolding v if_P [OF True] by (simp del: console_step.simps foldl_Cons)
  next
    case False
    with read have "json_reads_state Q relayed ''OFFLINE'' ''TELEOP'' ''BOOT'' False False" by (simp only: if_False)
    from console_shows_text [OF _ _ _ _ this, of con S so later so' srt] read show ?thesis
      unfolding v if_not_P [OF False] by (simp del: console_step.simps foldl_Cons)
  qed
  show ?thesis
  proof (cases ?in)
    case True
    then have parts: "c_sent (client_of ?s' c) = c_sent ?cl @ taken" "prefix taken (encode (state_frame relayed))"
      "taken = encode (state_frame relayed) \<or> send_failed P (s_sends s) (s_sends ?s')"
      using sent part by simp_all
    have reading: "\<forall>(Q :: ('j, 'v) qt) srt S (con :: ('v, 's) console) so so' later.
        w_out (cn_worker con) = [] \<and> w_decoder (cn_worker con) = [] \<and> so_read_all S so = (encode (state_frame relayed) @ later, so') \<and>
        length relayed \<le> 65532 \<and>
        (if ?fresh then json_reads_state Q relayed (conn_str r) (mode r) (phase r) (estop r) (control_enabled r)
         else json_reads_state Q relayed ''OFFLINE'' ''TELEOP'' ''BOOT'' False False) \<longrightarrow>
        (if ?fresh
         then displays (?shown Q srt S con so) (conn_str r) (mode r) (phase r) (estop r) (control_enabled r)
           (control_enabled r \<or> conn_str r \<noteq> ''OFFLINE'' \<and> phase r \<noteq> ''BOOT'')
         else displays (?shown Q srt S con so) ''OFFLINE'' ''TELEOP'' ''BOOT'' False False False)"
      by (intro allI impI) (rule seen [OF _ refl])
    show ?thesis unfolding Let_def
      by (rule conjI; rule impI)
        (use True in blast, rule exI [of _ t], rule exI [of _ taken], unfold relayed_def [symmetric], intro conjI parts reading)
  next
    case False
    then have same: "c_sent (client_of ?s' c) = c_sent ?cl" using part sent by (simp split: if_split_asm)
    show ?thesis unfolding Let_def by (rule conjI; rule impI) (rule same, erule notE [OF False])
  qed
qed

text \<open>A confirmed reset that no fault blocks, with a console, leaves nothing behind.\<close>

lemma reset_recovers:
  assumes "console_online r" and "\<not> reset_blocking r" and "extract_bool d ''confirm'' = Some True"
  shows "phase (cmd_reset E sq ''CMD_RESET'' d r) = ''IDLE''" and "control_enabled (cmd_reset E sq ''CMD_RESET'' d r)"
proof -
  let ?s = "set_node 1 ''OK'' (clear_faults (r\<lparr>estop := False\<rparr>))\<lparr>phase := ''IDLE'', mode := ''TELEOP'',
    task_status := ''NONE'', task_id := [], task_type := []\<rparr>"
  let ?c = "clear_faults (r\<lparr>estop := False\<rparr>)"
  have "\<not> has_error_condition ?c" "\<not> has_warn_condition ?c"
    by (auto simp: has_error_condition_def has_warn_condition_def clear_faults_def list_ex_iff)
  then have "\<not> has_error_condition (set_node 1 ''OK'' ?c)" "\<not> has_warn_condition (set_node 1 ''OK'' ?c)"
    by (simp_all add: error_set_node_ok warn_set_node_ok)
  then have "\<not> has_error_condition ?s" "\<not> has_warn_condition ?s"
    by (simp_all add: has_error_condition_def has_warn_condition_def)
  then have "phase (recompute ?s) = ''IDLE''" by (simp add: recompute_phase)
  then show "phase (cmd_reset E sq ''CMD_RESET'' d r) = ''IDLE''" and "control_enabled (cmd_reset E sq ''CMD_RESET'' d r)"
    using assms by (simp_all add: cmd_reset_def accept_def Let_def)
qed

text \<open>A reset that a fault blocks is refused, and nothing else changes.\<close>

lemma reset_refused: "reset_blocking r \<Longrightarrow> phase (cmd_reset E sq ''CMD_RESET'' d r) = phase r"
  by (simp add: cmd_reset_def)

text \<open>C9: A robot in FAULT looks absent. In every run of the robot, once the node is configured, the state it
  publishes in the phase FAULT makes the console show connection OFFLINE, no control and no robot,
  next to the phase FAULT, although the robot is there and takes commands: a confirmed reset is refused and leaves it
  in FAULT when a fault blocks it, and otherwise, with a console online, brings it back to IDLE with
  control.\<close>

theorem faulted_robot_looks_absent:
  assumes "list_all (event_ok E) es" and "run_steps (robot_step E) init_robot es = Some r" and "cmd_sub r" and "phase r = ''FAULT''"
    and "json_reads_state Q (build_state_json E r) (conn_str r) (mode r) (phase r) (estop r) (control_enabled r)"
    and "extract_string d ''cmd'' = Some ''CMD_RESET''" and "extract_bool d ''confirm'' = Some True"
  shows "displays (k_view (on_state Q srt (variant_map Q (j_object Q (build_state_json E r))) k))
      ''OFFLINE'' (mode r) ''FAULT'' False False False \<and>
    (\<exists>r'. robot_step E r (Cmd d) = Some r' \<and>
      (if reset_blocking r then phase r' = ''FAULT''
       else console_online r \<longrightarrow> phase r' = ''IDLE'' \<and> control_enabled r'))"
proof -
  have "safe r" using robot_runs.run_inv [OF init_inv_robot assms(1)] assms(2) by (simp add: robot_inv_def)
  then have r: "\<not> estop r" "\<not> control_enabled r" using assms(3,4) by (auto simp: safe_def)
  then have "conn_str r = ''OFFLINE''" using assms(4) by (simp add: conn_str_def)
  moreover have "robot_step E r (Cmd d) = Some (cmd_reset E (extract_seq d) ''CMD_RESET'' d r)"
    using assms(3,6) by (simp add: robot_step_def on_cmd_def)
  ultimately show ?thesis using state_text_shown [OF assms(5), of srt k] r assms(4,7)
    by (simp add: reset_recovers reset_refused)
qed

section \<open>Witnesses\<close>

definition seen_robot :: robot where
  "seen_robot = ready_robot\<lparr>battery := D 0 1\<rparr>"

definition members :: "string \<Rightarrow> string \<Rightarrow> bool \<Rightarrow> tree dict" where
  "members conn ph control = [''conn'' \<mapsto> Text conn, ''mode'' \<mapsto> Text ''TELEOP'', ''phase'' \<mapsto> Text ph, ''estop'' \<mapsto> Bool False,
     ''control_enabled'' \<mapsto> Bool control, ''battery'' \<mapsto> Num 0, ''nodes'' \<mapsto> Items [], ''pose'' \<mapsto> Fields []]"

definition reading_qt :: "(string \<Rightarrow> tree dict) \<Rightarrow> (tree, tree) qt" where
  "reading_qt f = tree_qt\<lparr>j_object := f\<rparr>"

lemma reads_members:
  "f txt = members conn ph control \<Longrightarrow> json_reads_state (reading_qt f) txt conn ''TELEOP'' ph False control"
  by (simp add: json_reads_state_def reading_qt_def members_def variant_map_def has_def val_def tree_qt_def Let_def)

lemma seen_robot_length: "length (build_state_json any_env seen_robot) \<le> 65532"
proof -
  have zero: "to_string_g (D 0 (Suc 0)) = ''0''"
    by (simp add: to_string_g_def D_values is_nan_def is_inf_def sign_str_def)
  have "length (dec_nat 0) \<le> 4" "length (dec_nat 1000) \<le> 4" "length (dec_nat 2000) \<le> 4" by (rule dec_nat_length; simp)+
  then show ?thesis
    by (simp add: build_state_json_def seen_robot_def ready_robot_def init_robot_def any_env_def commas_def raw_field_def
        str_field_def quoted_def conn_str_def clock_str_def node_json_def nav_json_def path_to_json_def path_to_flat_json_def
        null_or_str_def bool_str_def zero upt_conv_Cons esc_def dq_def bs_def enumerate_eq_zip)
qed

lemma state_text_ends: "\<exists>xs. build_state_json E r = xs @ ''}}''"
  by (simp add: build_state_json_def nav_json_def raw_field_def commas_def upt_conv_Cons)

lemma offline_text_ends: "\<exists>xs. offline_json t = xs @ ''e}''"
  by (simp add: offline_json_def)


lemma texts_differ: "offline_json t \<noteq> build_state_json E r"
  using state_text_ends [of E r] offline_text_ends [of t] by auto

text \<open>A robot that was sent to the edge of the map. The clock of the messages stands still, so that its
  console stays fresh.\<close>

definition still_env :: env where
  "still_env = any_env\<lparr>wall := (\<lambda>_. 1000)\<rparr>"

definition online_text :: string where
  "online_text = ''{'' @ quoted ''online'' @ '':true}''"

definition edge_text :: string where
  "edge_text = ''{'' @ quoted ''cmd'' @ '':'' @ quoted ''CMD_TASK'' @ '','' @ quoted ''type'' @ '':'' @ quoted ''goto'' @
     '','' @ quoted ''x'' @ '':20}''"

lemma edge_text_reads:
  "extract_bool online_text ''online'' = Some True"
  "extract_string edge_text ''cmd'' = Some ''CMD_TASK''" "extract_string edge_text ''type'' = Some ''goto''"
  "extract_string edge_text ''task_id'' = None" "extract_number edge_text ''y'' v = (False, v)"
  "extract_number edge_text ''x'' v = (True, D 20 1)"
proof -
  show "extract_bool online_text ''online'' = Some True"
    "extract_string edge_text ''cmd'' = Some ''CMD_TASK''" "extract_string edge_text ''type'' = Some ''goto''"
    "extract_string edge_text ''task_id'' = None" by code_simp+
  have "after_key edge_text ''y'' = None" "after_key edge_text ''x'' = Some ''20}''" by code_simp+
  moreover have "strtod ''20}'' = Some (D 20 1)"
  proof -
    have t: "take_sign (dropWhile is_space ''20}'') = (False, ''20}'')" "map to_lower ''20}'' = ''20}''"
      "take_mantissa is_xdigit (drop 2 ''20}'') = ([], 0, ''}'')" "take_mantissa is_digit ''20}'' = (''20'', 0, ''}'')"
      "xdigit_val CHR ''2'' = 2" "xdigit_val CHR ''0'' = 0" "take_exponent (CHR ''e'') ''}'' = 0" by code_simp+
    have "strtod ''20}'' = Some (scaled_ratio False 20 10 0 0)"
      unfolding strtod_def t(1) Let_def prod.case t(2) t(4) by (simp add: t(3,5,6,7))
    then show ?thesis
      unfolding scaled_ratio_def D_edge by simp (subst round_mag_eval [OF _ refl refl refl refl refl]; simp add: ratio_log_def nbits_eval)
  qed
  ultimately show "extract_number edge_text ''y'' v = (False, v)" "extract_number edge_text ''x'' v = (True, D 20 1)"
    by (simp_all add: extract_number_def)
qed


lemma on_cmd_reset: "on_cmd E reset_text s = Some (cmd_reset E (extract_seq reset_text) ''CMD_RESET'' reset_text s)"
  by (simp add: on_cmd_def reset_text_reads)

lemma edge_run:
  obtains r where "run_steps (robot_step still_env) init_robot [Configure, Console online_text, Cmd reset_text, Cmd edge_text] = Some r"
    "cmd_sub r" "phase r = ''FAULT''" "mode r = ''TELEOP''" "\<not> estop r" "\<not> control_enabled r" "console_online r" "\<not> reset_blocking r"
proof -
  define s0 where "s0 = on_configure still_env init_robot"
  have s0: "cmd_sub s0" "console_sub s0" "pose_y s0 = D 0 1" "faults s0 = []" "phase s0 = ''INITIALIZING''" "\<not> estop s0"
    by (simp_all add: s0_def on_configure_def clear_faults_def publish_state_def set_node_def Let_def)
  define s1 where "s1 = on_console still_env online_text s0"
  have 1: "cmd_sub s1" "pose_y s1 = D 0 1" "faults s1 = []" "console_online s1"
    using s0 by (simp_all add: s1_def on_console_def edge_text_reads publish_state_def now_ms_def set_node_def recompute_def Let_def)
  define s2 where "s2 = cmd_reset still_env (extract_seq reset_text) ''CMD_RESET'' reset_text s1"
  have nb: "\<not> reset_blocking s1" by (simp add: reset_blocking_def 1(3))
  have 2: "phase s2 = ''IDLE''" using reset_recovers(1) [OF 1(4) nb reset_text_reads(2)] by (simp add: s2_def)
  have 3: "cmd_sub s2" "pose_y s2 = D 0 1" "faults s2 = []" "console_online s2" "\<not> estop s2" "mode s2 = ''TELEOP''" "task_id s2 = []"
    using 1 unfolding s2_def cmd_reset_def by (simp_all add: reset_text_reads accept_def clear_faults_def nb Let_def)
  have nb2: "\<not> cmd_blocked s2" using 2 3 by (simp add: cmd_blocked_def)
  have "\<not> outside_world (D 20 1) (D 0 1)"
    unfolding outside_world_def D_edge D_values by (simp add: fp_lt_def fp_neg_def is_nan_def fkey_def)
  moreover have "astar (inflate make_corridor_demo 1) px (D 0 1) (D 20 1) (D 0 1) = Some []" for px
    using edge_cell [of "D 0 1"] by (auto simp: astar_def split: prod.split)
  ultimately have o: "\<exists>sq ti s3. on_cmd still_env edge_text s2 = Some (publish_state still_env (recompute
      (reject sq ''CMD_TASK'' ''unknown_task'' ti (add_fault ''E_TASK_FAILED'' ''ERROR'' ''A* no path to goal'' s3)))) \<and>
      s3 = s2\<lparr>task_seq := task_seq s2 + 1, nav_map := inflate make_corridor_demo 1, nav_path := [], nav_status := ''FAILED''\<rparr>"
    using 2 3(2,7) unfolding goto_command [OF edge_text_reads(2,3)]
    by (auto simp: nb2 edge_text_reads task_goto_def goto_start_def Let_def intro!: exI)
  obtain sq ti s3 where o: "on_cmd still_env edge_text s2 = Some (publish_state still_env (recompute
      (reject sq ''CMD_TASK'' ''unknown_task'' ti (add_fault ''E_TASK_FAILED'' ''ERROR'' ''A* no path to goal'' s3))))"
    and e: "s3 = s2\<lparr>task_seq := task_seq s2 + 1, nav_map := inflate make_corridor_demo 1, nav_path := [], nav_status := ''FAILED''\<rparr>"
    using o by blast
  have s3: "cmd_sub s3" "faults s3 = []" "console_online s3" "\<not> estop s3" "mode s3 = ''TELEOP''" "phase s3 = ''IDLE''"
    using 2 3 by (simp_all add: e)
  define s4 where "s4 = reject sq ''CMD_TASK'' ''unknown_task'' ti (add_fault ''E_TASK_FAILED'' ''ERROR'' ''A* no path to goal'' s3)"
  have 4: "cmd_sub s4" "console_online s4" "\<not> estop s4" "mode s4 = ''TELEOP''" "phase s4 = ''IDLE''" "has_error_condition s4" "\<not> reset_blocking s4"
    using s3 by (simp_all add: s4_def has_error_condition_def reset_blocking_def)
  have "faults (recompute s4) = faults s4" by simp
  then have "\<not> reset_blocking (recompute s4)" using 4(7) by (simp add: reset_blocking_def)
  moreover have "phase (recompute s4) = ''FAULT''" "\<not> control_enabled (recompute s4)"
    using 4 by (simp_all add: recompute_def Let_def)
  ultimately have 5: "cmd_sub (publish_state still_env (recompute s4))" "phase (publish_state still_env (recompute s4)) = ''FAULT''"
    "mode (publish_state still_env (recompute s4)) = ''TELEOP''" "\<not> estop (publish_state still_env (recompute s4))"
    "\<not> control_enabled (publish_state still_env (recompute s4))" "console_online (publish_state still_env (recompute s4))"
    "\<not> reset_blocking (publish_state still_env (recompute s4))"
    using 4 by (simp_all add: reset_blocking_def)
  have "run_steps (robot_step still_env) init_robot [Configure, Console online_text, Cmd reset_text, Cmd edge_text] =
      Some (publish_state still_env (recompute s4))"
    using o s0(1,2) 1(1) 3(1) by (simp add: robot_step_def on_cmd_reset flip: s0_def s1_def s2_def s4_def)
  then show ?thesis using 5 by (rule that)
qed
theorem faulted_robot_looks_absent_witness:
  "\<exists>r r'. run_steps (robot_step still_env) init_robot [Configure, Console online_text, Cmd reset_text, Cmd edge_text] = Some r \<and>
     displays (k_view (on_state (reading_qt (\<lambda>_. members ''OFFLINE'' ''FAULT'' False)) insertion_sort
       (members ''OFFLINE'' ''FAULT'' False) init_controller)) ''OFFLINE'' ''TELEOP'' ''FAULT'' False False False \<and>
     robot_step still_env r (Cmd reset_text) = Some r' \<and> phase r' = ''IDLE'' \<and> control_enabled r'"
proof -
  let ?Q = "reading_qt (\<lambda>_. members ''OFFLINE'' ''FAULT'' False)"
  obtain r where run: "run_steps (robot_step still_env) init_robot [Configure, Console online_text, Cmd reset_text, Cmd edge_text] = Some r"
    and r: "cmd_sub r" "phase r = ''FAULT''" "mode r = ''TELEOP''" "\<not> estop r" "\<not> control_enabled r" "console_online r" "\<not> reset_blocking r"
    by (rule edge_run)
  have adm: "list_all (event_ok still_env) [Configure, Console online_text, Cmd reset_text, Cmd edge_text]"
    using any_env_ok by (simp add: event_ok_def still_env_def)
  have "conn_str r = ''OFFLINE''" using r by (simp add: conn_str_def)
  then have reads: "json_reads_state ?Q (build_state_json still_env r) (conn_str r) (mode r) (phase r) (estop r) (control_enabled r)"
    using r(2-5) reads_members [of "\<lambda>_. members ''OFFLINE'' ''FAULT'' False"] by simp
  have "variant_map ?Q (j_object ?Q x) = members ''OFFLINE'' ''FAULT'' False" for x
    by (rule ext) (simp add: variant_map_def reading_qt_def tree_qt_def map_option.id [unfolded id_def])
  with faulted_robot_looks_absent [OF adm run r(1,2) reads reset_text_reads, of insertion_sort init_controller] r(3,6,7)
  have d: "displays (k_view (on_state ?Q insertion_sort (members ''OFFLINE'' ''FAULT'' False) init_controller))
      ''OFFLINE'' ''TELEOP'' ''FAULT'' False False False"
    and e: "\<exists>r'. robot_step still_env r (Cmd reset_text) = Some r' \<and> phase r' = ''IDLE'' \<and> control_enabled r'"
    by simp_all
  with run show ?thesis by blast
qed

text \<open>A console in session, and a state of the robot.\<close>

definition session_hello :: frame where
  "session_hello = \<lparr>ftype = MSG_HELLO, fflags = 0, fseq = 1, fpayload = hello_text\<rparr>"

definition session_run :: "bridge_event list" where
  "session_run = [Start 3 True True 8765, Accept 5, Recv 0 (int (length (encode session_hello))) (encode session_hello), Frame 0, Robot_State (build_state_json any_env seen_robot)]"

lemma session_run_state:
  defines "s \<equiv> foldl (bridge_step demo_platform) init_server session_run"
  shows "s_running s" "s_clients s = [0]" "length (s_objs s) = 1" "c_hello_ok (client_of s 0)" "c_fd (client_of s 0) = 5"
    "b_state_json (s_host s) = build_state_json any_env seen_robot" "b_last_state_ms (s_host s) = 100000"
proof -
  define s2 where "s2 = foldl (bridge_step demo_platform) init_server [Start 3 True True 8765, Accept 5]"
  define s3 where "s3 = bridge_step demo_platform s2 (Recv 0 (int (length (encode session_hello))) (encode session_hello))"
  define s4 where "s4 = bridge_step demo_platform s3 (Frame 0)"
  have s: "s = bridge_step demo_platform s4 (Robot_State (build_state_json any_env seen_robot))"
    by (simp add: s_def s4_def s3_def s2_def session_run_def)
  have 2: "s_running s2" "s_clients s2 = [0]" "s_objs s2 = [new_client 5 100000]"
    by (simp_all add: s2_def bridge_step_def start_server_def init_server_def accept_client_def s_now_def loop_test_def
        client_of_def new_client_def demo_platform_def Let_def)
  have "frame_ok session_hello" by (simp add: frame_ok_def session_hello_def hello_text_def quoted_def)
  moreover have nil: "decoder_drain [] = ([], [])" by (subst decoder_drain.simps) (simp add: decoder_next_def)
  ultimately have d: "decoder_drain (encode session_hello) = ([session_hello], [])"
    using bridge_codec.drain_frame [of session_hello "[]"] by simp
  have t: "thread_of 0 s2" "c_batch (client_of s2 0) = []" "c_decoder (client_of s2 0) = []"
    by (simp_all add: thread_of_def client_of_def 2(3) new_client_def)
  then have s3: "s3 = set_client 0 (\<lambda>cl. cl\<lparr>c_last_rx_ms := 100000, c_decoder := [], c_batch := [session_hello]\<rparr>) (s2\<lparr>s_reads := Suc (s_reads s2)\<rparr>)"
    using t by (simp add: s3_def bridge_step_def client_recv_def s_now_def demo_platform_def decoder_append_def d estop_first_def
        bridge_codec.enc_nonempty Let_def)
  have 3: "0 < length (s_objs s3)" "s_running s3" "c_fd (client_of s3 0) \<ge> 0" "c_batch (client_of s3 0) = session_hello # []"
    "c_fd (client_of s3 0) = 5" "s_clients s3 = [0]" "length (s_objs s3) = 1" "thread_of 0 s3"
    using 2 by (simp_all add: s3 thread_of_def) (simp_all add: client_of_def new_client_def)
  have "ftype session_hello = MSG_HELLO" "proto_supported (fpayload session_hello)"
    using hello_text_supported by (simp_all add: session_hello_def)
  note h = frame_accepts_hello [OF 3(1-4) this, of demo_platform node_callbacks]
  have s4: "s4 = client_frame demo_platform node_callbacks 0 s3" using 3(8) by (simp add: s4_def bridge_step_def)
  show "s_running s" "s_clients s = [0]" "length (s_objs s) = 1" "c_hello_ok (client_of s 0)" "c_fd (client_of s 0) = 5"
    "b_state_json (s_host s) = build_state_json any_env seen_robot" "b_last_state_ms (s_host s) = 100000"
    using h(2-4) sent_more_fields [OF h(1)] 3(5-7)
    by (simp_all add: s bridge_step_def ros_state_def s_now_def on_robot_state_def client_of_def demo_platform_def s4)
qed

definition seen_qt :: "(tree, tree) qt" where
  "seen_qt = reading_qt (\<lambda>x. if x = build_state_json any_env seen_robot then members ''ONLINE'' ''IDLE'' True
     else members ''OFFLINE'' ''BOOT'' False)"

theorem operator_sees_robot_witness:
  "\<exists>s bs. run_steps (\<lambda>s e. Some (bridge_step demo_platform s e)) init_server session_run = Some s \<and>
     c_sent (client_of (bridge_step demo_platform s Delta_Timer) 0) = c_sent (client_of s 0) @ bs \<and>
     displays (k_view (cn_ctl (foldl (console_step seen_qt insertion_sort (plain_socket\<lparr>so_read_all := \<lambda>so. (bs, so)\<rparr>))
       (init_console UnconnectedState) [Loop_Event (SockReadyRead ConnectedState), DeliverSignal])))
       ''ONLINE'' ''TELEOP'' ''IDLE'' False True True"
proof -
  define s where "s = foldl (bridge_step demo_platform) init_server session_run"
  have r: "run_steps (\<lambda>s e. Some (bridge_step demo_platform s e)) init_server session_run = Some s"
    by (simp add: s_def session_run_def)
  note f = session_run_state [folded s_def]
  have seen: "conn_str seen_robot = ''ONLINE''" "mode seen_robot = ''TELEOP''" "phase seen_robot = ''IDLE''" "\<not> estop seen_robot"
    "control_enabled seen_robot" by (simp_all add: conn_str_def seen_robot_def ready_robot_def init_robot_def)
  have q: "json_reads_state seen_qt (build_state_json any_env seen_robot) (conn_str seen_robot) (mode seen_robot)
      (phase seen_robot) (estop seen_robot) (control_enabled seen_robot)"
    unfolding seen_qt_def seen(1-3) using seen(4,5) by (simp add: reads_members)
  have con: "w_out (cn_worker (init_console UnconnectedState :: (tree, sock_state) console)) = []"
    "w_decoder (cn_worker (init_console UnconnectedState :: (tree, sock_state) console)) = []"
    by (simp_all add: init_console_def init_worker_def)
  have fresh: "0 < b_last_state_ms (s_host s)" "p_clock demo_platform (s_reads s) - b_last_state_ms (s_host s) < 3000"
    by (simp_all add: f(7) demo_platform_def)
  have one: "0 < length (s_objs s)" by (simp add: f(3))
  have in_session: "0 \<in> set (s_clients s) \<and> c_hello_ok (client_of s 0) \<and> c_fd (client_of s 0) \<ge> 0" using f(2,4,5) by simp
  have never: "\<not> send_failed demo_platform k k'" for k k' by (simp add: send_failed_def demo_platform_def)
  let ?whole = "encode (state_frame (build_state_json any_env seen_robot))"
  let ?shown = "k_view (cn_ctl (foldl (console_step seen_qt insertion_sort (plain_socket\<lparr>so_read_all := \<lambda>so. (?whole, so)\<rparr>))
    (init_console UnconnectedState) [Loop_Event (SockReadyRead ConnectedState), DeliverSignal]))"
  have "c_sent (client_of (bridge_step demo_platform s Delta_Timer) 0) = c_sent (client_of s 0) @ ?whole \<and>
      displays ?shown ''ONLINE'' ''TELEOP'' ''IDLE'' False True True"
  proof -
    have fresh': "(0 < b_last_state_ms (s_host s) \<and> p_clock demo_platform (s_reads s) - b_last_state_ms (s_host s) < 3000) = True"
      using fresh by simp
    obtain taken where sent: "c_sent (client_of (bridge_step demo_platform s Delta_Timer) 0) = c_sent (client_of s 0) @ taken"
        "taken = ?whole \<or> send_failed demo_platform (s_sends s) (s_sends (bridge_step demo_platform s Delta_Timer))"
      and reading: "\<forall>(Q :: (tree, tree) qt) srt S (con :: (tree, sock_state) console) so so' later. w_out (cn_worker con) = [] \<and>
        w_decoder (cn_worker con) = [] \<and>
        so_read_all S so = (?whole @ later, so') \<and> length (build_state_json any_env seen_robot) \<le> 65532 \<and>
        json_reads_state Q (build_state_json any_env seen_robot) (conn_str seen_robot) (mode seen_robot) (phase seen_robot)
          (estop seen_robot) (control_enabled seen_robot) \<longrightarrow>
        displays (k_view (cn_ctl (foldl (console_step Q srt S) con [Loop_Event (SockReadyRead so), DeliverSignal])))
          (conn_str seen_robot) (mode seen_robot) (phase seen_robot) (estop seen_robot) (control_enabled seen_robot)
          (control_enabled seen_robot \<or> conn_str seen_robot \<noteq> ''OFFLINE'' \<and> phase seen_robot \<noteq> ''BOOT'')"
      using operator_sees_robot [OF r f(1,6) one, unfolded Let_def fresh' if_True, THEN conjunct2, THEN mp, OF in_session]
      by (elim exE conjE) (rule that)
    from sent never have "taken = ?whole" by blast
    moreover have "displays ?shown ''ONLINE'' ''TELEOP'' ''IDLE'' False True True"
      using reading [rule_format, of "init_console UnconnectedState" "plain_socket\<lparr>so_read_all := \<lambda>so. (?whole, so)\<rparr>" ConnectedState "[]"
        ConnectedState seen_qt insertion_sort] con q seen_robot_length seen
      by (simp del: console_step.simps foldl_Cons)
    ultimately show ?thesis using sent(1) by simp
  qed
  with r show ?thesis by blast
qed

end
