(* ===== verification/Command_Source.thy ===== *)
theory Command_Source
  imports Operator_View
begin

text \<open>
  Where commands come from, program by program: what makes the robot run and what engages its
  emergency stop, from which frames the bridge publishes, and which frames the console writes. The
  facts are stated over the source each program sees (a text, the frames of a client, the clicks of
  the user), so that the whole system can put them together.
\<close>

section \<open>The robot\<close>

text \<open>Only a task sets the robot in motion.\<close>

definition idle_stays :: "robot \<Rightarrow> robot \<Rightarrow> bool" where
  "idle_stays s s' \<longleftrightarrow> (phase s' = ''RUNNING'' \<longrightarrow> phase s = ''RUNNING'')"

lemma recompute_idle: "phase s \<noteq> ''RUNNING'' \<Longrightarrow> phase (recompute s) \<noteq> ''RUNNING''"
  using recompute_running by blast

lemma safety_stop_idle: "phase (apply_safety_stop E s) \<noteq> ''RUNNING''"
  by (simp add: apply_safety_stop_def recompute_idle Let_def)

lemma tick_idle: "tick E now s = Some s' \<Longrightarrow> idle_stays s s'"
proof (cases "active s")
  case True
  assume t: "tick E now s = Some s'"
  show ?thesis
  proof (cases "phase s = ''RUNNING''")
    case False
    from tick_parts [OF t True] obtain s1 s2 where
      s1: "s1 = recompute (tick_ready now (tick_console E (s\<lparr>last_tick_tp := now\<rparr>)))" and
      s2: "tick_motion E (tick_dt now s) s1 = Some s2" and s': "s' = publish_state E (tick_battery s2)" .
    have "phase (tick_console E (s\<lparr>last_tick_tp := now\<rparr>)) = phase s"
      using False by (simp add: tick_console_def now_ms_def Let_def)
    then have "phase (tick_ready now (tick_console E (s\<lparr>last_tick_tp := now\<rparr>))) \<noteq> ''RUNNING''"
      using False by (simp add: tick_ready_def)
    then have "phase s1 \<noteq> ''RUNNING''" unfolding s1 by (rule recompute_idle)
    moreover from this s2 have "phase s2 = phase s1" by (auto simp: tick_motion_def split: if_splits)
    ultimately have "phase (tick_battery s2) \<noteq> ''RUNNING''"
      by (simp add: tick_battery_def recompute_idle Let_def)
    then show ?thesis by (simp add: s' idle_stays_def)
  qed (simp add: idle_stays_def)
qed (simp add: tick_def idle_stays_def)

lemma other_commands_idle:
  "idle_stays s (cmd_estop E sq s)" "idle_stays s (cmd_reset E sq cmd d s)" "idle_stays s (cmd_mode E sq cmd d s)"
  "idle_stays s (cmd_inject E sq cmd d s)" "idle_stays s (cmd_clear E sq cmd s)"
  by (auto simp: idle_stays_def cmd_estop_def cmd_reset_def reject_def accept_def cmd_mode_def cmd_inject_def
      inject_fault_def cmd_clear_def Let_def split: option.splits if_splits dest!: recompute_running)

lemma lifecycle_idle:
  "idle_stays s (on_configure E s)" "idle_stays s (on_activate E t1 t2 s)" "idle_stays s (on_deactivate s)"
  "idle_stays s (on_cleanup s)" "idle_stays s (on_console E d s)"
  by (auto simp: idle_stays_def safety_stop_idle on_configure_def on_activate_def on_deactivate_def on_cleanup_def on_console_def
      now_ms_def Let_def split: if_splits dest!: recompute_running)

lemma runs_only_on_task:
  assumes "robot_step E s ev = Some s'" and "phase s' = ''RUNNING''" and "phase s \<noteq> ''RUNNING''"
  obtains d where "ev = Cmd d" and "extract_string d ''cmd'' = Some ''CMD_TASK''"
proof (cases ev)
  case (Cmd d)
  with assms have "on_cmd E d s = Some s'" by (auto simp: robot_step_def split: if_splits)
  then show ?thesis
    using assms(2,3) other_commands_idle [of s] that [OF Cmd]
    by (cases rule: on_cmd_cases) (auto simp: idle_stays_def reject_def)
qed (use assms lifecycle_idle [of s] in
    \<open>auto simp: robot_step_def on_shutdown_def idle_stays_def dest!: tick_idle split: if_splits\<close>)

text \<open>Only a command engages the emergency stop.\<close>

lemma stops_only_on_command:
  assumes "robot_step E s ev = Some s'" and "estop s'" and "\<not> estop s"
  obtains d where "ev = Cmd d" and "extract_string d ''cmd'' \<in> {Some ''CMD_ESTOP'', Some ''CMD_ESTART''}"
proof (cases ev)
  case (Cmd d)
  with assms have "on_cmd E d s = Some s'" by (auto simp: robot_step_def split: if_splits)
  then show ?thesis
    using assms(2,3) that [OF Cmd] cmd_task_estop
    by (cases rule: on_cmd_cases) (auto simp: other_commands_estop cmd_reset_def reject_def accept_def Let_def split: if_splits)
qed (use assms in \<open>auto simp: robot_step_def on_shutdown_def on_configure_def on_activate_def on_deactivate_def on_cleanup_def
      on_console_def now_ms_def Let_def dest: tick_estop split: if_splits\<close>)


section \<open>The bridge\<close>

text \<open>
  What a client has sent and the bridge has not handled: the bytes in the decoder and the frames of
  the batch. Only a \<open>recv\<close> changes the first or adds to the second.
\<close>

definition client_input :: "('b, 'w) server \<Rightarrow> nat \<Rightarrow> bytes \<times> frame set" where
  "client_input s c = (if c < length (s_objs s) then (c_decoder (client_of s c), set (c_batch (client_of s c))) else ([], {}))"

definition keeps_input :: "('b, 'w) server \<Rightarrow> ('b, 'w) server \<Rightarrow> bool" where
  "keeps_input s0 s \<longleftrightarrow> (\<forall>c. fst (client_input s c) = fst (client_input s0 c) \<and> snd (client_input s c) \<subseteq> snd (client_input s0 c))"

named_theorems keeping \<open>operations that take in nothing from a client\<close>

lemma keeps_refl [simp]: "keeps_input s s"
  by (simp add: keeps_input_def)

lemma keeps_same: "(\<And>c. client_input s' c = client_input s c) \<Longrightarrow> keeps_input s0 s' = keeps_input s0 s"
  by (simp add: keeps_input_def)

lemma keeps_fields [simp]:
  "keeps_input s0 (s\<lparr>s_host := b\<rparr>) = keeps_input s0 s" "keeps_input s0 (s\<lparr>s_reads := k\<rparr>) = keeps_input s0 s"
  "keeps_input s0 (s\<lparr>s_queue := q\<rparr>) = keeps_input s0 s" "keeps_input s0 (s\<lparr>s_waiting := w\<rparr>) = keeps_input s0 s"
  "keeps_input s0 (s\<lparr>s_last_tx := t\<rparr>) = keeps_input s0 s" "keeps_input s0 (s\<lparr>s_clients := cs\<rparr>) = keeps_input s0 s"
  "keeps_input s0 (s\<lparr>s_running := r, s_listen_fd := l\<rparr>) = keeps_input s0 s"
  by (rule keeps_same; simp add: client_input_def client_of_def)+

lemma keeps_set_client [keeping]:
  assumes "keeps_input s0 s" and "\<And>cl. c_decoder (g cl) = c_decoder cl" and "\<And>cl. set (c_batch (g cl)) \<subseteq> set (c_batch cl)"
  shows "keeps_input s0 (set_client c g s)"
proof -
  have "fst (client_input (set_client c g s) d) = fst (client_input s d) \<and>
      snd (client_input (set_client c g s) d) \<subseteq> snd (client_input s d)" for d
    using assms(2,3) [of "client_of s d"] by (auto simp: client_input_def)
  with assms(1) show ?thesis unfolding keeps_input_def by (metis subset_trans)
qed

lemma keeps_sent: "only_sent s s' \<Longrightarrow> keeps_input s0 s' = keeps_input s0 s"
proof (rule keeps_same)
  fix c assume o: "only_sent s s'"
  have "c_decoder (client_of s' c) = c_decoder (client_of s c) \<and> c_batch (client_of s' c) = c_batch (client_of s c)"
    if "c < length (s_objs s)" using only_sent_client [OF o that] sent_more_fields by metis
  then show "client_input s' c = client_input s c" using only_sent_length [OF o] by (simp add: client_input_def)
qed

lemma keeps_sends [simp]:
  "keeps_input s0 (send_to P c ty sq payload s) = keeps_input s0 s"
  "keeps_input s0 (send_to_all P ty sq payload s) = keeps_input s0 s"
  by (simp_all add: keeps_sent [OF only_sent_send] keeps_sent [OF only_sent_all])

lemma keeps_exit [keeping]: "keeps_input s0 s \<Longrightarrow> keeps_input s0 (client_exit c s)"
  by (simp add: client_exit_def remove_client_def keeps_set_client)

lemma keeps_loop_test [keeping]: "keeps_input s0 s \<Longrightarrow> keeps_input s0 (loop_test c s)"
  by (simp add: loop_test_def keeps_exit)

lemma keeps_accept [keeping]: "keeps_input s0 s \<Longrightarrow> keeps_input s0 (accept_client P fd s)"
proof -
  assume k: "keeps_input s0 s"
  have "client_input (s\<lparr>s_reads := Suc (s_reads s), s_objs := s_objs s @ [new_client fd t], s_clients := cs\<rparr>) c =
      client_input s c" for t cs c
    by (auto simp: client_input_def client_of_def nth_append less_Suc_eq new_client_def)
  from keeps_same [OF this] k show ?thesis by (simp add: accept_client_def s_now_def Let_def keeps_loop_test)
qed

lemma keeps_frame [keeping]: "keeps_input s0 s \<Longrightarrow> keeps_input s0 (client_frame P C c s)"
proof -
  assume k: "keeps_input s0 s"
  have handle: "keeps_input s0 (handle_frame P C c f r)" if "keeps_input s0 r" for f r
    using that by (simp add: handle_frame_def handle_hello_def handle_heartbeat_def enqueue_cmd_def call_state_def s_now_def
        split_beta Let_def keeps_set_client)
  have clear: "keeps_input s0 (set_client c (\<lambda>cl. cl\<lparr>c_batch := []\<rparr>) r)" if "keeps_input s0 r" for r
    using that by (rule keeps_set_client) simp_all
  show ?thesis
  proof (cases "c_batch (client_of s c)")
    case (Cons f fs)
    have "client_input (set_client c (\<lambda>cl. cl\<lparr>c_batch := fs\<rparr>) s) d =
        (fst (client_input s d), if d = c \<and> d < length (s_objs s) then set fs else snd (client_input s d))" for d
      by (simp add: client_input_def)
    moreover have "c < length (s_objs s) \<Longrightarrow> set fs \<subseteq> snd (client_input s c)" using Cons by (auto simp: client_input_def)
    ultimately have "keeps_input s0 (set_client c (\<lambda>cl. cl\<lparr>c_batch := fs\<rparr>) s)"
      using k by (auto simp: keeps_input_def)
    from handle [OF this] clear [OF handle [OF this]] Cons show ?thesis
      by (simp add: client_frame_def Let_def keeps_loop_test)
  qed (use k in \<open>simp add: client_frame_def\<close>)
qed

lemma keeps_worker [keeping]: "keeps_input s0 s \<Longrightarrow> keeps_input s0 (worker_step P C t s)"
  by (simp add: worker_step_def worker_take_def worker_poll_def Let_def split: list.split prod.split sum.split option.split)

lemma keeps_fold:
  assumes "keeps_input s0 s" and "\<And>c cl. c_decoder (g c cl) = c_decoder cl \<and> c_batch (g c cl) = c_batch cl"
  shows "keeps_input s0 (fold (\<lambda>c s'. if p c s' then set_client c (g c) s' else s') cs s)"
  using assms(1) by (induction cs arbitrary: s) (simp_all add: keeps_set_client assms(2))

lemma keeps_watchdog [keeping]: "keeps_input s0 s \<Longrightarrow> keeps_input s0 (watchdog P s)"
  by (simp add: watchdog_def s_now_def split_beta Let_def keeps_fold)

lemma keeps_stop [keeping]:
  assumes "keeps_input s0 s"
  shows "keeps_input s0 (stop_begin s)" and "keeps_input s0 (stop_end s)" and "keeps_input s0 (snd (start_server k bd li port s))"
proof -
  have "keeps_input s0 (s\<lparr>s_running := False, s_listen_fd := - 1\<rparr>)" using assms by simp
  from keeps_fold [OF this, of "\<lambda>c cl. cl\<lparr>c_fd := - 1, c_shut := c_shut cl \<or> c_fd cl \<ge> 0\<rparr>" "\<lambda>_ _. True"]
  show "keeps_input s0 (stop_begin s)" by (simp add: stop_begin_def)
  have "keeps_input s0 (snd (start_server k bd li port s)) = keeps_input s0 s"
    by (rule keeps_same) (simp add: start_server_def client_input_def client_of_def)
  with assms show "keeps_input s0 (stop_end s)" "keeps_input s0 (snd (start_server k bd li port s))"
    by (simp_all add: stop_end_def)
qed

lemma keeps_host [keeping]:
  assumes "keeps_input s0 s"
  shows "keeps_input s0 (ros_state P data s)" "keeps_input s0 (ros_result P data s)" "keeps_input s0 (delta_timer_cb P s)"
  using assms by (simp_all add: ros_state_def s_now_def ros_result_def complete_async_ack_def delta_timer_cb_def
      broadcast_state_delta_def call_state_def split_beta Let_def split: option.split)

text \<open>A \<open>recv\<close> of data drains the decoder into the batch of that client.\<close>

lemma recv_input:
  assumes "0 < n" and "c < length (s_objs s)" and "decoder_drain (decoder_append (c_decoder (client_of s c)) data) = (fs, buf)"
  shows "fst (client_input (client_recv P c n data s) d) = (if d = c then buf else fst (client_input s d))"
    and "snd (client_input (client_recv P c n data s) d) \<subseteq> (if d = c then set fs else snd (client_input s d))"
proof -
  let ?s = "set_client c (\<lambda>cl. cl\<lparr>c_last_rx_ms := fst (s_now P s), c_decoder := buf, c_batch := estop_first fs\<rparr>) (snd (s_now P s))"
  have "client_recv P c n data s = (if fs = [] then loop_test c ?s else ?s)"
    using assms(1,3) by (simp add: client_recv_def split_beta Let_def)
  then have "keeps_input ?s (client_recv P c n data s)" by (simp add: keeps_loop_test)
  then have "fst (client_input (client_recv P c n data s) d) = fst (client_input ?s d)"
    and "snd (client_input (client_recv P c n data s) d) \<subseteq> snd (client_input ?s d)" by (simp_all add: keeps_input_def)
  moreover have "client_input ?s d = (if d = c then (buf, set fs) else client_input s d)"
    using assms(2) by (auto simp: client_input_def s_now_def estop_first_eq client_of_def set_client_def)
  ultimately show "fst (client_input (client_recv P c n data s) d) = (if d = c then buf else fst (client_input s d))"
    and "snd (client_input (client_recv P c n data s) d) \<subseteq> (if d = c then set fs else snd (client_input s d))" by (simp_all split: if_splits)
qed

lemma recv_end_keeps: "n \<le> 0 \<Longrightarrow> keeps_input s (client_recv P c n data s)"
  by (simp add: client_recv_def keeps_exit keeps_loop_test)

text \<open>So every step but a \<open>recv\<close> of data keeps the input.\<close>

lemma bridge_step_keeps:
  assumes "\<And>c n data. ev = Recv c n data \<Longrightarrow> n \<le> 0"
  shows "keeps_input s (bridge_step P s ev)"
  using assms by (cases ev) (simp_all add: bridge_step_def keeping recv_end_keeps)

text \<open>Every frame that waits to be handled satisfies \<open>G\<close> of its client.\<close>

definition batches_from :: "(nat \<Rightarrow> frame \<Rightarrow> bool) \<Rightarrow> ('b, 'w) server \<Rightarrow> bool" where
  "batches_from G s \<longleftrightarrow> (\<forall>c. \<forall>f \<in> snd (client_input s c). G c f)"

lemma batches_keep: "batches_from G s \<Longrightarrow> keeps_input s s' \<Longrightarrow> batches_from G s'"
  unfolding batches_from_def keeps_input_def by blast

text \<open>
  The same for the jobs in the queue and for what has been published: each comes from a command
  frame that satisfies \<open>G\<close> of a client.
\<close>

definition job_of :: "nat \<Rightarrow> frame \<Rightarrow> job" where
  "job_of c f = \<lparr>j_client = c, j_seq = fseq f, j_cmd = msg_type_name (ftype f), j_payload = fpayload f\<rparr>"

definition envelope_of :: "frame \<Rightarrow> string" where
  "envelope_of f = envelope (msg_type_name (ftype f)) (fseq f) (fpayload f)"

definition bridge_from :: "(nat \<Rightarrow> frame \<Rightarrow> bool) \<Rightarrow> (bridge, wait) server \<Rightarrow> bool" where
  "bridge_from G s \<longleftrightarrow> batches_from G s \<and>
     (\<forall>j \<in> set (s_queue s). j_cmd j \<noteq> ''CMD_ESTOP'' \<and> (\<exists>c f. G c f \<and> ftype f \<in> set command_types \<and> j = job_of c f)) \<and>
     (\<forall>e \<in> set (b_cmds (s_host s)). \<exists>c f. G c f \<and> ftype f \<in> set command_types \<and> e = envelope_of f)"

lemma init_bridge_from: "bridge_from G init_server"
  by (simp add: bridge_from_def batches_from_def client_input_def init_server_def init_bridge_def)

lemma bridge_from_mono:
  assumes "bridge_from G s" and "\<And>c f. G c f \<Longrightarrow> H c f"
  shows "bridge_from H s"
  using assms unfolding bridge_from_def batches_from_def by meson

lemma frame_from:
  assumes "bridge_from G s" and "c < length (s_objs s)"
  shows "bridge_from G (client_frame P node_callbacks c s)"
proof (cases "c_batch (client_of s c)")
  case Nil
  with assms(1) show ?thesis by (simp add: bridge_host.idle_frame)
next
  case (Cons f fs)
  then have g: "G c f" using assms by (auto simp: bridge_from_def batches_from_def client_input_def)
  let ?s = "client_frame P node_callbacks c s"
  have "\<exists>c' f'. G c' f' \<and> ftype f' \<in> set command_types \<and> e = envelope_of f'" if "e \<in> set (b_cmds (s_host ?s))" for e
  proof (cases "e \<in> set (b_cmds (s_host s))")
    case True
    with assms(1) show ?thesis by (simp add: bridge_from_def)
  next
    case False
    with that have "e = envelope_of f" "ftype f = MSG_CMD_ESTOP"
      using bridge_host.frame_publishes [OF Cons, of P] by (auto simp: envelope_of_def split: if_splits)
    with g show ?thesis by (auto simp: command_types_def)
  qed
  moreover have "j_cmd j \<noteq> ''CMD_ESTOP'' \<and> (\<exists>c' f'. G c' f' \<and> ftype f' \<in> set command_types \<and> j = job_of c' f')"
    if "j \<in> set (s_queue ?s)" for j
  proof (cases "j \<in> set (s_queue s)")
    case True
    with assms(1) show ?thesis by (simp add: bridge_from_def)
  next
    case False
    with that have "j = job_of c f" "ftype f \<in> set command_types" "ftype f \<noteq> MSG_CMD_ESTOP"
      using client_frame_effect(2) [OF Cons, of P node_callbacks] by (auto simp: job_of_def split: if_splits)
    with g show ?thesis using msg_type_name_estop [of "ftype f"] by (auto simp: job_of_def)
  qed
  ultimately show ?thesis using assms(1) by (simp add: bridge_from_def batches_keep [OF _ keeps_frame [OF keeps_refl]])
qed

lemma worker_from:
  assumes "bridge_from G s"
  shows "bridge_from G (worker_step P node_callbacks t s)"
proof -
  let ?s = "worker_step P node_callbacks t s"
  have q: "set (s_queue ?s) \<subseteq> set (s_queue s)"
    by (auto simp: worker_step_def worker_take_def worker_poll_def Let_def split: list.split prod.split sum.split option.split)
  have "\<forall>j \<in> set (s_queue s). j_cmd j \<noteq> ''CMD_ESTOP''" using assms by (simp add: bridge_from_def)
  from bridge_host.worker_publishes [OF this, of P t] have
    "b_cmds (s_host ?s) = b_cmds (s_host s) \<or>
     (\<exists>j \<in> set (s_queue s). b_cmds (s_host ?s) = b_cmds (s_host s) @ [envelope (j_cmd j) (j_seq j) (j_payload j)])" by auto
  moreover have "\<exists>c f. G c f \<and> ftype f \<in> set command_types \<and> envelope (j_cmd j) (j_seq j) (j_payload j) = envelope_of f"
    if "j \<in> set (s_queue s)" for j using that assms by (fastforce simp: bridge_from_def job_of_def envelope_of_def)
  ultimately have "\<forall>e \<in> set (b_cmds (s_host ?s)). \<exists>c f. G c f \<and> ftype f \<in> set command_types \<and> e = envelope_of f"
    using assms by (auto simp: bridge_from_def)
  then show ?thesis using assms q by (auto simp: bridge_from_def batches_keep [OF _ keeps_worker [OF keeps_refl]])
qed

lemma bridge_step_from:
  assumes "bridge_from G s"
    and "\<And>c n data f. ev = Recv c n data \<Longrightarrow> thread_of c s \<Longrightarrow> c_batch (client_of s c) = [] \<Longrightarrow> 0 < n \<Longrightarrow>
      f \<in> set (fst (decoder_drain (decoder_append (c_decoder (client_of s c)) data))) \<Longrightarrow> G c f"
  shows "bridge_from G (bridge_step P s ev)"
proof -
  let ?s = "bridge_step P s ev"
  have b: "batches_from G ?s"
  proof (cases "\<exists>c n data. ev = Recv c n data \<and> 0 < n \<and> thread_of c s \<and> c_batch (client_of s c) = []")
    case True
    then obtain c n data where ev: "ev = Recv c n data" "0 < n" "thread_of c s" "c_batch (client_of s c) = []" by blast
    obtain fs buf where d: "decoder_drain (decoder_append (c_decoder (client_of s c)) data) = (fs, buf)" by fastforce
    have "\<forall>f \<in> set fs. G c f" using assms(2) [OF ev(1,3,4,2)] by (simp add: d)
    moreover have "c < length (s_objs s)" using ev(3) by (simp add: thread_of_def)
    moreover have "?s = client_recv P c n data s" using ev by (simp add: bridge_step_def)
    ultimately have new: "f \<in> snd (client_input ?s c') \<Longrightarrow> (c' = c \<and> G c f) \<or> f \<in> snd (client_input s c')" for c' f
      using recv_input(2) [OF ev(2) _ d, of P c'] by (auto split: if_splits)
    have "f \<in> snd (client_input s c') \<Longrightarrow> G c' f" for c' f
      using assms(1) by (simp add: bridge_from_def batches_from_def)
    with new show ?thesis unfolding batches_from_def by fast
  next
    case False
    have "keeps_input s ?s"
    proof (cases "\<exists>c n data. ev = Recv c n data \<and> 0 < n")
      case True
      with False show ?thesis by (auto simp: bridge_step_def)
    next
      case False
      then show ?thesis by (intro bridge_step_keeps) (simp add: not_less)
    qed
    then show ?thesis using assms(1) batches_keep by (auto simp: bridge_from_def)
  qed
  show ?thesis
  proof (cases ev)
    case (Frame c)
    then show ?thesis using assms(1) frame_from by (simp add: bridge_step_def thread_of_def)
  next
    case (Worker t)
    then show ?thesis using assms(1) worker_from by (simp add: bridge_step_def)
  next
    case (Cmd_Result data)
    moreover have "s_queue (ros_result P data s) = s_queue s"
      by (simp add: ros_result_def complete_async_ack_def split: prod.split option.split)
    ultimately show ?thesis using assms(1) b by (simp add: bridge_step_def bridge_from_def)
  next
    case Delta_Timer
    moreover have "s_queue (delta_timer_cb P s) = s_queue s" by (simp add: delta_timer_cb_def Let_def)
    ultimately show ?thesis using assms(1) b by (simp add: bridge_step_def bridge_from_def)
  next
    case (Robot_State data)
    moreover have "s_queue (ros_state P data s) = s_queue s" by (simp add: ros_state_def s_now_def)
    ultimately show ?thesis using assms(1) b by (simp add: bridge_step_def bridge_from_def)
  qed (use assms(1) b in \<open>simp_all add: bridge_step_def bridge_from_def\<close>)
qed

section \<open>The console\<close>

text \<open>
  The command that each action of the user stands for: the message type and the text of its
  payload. A goto carries its target and the time limit of 30 s.
\<close>

fun command_of :: "('j, 'v) qt \<Rightarrow> user_action \<Rightarrow> (u8 \<times> string) option" where
  "command_of Q (UserMode md) = Some (MSG_CMD_MODE, j_compact Q [''mode'' \<mapsto> j_of_string Q md])"
| "command_of Q (UserGoto tid x y) = Some (MSG_CMD_TASK, j_compact Q
     [''task_id'' \<mapsto> j_of_string Q (trimmed Q tid), ''type'' \<mapsto> j_of_string Q ''goto'', ''x'' \<mapsto> j_of_double Q x,
      ''y'' \<mapsto> j_of_double Q y, ''timeout_s'' \<mapsto> j_of_double Q (fp_lit binary64 30 1)])"
| "command_of Q (UserTask ty) = Some (MSG_CMD_TASK, j_compact Q
     (if ty = ''goto'' then [''task_id'' \<mapsto> j_of_string Q [], ''type'' \<mapsto> j_of_string Q ty, ''x'' \<mapsto> j_of_double Q zero,
        ''y'' \<mapsto> j_of_double Q zero, ''timeout_s'' \<mapsto> j_of_double Q zero]
      else [''task_id'' \<mapsto> j_of_string Q [], ''type'' \<mapsto> j_of_string Q ty]))"
| "command_of Q (UserEstop reason) = Some (MSG_CMD_ESTOP, j_compact Q [''reason'' \<mapsto> j_of_string Q reason])"
| "command_of Q UserReset = Some (MSG_CMD_RESET, j_compact Q [''confirm'' \<mapsto> j_of_bool Q True])"
| "command_of Q _ = None"

definition asked_for :: "('j, 'v) qt \<Rightarrow> user_action set \<Rightarrow> frame \<Rightarrow> bool" where
  "asked_for Q A f \<longleftrightarrow> (ftype f \<in> set command_types \<longrightarrow> (\<exists>a \<in> A. command_of Q a = Some (ftype f, fpayload f)))"

text \<open>What a part of the worker has written: frames that satisfy \<open>G\<close>.\<close>

definition wrote :: "(frame \<Rightarrow> bool) \<Rightarrow> ('v, 's) worker \<Rightarrow> ('v, 's) worker \<Rightarrow> bool" where
  "wrote G w0 w \<longleftrightarrow> (\<exists>fs. w_tx w = w_tx w0 @ map encode fs \<and> list_all G fs)"

lemma wrote_refl [simp]: "wrote G w w"
  by (simp add: wrote_def)

lemma wrote_same: "w_tx w' = w_tx w \<Longrightarrow> wrote G w0 w' = wrote G w0 w"
  by (simp add: wrote_def)

lemma wrote_fields [simp]:
  "wrote G w0 (w\<lparr>w_socket := so\<rparr>) = wrote G w0 w" "wrote G w0 (w_emit sg w) = wrote G w0 w"
  "wrote G w0 (w\<lparr>w_last_rx_ms := t\<rparr>) = wrote G w0 w" "wrote G w0 (w\<lparr>w_reads := n\<rparr>) = wrote G w0 w"
  "wrote G w0 (w\<lparr>w_hello_sent := b\<rparr>) = wrote G w0 w" "wrote G w0 (w\<lparr>w_hb_timer := b\<rparr>) = wrote G w0 w"
  "wrote G w0 (w\<lparr>w_timeout_timer := b\<rparr>) = wrote G w0 w" "wrote G w0 (w\<lparr>w_out := sgs\<rparr>) = wrote G w0 w"
  "wrote G w0 (w\<lparr>w_hello_ok := b\<rparr>) = wrote G w0 w" "wrote G w0 (w\<lparr>w_decoder := buf\<rparr>) = wrote G w0 w"
  "wrote G w0 (w\<lparr>w_hb_send_ts := m\<rparr>) = wrote G w0 w" "wrote G w0 (w\<lparr>w_pending_cmd_name := pm\<rparr>) = wrote G w0 w"
  "wrote G w0 (w\<lparr>w_next_seq := sq\<rparr>) = wrote G w0 w"
  by (simp_all add: wrote_def w_emit_def)

lemma wrote_write:
  "wrote G w0 w \<Longrightarrow> (\<And>f. ftype f = ty \<Longrightarrow> fpayload f = payload \<Longrightarrow> G f) \<Longrightarrow>
    wrote G w0 (w_write S (ui_encode_frame ty flags sq payload) w)"
proof -
  let ?f = "\<lparr>ftype = ty, fflags = flags, fseq = sq, fpayload = payload\<rparr>"
  assume "wrote G w0 w" and g: "\<And>f. ftype f = ty \<Longrightarrow> fpayload f = payload \<Longrightarrow> G f"
  then obtain fs where "w_tx w = w_tx w0 @ map encode fs" "list_all G fs" by (auto simp: wrote_def)
  moreover have "encode ?f = ui_encode_frame ty flags sq payload" by (simp add: encode_def ui_encode_frame_eq)
  ultimately show ?thesis using g by (auto simp: wrote_def w_write_def intro!: exI [of _ "fs @ [?f]"])
qed

lemma wrote_send:
  "wrote G w0 w \<Longrightarrow> (\<And>f. ftype f = ty \<Longrightarrow> fpayload f = payload \<Longrightarrow> G f) \<Longrightarrow>
    wrote G w0 (snd (worker_send S ty flags payload w))"
  by (simp add: worker_send_def take_seq_def Let_def wrote_write)

lemma wrote_note: "wrote G w0 (snd r) \<Longrightarrow> wrote G w0 (note_cmd nm r)"
  by (cases r) (simp add: note_cmd_def)

lemma wrote_close [simp]: "wrote G w0 (close_call f w) = wrote G w0 w"
  by (simp add: close_call_def on_socket_disconnected_def Let_def split: prod.split)

lemma wrote_disconnect [simp]: "wrote G w0 (disconnect_from_host S w) = wrote G w0 w"
  by (simp add: disconnect_from_host_def Let_def)

lemma wrote_connect [simp]: "wrote G w0 (connect_to_host Q S host port w) = wrote G w0 w"
  by (simp add: connect_to_host_def now_u64_def current_msecs_def Let_def)

text \<open>The worker turns the call of an action into the command that the action stands for.\<close>

lemma ui_types_eq:
  "ui_MSG_CMD_MODE = MSG_CMD_MODE" "ui_MSG_CMD_TASK = MSG_CMD_TASK" "ui_MSG_CMD_ESTOP = MSG_CMD_ESTOP"
  "ui_MSG_CMD_RESET = MSG_CMD_RESET"
  by (simp_all add: ui_MSG_CMD_MODE_def MSG_CMD_MODE_def ui_MSG_CMD_TASK_def MSG_CMD_TASK_def ui_MSG_CMD_ESTOP_def
      MSG_CMD_ESTOP_def ui_MSG_CMD_RESET_def MSG_CMD_RESET_def)

lemma call_writes:
  assumes "call_of Q a = Some call" and "\<And>f. command_of Q a = Some (ftype f, fpayload f) \<Longrightarrow> G f"
  shows "wrote G w (do_call Q S call w)"
  using assms
  by (cases a; auto simp: send_cmd_mode_def send_cmd_task_def send_cmd_estop_def send_cmd_reset_def ui_types_eq Let_def
      split: if_splits intro!: wrote_note wrote_send)

text \<open>What the loop of the worker writes by itself is no command.\<close>

lemma wrote_worker_frames [simp]: "wrote G w0 (fold (worker_frame Q) fs w) = wrote G w0 w"
proof (induction fs arbitrary: w)
  case (Cons f fs)
  have "wrote G w0 (worker_frame Q f w) = wrote G w0 w"
    by (simp add: worker_frame_def on_bridge_heartbeat_def current_msecs_def Let_def)
  with Cons show ?case by simp
qed simp

lemma loop_writes:
  assumes "\<And>f. ftype f \<in> {MSG_HELLO, MSG_HEARTBEAT} \<Longrightarrow> G f"
  shows "wrote G w (event_loop Q S e w)"
proof -
  have t: "ui_MSG_HELLO = MSG_HELLO" "ui_MSG_HEARTBEAT = MSG_HEARTBEAT"
    by (simp_all add: ui_MSG_HELLO_def MSG_HELLO_def ui_MSG_HEARTBEAT_def MSG_HEARTBEAT_def)
  show ?thesis
    by (cases e) (auto simp: on_socket_connected_def on_socket_disconnected_def on_ready_read_def on_heartbeat_tick_def
        on_timeout_tick_def fail_and_close_def now_u64_def current_msecs_def take_seq_def t Let_def assms
        split: prod.split intro!: wrote_write wrote_send)
qed

text \<open>So after the user's actions \<open>A\<close>, what waits for the worker or is written is theirs.\<close>

definition calls_for :: "('j, 'v) qt \<Rightarrow> user_action set \<Rightarrow> worker_call set" where
  "calls_for Q A = {StopWorker} \<union> range (\<lambda>(host, port). StartWorker host port) \<union> {call. \<exists>a \<in> A. call_of Q a = Some call}"

definition console_from :: "('j, 'v) qt \<Rightarrow> user_action set \<Rightarrow> ('v, 's) console \<Rightarrow> bool" where
  "console_from Q A c \<longleftrightarrow> set (k_calls (cn_ctl c)) \<subseteq> calls_for Q A"

lemma init_console_from: "console_from Q A (init_console so)"
  by (simp add: console_from_def init_console_def init_controller_def)

lemma calls_for_own [simp]: "StopWorker \<in> calls_for Q A" "StartWorker h p \<in> calls_for Q A"
  by (auto simp: calls_for_def)

lemma calls_for_mono: "A \<subseteq> B \<Longrightarrow> calls_for Q A \<subseteq> calls_for Q B"
  by (auto simp: calls_for_def)

lemma console_from_mono: "console_from Q A c \<Longrightarrow> A \<subseteq> B \<Longrightarrow> console_from Q B c"
  using calls_for_mono [of A B Q] by (simp add: console_from_def)

lemma user_calls: "a \<in> A \<Longrightarrow> set (k_calls (user_step Q a k)) \<subseteq> set (k_calls k) \<union> calls_for Q A"
proof (cases "call_of Q a")
  case None
  then show ?thesis
    by (cases a) (simp_all add: connect_to_server_def disconnect_from_server_def controller_defs le_supI1 Let_def)
next
  case (Some call)
  assume "a \<in> A"
  with Some have "call \<in> calls_for Q A" by (auto simp: calls_for_def)
  then show ?thesis using command_calls [OF Some, of k] by (cases "v_connected (k_view k)") auto
qed

lemma schedule_calls: "k_calls (schedule_reconnect Q why k) = k_calls k"
  by (simp add: schedule_reconnect_def controller_defs Let_def)

lemma signal_calls:
  "set (k_calls (on_signal Q srt sg k)) \<subseteq> set (k_calls k) \<union> calls_for Q A"
  "set (k_calls (on_reconnect_timer k)) \<subseteq> set (k_calls k) \<union> calls_for Q A"
  by (cases sg) (auto simp: on_connected_def on_disconnected_def on_hello_ack_def on_state_def on_nodes_def on_rtt_def
      on_cmd_ack_def on_error_def schedule_calls on_reconnect_timer_def controller_defs Let_def)

lemma console_step_from:
  assumes "console_from Q A c" and "\<And>a. ev = User a \<Longrightarrow> a \<in> A"
  shows "console_from Q A (console_step Q srt S c ev)"
proof -
  have k: "set (k_calls (cn_ctl c)) \<subseteq> calls_for Q A" using assms(1) by (simp add: console_from_def)
  show ?thesis
  proof (cases ev)
    case (User a)
    then show ?thesis using k user_calls [OF assms(2), of a Q "cn_ctl c"] by (auto simp: console_from_def)
  next
    case ReconnectTimeout
    then show ?thesis using k signal_calls(2) [of "(cn_ctl c)\<lparr>k_timer := None\<rparr>" Q A] by (auto simp: console_from_def)
  next
    case DeliverCall
    then show ?thesis using k by (auto simp: console_from_def split: list.split)
  next
    case DeliverSignal
    then show ?thesis
      using k signal_calls(1) [of Q srt "hd (w_out (cn_worker c))" "cn_ctl c" A] by (auto simp: console_from_def split: list.split)
  qed (use k in \<open>simp add: console_from_def\<close>)
qed

lemma console_step_writes:
  assumes "console_from Q A c"
  shows "wrote (asked_for Q A) (cn_worker c) (cn_worker (console_step Q srt S c ev))"
proof (cases ev)
  case DeliverCall
  show ?thesis
  proof (cases "k_calls (cn_ctl c)")
    case (Cons call calls)
    with assms consider h p where "call = StartWorker h p" | "call = StopWorker" | a where "a \<in> A" "call_of Q a = Some call"
      by (auto simp: console_from_def calls_for_def)
    then have "wrote (asked_for Q A) (cn_worker c) (do_call Q S call (cn_worker c))"
      by cases (simp, simp, rule call_writes, assumption, auto simp: asked_for_def)
    with Cons DeliverCall show ?thesis by simp
  qed (simp add: DeliverCall)
next
  case (Loop_Event e)
  then show ?thesis
    by (auto simp: asked_for_def command_types_def MSG_HELLO_def MSG_HEARTBEAT_def MSG_CMD_MODE_def MSG_CMD_TASK_def MSG_CMD_ESTOP_def
        MSG_CMD_RESET_def MSG_PARAM_GET_def MSG_PARAM_SET_def intro!: loop_writes)
qed (auto split: list.split)

end
