(* ===== verification/Whole_System.thy ===== *)
theory Whole_System
  imports Command_Source
begin

text \<open>
  The system: the robot, the bridge and any number of consoles, joined by the topics and by TCP.
  Each rule of \<open>sys_step\<close> is one step of one program with what it takes from the others: a topic
  delivers what has been published on it, a connection the bytes written to it, in order, any
  number at a time and possibly not all of them. No order between programs is assumed, nor that a topic
  keeps the order of its messages or delivers each of them once. Other publishers on the topics, other
  clients of the bridge and a second start of the server are left out.
\<close>

section \<open>State\<close>

text \<open>
  Connections are numbered as they are established, which is also the order in which the bridge accepts them:
  connection \<open>i\<close> is client \<open>i\<close> of the bridge. \<open>y_owner\<close> is the console at its other end,
  \<open>y_link\<close> the connection that a console's socket writes to and reads from, \<open>y_wire\<close> the frames
  written to a connection, \<open>y_up\<close> and \<open>y_down\<close> the bytes that have arrived at the bridge and at
  the console. \<open>y_clicks\<close> keeps what the users did.
\<close>

record ('v, 's) system =
  y_robot :: robot
  y_bridge :: "(bridge, wait) server"
  y_console :: "nat \<Rightarrow> ('v, 's) console"
  y_owner :: "nat list"
  y_link :: "nat \<Rightarrow> nat option"
  y_wire :: "nat \<Rightarrow> bytes list"
  y_up :: "nat \<Rightarrow> bytes"
  y_down :: "nat \<Rightarrow> bytes"
  y_clicks :: "(nat \<times> user_action) list"

definition init_system :: "(nat \<Rightarrow> 's) \<Rightarrow> ('v, 's) system" where
  "init_system so = \<lparr>y_robot = init_robot, y_bridge = init_server, y_console = (\<lambda>k. init_console (so k)), y_owner = [],
     y_link = Map.empty, y_wire = (\<lambda>_. []), y_up = (\<lambda>_. []), y_down = (\<lambda>_. []), y_clicks = []\<rparr>"

text \<open>
  A step of console \<open>k\<close>: what it writes goes to its connection, which it leaves when its worker
  starts to connect anew.
\<close>

definition dials :: "('v, 's) console \<Rightarrow> 's console_event \<Rightarrow> bool" where
  "dials c ev \<longleftrightarrow> (case ev of DeliverCall \<Rightarrow> (case k_calls (cn_ctl c) of StartWorker _ _ # _ \<Rightarrow> True | _ \<Rightarrow> False) | _ \<Rightarrow> False)"

definition console_acts :: "('j, 'v) qt \<Rightarrow> std_sort \<Rightarrow> 's socket_api \<Rightarrow> nat \<Rightarrow> 's console_event \<Rightarrow>
    ('v, 's) system \<Rightarrow> ('v, 's) system" where
  "console_acts Q srt S k ev s =
     (let c = y_console s k; c' = console_step Q srt S c ev;
          written = drop (length (w_tx (cn_worker c))) (w_tx (cn_worker c'))
      in s\<lparr>y_console := (y_console s)(k := c'), y_link := (if dials c ev then (y_link s)(k := None) else y_link s),
           y_wire := (case y_link s k of None \<Rightarrow> y_wire s | Some i \<Rightarrow> (y_wire s)(i := y_wire s i @ written))\<rparr>)"

text \<open>A step of the bridge.\<close>

definition bridge_acts :: "platform \<Rightarrow> bridge_event \<Rightarrow> ('v, 's) system \<Rightarrow> ('v, 's) system" where
  "bridge_acts P ev s = s\<lparr>y_bridge := bridge_step P (y_bridge s) ev\<rparr>"

section \<open>Topics\<close>

text \<open>
  What has been published on a topic, and the callback of each subscription. The names are those that the
  constructor of the bridge and the configuration of the robot give them.
\<close>

definition bridge_published :: "string \<Rightarrow> bridge \<Rightarrow> string list" where
  "bridge_published topic b =
     (if topic = ''botcockpit/cmd'' then b_cmds b else if topic = ''botcockpit/console'' then b_console b else [])"

definition robot_published :: "string \<Rightarrow> robot \<Rightarrow> string list" where
  "robot_published topic r =
     (if topic = ''botcockpit/state'' then concat (map (\<lambda>m. case m of State_Msg d \<Rightarrow> [d] | Result_Msg _ \<Rightarrow> []) (outbox r))
      else if topic = ''botcockpit/cmd_result''
      then concat (map (\<lambda>m. case m of State_Msg _ \<Rightarrow> [] | Result_Msg d \<Rightarrow> [d]) (outbox r)) else [])"

definition bridge_hears :: "string \<Rightarrow> string \<Rightarrow> bridge_event option" where
  "bridge_hears topic d =
     (if topic = ''botcockpit/state'' then Some (Robot_State d)
      else if topic = ''botcockpit/cmd_result'' then Some (Cmd_Result d) else None)"

definition robot_hears :: "string \<Rightarrow> string \<Rightarrow> event option" where
  "robot_hears topic d =
     (if topic = ''botcockpit/cmd'' then Some (Cmd d)
      else if topic = ''botcockpit/console'' then Some (Console d) else None)"

section \<open>Steps\<close>

text \<open>Events that take nothing from another program.\<close>

fun robot_own :: "event \<Rightarrow> bool" where
  "robot_own (Console _) = False"
| "robot_own (Cmd _) = False"
| "robot_own _ = True"

fun bridge_own :: "bridge_event \<Rightarrow> bool" where
  "bridge_own (Start _ _ _ _) = False"
| "bridge_own (Accept _) = False"
| "bridge_own (Recv _ n _) = (n \<le> 0)"
| "bridge_own (Robot_State _) = False"
| "bridge_own (Cmd_Result _) = False"
| "bridge_own _ = True"

fun console_own :: "'s console_event \<Rightarrow> bool" where
  "console_own (User _) = False"
| "console_own (Loop_Event (SockConnected _)) = False"
| "console_own (Loop_Event (SockReadyRead _)) = False"
| "console_own _ = True"

inductive sys_step :: "('j, 'v) qt \<Rightarrow> std_sort \<Rightarrow> 's socket_api \<Rightarrow> env \<Rightarrow> platform \<Rightarrow>
    ('v, 's) system \<Rightarrow> ('v, 's) system \<Rightarrow> bool"
  for Q srt S E P where
  robot_acts: "\<lbrakk>robot_own ev; robot_step E (y_robot s) ev = Some r\<rbrakk> \<Longrightarrow> sys_step Q srt S E P s (s\<lparr>y_robot := r\<rparr>)"
| to_robot: "\<lbrakk>d \<in> set (bridge_published topic (s_host (y_bridge s))); robot_hears topic d = Some ev;
      robot_step E (y_robot s) ev = Some r\<rbrakk> \<Longrightarrow> sys_step Q srt S E P s (s\<lparr>y_robot := r\<rparr>)"
| to_bridge: "\<lbrakk>d \<in> set (robot_published topic (y_robot s)); bridge_hears topic d = Some ev\<rbrakk> \<Longrightarrow>
    sys_step Q srt S E P s (bridge_acts P ev s)"
| bridge_start: "y_owner s = [] \<Longrightarrow> sys_step Q srt S E P s (bridge_acts P (Start sock bound listening port) s)"
| bridge_alone: "bridge_own ev \<Longrightarrow> sys_step Q srt S E P s (bridge_acts P ev s)"
| dial: "0 \<le> s_listen_fd (y_bridge s) \<Longrightarrow> sys_step Q srt S E P s (s\<lparr>y_owner := y_owner s @ [k]\<rparr>)"
| accept: "length (s_objs (y_bridge s)) < length (y_owner s) \<Longrightarrow> sys_step Q srt S E P s (bridge_acts P (Accept fd) s)"
| uplink: "\<lbrakk>thread_of i (y_bridge s); c_batch (client_of (y_bridge s) i) = []; data \<noteq> [];
      prefix (y_up s i @ data) (concat (y_wire s i))\<rbrakk> \<Longrightarrow>
    sys_step Q srt S E P s ((bridge_acts P (Recv i (int (length data)) data) s)\<lparr>y_up := (y_up s)(i := y_up s i @ data)\<rparr>)"
| user_acts: "sys_step Q srt S E P s (console_acts Q srt S k (User a) (s\<lparr>y_clicks := y_clicks s @ [(k, a)]\<rparr>))"
| connected: "\<lbrakk>i < length (y_owner s); y_owner s ! i = k; y_link s k = None; y_wire s i = []; y_down s i = []\<rbrakk> \<Longrightarrow>
    sys_step Q srt S E P s (console_acts Q srt S k (Loop_Event (SockConnected so)) (s\<lparr>y_link := (y_link s)(k \<mapsto> i)\<rparr>))"
| downlink: "\<lbrakk>y_link s k = Some i; i < length (s_objs (y_bridge s)); so_read_all S so = (data, so');
      prefix (y_down s i @ data) (c_sent (client_of (y_bridge s) i))\<rbrakk> \<Longrightarrow>
    sys_step Q srt S E P s (console_acts Q srt S k (Loop_Event (SockReadyRead so)) (s\<lparr>y_down := (y_down s)(i := y_down s i @ data)\<rparr>))"
| console_alone: "console_own ev \<Longrightarrow> sys_step Q srt S E P s (console_acts Q srt S k ev s)"

inductive sys_reaches :: "('j, 'v) qt \<Rightarrow> std_sort \<Rightarrow> 's socket_api \<Rightarrow> env \<Rightarrow> platform \<Rightarrow>
    ('v, 's) system \<Rightarrow> ('v, 's) system \<Rightarrow> bool"
  for Q srt S E P s0 where
  here: "sys_reaches Q srt S E P s0 s0"
| further: "\<lbrakk>sys_reaches Q srt S E P s0 s; sys_step Q srt S E P s s'\<rbrakk> \<Longrightarrow> sys_reaches Q srt S E P s0 s'"

section \<open>Where things come from\<close>

definition clicks_of :: "('v, 's) system \<Rightarrow> nat \<Rightarrow> user_action set" where
  "clicks_of s k = {a. (k, a) \<in> set (y_clicks s)}"

text \<open>A frame that the user of the console at the other end of connection \<open>i\<close> asked for.\<close>

definition asked_on :: "('j, 'v) qt \<Rightarrow> ('v, 's) system \<Rightarrow> nat \<Rightarrow> frame \<Rightarrow> bool" where
  "asked_on Q s i f \<longleftrightarrow> i < length (y_owner s) \<and> asked_for Q (clicks_of s (y_owner s ! i)) f"

text \<open>
  Of the frames written to connection \<open>i\<close> the bridge has taken the first ones, and its decoder holds
  the beginning of the rest.
\<close>

definition stream_inv :: "('j, 'v) qt \<Rightarrow> ('v, 's) system \<Rightarrow> nat \<Rightarrow> bool" where
  "stream_inv Q s i \<longleftrightarrow> (\<exists>fs1 fs2. y_wire s i = map encode (fs1 @ fs2) \<and> (\<forall>f \<in> set (fs1 @ fs2). asked_on Q s i f) \<and>
     y_up s i = concat (map encode fs1) @ fst (client_input (y_bridge s) i) \<and>
     prefix (fst (client_input (y_bridge s) i)) (concat (map encode fs2)))"

definition robot_asked :: "('j, 'v) qt \<Rightarrow> ('v, 's) system \<Rightarrow> bool" where
  "robot_asked Q s \<longleftrightarrow>
     (phase (y_robot s) = ''RUNNING'' \<longrightarrow> (\<exists>k a p. (k, a) \<in> set (y_clicks s) \<and> command_of Q a = Some (MSG_CMD_TASK, p))) \<and>
     (estop (y_robot s) \<longrightarrow> (\<exists>k a p. (k, a) \<in> set (y_clicks s) \<and> command_of Q a = Some (MSG_CMD_ESTOP, p)))"

definition system_inv :: "('j, 'v) qt \<Rightarrow> ('v, 's) system \<Rightarrow> bool" where
  "system_inv Q s \<longleftrightarrow> (\<forall>k i. y_link s k = Some i \<longrightarrow> i < length (y_owner s) \<and> y_owner s ! i = k) \<and>
     (\<forall>k. console_from Q (clicks_of s k) (y_console s k)) \<and> (\<forall>i. stream_inv Q s i) \<and>
     bridge_from (asked_on Q s) (y_bridge s) \<and> robot_asked Q s"

lemma system_invI:
  assumes "\<And>k i. y_link s k = Some i \<Longrightarrow> i < length (y_owner s) \<and> y_owner s ! i = k"
    and "\<And>k. console_from Q (clicks_of s k) (y_console s k)" and "\<And>i. stream_inv Q s i"
    and "bridge_from (asked_on Q s) (y_bridge s)" and "robot_asked Q s"
  shows "system_inv Q s"
  using assms unfolding system_inv_def by blast

lemma system_invD:
  assumes "system_inv Q s"
  shows "y_link s k = Some i \<Longrightarrow> i < length (y_owner s) \<and> y_owner s ! i = k"
    and "console_from Q (clicks_of s k) (y_console s k)" and "stream_inv Q s i"
    and "bridge_from (asked_on Q s) (y_bridge s)" and "robot_asked Q s"
  using assms unfolding system_inv_def by blast+

definition short_frames :: "('v, 's) system \<Rightarrow> bool" where
  "short_frames s \<longleftrightarrow> (\<forall>i. \<forall>bs \<in> set (y_wire s i). length bs \<le> 65540)"

lemma init_system_inv: "system_inv Q (init_system so)"
proof -
  have "client_input init_server i = ([], {})" for i by (simp add: client_input_def init_server_def)
  then show ?thesis
    by (simp add: system_inv_def init_system_def clicks_of_def init_console_from stream_inv_def init_bridge_from
        robot_asked_def init_robot_def)
qed

text \<open>What was asked for stays so.\<close>

lemma system_inv_mono:
  assumes "system_inv Q s" and "y_robot s' = y_robot s" "y_bridge s' = y_bridge s" "y_console s' = y_console s"
    "y_wire s' = y_wire s" "y_up s' = y_up s" and "prefix (y_owner s) (y_owner s')" and "set (y_clicks s) \<subseteq> set (y_clicks s')"
    and "\<And>k i. y_link s' k = Some i \<Longrightarrow> i < length (y_owner s') \<and> y_owner s' ! i = k"
  shows "system_inv Q s'"
proof -
  have cl: "clicks_of s k \<subseteq> clicks_of s' k" for k using assms(8) by (auto simp: clicks_of_def)
  have as: "asked_on Q s' i f" if a: "asked_on Q s i f" for i f
  proof -
    from assms(7) obtain zs where "y_owner s' = y_owner s @ zs" by (auto elim: prefixE)
    with a cl show ?thesis by (fastforce simp: asked_on_def asked_for_def nth_append)
  qed
  have "stream_inv Q s' i" if "stream_inv Q s i" for i using that as unfolding stream_inv_def assms(3,5,6) by blast
  moreover have "bridge_from (asked_on Q s') (y_bridge s)"
    using assms(1) as by (auto simp: system_inv_def intro: bridge_from_mono)
  moreover have "robot_asked Q s" using assms(1) by (simp add: system_inv_def)
  then have "robot_asked Q s'" unfolding robot_asked_def assms(2) using assms(8) by blast
  moreover have "console_from Q (clicks_of s' k) (y_console s k)" for k
  proof -
    from assms(1) have "console_from Q (clicks_of s k) (y_console s k)" by (simp add: system_inv_def)
    then show ?thesis by (rule console_from_mono [OF _ cl])
  qed
  ultimately show ?thesis using assms(1,9) by (simp add: system_inv_def assms(3,4))
qed

section \<open>The robot obeys what is published\<close>

lemma command_of_name:
  assumes "command_of Q a = Some (ty, p)"
  shows "msg_type_name ty = ''CMD_TASK'' \<Longrightarrow> ty = MSG_CMD_TASK"
    and "msg_type_name ty \<in> {''CMD_ESTOP'', ''CMD_ESTART''} \<Longrightarrow> ty = MSG_CMD_ESTOP"
proof -
  have "ty \<in> {MSG_CMD_MODE, MSG_CMD_TASK, MSG_CMD_ESTOP, MSG_CMD_RESET}" using assms by (cases a) auto
  then show "msg_type_name ty = ''CMD_TASK'' \<Longrightarrow> ty = MSG_CMD_TASK"
    and "msg_type_name ty \<in> {''CMD_ESTOP'', ''CMD_ESTART''} \<Longrightarrow> ty = MSG_CMD_ESTOP"
    by auto
qed

lemma published_asked:
  assumes "bridge_from (asked_on Q s) b" and "d \<in> set (b_cmds (s_host b))"
  obtains k a ty sq p where "(k, a) \<in> set (y_clicks s)" and "command_of Q a = Some (ty, p)"
    and "d = envelope (msg_type_name ty) sq p"
proof -
  from assms obtain i f where "asked_on Q s i f" "ftype f \<in> set command_types" "d = envelope_of f"
    unfolding bridge_from_def by blast
  then show thesis using that by (fastforce simp: asked_on_def asked_for_def clicks_of_def envelope_of_def)
qed

lemma robot_step_asked:
  assumes "system_inv Q s" and "robot_step E (y_robot s) ev = Some r"
    and "\<And>d. ev = Cmd d \<Longrightarrow> d \<in> set (b_cmds (s_host (y_bridge s)))"
  shows "system_inv Q (s\<lparr>y_robot := r\<rparr>)"
proof -
  have b: "bridge_from (asked_on Q s) (y_bridge s)" and old: "robot_asked Q s" using assms(1) by (simp_all add: system_inv_def)
  have task: "\<exists>k a p. (k, a) \<in> set (y_clicks s) \<and> command_of Q a = Some (MSG_CMD_TASK, p)" if run: "phase r = ''RUNNING''"
  proof (cases "phase (y_robot s) = ''RUNNING''")
    case False
    obtain d where d: "ev = Cmd d" "extract_string d ''cmd'' = Some ''CMD_TASK''"
      using runs_only_on_task [OF assms(2) run False] by blast
    obtain k a ty sq p where
      h: "(k, a) \<in> set (y_clicks s)" "command_of Q a = Some (ty, p)" "d = envelope (msg_type_name ty) sq p"
      by (rule published_asked [OF b assms(3) [OF d(1)]])
    with d(2) have "msg_type_name ty = ''CMD_TASK''" by (simp add: envelope_cmd plain_command_names)
    then have "ty = MSG_CMD_TASK" by (rule command_of_name(1) [OF h(2)])
    with h(1,2) show ?thesis by blast
  qed (use old in \<open>auto simp: robot_asked_def\<close>)
  have stop: "\<exists>k a p. (k, a) \<in> set (y_clicks s) \<and> command_of Q a = Some (MSG_CMD_ESTOP, p)" if es: "estop r"
  proof (cases "estop (y_robot s)")
    case False
    obtain d where d: "ev = Cmd d" "extract_string d ''cmd'' \<in> {Some ''CMD_ESTOP'', Some ''CMD_ESTART''}"
      using stops_only_on_command [OF assms(2) es False] by blast
    obtain k a ty sq p where
      h: "(k, a) \<in> set (y_clicks s)" "command_of Q a = Some (ty, p)" "d = envelope (msg_type_name ty) sq p"
      by (rule published_asked [OF b assms(3) [OF d(1)]])
    with d(2) have "msg_type_name ty \<in> {''CMD_ESTOP'', ''CMD_ESTART''}" by (auto simp: envelope_cmd plain_command_names)
    then have "ty = MSG_CMD_ESTOP" by (rule command_of_name(2) [OF h(2)])
    with h(1,2) show ?thesis by blast
  qed (use old in \<open>auto simp: robot_asked_def\<close>)
  have "asked_on Q (s\<lparr>y_robot := r\<rparr>) = asked_on Q s" "clicks_of (s\<lparr>y_robot := r\<rparr>) = clicks_of s"
    by (simp_all add: fun_eq_iff asked_on_def clicks_of_def)
  then show ?thesis using assms(1) task stop by (simp add: system_inv_def stream_inv_def robot_asked_def)
qed

section \<open>The bridge takes what was written\<close>

lemma bridge_acts_asked:
  assumes "system_inv Q s" and "\<And>c n data. ev = Recv c n data \<Longrightarrow> n \<le> 0"
  shows "system_inv Q (bridge_acts P ev s)"
proof -
  let ?s = "bridge_acts P ev s"
  have "keeps_input (y_bridge s) (bridge_step P (y_bridge s) ev)" by (rule bridge_step_keeps [OF assms(2)])
  then have i: "fst (client_input (y_bridge ?s) i) = fst (client_input (y_bridge s) i)" for i
    by (simp add: bridge_acts_def keeps_input_def)
  have a: "asked_on Q ?s = asked_on Q s" "clicks_of ?s = clicks_of s"
    by (simp_all add: fun_eq_iff asked_on_def clicks_of_def bridge_acts_def)
  have "bridge_from (asked_on Q s) (bridge_step P (y_bridge s) ev)"
    using assms by (intro bridge_step_from) (auto simp: system_inv_def not_le dest: assms(2))
  then show ?thesis using assms(1) i unfolding system_inv_def a stream_inv_def robot_asked_def
    by (simp add: bridge_acts_def)
qed

text \<open>The frames that the bridge decodes from what has arrived are frames that were written.\<close>

lemma stream_received:
  assumes "stream_inv Q s i" and "short_frames s" and "prefix (y_up s i @ data) (concat (y_wire s i))"
  obtains fsA r where "decoder_drain (fst (client_input (y_bridge s) i) @ data) = (fsA, r)"
    and "\<forall>f \<in> set fsA. asked_on Q s i f"
    and "\<exists>fs1 fs2. y_wire s i = map encode (fs1 @ fs2) \<and> (\<forall>f \<in> set (fs1 @ fs2). asked_on Q s i f) \<and>
      y_up s i @ data = concat (map encode fs1) @ r \<and> prefix r (concat (map encode fs2))"
proof -
  let ?buf = "fst (client_input (y_bridge s) i)"
  from assms(1) obtain fs1 fs2 where w: "y_wire s i = map encode (fs1 @ fs2)" and a: "\<forall>f \<in> set (fs1 @ fs2). asked_on Q s i f"
    and u: "y_up s i = concat (map encode fs1) @ ?buf" unfolding stream_inv_def by blast
  have pre: "prefix (?buf @ data) (concat (map encode fs2) @ [])" using assms(3) by (simp add: w u)
  have "length (encode f) \<le> 65540" if "f \<in> set fs2" for f
  proof -
    have "encode f \<in> set (y_wire s i)" using that w by simp
    with assms(2) show ?thesis unfolding short_frames_def by blast
  qed
  then have ok: "list_all frame_ok fs2" by (simp add: list_all_iff frame_ok_def encode_def)
  define g :: frame where "g = \<lparr>ftype = 0, fflags = 0, fseq = 0, fpayload = []\<rparr>"
  have g: "frame_ok g" "strict_prefix [] (encode g)"
    using bridge_codec.enc_nonempty [of g] by (simp_all add: g_def frame_ok_def strict_prefix_def)
  from bridge_codec.drain_prefix [OF ok g pre] obtain fsA fsB r where d: "fs2 = fsA @ fsB"
    "?buf @ data = concat (map encode fsA) @ r" "decoder_drain (?buf @ data) = (fsA, r)" by blast
  have "prefix r (concat (map encode fsB))" using pre by (simp add: d(1) d(2))
  then show thesis using a d w u by (intro that [OF d(3)] exI [of _ "fs1 @ fsA"] exI [of _ fsB]) auto
qed

lemma uplink_asked:
  assumes "system_inv Q s" and "short_frames s" and "thread_of i (y_bridge s)" and "c_batch (client_of (y_bridge s) i) = []"
    and "data \<noteq> []" and "prefix (y_up s i @ data) (concat (y_wire s i))"
  shows "system_inv Q ((bridge_acts P (Recv i (int (length data)) data) s)\<lparr>y_up := (y_up s)(i := y_up s i @ data)\<rparr>)"
proof -
  let ?ev = "Recv i (int (length data)) data"
  let ?s = "(bridge_acts P ?ev s)\<lparr>y_up := (y_up s)(i := y_up s i @ data)\<rparr>"
  have c: "i < length (s_objs (y_bridge s))" and b: "bridge_step P (y_bridge s) ?ev = client_recv P i (int (length data)) data (y_bridge s)"
    using assms(3,4) by (simp_all add: thread_of_def bridge_step_def)
  have buf: "fst (client_input (y_bridge s) i) = c_decoder (client_of (y_bridge s) i)" using c by (simp add: client_input_def)
  have app: "decoder_append x y = x @ y" for x y by (simp add: decoder_append_def)
  have "stream_inv Q s i" using assms(1) by (simp add: system_inv_def)
  then obtain fsA r where d: "decoder_drain (c_decoder (client_of (y_bridge s) i) @ data) = (fsA, r)"
    and a: "\<forall>f \<in> set fsA. asked_on Q s i f"
    and new: "\<exists>fs1 fs2. y_wire s i = map encode (fs1 @ fs2) \<and> (\<forall>f \<in> set (fs1 @ fs2). asked_on Q s i f) \<and>
      y_up s i @ data = concat (map encode fs1) @ r \<and> prefix r (concat (map encode fs2))"
    using stream_received [OF _ assms(2,6)] unfolding buf by blast
  have inp: "fst (client_input (y_bridge ?s) j) = (if j = i then r else fst (client_input (y_bridge s) j))" for j
    using recv_input(1) [OF _ c, of "int (length data)" data fsA r P j] assms(5) d by (simp add: bridge_acts_def b app)
  have eqs: "asked_on Q ?s = asked_on Q s" "clicks_of ?s = clicks_of s"
    by (simp_all add: fun_eq_iff asked_on_def clicks_of_def bridge_acts_def)
  have "stream_inv Q ?s j" for j
  proof (cases "j = i")
    case True
    then show ?thesis using new unfolding stream_inv_def eqs inp by (simp add: bridge_acts_def)
  next
    case False
    have "stream_inv Q s j" using assms(1) by (simp add: system_inv_def)
    with False show ?thesis unfolding stream_inv_def eqs inp by (simp add: bridge_acts_def)
  qed
  moreover have "bridge_from (asked_on Q s) (bridge_step P (y_bridge s) ?ev)"
    using assms(1) a by (intro bridge_step_from) (auto simp: system_inv_def d app)
  ultimately show ?thesis using system_invD [OF assms(1)]
    by (intro system_invI; simp add: eqs robot_asked_def) (simp_all add: bridge_acts_def)
qed

section \<open>The consoles write what their users asked for\<close>

lemma console_acts_asked:
  assumes "system_inv Q s" and "\<And>a. ev = User a \<Longrightarrow> (k, a) \<in> set (y_clicks s)"
  shows "system_inv Q (console_acts Q srt S k ev s)"
proof -
  let ?s = "console_acts Q srt S k ev s" and ?c = "console_step Q srt S (y_console s k) ev"
  have eqs: "asked_on Q ?s = asked_on Q s" "clicks_of ?s = clicks_of s"
    by (simp_all add: fun_eq_iff asked_on_def clicks_of_def console_acts_def Let_def)
  have con: "console_from Q (clicks_of s k') (y_console s k')" for k' using assms(1) by (simp add: system_inv_def)
  have "console_from Q (clicks_of s k) ?c" using con assms(2) by (intro console_step_from) (auto simp: clicks_of_def)
  then have cons: "console_from Q (clicks_of s k') (y_console ?s k')" for k' using con by (simp add: console_acts_def Let_def)
  obtain fs where new: "w_tx (cn_worker ?c) = w_tx (cn_worker (y_console s k)) @ map encode fs"
    "list_all (asked_for Q (clicks_of s k)) fs"
    using console_step_writes [OF con] unfolding wrote_def by blast
  have wire: "y_wire ?s i = y_wire s i @ (if y_link s k = Some i then map encode fs else [])" for i
    by (simp add: console_acts_def new(1) Let_def split: option.split)
  have "stream_inv Q ?s i" for i
  proof -
    have "stream_inv Q s i" using assms(1) by (simp add: system_inv_def)
    then obtain fs1 fs2 where h: "y_wire s i = map encode (fs1 @ fs2)" "\<forall>f \<in> set (fs1 @ fs2). asked_on Q s i f"
      "y_up s i = concat (map encode fs1) @ fst (client_input (y_bridge s) i)"
      "prefix (fst (client_input (y_bridge s) i)) (concat (map encode fs2))" unfolding stream_inv_def by blast
    define gs where "gs = (if y_link s k = Some i then fs else [])"
    have "\<forall>f \<in> set gs. asked_on Q s i f"
      using new(2) assms(1) by (auto simp: gs_def system_inv_def asked_on_def list_all_iff)
    then show ?thesis unfolding stream_inv_def eqs wire using h
      by (intro exI [of _ fs1] exI [of _ "fs2 @ gs"]) (auto simp: gs_def console_acts_def Let_def intro: prefix_prefix)
  qed
  then show ?thesis using system_invD [OF assms(1)] cons
    by (intro system_invI; simp add: eqs robot_asked_def) (auto simp: console_acts_def Let_def split: if_splits)
qed

section \<open>Every run\<close>

lemma console_acts_wire:
  "prefix (y_wire s i) (y_wire (console_acts Q srt S k ev s) i)"
  by (simp add: console_acts_def Let_def split: option.split)

lemma step_wire: "sys_step Q srt S E P s s' \<Longrightarrow> prefix (y_wire s i) (y_wire s' i)"
  by (induction rule: sys_step.induct)
    (auto simp: bridge_acts_def intro: prefix_order.trans [OF _ console_acts_wire])

lemma step_short: "sys_step Q srt S E P s s' \<Longrightarrow> short_frames s' \<Longrightarrow> short_frames s"
  using step_wire set_mono_prefix unfolding short_frames_def by (metis subsetD)

lemma sys_step_inv:
  assumes "sys_step Q srt S E P s s'" and "system_inv Q s" and "short_frames s"
  shows "system_inv Q s'"
  using assms
proof (induction rule: sys_step.induct)
  case (robot_acts ev s r)
  then show ?case by (intro robot_step_asked) auto
next
  case (bridge_alone ev s)
  then show ?case by (intro bridge_acts_asked) auto
next
  case (uplink i s data)
  then show ?case by (intro uplink_asked)
next
  case (user_acts s k a)
  have "system_inv Q (s\<lparr>y_clicks := y_clicks s @ [(k, a)]\<rparr>)"
    using user_acts.prems(1)
    by (rule system_inv_mono) (auto dest: system_invD(1) [OF user_acts.prems(1)])
  then show ?case by (rule console_acts_asked) simp
next
  case (dial s k)
  show ?case using dial.prems(1)
    by (rule system_inv_mono) (auto simp: nth_append dest: system_invD(1) [OF dial.prems(1)])
next
  case (connected i s k so)
  have "system_inv Q (s\<lparr>y_link := (y_link s)(k \<mapsto> i)\<rparr>)" using connected.prems(1)
    by (rule system_inv_mono) (use connected.hyps in \<open>auto split: if_splits dest: system_invD(1) [OF connected.prems(1)]\<close>)
  then show ?case by (rule console_acts_asked) simp
next
  case (downlink s k i so data so')
  have "system_inv Q (s\<lparr>y_down := (y_down s)(i := y_down s i @ data)\<rparr>)" using downlink.prems(1)
    by (rule system_inv_mono) (auto dest: system_invD(1) [OF downlink.prems(1)])
  then show ?case by (rule console_acts_asked) simp
next
  case (console_alone ev k s)
  then show ?case by (intro console_acts_asked) auto
next
  case (to_robot d topic s ev r)
  then show ?case
    by (intro robot_step_asked) (auto simp: robot_hears_def bridge_published_def split: if_splits)
next
  case (to_bridge d topic s ev)
  then show ?case by (intro bridge_acts_asked) (auto simp: bridge_hears_def split: if_splits)
qed (auto intro: bridge_acts_asked)

lemma sys_reaches_inv:
  assumes "sys_reaches Q srt S E P (init_system so) s" and "short_frames s"
  shows "system_inv Q s"
  using assms by induction (simp_all add: init_system_inv, metis step_short sys_step_inv)

text \<open>C10: Only users command the robot. In every reachable state of the whole system, whatever the order of its
  steps and however the connections cut the bytes, when the frames that the consoles wrote fit a
  frame: every command that the bridge has published is, with its payload, exactly the command of an action that
  a user took on some console; the robot runs a task only if a user gave one; and it is in
  emergency stop only if a user clicked emergency stop.\<close>

theorem only_users_command:
  assumes "sys_reaches Q srt S E P (init_system so) s" and "short_frames s"
  shows "(\<forall>d \<in> set (b_cmds (s_host (y_bridge s))). \<exists>k a ty sq p. (k, a) \<in> set (y_clicks s) \<and>
       command_of Q a = Some (ty, p) \<and> d = envelope (msg_type_name ty) sq p) \<and>
    (phase (y_robot s) = ''RUNNING'' \<longrightarrow> (\<exists>k a. (k, a) \<in> set (y_clicks s) \<and>
       ((\<exists>tid x y. a = UserGoto tid x y) \<or> (\<exists>ty. a = UserTask ty)))) \<and>
    (estop (y_robot s) \<longrightarrow> (\<exists>k reason. (k, UserEstop reason) \<in> set (y_clicks s)))"
proof -
  have inv: "system_inv Q s" by (rule sys_reaches_inv [OF assms])
  have task: "(\<exists>tid x y. a = UserGoto tid x y) \<or> (\<exists>ty. a = UserTask ty)" if "command_of Q a = Some (MSG_CMD_TASK, p)" for a p
    using that by (cases a) (auto simp: msg_defs)
  have stop: "\<exists>reason. a = UserEstop reason" if "command_of Q a = Some (MSG_CMD_ESTOP, p)" for a p
    using that by (cases a) (auto simp: msg_defs)
  have "\<exists>k a ty sq p. (k, a) \<in> set (y_clicks s) \<and> command_of Q a = Some (ty, p) \<and> d = envelope (msg_type_name ty) sq p"
    if "d \<in> set (b_cmds (s_host (y_bridge s)))" for d
    by (rule published_asked [OF system_invD(4) [OF inv] that]) blast
  moreover have "robot_asked Q s" by (rule system_invD(5) [OF inv])
  ultimately show ?thesis unfolding robot_asked_def using task stop by blast
qed

end
