(* ===== verification/System_Demo.thy ===== *)
theory System_Demo
  imports Whole_System
begin

text \<open>
  A run of the whole system, from the start: the bridge listens, a console connects and is taken into
  session, its user clicks emergency stop, and the robot stops. It shows that the steps of
  \<open>sys_step\<close> can be taken, and applies the theorem on every run.
\<close>

section \<open>A run\<close>

definition demo_hello :: frame where
  "demo_hello = \<lparr>ftype = MSG_HELLO, fflags = 0, fseq = 1, fpayload = ''{}''\<rparr>"

definition demo_stop :: frame where
  "demo_stop = \<lparr>ftype = MSG_CMD_ESTOP, fflags = or ui_FLAG_URGENT ui_FLAG_NEED_ACK, fseq = 2, fpayload = ''{}''\<rparr>"

text \<open>A socket that carries the bytes it has to read, and a JSON library that reads the texts of the run.\<close>

definition demo_socket :: "(sock_state \<times> bytes) socket_api" where
  "demo_socket = \<lparr>so_state = fst, so_connect = (\<lambda>_ _ _. (ConnectingState, [])),
     so_disconnect = (\<lambda>so. ((UnconnectedState, []), fst so = ConnectedState)),
     so_abort = (\<lambda>so. ((UnconnectedState, []), fst so = ConnectedState)), so_write = (\<lambda>_ so. so),
     so_read_all = (\<lambda>so. (snd so, (fst so, []))), so_error = (\<lambda>_. ''refused'')\<rparr>"

definition configured_robot :: robot where
  "configured_robot = on_configure any_env init_robot"

definition stopped_robot :: robot where
  "stopped_robot = cmd_estop any_env 2 configured_robot"

definition state_text :: "robot \<Rightarrow> string" where
  "state_text r = (case last (outbox r) of State_Msg d \<Rightarrow> d | Result_Msg d \<Rightarrow> d)"

definition robot_members :: "string \<Rightarrow> string \<Rightarrow> bool \<Rightarrow> tree dict" where
  "robot_members conn ph est = [''ok'' \<mapsto> Bool True, ''conn'' \<mapsto> Text conn, ''mode'' \<mapsto> Text ''TELEOP'', ''phase'' \<mapsto> Text ph,
     ''estop'' \<mapsto> Bool est, ''control_enabled'' \<mapsto> Bool False, ''battery'' \<mapsto> Num 0, ''nodes'' \<mapsto> Items [], ''pose'' \<mapsto> Fields []]"

definition demo_qt :: "(tree, tree) qt" where
  "demo_qt = reading_qt (\<lambda>x. if x = state_text stopped_robot then robot_members ''ESTOP'' ''ESTOP'' True
     else if x = state_text configured_robot then robot_members ''OFFLINE'' ''INITIALIZING'' False
     else robot_members ''OFFLINE'' ''BOOT'' False)"

type_synonym demo_console = "(tree, sock_state \<times> bytes) console"

abbreviation demo_acts :: "(sock_state \<times> bytes) console_event \<Rightarrow> demo_console \<Rightarrow> demo_console" where
  "demo_acts ev c \<equiv> console_step demo_qt insertion_sort demo_socket c ev"

definition dialled :: "demo_console" where
  "dialled = demo_acts DeliverCall (demo_acts (User (UserConnect ''robot'' 8765)) (init_console (UnconnectedState, [])))"

definition greeted :: "demo_console" where
  "greeted = demo_acts DeliverSignal (demo_acts (Loop_Event (SockConnected (ConnectedState, []))) dialled)"

definition in_session :: "demo_console" where
  "in_session = demo_acts DeliverSignal (demo_acts (Loop_Event (SockReadyRead (ConnectedState, encode (hello_ack 1)))) greeted)"

definition clicked :: "demo_console" where
  "clicked = demo_acts DeliverCall (demo_acts (User (UserEstop ''operator'')) in_session)"

lemma socket_fields [simp]:
  "so_state demo_socket = fst" "so_connect demo_socket = (\<lambda>_ _ _. (ConnectingState, []))"
  "so_write demo_socket = (\<lambda>_ so. so)" "so_read_all demo_socket = (\<lambda>so. (snd so, (fst so, [])))"
  by (simp_all add: demo_socket_def)

lemma ack_drained: "ui_drain (encode (hello_ack 1)) = ([ui_frame_of (hello_ack 1)], [])"
proof -
  have nil: "ui_drain [] = ([], [])" by (subst ui_drain.simps) (simp add: ui_decoder_next_def)
  have "frame_ok (hello_ack 1)"
    by (simp add: frame_ok_def hello_ack_def hello_ok_json_def quoted_def PROTO_VERSION_def SERVER_NAME_def)
  then show ?thesis
    using ui_codec.drain_frame [of "ui_frame_of (hello_ack 1)" "[]"] nil by (simp add: ui_frame_ok_eq ui_encode_eq)
qed

lemma demo_console:
  "w_tx (cn_worker dialled) = []" "w_tx (cn_worker greeted) = [encode demo_hello]"
  "w_tx (cn_worker in_session) = [encode demo_hello]" "w_tx (cn_worker clicked) = [encode demo_hello, encode demo_stop]"
  "\<not> dials (demo_acts (User (UserEstop ''operator'')) in_session) DeliverCall"
  "w_decoder (cn_worker clicked) = []" "w_out (cn_worker clicked) = []"
proof -
  note evals = console_step.simps init_console_def init_controller_def init_worker_def connect_to_server_def on_view_def log_text_def
    k_emit_def connect_to_host_def now_u64_def current_msecs_def on_socket_connected_def w_emit_def worker_send_def
    take_seq_def w_write_def on_connected_def ui_decoder_clear_def Let_def
  have v: "v_connected init_view = False" "v_connecting init_view = False" by (simp_all add: init_view_def)
  show d: "w_tx (cn_worker dialled) = []" by (simp add: dialled_def evals v)
  have h: "ui_encode_frame ui_MSG_HELLO 0 1 (j_compact demo_qt (hello_object demo_qt)) = encode demo_hello"
    by (simp add: encode_def demo_hello_def ui_encode_frame_eq ui_MSG_HELLO_def MSG_HELLO_def demo_qt_def reading_qt_def tree_qt_def)
  have g: "w_tx (cn_worker greeted) = [encode demo_hello] \<and> w_out (cn_worker greeted) = [] \<and> w_decoder (cn_worker greeted) = [] \<and>
      w_next_seq (cn_worker greeted) = 2 \<and> k_calls (cn_ctl greeted) = []"
    by (simp add: greeted_def dialled_def evals v h)
  then show "w_tx (cn_worker greeted) = [encode demo_hello]" by blast
  have app: "ui_decoder_append [] (Some x) = x" for x by (simp add: ui_decoder_append_def)
  have ack: "to_bool demo_qt (val demo_qt (hello_info demo_qt (j_object demo_qt (fpayload (hello_ack 1)))) ''ok'')"
    by (simp add: hello_info_def val_def jval_def robot_members_def demo_qt_def reading_qt_def tree_qt_def)
  have t: "ui_type (ui_frame_of (hello_ack 1)) = ui_MSG_HELLO_ACK" "ui_payload (ui_frame_of (hello_ack 1)) = fpayload (hello_ack 1)"
    by (simp_all add: ui_frame_of_def hello_ack_def ui_MSG_HELLO_ACK_def MSG_HELLO_ACK_def)
  have s: "w_tx (cn_worker in_session) = [encode demo_hello] \<and> w_next_seq (cn_worker in_session) = 2 \<and>
      k_calls (cn_ctl in_session) = [] \<and> v_connected (k_view (cn_ctl in_session)) \<and> w_socket (cn_worker in_session) = (ConnectedState, []) \<and>
      w_decoder (cn_worker in_session) = [] \<and> w_out (cn_worker in_session) = []"
    using g ack by (simp add: in_session_def on_ready_read_def now_u64_def current_msecs_def app ack_drained worker_frame_def
        t w_emit_def on_hello_ack_def controller_defs Let_def)
  then show "w_tx (cn_worker in_session) = [encode demo_hello]" by blast
  show "\<not> dials (demo_acts (User (UserEstop ''operator'')) in_session) DeliverCall"
    using s by (simp add: dials_def cmd_estop_click_def controller_defs Let_def)
  have e: "ui_encode_frame ui_MSG_CMD_ESTOP (or ui_FLAG_URGENT ui_FLAG_NEED_ACK) 2
      (j_compact demo_qt [''reason'' \<mapsto> j_of_string demo_qt ''operator'']) = encode demo_stop"
    by (simp add: encode_def demo_stop_def ui_encode_frame_eq ui_MSG_CMD_ESTOP_def MSG_CMD_ESTOP_def demo_qt_def reading_qt_def tree_qt_def)
  show "w_tx (cn_worker clicked) = [encode demo_hello, encode demo_stop]"
    "w_decoder (cn_worker clicked) = []" "w_out (cn_worker clicked) = []"
    using s by (simp_all add: clicked_def cmd_estop_click_def controller_defs send_cmd_estop_def worker_send_def take_seq_def
        w_write_def note_cmd_def e Let_def)
qed

abbreviation demo_bridge_acts :: "bridge_event \<Rightarrow> (bridge, wait) server \<Rightarrow> (bridge, wait) server" where
  "demo_bridge_acts ev b \<equiv> bridge_step demo_platform b ev"

abbreviation arrives :: "frame \<Rightarrow> bridge_event" where
  "arrives f \<equiv> Recv 0 (int (length (encode f))) (encode f)"

definition listening :: "(bridge, wait) server" where
  "listening = demo_bridge_acts (Start 3 True True 8765) init_server"

definition serving :: "(bridge, wait) server" where
  "serving = demo_bridge_acts (Accept 5) listening"

definition welcoming :: "(bridge, wait) server" where
  "welcoming = demo_bridge_acts (Frame 0) (demo_bridge_acts (arrives demo_hello) serving)"

definition stopping :: "(bridge, wait) server" where
  "stopping = demo_bridge_acts (Frame 0) (demo_bridge_acts (arrives demo_stop) welcoming)"

lemma frame_drained: "frame_ok f \<Longrightarrow> decoder_drain (encode f) = ([f], [])"
proof -
  assume "frame_ok f"
  moreover have "decoder_drain [] = ([], [])" by (subst decoder_drain.simps) (simp add: decoder_next_def)
  ultimately show ?thesis using bridge_codec.drain_frame [of f "[]"] by simp
qed

definition demo_snapshot :: frame where
  "demo_snapshot = \<lparr>ftype = MSG_STATE_SNAPSHOT, fflags = 0, fseq = 0, fpayload = offline_json 100000\<rparr>"

definition awaits :: "bool \<Rightarrow> bytes \<Rightarrow> frame list \<Rightarrow> (bridge, wait) server \<Rightarrow> bool" where
  "awaits ok out fs b \<longleftrightarrow> s_running b \<and> s_clients b = [0] \<and> length (s_objs b) = 1 \<and>
     (let cl = client_of b 0 in c_fd cl \<ge> 0 \<and> c_running cl \<and> c_decoder cl = [] \<and> c_batch cl = fs \<and> c_hello_ok cl = ok \<and> c_sent cl = out)"

lemma awaits_fields:
  assumes "awaits ok out fs b"
  shows "s_running b" "s_clients b = [0]" "length (s_objs b) = 1" "c_fd (client_of b 0) \<ge> 0" "c_running (client_of b 0)"
    "c_decoder (client_of b 0) = []" "c_batch (client_of b 0) = fs" "c_hello_ok (client_of b 0) = ok" "c_sent (client_of b 0) = out"
    "thread_of 0 b"
  using assms by (simp_all add: awaits_def thread_of_def Let_def)

lemma frame_arrives:
  assumes "awaits ok out [] b" and "frame_ok f"
  shows "awaits ok out [f] (demo_bridge_acts (arrives f) b) \<and> s_host (demo_bridge_acts (arrives f) b) = s_host b"
proof -
  let ?g = "\<lambda>cl. cl\<lparr>c_last_rx_ms := fst (s_now demo_platform b), c_decoder := [], c_batch := [f]\<rparr>"
  let ?b = "set_client 0 ?g (snd (s_now demo_platform b))"
  note b = awaits_fields [OF assms(1)]
  have ne: "0 < int (length (encode f))" using bridge_codec.enc_nonempty [of f] by simp
  have "demo_bridge_acts (arrives f) b = client_recv demo_platform 0 (int (length (encode f))) (encode f) b"
    using b(7,10) by (simp add: bridge_step_def)
  also have "\<dots> = ?b" using ne frame_drained [OF assms(2)]
    by (simp add: client_recv_def b(6) decoder_append_def estop_first_def split_beta Let_def)
  finally have eq: "demo_bridge_acts (arrives f) b = ?b" .
  have c: "client_of (snd (s_now demo_platform b)) 0 = client_of b 0" "0 < length (s_objs (snd (s_now demo_platform b)))"
    using b(3) by (simp_all add: s_now_def client_of_def)
  then have "client_of ?b 0 = ?g (client_of b 0)" by simp
  moreover have "s_running ?b = s_running b" "s_host ?b = s_host b" "length (s_objs ?b) = length (s_objs b)" "s_clients ?b = s_clients b"
    by (simp_all add: s_now_def)
  ultimately show ?thesis unfolding eq using b by (simp only: awaits_def Let_def) simp
qed

lemma hello_sent:
  assumes "length (s_objs b) = 1" and "c_fd (client_of b 0) \<ge> 0" and "s_host b = init_bridge" and "proto_supported (fpayload f)"
  shows "c_sent (client_of (handle_hello demo_platform node_callbacks 0 f b) 0) =
    c_sent (client_of b 0) @ encode (hello_ack (fseq f)) @ encode demo_snapshot"
proof -
  have p: "sends_progress demo_platform" by (simp add: sends_progress_def demo_platform_def)
  let ?b1 = "send_to demo_platform 0 MSG_HELLO_ACK (fseq f) hello_ok_json b"
  let ?b2 = "set_client 0 (\<lambda>cl. cl\<lparr>c_hello_ok := True\<rparr>) ?b1"
  let ?b3 = "snd (call_state demo_platform node_callbacks ?b2)"
  have b1: "client_of ?b1 0 = (client_of b 0)\<lparr>c_sent := c_sent (client_of b 0) @ encode (hello_ack (fseq f))\<rparr>"
    using send_to_client [OF p _ assms(2)] assms(1) by (simp add: encode_def hello_ack_def)
  then have b3: "c_sent (client_of ?b3 0) = c_sent (client_of b 0) @ encode (hello_ack (fseq f))"
    "c_fd (client_of ?b3 0) \<ge> 0" "0 < length (s_objs ?b3)"
    using assms(1,2) by simp_all
  have "fst (call_state demo_platform node_callbacks ?b2) = offline_json 100000"
    using assms(3) by (simp add: call_state_def node_callbacks_def state_for_tcp_def robot_state_fresh_def init_bridge_def demo_platform_def)
  then have "handle_hello demo_platform node_callbacks 0 f b =
      send_to demo_platform 0 MSG_STATE_SNAPSHOT 0 (offline_json 100000) ?b3"
    using assms(4) by (simp add: handle_hello_def relayed_as_is split_beta Let_def)
  then show ?thesis using send_to_client [OF p b3(3,2)] b3(1) by (simp add: demo_snapshot_def encode_def)
qed

definition greeting :: bytes where
  "greeting = encode (hello_ack 1) @ encode demo_snapshot"

lemma demo_bridge_run:
  "0 \<le> s_listen_fd listening" "s_objs listening = []" "awaits False [] [] serving"
  "awaits False [] [demo_hello] (demo_bridge_acts (arrives demo_hello) serving)" "awaits True greeting [] welcoming"
  "awaits True greeting [demo_stop] (demo_bridge_acts (arrives demo_stop) welcoming)" "awaits True greeting [] stopping"
  "b_cmds (s_host stopping) = [envelope ''CMD_ESTOP'' 2 ''{}'']"
proof -
  show "0 \<le> s_listen_fd listening" "s_objs listening = []"
    by (simp_all add: listening_def bridge_step_def start_server_def init_server_def)
  have s: "awaits False [] [] serving" "s_host serving = init_bridge"
    by (simp_all add: serving_def listening_def bridge_step_def start_server_def init_server_def accept_client_def s_now_def
        loop_test_def new_client_def client_of_def awaits_def Let_def)
  then show "awaits False [] [] serving" by blast
  have ok: "frame_ok demo_hello" "frame_ok demo_stop" by (simp_all add: frame_ok_def demo_hello_def demo_stop_def)
  let ?b = "demo_bridge_acts (arrives demo_hello) serving"
  have b: "awaits False [] [demo_hello] ?b" "s_host ?b = init_bridge" using frame_arrives [OF s(1) ok(1)] s(2) by simp_all
  then show "awaits False [] [demo_hello] ?b" by blast
  note c = awaits_fields [OF b(1)]
  have w: "welcoming = client_frame demo_platform node_callbacks 0 ?b"
    using c(10) by (simp add: welcoming_def bridge_step_def)
  have "find_key_value key ''{}'' = None" for key
    using find_key_skip [of "''{}''" key "[]"] by (simp add: dq_def) (subst find_key_value.simps, simp add: quoted_def)
  then have hello: "ftype demo_hello = MSG_HELLO" "proto_supported (fpayload demo_hello)" "fseq demo_hello = 1"
    by (simp_all add: demo_hello_def proto_supported_def get_string_def Let_def)
  have one: "0 < length (s_objs ?b)" using c(3) by simp
  note acc = frame_accepts_hello [OF one c(1,4,7) hello(1,2), of demo_platform node_callbacks, folded w]
  have "c_sent (client_of welcoming 0) = greeting"
    using hello_sent [of "set_client 0 (\<lambda>cl. cl\<lparr>c_batch := []\<rparr>) ?b", OF _ _ _ hello(2)] one c(3,4,9) b(2)
    by (simp add: acc(5) hello(3) greeting_def)
  with sent_more_fields [OF acc(1)] acc(2-4) c(1-6) show wa: "awaits True greeting [] welcoming" by (simp add: awaits_def Let_def)
  let ?b2 = "demo_bridge_acts (arrives demo_stop) welcoming"
  have s2: "awaits True greeting [demo_stop] ?b2" "s_host ?b2 = s_host welcoming" using frame_arrives [OF wa ok(2)] by simp_all
  then show "awaits True greeting [demo_stop] ?b2" by blast
  note c2 = awaits_fields [OF s2(1)]
  have "s_host welcoming = init_bridge"
    using client_frame_effect(1) [OF c(7), of demo_platform node_callbacks] hello(1) b(2) by (simp add: w msg_defs)
  moreover have st: "stopping = client_frame demo_platform node_callbacks 0 ?b2"
    using c2(10) by (simp add: stopping_def bridge_step_def)
  ultimately show "b_cmds (s_host stopping) = [envelope ''CMD_ESTOP'' 2 ''{}'']"
    using bridge_host.frame_publishes [OF c2(7), of demo_platform] s2(2)
    by (simp add: demo_stop_def init_bridge_def)
  have "0 < length (s_objs ?b2)" using c2(3) by simp
  then show "awaits True greeting [] stopping" using c2
    by (simp add: st client_frame_def handle_frame_def demo_stop_def msg_defs command_types_def enqueue_cmd_def loop_test_def
        awaits_def Let_def)
qed

section \<open>The system\<close>

definition demo_system :: "robot \<Rightarrow> (bridge, wait) server \<Rightarrow> demo_console \<Rightarrow> nat option \<Rightarrow> bytes list \<Rightarrow>
    bytes \<Rightarrow> bytes \<Rightarrow> user_action list \<Rightarrow> nat \<Rightarrow> (tree, sock_state \<times> bytes) system" where
  "demo_system r b c link wire up down clicks n = \<lparr>y_robot = r, y_bridge = b,
     y_console = (\<lambda>_. init_console (UnconnectedState, []))(0 := c), y_owner = replicate n 0,
     y_link = (\<lambda>k. if k = 0 then link else None), y_wire = (\<lambda>_. [])(0 := wire), y_up = (\<lambda>_. [])(0 := up),
     y_down = (\<lambda>_. [])(0 := down), y_clicks = map (Pair 0) clicks\<rparr>"

abbreviation demo_reaches :: "(tree, sock_state \<times> bytes) system \<Rightarrow> bool" where
  "demo_reaches \<equiv> sys_reaches demo_qt insertion_sort demo_socket any_env demo_platform (init_system (\<lambda>_. (UnconnectedState, [])))"

lemma demo_fields [simp]:
  "y_robot (demo_system r b c l w u d cl n) = r" "y_bridge (demo_system r b c l w u d cl n) = b"
  "y_owner (demo_system r b c l w u d cl n) = replicate n 0" "y_console (demo_system r b c l w u d cl n) 0 = c"
  "y_link (demo_system r b c l w u d cl n) 0 = l" "y_wire (demo_system r b c l w u d cl n) 0 = w"
  "y_up (demo_system r b c l w u d cl n) 0 = u" "y_down (demo_system r b c l w u d cl n) 0 = d"
  "y_clicks (demo_system r b c l w u d cl n) = map (Pair 0) cl"
  by (simp_all add: demo_system_def)

lemma demo_start: "demo_reaches (demo_system init_robot init_server (init_console (UnconnectedState, [])) None [] [] [] [] 0)"
proof -
  have "init_system (\<lambda>_. (UnconnectedState, [])) = demo_system init_robot init_server (init_console (UnconnectedState, [])) None [] [] [] [] 0"
    by (simp add: init_system_def demo_system_def fun_eq_iff)
  then show ?thesis using sys_reaches.here by metis
qed

lemma demo_bridge_goes:
  "bridge_acts demo_platform ev (demo_system r b c l w u d cl n) = demo_system r (demo_bridge_acts ev b) c l w u d cl n"
  by (simp add: bridge_acts_def demo_system_def)

lemma demo_console_goes:
  assumes "w_tx (cn_worker (demo_acts ev c)) = w_tx (cn_worker c) @ new" and "l = Some 0 \<or> new = []" and "l \<in> {None, Some 0}"
    and "l = None \<or> \<not> dials c ev"
  shows "console_acts demo_qt insertion_sort demo_socket 0 ev (demo_system r b c l w u d cl n) =
    demo_system r b (demo_acts ev c) l (w @ new) u d cl n"
  using assms by (auto simp: console_acts_def demo_system_def fun_eq_iff Let_def)

lemma demo_more:
  assumes "demo_reaches s" and "sys_step demo_qt insertion_sort demo_socket any_env demo_platform s s'" and "s' = s''"
  shows "demo_reaches s''"
  using sys_reaches.further [OF assms(1,2)] assms(3) by simp

lemma no_dial [simp]: "\<not> dials c (User a)" "\<not> dials c DeliverSignal" "\<not> dials c (Loop_Event e)"
  by (simp_all add: dials_def)

lemma quiet_steps [simp]:
  "w_tx (cn_worker (demo_acts (User a) c)) = w_tx (cn_worker c)"
  "w_tx (cn_worker (demo_acts DeliverSignal c)) = w_tx (cn_worker c)"
  by (simp_all split: list.split)

lemma demo_updates:
  "(demo_system r b c l w u d cl n)\<lparr>y_clicks := map (Pair 0) cl @ [(0, a)]\<rparr> = demo_system r b c l w u d (cl @ [a]) n"
  "(demo_system r b c l w u d cl n)\<lparr>y_owner := replicate n 0 @ [0]\<rparr> = demo_system r b c l w u d cl (Suc n)"
  "(demo_system r b c l w u d cl n)\<lparr>y_link := (y_link (demo_system r1 b1 c1 l1 w1 u1 d1 cl1 n1))(0 \<mapsto> 0)\<rparr> =
    demo_system r b c (Some 0) w u d cl n"
  "(demo_system r b c l w u d cl n)\<lparr>y_up := (y_up (demo_system r1 b1 c1 l1 w1 u1 d1 cl1 n1))(0 := x)\<rparr> =
    demo_system r b c l w x d cl n"
  "(demo_system r b c l w u d cl n)\<lparr>y_down := (y_down (demo_system r1 b1 c1 l1 w1 u1 d1 cl1 n1))(0 := x)\<rparr> =
    demo_system r b c l w u x cl n"
  "(demo_system r b c l w u d cl n)\<lparr>y_robot := r'\<rparr> = demo_system r' b c l w u d cl n"
  by (auto simp: demo_system_def fun_eq_iff replicate_append_same)

text \<open>The rules, between two such states.\<close>

lemma demo_user:
  assumes "demo_reaches (demo_system r b c l w u d cl n)" and "l \<in> {None, Some 0}"
  shows "demo_reaches (demo_system r b (demo_acts (User a) c) l w u d (cl @ [a]) n)"
  using demo_console_goes [where ev = "User a" and c = c and new = "[]" and l = l] assms(2)
  by (intro demo_more [OF assms(1) sys_step.user_acts [where k = 0 and a = a]])
    (simp add: demo_updates del: console_step.simps)

lemma demo_alone:
  assumes "demo_reaches (demo_system r b c l w u d cl n)" and "console_own ev"
    and "w_tx (cn_worker (demo_acts ev c)) = w_tx (cn_worker c) @ new" and "l = Some 0 \<or> new = []" and "l \<in> {None, Some 0}"
    and "l = None \<or> \<not> dials c ev"
  shows "demo_reaches (demo_system r b (demo_acts ev c) l (w @ new) u d cl n)"
  using demo_console_goes [OF assms(3-6)] by (rule demo_more [OF assms(1) sys_step.console_alone [OF assms(2)]])

lemma demo_bridge_alone:
  assumes "demo_reaches (demo_system r b c l w u d cl n)" and "bridge_own ev"
  shows "demo_reaches (demo_system r (demo_bridge_acts ev b) c l w u d cl n)"
  by (rule demo_more [OF assms(1) sys_step.bridge_alone [OF assms(2)] demo_bridge_goes])

lemma demo_uplink:
  assumes "demo_reaches (demo_system r b c l w u d cl n)" and "awaits ok out [] b" and "concat w = u @ encode f"
  shows "demo_reaches (demo_system r (demo_bridge_acts (arrives f) b) c l w (u @ encode f) d cl n)"
  using assms(2,3) bridge_codec.enc_nonempty [of f]
  by (intro demo_more [OF assms(1) sys_step.uplink [where i = 0 and data = "encode f"]])
    (simp_all add: awaits_fields [OF assms(2)] demo_bridge_goes demo_updates)

text \<open>The console connects and says hello, the bridge takes it into session.\<close>

lemma demo_hello_run:
  "demo_reaches (demo_system init_robot welcoming greeted (Some 0) [encode demo_hello] (encode demo_hello) []
     [UserConnect ''robot'' 8765] 1)"
proof -
  let ?u = "UserConnect ''robot'' 8765" and ?i = "init_console (UnconnectedState, []) :: demo_console"
  have R1: "demo_reaches (demo_system init_robot listening ?i None [] [] [] [] 0)"
    by (rule demo_more [OF demo_start sys_step.bridge_start [where sock = 3 and bound = True and listening = True and port = 8765]])
      (simp_all add: demo_bridge_goes listening_def)
  have R2: "demo_reaches (demo_system init_robot listening (demo_acts (User ?u) ?i) None [] [] [] [?u] 0)"
    using demo_user [OF R1, of ?u] by simp
  have "w_tx (cn_worker ?i) = []" by (simp add: init_console_def init_worker_def)
  then have R3: "demo_reaches (demo_system init_robot listening dialled None [] [] [] [?u] 0)"
    using demo_alone [OF R2, of DeliverCall "[]"] demo_console(1) by (simp add: dialled_def del: console_step.simps)
  have R4: "demo_reaches (demo_system init_robot listening dialled None [] [] [] [?u] 1)"
    by (rule demo_more [OF R3 sys_step.dial [where k = 0]]) (simp_all add: demo_bridge_run(1) demo_updates(2) [where n = 0, simplified])
  let ?c = "Loop_Event (SockConnected (ConnectedState, [])) :: (sock_state \<times> bytes) console_event"
  have "w_tx (cn_worker (demo_acts ?c dialled)) = [encode demo_hello]"
    using demo_console(2) by (simp add: greeted_def del: console_step.simps)
  with demo_console(1) have R5: "demo_reaches (demo_system init_robot listening (demo_acts ?c dialled) (Some 0) [encode demo_hello] [] [] [?u] 1)"
    by (intro demo_more [OF R4 sys_step.connected [where i = 0 and k = 0 and so = "(ConnectedState, [])"]])
      (simp_all add: demo_updates demo_console_goes del: console_step.simps)
  have R6: "demo_reaches (demo_system init_robot listening greeted (Some 0) [encode demo_hello] [] [] [?u] 1)"
    using demo_alone [OF R5, of DeliverSignal "[]"] by (simp add: greeted_def del: console_step.simps)
  have R7: "demo_reaches (demo_system init_robot serving greeted (Some 0) [encode demo_hello] [] [] [?u] 1)"
    by (rule demo_more [OF R6 sys_step.accept [where fd = 5]]) (simp_all add: demo_bridge_run(2) demo_bridge_goes serving_def)
  from demo_uplink [OF R7 demo_bridge_run(3), of demo_hello]
  have "demo_reaches (demo_system init_robot (demo_bridge_acts (arrives demo_hello) serving) greeted (Some 0)
      [encode demo_hello] (encode demo_hello) [] [?u] 1)" by simp
  from demo_bridge_alone [OF this, of "Frame 0"] show ?thesis by (simp add: welcoming_def)
qed

text \<open>The user stops the robot.\<close>

definition stopped_system :: "(tree, sock_state \<times> bytes) system" where
  "stopped_system = demo_system stopped_robot stopping clicked (Some 0) [encode demo_hello, encode demo_stop]
     (encode demo_hello @ encode demo_stop) (encode (hello_ack 1)) [UserConnect ''robot'' 8765, UserEstop ''operator''] 1"

lemma demo_estop_run: "demo_reaches stopped_system"
proof -
  let ?u = "UserConnect ''robot'' 8765" and ?e = "UserEstop ''operator''" and ?a = "encode (hello_ack 1)"
  let ?h = "encode demo_hello" and ?s = "encode demo_stop"
  let ?r = "Loop_Event (SockReadyRead (ConnectedState, encode (hello_ack 1))) :: (sock_state \<times> bytes) console_event"
  have tx: "w_tx (cn_worker (demo_acts ?r greeted)) = [?h]"
    using demo_console(3) by (simp add: in_session_def del: console_step.simps)
  have "0 < length (s_objs welcoming)" "prefix ?a (c_sent (client_of welcoming 0))"
    using awaits_fields(3,9) [OF demo_bridge_run(5)] by (simp_all add: greeting_def)
  then have "demo_reaches (demo_system init_robot welcoming (demo_acts ?r greeted) (Some 0) [?h] ?h ?a [?u] 1)"
    using tx demo_console(2)
    by (intro demo_more [OF demo_hello_run sys_step.downlink [where k = 0 and i = 0 and so = "(ConnectedState, encode (hello_ack 1))" and so' = "(ConnectedState, [])" and data = ?a]])
      (simp_all add: demo_updates demo_console_goes [where new = "[]"] del: console_step.simps)
  from demo_alone [OF this, of DeliverSignal "[]"]
  have "demo_reaches (demo_system init_robot welcoming in_session (Some 0) [?h] ?h ?a [?u] 1)"
    by (simp add: in_session_def del: console_step.simps)
  from demo_user [OF this, of ?e]
  have R12: "demo_reaches (demo_system init_robot welcoming (demo_acts (User ?e) in_session) (Some 0) [?h] ?h ?a [?u, ?e] 1)" by simp
  have "demo_reaches (demo_system init_robot welcoming clicked (Some 0) [?h, ?s] ?h ?a [?u, ?e] 1)"
    using demo_alone [OF R12, of DeliverCall "[?s]"] demo_console(3-5) by (simp add: clicked_def del: console_step.simps)
  from demo_uplink [OF this demo_bridge_run(5), of demo_stop]
  have "demo_reaches (demo_system init_robot (demo_bridge_acts (arrives demo_stop) welcoming) clicked (Some 0) [?h, ?s] (?h @ ?s) ?a [?u, ?e] 1)"
    by simp
  from demo_bridge_alone [OF this, of "Frame 0"]
  have R15: "demo_reaches (demo_system init_robot stopping clicked (Some 0) [?h, ?s] (?h @ ?s) ?a [?u, ?e] 1)"
    by (simp add: stopping_def)
  let ?ready = configured_robot
  have R16: "demo_reaches (demo_system ?ready stopping clicked (Some 0) [?h, ?s] (?h @ ?s) ?a [?u, ?e] 1)"
    by (rule demo_more [OF R15 sys_step.robot_acts [where ev = Configure]]) (simp_all add: robot_step_def demo_updates configured_robot_def)
  have env: "extract_string (envelope ''CMD_ESTOP'' 2 ''{}'') ''cmd'' = Some ''CMD_ESTOP''"
    by (rule envelope_cmd) (simp add: plain_name_def dq_def bs_def)
  have "cmd_sub ?ready" by (simp add: configured_robot_def on_configure_def)
  then have "robot_step any_env ?ready (Cmd (envelope ''CMD_ESTOP'' 2 ''{}'')) = Some stopped_robot"
    by (simp add: robot_step_def on_cmd_def env envelope_seq stopped_robot_def)
  then show ?thesis unfolding stopped_system_def
    by (intro demo_more [OF R16 sys_step.to_robot [where d = "envelope ''CMD_ESTOP'' 2 ''{}''" and topic = "''botcockpit/cmd''"]])
      (simp_all add: bridge_published_def robot_hears_def demo_bridge_run(8) demo_updates)
qed

lemma stopped_short: "short_frames stopped_system"
proof -
  have "length (encode demo_hello) \<le> 65540" "length (encode demo_stop) \<le> 65540"
    by (simp_all add: encode_def demo_hello_def demo_stop_def)
  then show ?thesis by (simp add: short_frames_def stopped_system_def demo_system_def)
qed

theorem only_users_command_witness:
  "estop (y_robot stopped_system) \<and> (\<exists>k reason. (k, UserEstop reason) \<in> set (y_clicks stopped_system))"
  using only_users_command [OF demo_estop_run stopped_short]
  by (simp add: stopped_system_def stopped_robot_def cmd_estop_def Let_def)

end
