(* ===== verification/State_Source.thy ===== *)
theory State_Source
  imports Command_Source
begin

text \<open>
  Where the state of the robot on a console comes from, program by program: which texts the robot
  publishes, which states the bridge sends to its clients, and what the console makes of the frames
  it reads. Like \<open>Command_Source\<close>, for the whole system to put together.
\<close>

section \<open>The robot\<close>

text \<open>The robot publishes only texts of its own states.\<close>

definition posts :: "env \<Rightarrow> robot \<Rightarrow> robot \<Rightarrow> bool" where
  "posts E s0 s \<longleftrightarrow> (\<exists>new. outbox s = outbox s0 @ new \<and> (\<forall>d. State_Msg d \<in> set new \<longrightarrow> (\<exists>r. d = build_state_json E r)))"

lemma posts_refl [simp]: "posts E s s"
  by (simp add: posts_def)

lemma posts_same: "outbox s' = outbox s \<Longrightarrow> posts E s0 s' = posts E s0 s"
  by (simp add: posts_def)

lemma posts_ops [simp]:
  "posts E s0 (recompute s) = posts E s0 s" "posts E s0 (set_node i st s) = posts E s0 s"
  "posts E s0 (add_fault code level detail s) = posts E s0 s" "posts E s0 (fail_task s) = posts E s0 s"
  "posts E s0 (clear_faults s) = posts E s0 s" "posts E s0 (stop_running s) = posts E s0 s"
  "posts E s0 (tick_ready now s) = posts E s0 s" "posts E s0 (tick_battery s) = posts E s0 s"
  "posts E s0 (inject_fault detail s) = posts E s0 s"
  by (rule posts_same; simp add: inject_fault_def)+

lemma posts_fields [simp]:
  "posts E s0 (s\<lparr>tick_timer := b\<rparr>) = posts E s0 s" "posts E s0 (s\<lparr>active := b\<rparr>) = posts E s0 s"
  "posts E s0 (s\<lparr>phase := x\<rparr>) = posts E s0 s" "posts E s0 (s\<lparr>mode := x\<rparr>) = posts E s0 s"
  "posts E s0 (s\<lparr>estop := b\<rparr>) = posts E s0 s" "posts E s0 (s\<lparr>control_enabled := b\<rparr>) = posts E s0 s"
  "posts E s0 (s\<lparr>console_online := b\<rparr>) = posts E s0 s" "posts E s0 (s\<lparr>last_console_ms := t\<rparr>) = posts E s0 s"
  "posts E s0 (s\<lparr>task_type := x\<rparr>) = posts E s0 s" "posts E s0 (s\<lparr>task_id := x\<rparr>) = posts E s0 s"
  "posts E s0 (s\<lparr>task_status := x\<rparr>) = posts E s0 s" "posts E s0 (s\<lparr>nav_status := x\<rparr>) = posts E s0 s"
  "posts E s0 (s\<lparr>task_seq := i\<rparr>) = posts E s0 s" "posts E s0 (s\<lparr>idle_tp := i\<rparr>) = posts E s0 s"
  "posts E s0 (s\<lparr>last_tick_tp := i\<rparr>) = posts E s0 s" "posts E s0 (s\<lparr>reads := n\<rparr>) = posts E s0 s"
  "posts E s0 (s\<lparr>battery := d\<rparr>) = posts E s0 s" "posts E s0 (s\<lparr>cmd_sub := b\<rparr>) = posts E s0 s"
  "posts E s0 (s\<lparr>console_sub := b\<rparr>) = posts E s0 s" "posts E s0 (s\<lparr>state_pub := b\<rparr>) = posts E s0 s"
  "posts E s0 (s\<lparr>result_pub := b\<rparr>) = posts E s0 s" "posts E s0 (s\<lparr>nav_path := ps\<rparr>) = posts E s0 s"
  "posts E s0 (s\<lparr>stuck_s := d\<rparr>) = posts E s0 s" "posts E s0 (s\<lparr>stuck_count := i\<rparr>) = posts E s0 s"
  by (simp_all add: posts_def)

lemma posts_publish [simp]:
  "posts E s0 s \<Longrightarrow> posts E s0 (publish_state E s)" "posts E s0 s \<Longrightarrow> posts E s0 (publish_cmd_result sq cmd ok st re tid s)"
  by (auto simp: posts_def publish_state_def publish_cmd_result_def)

lemma posts_answers [simp]:
  "posts E s0 s \<Longrightarrow> posts E s0 (reject sq cmd re tid s)" "posts E s0 s \<Longrightarrow> posts E s0 (accept sq cmd tid s)"
  "posts E s0 s \<Longrightarrow> posts E s0 (apply_safety_stop E s)"
  by (simp_all add: reject_def accept_def apply_safety_stop_def Let_def)

lemma lifecycle_posts:
  "posts E s (on_activate E t1 t2 s)" "posts E s (on_deactivate s)" "posts E s (on_cleanup s)" "posts E s (on_console E d s)"
  by (simp_all add: on_activate_def on_deactivate_def on_cleanup_def on_console_def now_ms_def Let_def split: option.split)

lemma configure_posts: "posts E s (on_configure E s)"
  unfolding on_configure_def Let_def by (intro posts_publish(1)) (simp add: posts_def)

lemma tick_motion_outbox: "tick_motion E dt s = Some s' \<Longrightarrow> outbox s' = outbox s"
proof -
  assume m: "tick_motion E dt s = Some s'"
  have d: "outbox s2 = outbox s" if "tick_drive E dt s = Some s2" for s2
  proof (cases "nav_path s = []")
    case True
    with that show ?thesis by (auto simp: tick_drive_def)
  next
    case False
    with that obtain s1 c w s3 where "tick_move E dt s = Some (s1, c, w)"
      "tick_stuck E dt (pose_x s) (pose_y s) c w (tick_trail s1) = Some s3"
      "s2 = tick_complete (tick_cross_track s3)"
      by (auto simp: tick_drive_def split: Option.bind_splits)
    moreover have "outbox s1 = outbox s" if "tick_move E dt s = Some (s1, c, w)" for s1 c w
      using that by (auto simp: tick_move_def Let_def split: prod.splits if_splits Option.bind_splits)
    moreover have "outbox r' = outbox r" if "tick_stuck E dt x y c w r = Some r'" for x y c w r r'
      using that by (auto simp: tick_stuck_def replan_def Let_def split: if_splits Option.bind_splits)
    ultimately show ?thesis by simp
  qed
  show ?thesis using m d by (auto simp: tick_motion_def split: Option.bind_splits if_splits)
qed

lemma tick_posts:
  assumes "tick E now s = Some s'"
  shows "posts E s s'"
proof (cases "active s")
  case True
  from tick_parts [OF assms True] obtain s1 s2 where
    s1: "s1 = recompute (tick_ready now (tick_console E (s\<lparr>last_tick_tp := now\<rparr>)))" and
    s2: "tick_motion E (tick_dt now s) s1 = Some s2" and s': "s' = publish_state E (tick_battery s2)" .
  have "posts E s (tick_console E (s\<lparr>last_tick_tp := now\<rparr>))" by (simp add: tick_console_def now_ms_def Let_def)
  then have "posts E s s1" unfolding s1 by simp
  then have "posts E s s2" using tick_motion_outbox [OF s2] by (simp add: posts_def)
  then show ?thesis by (simp add: s')
qed (use assms in \<open>simp add: tick_def\<close>)

lemma commands_post:
  "posts E s (cmd_estop E sq s)" "posts E s (cmd_reset E sq cmd d s)" "posts E s (cmd_mode E sq cmd d s)"
  "posts E s (cmd_inject E sq cmd d s)" "posts E s (cmd_clear E sq cmd s)" "posts E s (task_pause E sq cmd tid s)"
  "posts E s (task_cancel E sq cmd s)" "posts E s (task_cancel_again E sq cmd s)" "posts E s (task_resume E sq cmd tid s)"
  by (simp_all add: cmd_estop_def cmd_reset_def cmd_mode_def cmd_inject_def cmd_clear_def task_pause_def task_cancel_def
      task_cancel_again_def task_resume_def Let_def split: option.split)

lemma goto_posts: "task_goto E sq cmd d tid s = Some s' \<Longrightarrow> posts E s s'"
proof -
  assume g: "task_goto E sq cmd d tid s = Some s'"
  have start: "posts E s r'" if "goto_start E sq cmd tid' x y r = Some r'" "posts E s r" for tid' x y r r'
    using that by (auto simp: goto_start_def Let_def split: Option.bind_splits if_splits intro!: posts_publish posts_answers)
      (auto simp: posts_def)
  show ?thesis using g start by (auto simp: task_goto_def Let_def split: if_splits)
qed

lemma task_posts: "cmd_task E sq cmd d s = Some s' \<Longrightarrow> posts E s s'"
  by (cases rule: cmd_task_cases) (auto simp: commands_post dest: goto_posts)

lemma robot_posts:
  assumes "robot_step E s ev = Some s'"
  shows "posts E s s'"
proof (cases ev)
  case (Cmd d)
  show ?thesis
  proof (cases "cmd_sub s")
    case True
    with assms Cmd have "on_cmd E d s = Some s'" by (simp add: robot_step_def)
    then show ?thesis by (cases rule: on_cmd_cases) (simp_all add: commands_post task_posts)
  qed (use assms Cmd in \<open>simp add: robot_step_def\<close>)
next
  case (Tick t)
  with assms show ?thesis by (auto simp: robot_step_def split: if_splits dest: tick_posts)
next
  case Configure
  with assms show ?thesis using configure_posts by (simp add: robot_step_def) (metis option.inject)
qed (use assms in \<open>auto simp: robot_step_def on_shutdown_def lifecycle_posts split: if_splits\<close>)

section \<open>The bridge\<close>

text \<open>A send takes its frame whole, or fails before its first byte: no frame is cut.\<close>

definition sends_whole :: "platform \<Rightarrow> bool" where
  "sends_whole P \<longleftrightarrow> (\<forall>k xs. fst (send_bytes P k xs) \<in> {[], xs})"

lemma progress_sends_whole: "sends_progress P \<Longrightarrow> sends_whole P"
  unfolding sends_whole_def by (metis send_bytes_all fst_conv insertCI)

lemma send_to_whole:
  assumes "sends_whole P" and "c < length (s_objs s)" and "c_fd (client_of s c) \<ge> 0"
  obtains taken where "taken \<in> {[], encode_frame ty 0 sq payload}"
    "client_of (send_to P c ty sq payload s) c = (client_of s c)\<lparr>c_sent := c_sent (client_of s c) @ taken\<rparr>"
proof -
  obtain taken ok k where r: "send_bytes P (s_sends s) (encode_frame ty 0 sq payload) = (taken, ok, k)"
    by (metis prod_cases3)
  then have "taken \<in> {[], encode_frame ty 0 sq payload}" using assms(1) unfolding sends_whole_def by (metis fst_conv)
  moreover have "client_of (s\<lparr>s_sends := k\<rparr>) c = client_of s c" by (simp add: client_of_def)
  ultimately show ?thesis using r assms(2,3) by (intro that) (simp_all add: send_to_def send_frame_def)
qed

text \<open>What has been sent grows by whole frames; those that tell a state tell one of \<open>T\<close>.\<close>

definition tells_of :: "string set \<Rightarrow> frame \<Rightarrow> bool" where
  "tells_of T f \<longleftrightarrow> (ftype f \<in> set state_types \<longrightarrow> fpayload f \<in> T)"

definition sent_of :: "('b, 'w) server \<Rightarrow> nat \<Rightarrow> bytes" where
  "sent_of s c = (if c < length (s_objs s) then c_sent (client_of s c) else [])"

definition speaks :: "string set \<Rightarrow> ('b, 'w) server \<Rightarrow> ('b, 'w) server \<Rightarrow> bool" where
  "speaks T s0 s \<longleftrightarrow> (\<forall>c. \<exists>fs. sent_of s c = sent_of s0 c @ concat (map encode fs) \<and> list_all (tells_of T) fs)"

named_theorems speaking \<open>operations that send only states of the set\<close>

lemma speaks_refl [simp]: "speaks T s s"
proof -
  have "sent_of s c = sent_of s c @ concat (map encode []) \<and> list_all (tells_of T) []" for c by simp
  then show ?thesis unfolding speaks_def by blast
qed

lemma speaks_same: "(\<And>c. sent_of s' c = sent_of s c) \<Longrightarrow> speaks T s0 s' = speaks T s0 s"
  by (simp add: speaks_def)

lemma speaks_fields [simp]:
  "speaks T s0 (s\<lparr>s_host := b\<rparr>) = speaks T s0 s" "speaks T s0 (s\<lparr>s_reads := k\<rparr>) = speaks T s0 s"
  "speaks T s0 (s\<lparr>s_queue := q\<rparr>) = speaks T s0 s" "speaks T s0 (s\<lparr>s_waiting := w\<rparr>) = speaks T s0 s"
  "speaks T s0 (s\<lparr>s_last_tx := t\<rparr>) = speaks T s0 s" "speaks T s0 (s\<lparr>s_clients := cs\<rparr>) = speaks T s0 s"
  "speaks T s0 (s\<lparr>s_running := r, s_listen_fd := l\<rparr>) = speaks T s0 s"
  by (rule speaks_same; simp add: sent_of_def client_of_def)+

lemma speaks_set_client [speaking]:
  assumes "speaks T s0 s" and "\<And>cl. c_sent (g cl) = c_sent cl"
  shows "speaks T s0 (set_client c g s)"
proof -
  have "sent_of (set_client c g s) d = sent_of s d" for d using assms(2) by (simp add: sent_of_def)
  then show ?thesis using assms(1) by (simp add: speaks_same [of "set_client c g s" s])
qed

lemma speaks_send [speaking]:
  assumes "sends_whole P" and "speaks T s0 s" and "ty \<in> set state_types \<longrightarrow> payload \<in> T"
  shows "speaks T s0 (send_to P c ty sq payload s)"
proof (cases "c < length (s_objs s) \<and> c_fd (client_of s c) \<ge> 0")
  case True
  let ?f = "\<lparr>ftype = ty, fflags = 0, fseq = sq, fpayload = payload\<rparr>"
  obtain taken where t: "taken \<in> {[], encode_frame ty 0 sq payload}"
    "client_of (send_to P c ty sq payload s) c = (client_of s c)\<lparr>c_sent := c_sent (client_of s c) @ taken\<rparr>"
    by (rule send_to_whole [OF assms(1) True [THEN conjunct1] True [THEN conjunct2]])
  define gs where "gs = (if taken = [] then [] else [?f])"
  have gs: "gs \<in> {[], [?f]}" "taken = concat (map encode gs)" using t(1) by (auto simp: gs_def encode_def)
  have sent: "sent_of (send_to P c ty sq payload s) d = sent_of s d @ (if d = c then concat (map encode gs) else [])" for d
    using t(2) gs(2) send_to_others [of d c P ty sq payload s] True by (auto simp: sent_of_def)
  have "\<exists>fs. sent_of (send_to P c ty sq payload s) d = sent_of s0 d @ concat (map encode fs) \<and> list_all (tells_of T) fs" for d
  proof -
    obtain fs where "sent_of s d = sent_of s0 d @ concat (map encode fs)" "list_all (tells_of T) fs"
      using assms(2) by (auto simp: speaks_def)
    then show ?thesis using assms(3) gs(1) unfolding sent
      by (intro exI [of _ "fs @ (if d = c then gs else [])"]) (auto simp: tells_of_def)
  qed
  then show ?thesis by (simp add: speaks_def)
next
  case False
  have "sent_of (send_to P c ty sq payload s) d = sent_of s d" for d
  proof (cases "c_fd (client_of s c) < 0")
    case far: False
    with False have "\<not> c < length (s_objs s)" by auto
    then show ?thesis using send_to_others [of d c P ty sq payload s] by (auto simp: sent_of_def)
  qed (simp add: send_to_closed)
  then show ?thesis using assms(2) by (simp add: speaks_same [of "send_to P c ty sq payload s" s])
qed

lemma speaks_send_all [speaking]:
  assumes "sends_whole P" and "speaks T s0 s" and "ty \<in> set state_types \<longrightarrow> payload \<in> T"
  shows "speaks T s0 (send_to_all P ty sq payload s)"
proof -
  have "speaks T s0 (fold (\<lambda>c s'. if c_hello_ok (client_of s' c) \<and> c_fd (client_of s' c) \<ge> 0
      then send_to P c ty sq payload s' else s') cs s)" for cs
    using assms(2) by (induction cs arbitrary: s) (simp_all add: speaks_send assms(1,3))
  then show ?thesis by (simp add: send_to_all_def)
qed

lemma speaks_exit [speaking]: "speaks T s0 s \<Longrightarrow> speaks T s0 (client_exit c s)"
  by (simp add: client_exit_def remove_client_def speaks_set_client)

lemma speaks_loop_test [speaking]: "speaks T s0 s \<Longrightarrow> speaks T s0 (loop_test c s)"
  by (simp add: loop_test_def speaks_exit)

lemma speaks_accept [speaking]: "speaks T s0 s \<Longrightarrow> speaks T s0 (accept_client P fd s)"
proof -
  assume k: "speaks T s0 s"
  have "sent_of (s\<lparr>s_reads := Suc (s_reads s), s_objs := s_objs s @ [new_client fd t], s_clients := cs\<rparr>) c = sent_of s c" for t cs c
    by (auto simp: sent_of_def client_of_def nth_append less_Suc_eq new_client_def)
  from speaks_same [OF this] k show ?thesis by (simp add: accept_client_def s_now_def Let_def speaks_loop_test)
qed

lemma speaks_recv [speaking]: "speaks T s0 s \<Longrightarrow> speaks T s0 (client_recv P c n data s)"
  by (simp add: client_recv_def s_now_def split_beta Let_def speaks_exit speaks_loop_test speaks_set_client)

lemma speaks_worker [speaking]: "sends_whole P \<Longrightarrow> speaks T s0 s \<Longrightarrow> speaks T s0 (worker_step P C t s)"
  by (simp add: worker_step_def worker_take_def worker_poll_def Let_def speaks_send
      split: list.split prod.split sum.split option.split)

lemma speaks_fold [speaking]:
  assumes "speaks T s0 s" and "\<And>c cl. c_sent (g c cl) = c_sent cl"
  shows "speaks T s0 (fold (\<lambda>c s'. if p c s' then set_client c (g c) s' else s') cs s)"
  using assms(1) by (induction cs arbitrary: s) (simp_all add: speaks_set_client assms(2))

lemma speaks_watchdog [speaking]: "sends_whole P \<Longrightarrow> speaks T s0 s \<Longrightarrow> speaks T s0 (watchdog P s)"
  by (simp add: watchdog_def s_now_def split_beta Let_def speaks_fold speaks_send_all)

lemma speaks_stop [speaking]:
  assumes "speaks T s0 s"
  shows "speaks T s0 (stop_begin s)" and "speaks T s0 (stop_end s)" and "speaks T s0 (snd (start_server k bd li port s))"
proof -
  have "speaks T s0 (s\<lparr>s_running := False, s_listen_fd := - 1\<rparr>)" using assms by simp
  from speaks_fold [OF this, of "\<lambda>c cl. cl\<lparr>c_fd := - 1, c_shut := c_shut cl \<or> c_fd cl \<ge> 0\<rparr>" "\<lambda>_ _. True"]
  show "speaks T s0 (stop_begin s)" by (simp add: stop_begin_def)
  have "speaks T s0 (snd (start_server k bd li port s)) = speaks T s0 s"
    by (rule speaks_same) (simp add: start_server_def sent_of_def client_of_def)
  with assms show "speaks T s0 (stop_end s)" "speaks T s0 (snd (start_server k bd li port s))"
    by (simp_all add: stop_end_def)
qed

text \<open>The state that the node gives to the server is one of \<open>T\<close>, and so is what it makes of it.\<close>

definition relays :: "string set \<Rightarrow> bool" where
  "relays T \<longleftrightarrow> (\<forall>t. offline_json t \<in> T) \<and> (\<forall>x \<in> T. inject_runtime_fields x ''OFFLINE'' \<in> T)"

definition cached :: "string set \<Rightarrow> bridge \<Rightarrow> bool" where
  "cached T b \<longleftrightarrow> (b_last_state_ms b > 0 \<longrightarrow> b_state_json b \<in> T)"

lemma state_given:
  assumes "relays T" and "cached T (s_host s)"
  shows "inject_runtime_fields (fst (call_state P node_callbacks s)) ''OFFLINE'' \<in> T"
  using assms by (auto simp: relays_def cached_def call_state_def node_callbacks_def state_for_tcp_def robot_state_fresh_def
      split: prod.splits if_splits bool.splits)

lemma speaks_call_state [simp]: "speaks T s0 (snd (call_state P C s)) = speaks T s0 s"
  by (simp add: call_state_def split_beta)

lemma speaks_frame [speaking]:
  assumes "sends_whole P" and "relays T" and "cached T (s_host s)" and "speaks T s0 s"
  shows "speaks T s0 (client_frame P node_callbacks c s)"
proof -
  have hello: "speaks T s0 (handle_hello P node_callbacks c f r)" if "speaks T s0 r" "cached T (s_host r)" for f r
  proof -
    let ?r = "set_client c (\<lambda>cl. cl\<lparr>c_hello_ok := True\<rparr>) (send_to P c MSG_HELLO_ACK (fseq f) hello_ok_json r)"
    have "inject_runtime_fields (fst (call_state P node_callbacks ?r)) ''OFFLINE'' \<in> T"
      using that(2) by (intro state_given assms(2)) simp
    moreover have "speaks T s0 ?r" using assms(1) that(1) by (simp add: speaks_send speaks_set_client)
    ultimately show ?thesis using assms(1) that(1) by (simp add: handle_hello_def split_beta Let_def speaks_send)
  qed
  have handle: "speaks T s0 (handle_frame P node_callbacks c f r)" if "speaks T s0 r" "cached T (s_host r)" for f r
    using that assms(1) by (simp add: handle_frame_def handle_heartbeat_def enqueue_cmd_def s_now_def split_beta Let_def
        hello speaks_send speaks_set_client)
  have clear: "speaks T s0 (set_client c (\<lambda>cl. cl\<lparr>c_batch := fs\<rparr>) r)" if "speaks T s0 r" for fs r
    using that by (rule speaks_set_client) simp
  show ?thesis
  proof (cases "c_batch (client_of s c)")
    case (Cons f fs)
    have "speaks T s0 (handle_frame P node_callbacks c f (set_client c (\<lambda>cl. cl\<lparr>c_batch := fs\<rparr>) s))"
      using assms(3) clear [OF assms(4)] by (intro handle) simp_all
    with Cons clear [OF this] show ?thesis by (simp add: client_frame_def Let_def speaks_loop_test)
  qed (use assms(4) in \<open>simp add: client_frame_def\<close>)
qed

lemma bridge_speaks:
  assumes "sends_whole P" and "relays T" and "cached T (s_host s)"
  shows "speaks T s (bridge_step P s ev)"
proof (cases ev)
  case Delta_Timer
  have "inject_runtime_fields (fst (call_state P node_callbacks s)) ''OFFLINE'' \<in> T" by (rule state_given [OF assms(2,3)])
  then have "speaks T s (broadcast_state_delta P node_callbacks s)"
    using assms(1) by (simp add: broadcast_state_delta_def split_beta Let_def speaks_send_all)
  then show ?thesis by (simp add: Delta_Timer bridge_step_def delta_timer_cb_def Let_def)
qed (use assms in \<open>simp_all add: bridge_step_def speaking ros_state_def s_now_def ros_result_def complete_async_ack_def
      split: prod.split option.split\<close>)

lemma bridge_caches:
  assumes "cached T (s_host s)" and "\<And>d. ev = Robot_State d \<Longrightarrow> d \<in> T"
  shows "cached T (s_host (bridge_step P s ev))"
proof -
  have host: "b_state_json (fst (on_cmd_result d b)) = b_state_json b \<and> b_last_state_ms (fst (on_cmd_result d b)) = b_last_state_ms b"
    for d b by (simp add: on_cmd_result_def Let_def split: option.split)
  have work: "cached T (s_host (worker_step P node_callbacks t s))" for t
    using assms(1) by (auto simp: cached_def worker_step_def worker_take_def worker_poll_def node_callbacks_def handle_command_def
        wait_round_def forget_def publish_cmd_envelope_def urgent_estop_def Let_def
        split: list.splits prod.splits sum.splits option.splits if_splits)
  have frame: "cached T (s_host (client_frame P node_callbacks c s))" for c
  proof (cases "c_batch (client_of s c)")
    case (Cons f fs)
    then show ?thesis using assms(1) client_frame_effect(1) [OF Cons, of P node_callbacks]
      by (simp add: cached_def node_callbacks_def urgent_estop_def publish_cmd_envelope_def)
  qed (use assms(1) in \<open>simp add: client_frame_def\<close>)
  show ?thesis
  proof (cases ev)
    case (Robot_State d)
    then show ?thesis using assms(2) by (simp add: bridge_step_def ros_state_def s_now_def on_robot_state_def cached_def)
  next
    case (Cmd_Result d)
    then show ?thesis using assms(1) host [of d "s_host s"]
      by (auto simp: bridge_step_def ros_result_def complete_async_ack_def cached_def split: prod.splits option.splits)
  next
    case Delta_Timer
    then show ?thesis using assms(1)
      by (simp add: bridge_step_def delta_timer_cb_def broadcast_state_delta_def call_state_def split_beta cached_def Let_def)
  qed (use assms(1) work frame in \<open>simp_all add: bridge_step_def start_server_def\<close>)
qed

section \<open>The console\<close>

text \<open>What the operator sees of the robot.\<close>

definition face :: "'v view \<Rightarrow> string \<times> string \<times> string \<times> bool \<times> bool \<times> bool" where
  "face v = (v_conn v, v_mode v, v_phase v, v_estop v, v_control_enabled v, v_has_robot_state v)"

definition no_robot :: "string \<times> string \<times> string \<times> bool \<times> bool \<times> bool" where
  "no_robot = (''OFFLINE'', ''TELEOP'', ''BOOT'', False, False, False)"

definition face_of :: "('j, 'v) qt \<Rightarrow> string \<Rightarrow> string \<times> string \<times> string \<times> bool \<times> bool \<times> bool" where
  "face_of Q d = (let m = variant_map Q (j_object Q d) in (to_str Q (val Q m ''conn''), to_str Q (val Q m ''mode''),
     to_str Q (val Q m ''phase''), to_bool Q (val Q m ''estop''), to_bool Q (val Q m ''control_enabled''), robot_speaks Q m))"

definition has_members :: "('j, 'v) qt \<Rightarrow> string \<Rightarrow> bool" where
  "has_members Q d \<longleftrightarrow> list_all (has (variant_map Q (j_object Q d))) [''conn'', ''mode'', ''phase'', ''estop'', ''control_enabled'']"

lemma face_state: "has_members Q d \<Longrightarrow> face (apply_state Q (variant_map Q (j_object Q d)) v) = face_of Q d"
  by (simp add: face_def face_of_def has_members_def apply_state_shows Let_def)

lemma face_init: "face init_view = no_robot"
  by (simp add: face_def no_robot_def init_view_def)

lemma face_reset: "face (reset_remote v) = no_robot"
  by (simp add: face_def no_robot_def reset_remote_def emit_def Let_def)

lemma face_setters [simp]:
  "face (append_log Q l v) = face v" "face (set_error_string e v) = face v" "face (set_endpoint h p v) = face v"
  "face (set_reconnect_attempts n v) = face v" "face (set_hello_info pr sv v) = face v" "face (set_heartbeat_rtt n v) = face v"
  "face (set_auto_reconnect b v) = face v" "face (set_connected b v) = face v" "face (set_connecting b v) = face v"
  by (simp_all add: face_def append_log_def set_error_string_def set_endpoint_def set_reconnect_attempts_def
      set_hello_info_def set_heartbeat_rtt_def set_auto_reconnect_def set_connected_def set_connecting_def emit_def Let_def)

lemma face_ack [simp]: "face (set_last_cmd_ack Q a v) = face v"
  by (simp add: face_def set_last_cmd_ack_def emit_def Let_def)

text \<open>The controller: only a state and the loss of the link change it.\<close>

definition faces :: "('j, 'v) qt \<Rightarrow> string set \<Rightarrow> 'v controller \<Rightarrow> bool" where
  "faces Q T k \<longleftrightarrow> face (k_view k) \<in> insert no_robot (face_of Q ` T)"

lemma faces_fields [simp]:
  "faces Q T (k\<lparr>k_timer := t\<rparr>) = faces Q T k" "faces Q T (k\<lparr>k_calls := cs\<rparr>) = faces Q T k"
  by (simp_all add: faces_def)

lemma user_faces: "face (k_view (user_step Q a k)) = face (k_view k)"
  by (cases a) (simp_all add: connect_to_server_def disconnect_from_server_def cmd_mode_click_def cmd_task_goto_def
      cmd_task_simple_def cmd_estop_click_def cmd_reset_click_def controller_defs Let_def)

lemma schedule_faces [simp]: "face (k_view (schedule_reconnect Q why k)) = face (k_view k)"
  by (simp add: schedule_reconnect_def controller_defs Let_def)

lemma timer_faces: "face (k_view (on_reconnect_timer k)) = face (k_view k)"
  by (simp add: on_reconnect_timer_def controller_defs Let_def)

lemma signal_faces:
  assumes "faces Q T k" and "\<forall>d \<in> T. has_members Q d" and "\<And>m. sg = WState m \<Longrightarrow> \<exists>d \<in> T. m = variant_map Q (j_object Q d)"
  shows "faces Q T (on_signal Q srt sg k)"
proof (cases sg)
  case (WState m)
  then obtain d where d: "d \<in> T" "m = variant_map Q (j_object Q d)" using assms(3) by blast
  then have "face (k_view (on_state Q srt m k)) = face_of Q d" using assms(2) by (simp add: on_state_def face_state Let_def)
  with d WState show ?thesis by (simp add: faces_def)
qed (use assms(1) in \<open>simp_all add: faces_def on_connected_def on_disconnected_def on_hello_ack_def on_nodes_def on_rtt_def
      on_cmd_ack_def on_error_def controller_defs face_reset Let_def\<close>)

text \<open>The worker: the states that wait for the controller, and the decoder.\<close>

definition heard :: "('j, 'v) qt \<Rightarrow> string set \<Rightarrow> ('v, 's) worker \<Rightarrow> bool" where
  "heard Q T w \<longleftrightarrow> (\<forall>m. WState m \<in> set (w_out w) \<longrightarrow> (\<exists>d \<in> T. m = variant_map Q (j_object Q d)))"

text \<open>What reads nothing: no new state, and the decoder is left or cleared.\<close>

definition reads_nothing :: "('v, 's) worker \<Rightarrow> ('v, 's) worker \<Rightarrow> bool" where
  "reads_nothing w0 w \<longleftrightarrow> w_decoder w = w_decoder w0 \<and> (\<forall>m. WState m \<in> set (w_out w) \<longrightarrow> WState m \<in> set (w_out w0))"

lemma reads_refl [simp]: "reads_nothing w w"
  by (simp add: reads_nothing_def)

lemma reads_fields [simp]:
  "reads_nothing w0 (w\<lparr>w_socket := so\<rparr>) = reads_nothing w0 w" "reads_nothing w0 (w\<lparr>w_last_rx_ms := t\<rparr>) = reads_nothing w0 w"
  "reads_nothing w0 (w\<lparr>w_reads := n\<rparr>) = reads_nothing w0 w" "reads_nothing w0 (w\<lparr>w_hello_sent := b\<rparr>) = reads_nothing w0 w"
  "reads_nothing w0 (w\<lparr>w_hb_timer := b\<rparr>) = reads_nothing w0 w" "reads_nothing w0 (w\<lparr>w_timeout_timer := b\<rparr>) = reads_nothing w0 w"
  "reads_nothing w0 (w\<lparr>w_hello_ok := b\<rparr>) = reads_nothing w0 w" "reads_nothing w0 (w\<lparr>w_hb_send_ts := hm\<rparr>) = reads_nothing w0 w"
  "reads_nothing w0 (w\<lparr>w_pending_cmd_name := pm\<rparr>) = reads_nothing w0 w" "reads_nothing w0 (w\<lparr>w_next_seq := sq\<rparr>) = reads_nothing w0 w"
  "reads_nothing w0 (w_write S x w) = reads_nothing w0 w"
  "(\<And>m. sg \<noteq> WState m) \<Longrightarrow> reads_nothing w0 (w_emit sg w) = reads_nothing w0 w"
  by (auto simp: reads_nothing_def w_emit_def w_write_def)

lemma reads_send [simp]: "reads_nothing w0 (snd (worker_send S ty flags payload w)) = reads_nothing w0 w"
  by (simp add: worker_send_def take_seq_def Let_def)

lemma reads_note: "reads_nothing w0 (snd r) \<Longrightarrow> reads_nothing w0 (note_cmd nm r)"
  by (cases r) (simp add: note_cmd_def)

lemma reads_close [simp]: "reads_nothing w0 (close_call f w) = reads_nothing w0 w"
  by (simp add: close_call_def on_socket_disconnected_def Let_def split: prod.split)

lemma reads_disconnect [simp]: "reads_nothing w0 (disconnect_from_host S w) = reads_nothing w0 w"
  by (simp add: disconnect_from_host_def Let_def)

lemma call_reads:
  assumes "\<And>h p. call \<noteq> StartWorker h p"
  shows "reads_nothing w (do_call Q S call w)"
  using assms by (cases call) (auto simp: send_cmd_mode_def send_cmd_task_def send_cmd_estop_def send_cmd_reset_def reads_note Let_def)

lemma connect_reads:
  "w_decoder (connect_to_host Q S h p w) = []" "WState m \<in> set (w_out (connect_to_host Q S h p w)) \<Longrightarrow> WState m \<in> set (w_out w)"
proof -
  have "reads_nothing w (close_call (so_abort S) w)" by simp
  then show "WState m \<in> set (w_out (connect_to_host Q S h p w)) \<Longrightarrow> WState m \<in> set (w_out w)"
    by (auto simp: connect_to_host_def now_u64_def current_msecs_def reads_nothing_def Let_def split: if_splits)
qed (simp add: connect_to_host_def now_u64_def current_msecs_def ui_decoder_clear_def Let_def)

lemma loop_reads:
  assumes "\<And>so. e \<noteq> SockReadyRead so"
  shows "reads_nothing w (event_loop Q S e w)"
  using assms by (cases e) (auto simp: on_socket_connected_def on_socket_disconnected_def on_heartbeat_tick_def
      on_timeout_tick_def fail_and_close_def now_u64_def current_msecs_def take_seq_def Let_def)

lemma frame_heard:
  assumes "heard Q T w" and "tells_of T f"
  shows "heard Q T (worker_frame Q (ui_frame_of f) w)" and "w_decoder (worker_frame Q (ui_frame_of f) w) = w_decoder w"
proof -
  have "ui_MSG_STATE_SNAPSHOT = MSG_STATE_SNAPSHOT" "ui_MSG_STATE_DELTA = MSG_STATE_DELTA"
    by (simp_all add: ui_MSG_STATE_SNAPSHOT_def MSG_STATE_SNAPSHOT_def ui_MSG_STATE_DELTA_def MSG_STATE_DELTA_def)
  then have "ftype f \<in> {ui_MSG_STATE_SNAPSHOT, ui_MSG_STATE_DELTA} \<Longrightarrow> fpayload f \<in> T"
    using assms(2) by (auto simp: tells_of_def state_types_def)
  then show "heard Q T (worker_frame Q (ui_frame_of f) w)"
    using assms(1) by (auto simp: heard_def worker_frame_def on_bridge_heartbeat_def current_msecs_def w_emit_def ui_frame_of_def Let_def)
  show "w_decoder (worker_frame Q (ui_frame_of f) w) = w_decoder w"
    by (simp add: worker_frame_def on_bridge_heartbeat_def current_msecs_def w_emit_def Let_def)
qed

lemma frames_heard:
  assumes "heard Q T w" and "list_all (tells_of T) fs"
  shows "heard Q T (fold (worker_frame Q) (map ui_frame_of fs) w) \<and>
    w_decoder (fold (worker_frame Q) (map ui_frame_of fs) w) = w_decoder w"
  using assms
proof (induction fs arbitrary: w)
  case (Cons f fs)
  then have f: "heard Q T (worker_frame Q (ui_frame_of f) w)" "list_all (tells_of T) fs"
    by (simp_all add: frame_heard)
  have "tells_of T f" using Cons.prems(2) by simp
  from Cons.IH [OF f] frame_heard(2) [OF Cons.prems(1) this] show ?case by simp
qed simp

lemma read_heard:
  assumes "heard Q T w" and "so_read_all S (w_socket w) = (data, so')" and "ui_drain (w_decoder w @ data) = (map ui_frame_of fs, buf)"
    and "list_all (tells_of T) fs"
  shows "heard Q T (on_ready_read Q S w) \<and> w_decoder (on_ready_read Q S w) = buf"
proof -
  let ?w = "w\<lparr>w_socket := so', w_reads := Suc (w_reads w), w_last_rx_ms := word_of_int (msecs Q (w_reads w)), w_decoder := buf\<rparr>"
  have app: "ui_decoder_append b (Some x) = b @ x" for b x by (simp add: ui_decoder_append_def)
  have "on_ready_read Q S w = fold (worker_frame Q) (map ui_frame_of fs) ?w"
    using assms(2,3) by (simp add: on_ready_read_def now_u64_def current_msecs_def app Let_def)
  moreover have "heard Q T ?w" using assms(1) by (simp add: heard_def)
  ultimately show ?thesis using frames_heard [OF _ assms(4), of Q ?w] by simp
qed

end
