(* ===== verification/System_View.thy ===== *)
theory System_View
  imports System_Demo State_Source
begin

text \<open>
  What the consoles of the whole system show of the robot: nothing but a state that the robot has
  published, or that there is no robot. The invariant follows the texts from the outbox of the robot
  through the cache of the bridge, the connections, the decoder and the queue of each worker to the
  properties. It is stated for a fixed set of texts, which the last state of a run supplies.
\<close>

section \<open>The invariant\<close>

definition link_ok :: "('v, 's) system \<Rightarrow> bool" where
  "link_ok s \<longleftrightarrow> (\<forall>k i. y_link s k = Some i \<longrightarrow> i < length (y_owner s) \<and> y_owner s ! i = k)"

text \<open>Of the frames sent to a console its decoder has passed on the first ones, and holds the beginning of the rest.\<close>

definition told :: "string set \<Rightarrow> frame list \<Rightarrow> bool" where
  "told T fs \<longleftrightarrow> list_all frame_ok fs \<and> list_all (tells_of T) fs"

lemma told_simps [simp]: "told T []" "told T (fs @ gs) = (told T fs \<and> told T gs)"
  by (auto simp: told_def)

definition reading :: "string set \<Rightarrow> ('v, 's) system \<Rightarrow> nat \<Rightarrow> bool" where
  "reading T s k \<longleftrightarrow> (case y_link s k of
     None \<Rightarrow> w_decoder (cn_worker (y_console s k)) = []
   | Some i \<Rightarrow> \<exists>fs1 fs2. sent_of (y_bridge s) i = concat (map encode (fs1 @ fs2)) \<and> told T (fs1 @ fs2) \<and>
       y_down s i = concat (map encode fs1) @ w_decoder (cn_worker (y_console s k)) \<and>
       prefix (w_decoder (cn_worker (y_console s k))) (concat (map encode fs2)))"

definition shows_only :: "('j, 'v) qt \<Rightarrow> string set \<Rightarrow> ('v, 's) system \<Rightarrow> bool" where
  "shows_only Q T s \<longleftrightarrow> link_ok s \<and> cached T (s_host (y_bridge s)) \<and>
     (\<forall>i. \<exists>fs. sent_of (y_bridge s) i = concat (map encode fs) \<and> told T fs) \<and>
     (\<forall>k. reading T s k \<and> heard Q T (cn_worker (y_console s k)) \<and> faces Q T (cn_ctl (y_console s k)))"

text \<open>No step sends a client more than a frame can hold.\<close>

definition sends_short :: "('v, 's) system \<Rightarrow> ('v, 's) system \<Rightarrow> bool" where
  "sends_short s s' \<longleftrightarrow> (\<forall>i. length (sent_of (y_bridge s') i) \<le> length (sent_of (y_bridge s) i) + 65540)"

inductive short_reaches :: "('j, 'v) qt \<Rightarrow> std_sort \<Rightarrow> 's socket_api \<Rightarrow> env \<Rightarrow> platform \<Rightarrow>
    ('v, 's) system \<Rightarrow> ('v, 's) system \<Rightarrow> bool"
  for Q srt S E P s0 where
  short_here: "short_reaches Q srt S E P s0 s0"
| short_further: "\<lbrakk>short_reaches Q srt S E P s0 s; sys_step Q srt S E P s s'; sends_short s s'\<rbrakk> \<Longrightarrow>
    short_reaches Q srt S E P s0 s'"

lemma short_reaches_all: "short_reaches Q srt S E P s0 s \<Longrightarrow> sys_reaches Q srt S E P s0 s"
  by (induction rule: short_reaches.induct) (auto intro: here further)

lemma told_short:
  assumes "list_all (tells_of T) fs" and "length (concat (map encode fs)) \<le> 65540"
  shows "told T fs"
proof -
  have "length (encode f) \<le> length (concat (map encode fs))" if "f \<in> set fs" for f
    using that by (induction fs) auto
  with assms(2) have "list_all frame_ok fs" by (fastforce simp: list_all_iff frame_ok_def encode_def)
  with assms(1) show ?thesis by (simp add: told_def)
qed

lemma init_shows_only: "shows_only Q T (init_system so)"
proof -
  have "sent_of init_server i = []" for i by (simp add: sent_of_def init_server_def)
  then have "\<exists>fs. sent_of init_server i = concat (map encode fs) \<and> told T fs" for i
    by (intro exI [of _ "[]"]) simp
  then show ?thesis
    by (simp add: shows_only_def init_system_def link_ok_def cached_def init_server_def init_bridge_def reading_def
        init_console_def init_worker_def heard_def faces_def init_controller_def face_init)
qed

lemma shows_onlyD:
  assumes "shows_only Q T s"
  shows "link_ok s" and "cached T (s_host (y_bridge s))"
    and "\<exists>fs. sent_of (y_bridge s) i = concat (map encode fs) \<and> told T fs"
    and "reading T s k" and "heard Q T (cn_worker (y_console s k))" and "faces Q T (cn_ctl (y_console s k))"
  using assms unfolding shows_only_def by blast+

lemma reading_same:
  "y_link s' k = y_link s k \<Longrightarrow> y_bridge s' = y_bridge s \<Longrightarrow> y_down s' = y_down s \<Longrightarrow>
    w_decoder (cn_worker (y_console s' k)) = w_decoder (cn_worker (y_console s k)) \<Longrightarrow> reading T s' k = reading T s k"
  by (simp add: reading_def cong: option.case_cong)

lemma shows_only_cong:
  assumes "shows_only Q T s" and "y_bridge s' = y_bridge s" "y_console s' = y_console s" "y_link s' = y_link s"
    "y_down s' = y_down s" and "prefix (y_owner s) (y_owner s')"
  shows "shows_only Q T s'"
proof -
  have "link_ok s'" using shows_onlyD(1) [OF assms(1)] assms(4,6) by (fastforce simp: link_ok_def nth_append elim: prefixE)
  then show ?thesis using assms(1) unfolding shows_only_def reading_def assms(2-5) by blast
qed

section \<open>The bridge sends\<close>

lemma bridge_acts_shows:
  assumes "shows_only Q T s" and "sends_whole P" and "relays T" and "\<And>d. ev = Robot_State d \<Longrightarrow> d \<in> T"
    and "sends_short s (bridge_acts P ev s)"
  shows "shows_only Q T (bridge_acts P ev s)"
proof -
  let ?s = "bridge_acts P ev s"
  note old = shows_onlyD [OF assms(1)]
  have grows: "\<exists>gs. sent_of (y_bridge ?s) i = sent_of (y_bridge s) i @ concat (map encode gs) \<and> told T gs" for i
  proof -
    obtain gs where gs: "sent_of (y_bridge ?s) i = sent_of (y_bridge s) i @ concat (map encode gs)" "list_all (tells_of T) gs"
      using bridge_speaks [OF assms(2,3) old(2), of ev] by (auto simp: bridge_acts_def speaks_def)
    then have "length (concat (map encode gs)) \<le> 65540"
      using assms(5) [unfolded sends_short_def, rule_format, of i] unfolding gs(1) by simp
    with gs told_short show ?thesis by blast
  qed
  have "\<exists>fs. sent_of (y_bridge ?s) i = concat (map encode fs) \<and> told T fs" for i
  proof -
    obtain fs gs where "sent_of (y_bridge s) i = concat (map encode fs)" "told T fs"
      "sent_of (y_bridge ?s) i = sent_of (y_bridge s) i @ concat (map encode gs)" "told T gs"
      using old(3) grows by blast
    then show ?thesis by (intro exI [of _ "fs @ gs"]) simp
  qed
  moreover have "reading T ?s k" for k
  proof (cases "y_link s k")
    case None
    then show ?thesis using old(4) [of k] by (simp add: reading_def bridge_acts_def)
  next
    case (Some i)
    then obtain fs1 fs2 where h: "sent_of (y_bridge s) i = concat (map encode (fs1 @ fs2))" "told T (fs1 @ fs2)"
      "y_down s i = concat (map encode fs1) @ w_decoder (cn_worker (y_console s k))"
      "prefix (w_decoder (cn_worker (y_console s k))) (concat (map encode fs2))"
      using old(4) [of k] unfolding reading_def Some option.case by blast
    obtain gs where g: "sent_of (y_bridge ?s) i = sent_of (y_bridge s) i @ concat (map encode gs)" "told T gs"
      using grows by blast
    have same: "y_link ?s = y_link s" "y_down ?s = y_down s" "y_console ?s = y_console s" by (simp_all add: bridge_acts_def)
    show ?thesis unfolding reading_def same Some option.case
      using h g by (intro exI [of _ fs1] exI [of _ "fs2 @ gs"]) (auto intro: prefix_prefix)
  qed
  moreover have "cached T (s_host (y_bridge ?s))"
    using bridge_caches [OF old(2) assms(4)] by (simp add: bridge_acts_def)
  ultimately show ?thesis using old(1,5,6)
    unfolding shows_only_def by (simp add: bridge_acts_def link_ok_def)
qed

section \<open>A console acts\<close>

lemma console_fields [simp]:
  "y_bridge (console_acts Q srt S k ev s) = y_bridge s" "y_down (console_acts Q srt S k ev s) = y_down s"
  "y_owner (console_acts Q srt S k ev s) = y_owner s" "y_robot (console_acts Q srt S k ev s) = y_robot s"
  "y_console (console_acts Q srt S k ev s) = (y_console s)(k := console_step Q srt S (y_console s k) ev)"
  "y_link (console_acts Q srt S k ev s) = (if dials (y_console s k) ev then (y_link s)(k := None) else y_link s)"
  by (simp_all add: console_acts_def Let_def)

text \<open>A step keeps what the operator sees among the texts, and what the worker has heard.\<close>

lemma console_step_faces:
  assumes "faces Q T (cn_ctl c)" and "heard Q T (cn_worker c)" and "\<forall>d \<in> T. has_members Q d"
  shows "faces Q T (cn_ctl (console_step Q srt S c ev))"
proof (cases ev)
  case (User a)
  then show ?thesis using assms(1) by (simp add: faces_def user_faces)
next
  case ReconnectTimeout
  then show ?thesis using assms(1) by (simp add: faces_def timer_faces)
next
  case DeliverSignal
  show ?thesis
  proof (cases "w_out (cn_worker c)")
    case (Cons sg sgs)
    have "faces Q T (on_signal Q srt sg (cn_ctl c))"
      using assms(2) Cons by (intro signal_faces [OF assms(1,3)]) (auto simp: heard_def)
    with Cons DeliverSignal show ?thesis by simp
  qed (use assms(1) DeliverSignal in simp)
qed (use assms(1) in \<open>simp_all split: list.split\<close>)

lemma heard_less: "heard Q T w0 \<Longrightarrow> reads_nothing w0 w \<Longrightarrow> heard Q T w"
  by (auto simp: heard_def reads_nothing_def)

lemma console_step_quiet:
  assumes "heard Q T (cn_worker c)" and "\<And>so. ev \<noteq> Loop_Event (SockReadyRead so)"
  shows "heard Q T (cn_worker (console_step Q srt S c ev))"
    and "w_decoder (cn_worker (console_step Q srt S c ev)) = (if dials c ev then [] else w_decoder (cn_worker c))"
proof -
  have "heard Q T (cn_worker (console_step Q srt S c ev)) \<and>
    w_decoder (cn_worker (console_step Q srt S c ev)) = (if dials c ev then [] else w_decoder (cn_worker c))"
  proof (cases ev)
    case DeliverCall
    show ?thesis
    proof (cases "k_calls (cn_ctl c)")
      case (Cons call calls)
      show ?thesis
      proof (cases "\<exists>h p. call = StartWorker h p")
        case True
        then obtain h p where "call = StartWorker h p" by blast
        with Cons DeliverCall assms(1) connect_reads(2) show ?thesis
          by (fastforce simp: dials_def connect_reads(1) heard_def)
      next
        case False
        then have r: "reads_nothing (cn_worker c) (do_call Q S call (cn_worker c))" by (intro call_reads) simp
        have "\<not> dials c DeliverCall" using False Cons by (simp add: dials_def split: worker_call.split)
        with Cons DeliverCall r heard_less [OF assms(1) r] show ?thesis by (simp add: reads_nothing_def)
      qed
    qed (use assms(1) DeliverCall in \<open>simp add: dials_def\<close>)
  next
    case DeliverSignal
    then show ?thesis using assms(1) by (auto simp: heard_def split: list.split)
  next
    case (Loop_Event e)
    then have r: "reads_nothing (cn_worker c) (event_loop Q S e (cn_worker c))" using assms(2) by (intro loop_reads) simp
    with Loop_Event heard_less [OF assms(1) r] show ?thesis by (simp add: reads_nothing_def)
  qed (use assms(1) in \<open>simp_all add: dials_def\<close>)
  then show "heard Q T (cn_worker (console_step Q srt S c ev))"
    and "w_decoder (cn_worker (console_step Q srt S c ev)) = (if dials c ev then [] else w_decoder (cn_worker c))" by blast+
qed

lemma console_acts_shows:
  assumes "shows_only Q T s" and "\<forall>d \<in> T. has_members Q d" and "\<And>so. ev \<noteq> Loop_Event (SockReadyRead so)"
  shows "shows_only Q T (console_acts Q srt S k ev s)"
proof -
  let ?s = "console_acts Q srt S k ev s" and ?c = "y_console s k"
  note old = shows_onlyD [OF assms(1)]
  have "link_ok ?s" using old(1) by (auto simp: link_ok_def split: if_splits)
  moreover have "reading T ?s k'" for k'
  proof (cases "k' = k \<and> dials ?c ev")
    case True
    then show ?thesis using console_step_quiet(2) [OF old(5) [of k] assms(3), where srt = srt and S = S] by (simp add: reading_def)
  next
    case False
    have "reading T ?s k' = reading T s k'"
      using False console_step_quiet(2) [OF old(5) [of k] assms(3), where srt = srt and S = S] by (intro reading_same) auto
    then show ?thesis using old(4) by simp
  qed
  moreover have "heard Q T (cn_worker (y_console ?s k')) \<and> faces Q T (cn_ctl (y_console ?s k'))" for k'
    using console_step_quiet(1) [OF old(5) [of k] assms(3), where srt = srt and S = S] console_step_faces [OF old(6) [of k] old(5) [of k] assms(2), where srt = srt and S = S and ev = ev] old(5,6)
    by simp
  ultimately show ?thesis using old(2,3) unfolding shows_only_def by simp
qed

section \<open>A console reads\<close>

text \<open>The frames that the console decodes from what has arrived are frames that were sent.\<close>

lemma frames_read:
  assumes "list_all frame_ok fs" and "prefix q (concat (map encode fs))"
  obtains fsA fsB r where "fs = fsA @ fsB" and "q = concat (map encode fsA) @ r" and "ui_drain q = (map ui_frame_of fsA, r)"
proof -
  let ?g = "ui_frame_of \<lparr>ftype = 0, fflags = 0, fseq = 0, fpayload = []\<rparr>"
  have enc: "map ui_encode (map ui_frame_of gs) = map encode gs" for gs by (simp add: ui_encode_eq)
  have g: "ui_frame_ok ?g" by (simp add: ui_frame_ok_eq frame_ok_def)
  have ok: "list_all ui_frame_ok (map ui_frame_of fs)" using assms(1) by (simp add: list_all_iff ui_frame_ok_eq)
  have e: "strict_prefix [] (ui_encode ?g)" using ui_codec.enc_nonempty [of ?g] by (simp add: strict_prefix_def)
  have "prefix q (concat (map ui_encode (map ui_frame_of fs)) @ [])" using assms(2) unfolding enc by simp
  from ui_codec.drain_prefix [OF ok g e this] obtain us1 us2 r where d: "map ui_frame_of fs = us1 @ us2"
    "q = concat (map ui_encode us1) @ r" "ui_drain q = (us1, r)" by blast
  from d(1) obtain fsA fsB where "fs = fsA @ fsB" "us1 = map ui_frame_of fsA" by (auto simp: map_eq_append_conv)
  with d(2,3) enc that show thesis by metis
qed

lemma reads_shows:
  assumes "shows_only Q T s" and "\<forall>d \<in> T. has_members Q d" and "y_link s k = Some i" and "i < length (s_objs (y_bridge s))"
    and "so_read_all S so = (data, so')" and "prefix (y_down s i @ data) (c_sent (client_of (y_bridge s) i))"
  shows "shows_only Q T
    (console_acts Q srt S k (Loop_Event (SockReadyRead so)) (s\<lparr>y_down := (y_down s)(i := y_down s i @ data)\<rparr>))"
proof -
  let ?ev = "Loop_Event (SockReadyRead so)" and ?s0 = "s\<lparr>y_down := (y_down s)(i := y_down s i @ data)\<rparr>"
  let ?s = "console_acts Q srt S k ?ev ?s0" and ?w = "cn_worker (y_console s k)"
  let ?w' = "cn_worker (console_step Q srt S (y_console s k) ?ev)"
  note old = shows_onlyD [OF assms(1)]
  obtain fs1 fs2 where h: "sent_of (y_bridge s) i = concat (map encode (fs1 @ fs2))" "told T (fs1 @ fs2)"
    "y_down s i = concat (map encode fs1) @ w_decoder ?w"
    using old(4) [of k] unfolding reading_def assms(3) option.case by blast
  have pre: "prefix (w_decoder ?w @ data) (concat (map encode fs2))"
    using assms(4,6) h(1,3) by (simp add: sent_of_def)
  have ok: "list_all frame_ok fs2" using h(2) by (simp add: told_def)
  obtain fsA fsB r where d: "fs2 = fsA @ fsB" "w_decoder ?w @ data = concat (map encode fsA) @ r"
    "ui_drain (w_decoder ?w @ data) = (map ui_frame_of fsA, r)" by (rule frames_read [OF ok pre])
  have rest: "prefix r (concat (map encode fsB))" using pre by (simp add: d(1,2))
  have "list_all (tells_of T) fsA" using h(2) by (simp add: d(1) told_def)
  then have w: "heard Q T ?w' \<and> w_decoder ?w' = r"
    using read_heard [of Q T "?w\<lparr>w_socket := so\<rparr>" S data so' fsA r] old(5) [of k] assms(5) d(3) by (simp add: heard_def)
  have "reading T ?s k'" for k'
  proof (cases "k' = k")
    case True
    have same: "y_link ?s k = Some i" "w_decoder (cn_worker (y_console ?s k)) = r" "y_down ?s i = y_down s i @ data"
      "y_bridge ?s = y_bridge s" using assms(3) w by (simp_all add: dials_def)
    show ?thesis unfolding True reading_def same option.case
      using h rest d(1,2) by (intro exI [of _ "fs1 @ fsA"] exI [of _ fsB]) simp
  next
    case False
    have "y_link s k' \<noteq> Some i" using False old(1) assms(3) unfolding link_ok_def by metis
    then have "reading T ?s k' = reading T s k'" using False
      by (auto simp: reading_def dials_def split: option.split)
    then show ?thesis using old(4) by simp
  qed
  moreover have "faces Q T (cn_ctl (y_console ?s k'))" for k'
    using old(6) console_step_faces [OF old(6) [of k] old(5) [of k] assms(2), where srt = srt and S = S and ev = ?ev]
    by simp
  moreover have "heard Q T (cn_worker (y_console ?s k'))" for k' using old(5) w by simp
  moreover have "link_ok ?s" using old(1) by (simp add: link_ok_def dials_def)
  ultimately show ?thesis using old(2,3) unfolding shows_only_def by simp
qed

lemma connects_shows:
  assumes "shows_only Q T s" and "\<forall>d \<in> T. has_members Q d" and "i < length (y_owner s)" "y_owner s ! i = k"
    and "y_link s k = None" "y_down s i = []"
  shows "shows_only Q T (console_acts Q srt S k (Loop_Event (SockConnected so)) (s\<lparr>y_link := (y_link s)(k \<mapsto> i)\<rparr>))"
proof -
  let ?s = "s\<lparr>y_link := (y_link s)(k \<mapsto> i)\<rparr>"
  note old = shows_onlyD [OF assms(1)]
  have "reading T ?s k'" for k'
  proof (cases "k' = k")
    case True
    obtain fs where "sent_of (y_bridge s) i = concat (map encode fs)" "told T fs" using old(3) by blast
    moreover have "w_decoder (cn_worker (y_console s k)) = []" using old(4) [of k] assms(5) by (simp add: reading_def)
    ultimately have "\<exists>fs1 fs2. sent_of (y_bridge s) i = concat (map encode (fs1 @ fs2)) \<and> told T (fs1 @ fs2) \<and>
      y_down s i = concat (map encode fs1) @ w_decoder (cn_worker (y_console s k)) \<and>
      prefix (w_decoder (cn_worker (y_console s k))) (concat (map encode fs2))"
      using assms(6) by (intro exI [of _ "[]"] exI [of _ fs]) simp
    with True show ?thesis by (simp add: reading_def)
  next
    case False
    then have "reading T ?s k' = reading T s k'" by (cases "y_link s k'") (simp_all add: reading_def)
    then show ?thesis using old(4) by simp
  qed
  moreover have "link_ok ?s" using old(1) assms(3,4) by (simp add: link_ok_def)
  ultimately have "shows_only Q T ?s" using old(2,3,5,6) unfolding shows_only_def by simp
  then show ?thesis using assms(2) by (rule console_acts_shows) simp
qed

section \<open>Every run\<close>

lemma outbox_grows:
  assumes "sys_step Q srt S E P s s'"
  shows "posts E (y_robot s) (y_robot s')"
  using assms by (induction rule: sys_step.induct) (auto simp: bridge_acts_def dest: robot_posts)

lemma posts_more:
  assumes "posts E r0 r" and "posts E r r'"
  shows "posts E r0 r'"
  using assms by (fastforce simp: posts_def)

lemma reaches_posts:
  "sys_reaches Q srt S E P s0 s \<Longrightarrow> posts E (y_robot s0) (y_robot s)"
  by (induction rule: sys_reaches.induct) (auto intro: posts_more outbox_grows)

lemma step_shows:
  assumes "sys_step Q srt S E P s s'" and "sends_short s s'" and "shows_only Q T s" and "sends_whole P" and "relays T"
    and "\<forall>d \<in> T. has_members Q d" and "\<forall>d. State_Msg d \<in> set (outbox (y_robot s)) \<longrightarrow> d \<in> T"
  shows "shows_only Q T s'"
  using assms
proof (induction rule: sys_step.induct)
  case (to_bridge d topic s ev)
  then show ?case
    by (intro bridge_acts_shows) (auto simp: bridge_hears_def robot_published_def split: if_splits message.splits)
next
  case (user_acts s k a)
  have "shows_only Q T (s\<lparr>y_clicks := y_clicks s @ [(k, a)]\<rparr>)" using user_acts.prems(2) by (rule shows_only_cong) simp_all
  then show ?case using user_acts.prems(5) by (rule console_acts_shows) simp
next
  case (connected i s k so)
  then show ?case by (intro connects_shows)
next
  case (downlink s k i so data so')
  then show ?case by (intro reads_shows)
next
  case (console_alone ev k s)
  then show ?case by (intro console_acts_shows) auto
next
  case (uplink i s data)
  let ?s = "bridge_acts P (Recv i (int (length data)) data) s"
  have "sends_short s ?s" using uplink.prems(1) by (simp add: sends_short_def)
  then have "shows_only Q T ?s" using uplink.prems by (intro bridge_acts_shows) auto
  then show ?case by (rule shows_only_cong) simp_all
next
  case (bridge_alone ev s)
  then show ?case by (intro bridge_acts_shows) auto
qed (auto intro: bridge_acts_shows elim: shows_only_cong)

text \<open>A run that has sent each client no more than a frame holds is one.\<close>

lemma step_sends:
  assumes "sys_step Q srt S E P s s'" and "sends_whole P"
  shows "length (sent_of (y_bridge s) i) \<le> length (sent_of (y_bridge s') i)"
proof -
  have "length (sent_of b i) \<le> length (sent_of (bridge_step P b ev) i)" for b ev
  proof -
    have "speaks UNIV b (bridge_step P b ev)" by (rule bridge_speaks [OF assms(2)]) (simp_all add: relays_def cached_def)
    then show ?thesis unfolding speaks_def by (metis le_add1 length_append)
  qed
  with assms(1) show ?thesis by (induction rule: sys_step.induct) (simp_all add: bridge_acts_def)
qed

lemma little_sent:
  assumes "sys_reaches Q srt S E P s0 s" and "sends_whole P" and "\<forall>i. length (sent_of (y_bridge s) i) \<le> 65540"
  shows "short_reaches Q srt S E P s0 s"
  using assms(1,3)
proof (induction rule: sys_reaches.induct)
  case (further s s')
  have less: "\<forall>i. length (sent_of (y_bridge s) i) \<le> 65540"
    using step_sends [OF further.hyps(2) assms(2)] further.prems order_trans by blast
  have "sends_short s s'" unfolding sends_short_def using further.prems trans_le_add2 by blast
  with further.IH [OF less] further.hyps(2) show ?case by (rule short_further)
qed (rule short_here)

text \<open>The texts of a run: those that the robot has published by its end, and those of the bridge for no robot.\<close>

definition texts_of :: "robot \<Rightarrow> string set" where
  "texts_of r = {d. State_Msg d \<in> set (outbox r)} \<union> range offline_json"

lemma texts_relayed:
  assumes "sys_reaches Q srt S E P (init_system so) s"
  shows "relays (texts_of (y_robot s))"
proof -
  have "posts E init_robot (y_robot s)" using reaches_posts [OF assms] by (simp add: init_system_def)
  then have "\<exists>r. d = build_state_json E r" if "State_Msg d \<in> set (outbox (y_robot s))" for d
    using that by (auto simp: posts_def init_robot_def)
  then show ?thesis by (fastforce simp: relays_def texts_of_def relayed_as_is)
qed

lemma run_shows:
  assumes "short_reaches Q srt S E P (init_system so) s" and "sends_whole P" and "relays T"
    and "\<forall>d \<in> T. has_members Q d" and "\<forall>d. State_Msg d \<in> set (outbox (y_robot s)) \<longrightarrow> d \<in> T"
  shows "shows_only Q T s"
  using assms(1,5)
proof (induction rule: short_reaches.induct)
  case (short_further s s')
  have "set (outbox (y_robot s)) \<subseteq> set (outbox (y_robot s'))"
    using outbox_grows [OF short_further.hyps(2)] by (auto simp: posts_def)
  with short_further.prems have old: "\<forall>d. State_Msg d \<in> set (outbox (y_robot s)) \<longrightarrow> d \<in> T" by blast
  show ?case by (rule step_shows [OF short_further.hyps(2,3) short_further.IH [OF old] assms(2-4) old])
qed (rule init_shows_only)

text \<open>C11: A console never invents a state. In every state of the whole system that is reached without a step that
  sends a client more than a frame holds and without a frame that is cut (each send takes its frame whole or
  fails before its first byte), whatever the order of the steps, however many consoles there are and
  however the connections cut the bytes: what a console shows of the robot (its connection, mode and phase, the
  emergency stop, whether control is enabled, and whether there is a robot) is that there is none, or else
  is exactly that of one state of the robot whose text the robot has published. The texts of the
  run's robot and of the offline state are those that the console's JSON library reads.\<close>

theorem consoles_show_published:
  assumes "short_reaches Q srt S E P (init_system so) s" and "sends_whole P"
    and "\<forall>t. json_reads_state Q (offline_json t) ''OFFLINE'' ''TELEOP'' ''BOOT'' False False"
    and "\<forall>d. State_Msg d \<in> set (outbox (y_robot s)) \<longrightarrow> (\<exists>r. d = build_state_json E r \<and>
      json_reads_state Q d (conn_str r) (mode r) (phase r) (estop r) (control_enabled r))"
  shows "displays (k_view (cn_ctl (y_console s k))) ''OFFLINE'' ''TELEOP'' ''BOOT'' False False False \<or>
    (\<exists>r. State_Msg (build_state_json E r) \<in> set (outbox (y_robot s)) \<and>
       displays (k_view (cn_ctl (y_console s k))) (conn_str r) (mode r) (phase r) (estop r) (control_enabled r)
         (control_enabled r \<or> conn_str r \<noteq> ''OFFLINE'' \<and> phase r \<noteq> ''BOOT''))"
proof -
  let ?T = "texts_of (y_robot s)" and ?v = "k_view (cn_ctl (y_console s k))"
  have members: "has_members Q d" if "json_reads_state Q d c m p e ce" for d c m p e ce
    using that by (simp add: json_reads_state_def has_members_def Let_def)
  have face: "face_of Q d = (c, m, p, e, ce, ce \<or> c \<noteq> ''OFFLINE'' \<and> p \<noteq> ''BOOT'')" if "json_reads_state Q d c m p e ce" for d c m p e ce
    using that by (auto simp: json_reads_state_def face_of_def robot_speaks_def Let_def)
  have "has_members Q (offline_json t)" for t by (rule members [OF assms(3) [rule_format]])
  moreover have "has_members Q d" if "State_Msg d \<in> set (outbox (y_robot s))" for d
    using assms(4) that members by blast
  ultimately have "\<forall>d \<in> ?T. has_members Q d" by (auto simp: texts_of_def)
  then have "shows_only Q ?T s"
    by (intro run_shows [OF assms(1,2) texts_relayed [OF short_reaches_all [OF assms(1)]]]) (auto simp: texts_of_def)
  then have "faces Q ?T (cn_ctl (y_console s k))" by (rule shows_onlyD(6))
  then consider "face ?v = no_robot" | t where "face ?v = face_of Q (offline_json t)"
    | d where "State_Msg d \<in> set (outbox (y_robot s))" "face ?v = face_of Q d"
    by (auto simp: faces_def texts_of_def)
  then show ?thesis
  proof cases
    case 1
    then show ?thesis by (simp add: face_def no_robot_def displays_def)
  next
    case 2
    then show ?thesis using face [OF assms(3) [rule_format, of t]] by (simp add: face_def displays_def)
  next
    case (3 d)
    then obtain r where "d = build_state_json E r" "json_reads_state Q d (conn_str r) (mode r) (phase r) (estop r) (control_enabled r)"
      using assms(4) by blast
    with 3 face [OF this(2)] show ?thesis by (auto simp: face_def displays_def)
  qed
qed

end
