(* ===== verification/View_Demo.thy ===== *)
theory View_Demo
  imports System_View
begin

text \<open>
  The run of \<open>System_Demo\<close>, continued: the robot has published that it is stopped, the bridge relays
  it, and the console shows it.
\<close>

section \<open>The robot\<close>

lemma publish_outbox: "state_pub s \<Longrightarrow> outbox (publish_state E s) = outbox s @ [State_Msg (build_state_json E s)]"
  by (simp add: publish_state_def)

definition tells_state :: "robot \<Rightarrow> string \<Rightarrow> string \<Rightarrow> bool \<Rightarrow> string \<Rightarrow> bool" where
  "tells_state r conn ph est d \<longleftrightarrow> d = build_state_json any_env r \<and> conn_str r = conn \<and> mode r = ''TELEOP'' \<and>
     phase r = ph \<and> estop r = est \<and> \<not> control_enabled r"

lemma configured_tells:
  "\<exists>r. outbox configured_robot = [State_Msg (state_text configured_robot)] \<and>
     tells_state r ''OFFLINE'' ''INITIALIZING'' False (state_text configured_robot)"
proof -
  obtain r where c: "configured_robot = publish_state any_env r" and r: "state_pub r" "outbox r = []" "conn_str r = ''OFFLINE''"
    "mode r = ''TELEOP''" "phase r = ''INITIALIZING''" "\<not> estop r" "\<not> control_enabled r"
    by (rule that [OF configured_robot_def [unfolded on_configure_def Let_def]])
      (simp_all add: conn_str_def set_node_def clear_faults_def init_robot_def)
  have "outbox configured_robot = [State_Msg (build_state_json any_env r)]" using r(2) by (simp add: c publish_outbox r(1))
  then show ?thesis using r by (auto simp: state_text_def tells_state_def)
qed

text \<open>Its text fits a frame.\<close>

lemma point_frac_length: "length (point_frac s) \<le> Suc (length s)"
proof -
  have "length (strip_zeros s) \<le> length s" using length_dropWhile_le [of _ "rev s"] by (simp add: strip_zeros_def)
  then show ?thesis by (simp add: point_frac_def Let_def)
qed

lemma dec_pad_length: "0 < k \<Longrightarrow> n < 10 ^ k \<Longrightarrow> length (dec_pad k n) = k"
  using dec_nat_length [of k n] by (simp add: dec_pad_def Let_def)

lemma demo_values: "D 125 100 = Fp False 4608308318706860032" "D 100 (Suc 0) = Fp False 4636737291354636288"
  by (rule D_round, (subst round_mag_eval [OF _ refl refl refl refl refl]; simp add: ratio_log_def nbits_eval))+

lemma demo_ratio: "abs_num (D 125 100) = 5629499534213120" "abs_den (D 125 100) = 4503599627370496"
  "abs_num (D 100 (Suc 0)) = 7036874417766400" "abs_den (D 100 (Suc 0)) = 70368744177664"
  by (simp_all add: demo_values abs_num_def abs_den_def fp_man_def fp_exp_def)

lemma demo_log: "log10_up 5629499534213120 4503599627370496 = 0" "log10_up 7036874417766400 70368744177664 = 2"
  by (subst log10_up.simps, simp)+

lemma demo_number_texts:
  "length (to_string_g (D 0 (Suc 0))) \<le> 20" "length (to_string_g (D 125 100)) \<le> 20" "length (to_string_g (D 100 (Suc 0))) \<le> 20"
proof -
  show "length (to_string_g (D 0 (Suc 0))) \<le> 20" by (simp add: to_string_g_def D_values is_nan_def is_inf_def sign_str_def)
  have plain: "\<not> is_nan binary64 (D 125 100)" "\<not> is_inf binary64 (D 125 100)" "fmag (D 125 100) \<noteq> 0" "sign_str (D 125 100) = []"
    "\<not> is_nan binary64 (D 100 (Suc 0))" "\<not> is_inf binary64 (D 100 (Suc 0))" "fmag (D 100 (Suc 0)) \<noteq> 0" "sign_str (D 100 (Suc 0)) = []"
    by (simp_all add: demo_values is_nan_def is_inf_def sign_str_def)
  have "length (dec_nat 1) \<le> 1" "length (dec_nat 100) \<le> 3" by (rule dec_nat_length; simp)+
  then show "length (to_string_g (D 125 100)) \<le> 20" "length (to_string_g (D 100 (Suc 0))) \<le> 20"
    using point_frac_length [of "dec_pad 5 25000"] point_frac_length [of "dec_pad 3 0"]
    by (simp_all add: to_string_g_def plain demo_ratio dec_exponent_def demo_log div_rne_def dec_pad_length)
qed


text \<open>The other fields, as they are from the configuration on.\<close>

definition plain_state :: "robot \<Rightarrow> bool" where
  "plain_state r \<longleftrightarrow> nodes r = [\<lparr>nh_name = ''fake_robot'', nh_status = ''OK''\<rparr>, \<lparr>nh_name = ''bridge'', nh_status = ''OK''\<rparr>] \<and>
     pose_x r = D 125 100 \<and> pose_y r = D 0 1 \<and> pose_yaw r = D 0 1 \<and> battery r = D 100 1 \<and> task_id r = [] \<and> task_type r = [] \<and>
     task_status r = ''NONE'' \<and> nav_status r = ''IDLE'' \<and> nav_path r = [] \<and> nav_idx r = 0 \<and> trail r = [] \<and>
     goal_x r = D 0 1 \<and> goal_y r = D 0 1 \<and> track_err r = D 0 1 \<and> track_err_max r = D 0 1"

lemma clock_length: "length (clock_str E k) \<le> 20"
proof -
  have "unat (wall E k) < 2 ^ 64" using unsigned_less [of "wall E k"] by simp
  also have "(2::nat) ^ 64 \<le> 10 ^ 20" by simp
  finally show ?thesis unfolding clock_str_def by (intro dec_nat_length) simp_all
qed

definition demo_fault :: fault_item where
  "demo_fault = \<lparr>f_code = ''E_ESTOP_ACTIVE'', f_level = ''WARN'', f_node = ''fake_robot'',
     f_detail = ''software estop engaged'', f_active = True\<rparr>"

lemma plain_length:
  assumes "plain_state r" and "faults r = [demo_fault]" and "mode r = ''TELEOP''" and "phase r = ''ESTOP''" and "estop r"
  shows "length (build_state_json any_env r) \<le> 60000"
proof -
  have zero: "to_string_g (D 0 (Suc 0)) = ''0''" by (simp add: to_string_g_def D_values is_nan_def is_inf_def sign_str_def)
  have "length (dec_nat 0) \<le> 1" by (rule dec_nat_length; simp)
  with demo_number_texts clock_length [of any_env "reads r"] clock_length [of any_env "Suc (reads r)"]
    clock_length [of any_env "Suc (Suc (reads r))"] clock_length [of any_env "Suc (Suc (Suc (reads r)))"]
  show ?thesis using assms
    by (simp add: build_state_json_def plain_state_def demo_fault_def commas_def raw_field_def
        str_field_def quoted_def conn_str_def node_json_def fault_json_def nav_json_def path_to_json_def path_to_flat_json_def
        null_or_str_def bool_str_def zero upt_conv_Cons esc_def dq_def bs_def enumerate_eq_zip)
qed

lemma stopped_tells:
  "\<exists>res r. outbox stopped_robot = outbox configured_robot @ [Result_Msg res, State_Msg (state_text stopped_robot)] \<and>
     tells_state r ''ESTOP'' ''ESTOP'' True (state_text stopped_robot) \<and> length (state_text stopped_robot) \<le> 60000"
proof -
  have pub: "state_pub configured_robot" "result_pub configured_robot" "mode configured_robot = ''TELEOP''" "plain_state configured_robot"
    "faults configured_robot = []"
    by (simp_all add: configured_robot_def on_configure_def publish_state_def set_node_def clear_faults_def init_robot_def plain_state_def Let_def)
  let ?res = "result_json 2 ''CMD_ESTOP'' True ''ACCEPTED'' [] []"
  obtain r where c: "stopped_robot = publish_state any_env r" and r: "state_pub r" "outbox r = outbox configured_robot @ [Result_Msg ?res]"
    "conn_str r = ''ESTOP''" "mode r = ''TELEOP''" "phase r = ''ESTOP''" "estop r" "\<not> control_enabled r" "plain_state r" "faults r = [demo_fault]"
    by (rule that [OF stopped_robot_def [unfolded cmd_estop_def Let_def]])
      (simp_all add: conn_str_def accept_def publish_cmd_result_def fail_task_def add_fault_def plain_state_def demo_fault_def pub(1-3,5) pub(4) [unfolded plain_state_def])
  have "outbox stopped_robot = outbox configured_robot @ [Result_Msg ?res, State_Msg (build_state_json any_env r)]"
    using r(2) by (simp add: c publish_outbox r(1))
  then show ?thesis using r plain_length [OF r(8,9,4,5,6)]
    by (intro exI [of _ ?res] exI [of _ r]) (simp add: state_text_def tells_state_def)
qed

text \<open>What the JSON library reads in the texts of the run.\<close>

lemma demo_reads:
  "json_reads_state demo_qt (state_text stopped_robot) ''ESTOP'' ''TELEOP'' ''ESTOP'' True False"
  "json_reads_state demo_qt (state_text configured_robot) ''OFFLINE'' ''TELEOP'' ''INITIALIZING'' False False"
  "json_reads_state demo_qt (offline_json t) ''OFFLINE'' ''TELEOP'' ''BOOT'' False False"
proof -
  have reads: "json_reads_state (reading_qt f) x conn ''TELEOP'' ph est False" if "f x = robot_members conn ph est" for f x conn ph est
    using that by (simp add: json_reads_state_def reading_qt_def robot_members_def variant_map_def has_def val_def tree_qt_def Let_def)
  obtain r1 r2 where "tells_state r1 ''OFFLINE'' ''INITIALIZING'' False (state_text configured_robot)"
    "tells_state r2 ''ESTOP'' ''ESTOP'' True (state_text stopped_robot)" using configured_tells stopped_tells by blast
  then have r: "state_text configured_robot = build_state_json any_env r1" "\<not> estop r1"
    "state_text stopped_robot = build_state_json any_env r2" "estop r2" by (simp_all add: tells_state_def)
  have "build_state_json any_env r1 \<noteq> build_state_json any_env r2"
    using bridge_reads_estop [of any_env r1] bridge_reads_estop [of any_env r2] r(2,4) by auto
  then show "json_reads_state demo_qt (state_text stopped_robot) ''ESTOP'' ''TELEOP'' ''ESTOP'' True False"
    "json_reads_state demo_qt (state_text configured_robot) ''OFFLINE'' ''TELEOP'' ''INITIALIZING'' False False"
    "json_reads_state demo_qt (offline_json t) ''OFFLINE'' ''TELEOP'' ''BOOT'' False False"
    unfolding demo_qt_def by (intro reads; simp add: r(1,3) texts_differ)+
qed

section \<open>The bridge\<close>

definition informed :: "(bridge, wait) server" where
  "informed = demo_bridge_acts (Robot_State (state_text stopped_robot)) stopping"

definition relaying :: "(bridge, wait) server" where
  "relaying = demo_bridge_acts Delta_Timer informed"

lemma relaying_sent:
  "length (s_objs relaying) = 1" "c_sent (client_of relaying 0) = greeting @ encode (state_frame (state_text stopped_robot))"
proof -
  let ?d = "state_text stopped_robot"
  have i: "awaits True greeting [] informed" "b_state_json (s_host informed) = ?d" "b_last_state_ms (s_host informed) = 100000"
    using awaits_fields [OF demo_bridge_run(7)]
    by (simp_all add: informed_def bridge_step_def ros_state_def s_now_def on_robot_state_def demo_platform_def awaits_def client_of_def)
  note f = awaits_fields [OF i(1)]
  have d: "inject_runtime_fields ?d ''OFFLINE'' = ?d" using stopped_tells by (auto simp: tells_state_def relayed_as_is)
  have p: "sends_progress demo_platform" by (simp add: sends_progress_def demo_platform_def)
  let ?s = "informed\<lparr>s_reads := Suc (s_reads informed)\<rparr>"
  have "call_state demo_platform node_callbacks informed = (?d, ?s)"
    using i(2,3) by (simp add: call_state_def node_callbacks_def state_for_tcp_def robot_state_fresh_def HB_TIMEOUT_MS_def demo_platform_def)
  then have b: "broadcast_state_delta demo_platform node_callbacks informed = send_to_all demo_platform MSG_STATE_DELTA 0 ?d ?s"
    using f(1) d by (simp add: broadcast_state_delta_def)
  then show "length (s_objs relaying) = 1" using f(3) by (simp add: relaying_def bridge_step_def delta_timer_cb_def Let_def)
  have "c_sent (client_of relaying 0) = c_sent (client_of (send_to_all demo_platform MSG_STATE_DELTA 0 ?d ?s) 0)"
    by (simp add: relaying_def bridge_step_def delta_timer_cb_def b client_of_def Let_def)
  also have "\<dots> = greeting @ encode (state_frame ?d)"
    using send_all_client [OF p, of ?s 0 MSG_STATE_DELTA 0 ?d] f
    by (simp add: client_of_def state_frame_def encode_def)
  finally show "c_sent (client_of relaying 0) = greeting @ encode (state_frame ?d)" .
qed

section \<open>The console\<close>

definition arriving :: bytes where
  "arriving = encode demo_snapshot @ encode (state_frame (state_text stopped_robot))"

definition reading_console :: demo_console where
  "reading_console = demo_acts (Loop_Event (SockReadyRead (ConnectedState, arriving))) clicked"

definition showing_console :: demo_console where
  "showing_console = demo_acts DeliverSignal (demo_acts DeliverSignal (demo_acts DeliverSignal reading_console))"

lemma arriving_drained:
  "ui_drain arriving = (map ui_frame_of [demo_snapshot, state_frame (state_text stopped_robot)], [])"
proof -
  have nil: "ui_drain [] = ([], [])" by (subst ui_drain.simps) (simp add: ui_decoder_next_def)
  have "length (state_text stopped_robot) \<le> 60000" using stopped_tells by blast
  then have "frame_ok demo_snapshot" "frame_ok (state_frame (state_text stopped_robot))"
    using offline_json_length [of 100000] by (simp_all add: frame_ok_def demo_snapshot_def state_frame_def)
  then show ?thesis
    using ui_codec.drain_frame [of "ui_frame_of demo_snapshot" "encode (state_frame (state_text stopped_robot))"]
      ui_codec.drain_frame [of "ui_frame_of (state_frame (state_text stopped_robot))" "[]"] nil
    by (simp add: arriving_def ui_frame_ok_eq ui_encode_eq)
qed

lemma console_shows:
  "displays (k_view (cn_ctl showing_console)) ''ESTOP'' ''TELEOP'' ''ESTOP'' True False True"
  "w_tx (cn_worker reading_console) = w_tx (cn_worker clicked)"
proof -
  let ?m = "\<lambda>x. variant_map demo_qt (j_object demo_qt x)"
  have app: "ui_decoder_append [] (Some x) = x" for x by (simp add: ui_decoder_append_def)
  have n: "has (j_object demo_qt x) ''nodes''" for x by (simp add: demo_qt_def reading_qt_def robot_members_def has_def)
  have "\<exists>n1 n2. w_out (cn_worker reading_console) =
      [WState (?m (offline_json 100000)), WNodes n1, WState (?m (state_text stopped_robot)), WNodes n2] \<and>
      w_tx (cn_worker reading_console) = w_tx (cn_worker clicked)"
    using demo_console(6,7)
    by (simp add: reading_console_def on_ready_read_def now_u64_def current_msecs_def app arriving_drained worker_frame_def n
        ui_frame_of_def demo_snapshot_def state_frame_def w_emit_def ui_MSG_HELLO_ACK_def ui_MSG_HEARTBEAT_def
        ui_MSG_STATE_SNAPSHOT_def ui_MSG_STATE_DELTA_def msg_defs Let_def)
  then show "w_tx (cn_worker reading_console) = w_tx (cn_worker clicked)"
    "displays (k_view (cn_ctl showing_console)) ''ESTOP'' ''TELEOP'' ''ESTOP'' True False True"
    using state_text_shown [OF demo_reads(1)] by (auto simp: showing_console_def)
qed

section \<open>The system\<close>

definition showing_system :: "(tree, sock_state \<times> bytes) system" where
  "showing_system = demo_system stopped_robot relaying showing_console (Some 0) [encode demo_hello, encode demo_stop]
     (encode demo_hello @ encode demo_stop) (encode (hello_ack 1) @ arriving) [UserConnect ''robot'' 8765, UserEstop ''operator''] 1"

lemma demo_view_run: "demo_reaches showing_system"
proof -
  let ?u = "UserConnect ''robot'' 8765" and ?e = "UserEstop ''operator''" and ?a = "encode (hello_ack 1)"
  let ?h = "encode demo_hello" and ?s = "encode demo_stop"
  let ?r = "Loop_Event (SockReadyRead (ConnectedState, arriving)) :: (sock_state \<times> bytes) console_event"
  have "state_text stopped_robot \<in> set (robot_published ''botcockpit/state'' stopped_robot)"
    using stopped_tells by (auto simp: robot_published_def)
  then have R1: "demo_reaches (demo_system stopped_robot informed clicked (Some 0) [?h, ?s] (?h @ ?s) ?a [?u, ?e] 1)"
    by (intro demo_more [OF demo_estop_run sys_step.to_bridge [where d = "state_text stopped_robot" and topic = "''botcockpit/state''"]])
      (simp_all add: stopped_system_def bridge_hears_def demo_bridge_goes informed_def)
  from demo_bridge_alone [OF R1, of Delta_Timer]
  have R2: "demo_reaches (demo_system stopped_robot relaying clicked (Some 0) [?h, ?s] (?h @ ?s) ?a [?u, ?e] 1)"
    by (simp add: relaying_def)
  have "demo_reaches (demo_system stopped_robot relaying reading_console (Some 0) [?h, ?s] (?h @ ?s) (?a @ arriving) [?u, ?e] 1)"
    using relaying_sent console_shows(2)
    by (intro demo_more [OF R2 sys_step.downlink [where k = 0 and i = 0 and so = "(ConnectedState, arriving)" and
        so' = "(ConnectedState, [])" and data = arriving]])
      (simp_all add: demo_updates demo_console_goes [where new = "[]"] reading_console_def greeting_def arriving_def del: console_step.simps)
  from demo_alone [OF demo_alone [OF demo_alone [OF this, of DeliverSignal "[]"], of DeliverSignal "[]"], of DeliverSignal "[]"]
  show ?thesis by (simp add: showing_system_def showing_console_def del: console_step.simps)
qed

lemma showing_short:
  "short_reaches demo_qt insertion_sort demo_socket any_env demo_platform (init_system (\<lambda>_. (UnconnectedState, []))) showing_system"
proof (rule little_sent [OF demo_view_run])
  show "sends_whole demo_platform" by (rule progress_sends_whole) (simp add: sends_progress_def demo_platform_def)
  have "length (dec_nat 100000) \<le> 6" by (rule dec_nat_length; simp)
  moreover have "length (state_text stopped_robot) \<le> 60000" using stopped_tells by blast
  ultimately have "length (c_sent (client_of relaying 0)) \<le> 65540"
    unfolding relaying_sent(2)
    by (simp add: greeting_def encode_def hello_ack_def hello_ok_json_def demo_snapshot_def offline_json_def state_frame_def
        quoted_def PROTO_VERSION_def SERVER_NAME_def)
  then show "\<forall>i. length (sent_of (y_bridge showing_system) i) \<le> 65540"
    using relaying_sent(1) by (simp add: sent_of_def showing_system_def less_Suc_eq)
qed

theorem consoles_show_published_witness:
  "v_estop (k_view (cn_ctl (y_console showing_system 0))) \<and>
   (\<exists>r. State_Msg (build_state_json any_env r) \<in> set (outbox (y_robot showing_system)) \<and> estop r \<and>
      displays (k_view (cn_ctl (y_console showing_system 0))) (conn_str r) ''TELEOP'' ''ESTOP'' True False True)"
proof -
  have p: "sends_whole demo_platform" by (rule progress_sends_whole) (simp add: sends_progress_def demo_platform_def)
  obtain res r1 r2 where out: "outbox stopped_robot =
      [State_Msg (state_text configured_robot), Result_Msg res, State_Msg (state_text stopped_robot)]"
    and r: "tells_state r1 ''OFFLINE'' ''INITIALIZING'' False (state_text configured_robot)"
      "tells_state r2 ''ESTOP'' ''ESTOP'' True (state_text stopped_robot)"
    using configured_tells stopped_tells by force
  have texts: "\<forall>d. State_Msg d \<in> set (outbox (y_robot showing_system)) \<longrightarrow> (\<exists>r. d = build_state_json any_env r \<and>
      json_reads_state demo_qt d (conn_str r) (mode r) (phase r) (estop r) (control_enabled r))"
    using r demo_reads(1,2) unfolding showing_system_def demo_fields out tells_state_def by force
  have shown: "displays (k_view (cn_ctl (y_console showing_system 0))) ''ESTOP'' ''TELEOP'' ''ESTOP'' True False True"
    using console_shows(1) by (simp add: showing_system_def)
  show ?thesis
    using consoles_show_published [OF showing_short p _ texts, of 0] demo_reads(3) shown by (auto simp: displays_def)
qed

end
