(* ===== verification/Spec2Isabelle.thy ===== *)
theory Spec2Isabelle
  imports Bridge_Main Main_Programs View_Demo
begin

text \<open>
  BotCockPit: a simulated robot, a bridge between ROS topics and TCP clients, and an operator
  console. This development models the C++ program part by part and proves what makes each part
  correct; this theory imports all of them and states the properties that span the console, the bridge
  and the robot.

  \<^bold>\<open>The program.\<close> The robot (\<open>sim/\<close>, class \<open>FakeRobot\<close>) is a lifecycle node that plans
  with A* on an occupancy grid, drives with pure pursuit in a 5 Hz step, takes commands as text on
  one topic and publishes its state and one result per command on two others. The bridge
  (\<open>bridge/\<close>, classes \<open>BridgeNode\<close> and \<open>TcpServer\<close>) accepts consoles over TCP, frames
  its messages (\<open>frame_codec.cpp\<close>), reads JSON fields by text search (\<open>json_util.cpp\<close>), forwards
  commands as envelopes, waits for results, and relays the state. The console (\<open>ui/\<close>) has its own
  copy of the codec, a worker thread that owns the socket (\<open>SocketWorker\<close>), and on the thread of
  the user interface a session (\<open>ConnectionController\<close>), the properties the QML shows
  (\<open>RobotState\<close>) and two table models.

  \<^bold>\<open>Theories, in the order of the calls.\<close>
  \<^item> \<open>Prelude\<close>: machine words, bytes and characters, runs of a component (the locale
    \<open>step_system\<close>: an invariant kept by every step holds after every run, and the run returns) and
    framed byte streams (the locale \<open>frame_stream\<close>).
  \<^item> \<open>Frame_Codec\<close> (\<open>bridge/src/frame_codec.cpp\<close>), \<open>Ui_Frame_Codec\<close>
    (\<open>ui/botcockpit/src/frame_codec.cpp\<close>): two codecs, each an interpretation of
    \<open>frame_stream\<close>; round trip, fragmentation, bounded buffer, equivalence.
  \<^item> \<open>Ieee_Float\<close>, \<open>C_Library\<close>: IEEE 754 arithmetic with rounding to nearest even, as
    the C++ operators on \<open>double\<close> and \<open>float\<close> compute it, and the functions of the C library that
    the program calls on text (\<open>strtod\<close>, \<open>strtoll\<close>, the printers, the character classes).
  \<^item> \<open>Json_Util\<close> (\<open>bridge/src/json_util.cpp\<close>), \<open>Robot_Text\<close> (the extractors at the top
    of \<open>sim/src/fake_robot.cpp\<close>).
  \<^item> \<open>Nav_Grid\<close>, \<open>Nav_Astar\<close>, \<open>Nav_Search\<close>, \<open>Nav_Track\<close>
    (\<open>sim/include/botcockpit_sim/nav.hpp\<close>): the grid and its inflation; the planner; its proof
    against the specification \<open>route\<close> and \<open>reachable\<close> (termination, correctness, completeness);
    path tracking.
  \<^item> \<open>Robot_State\<close>, \<open>Robot_Tick\<close>, \<open>Robot_Cmd\<close> (\<open>sim/src/fake_robot.cpp\<close>): the fields
    of \<open>FakeRobot\<close> and its helpers, the lifecycle, heartbeat and step callbacks, the command
    handler, and \<open>robot_step\<close>, the node as a whole. \<open>Robot_Frame\<close> says which fields each
    operation leaves alone; \<open>Robot_Safety\<close> has the safety invariant, \<open>Robot_Motion\<close> why every
    callback returns and the interpretation of \<open>step_system\<close>; \<open>Robot_Props\<close> and
    \<open>Robot_Rules\<close> state the properties.
  \<^item> \<open>Protocol\<close> (\<open>bridge/include/botcockpit_bridge/protocol.hpp\<close>), \<open>Tcp_Server\<close>
    (\<open>bridge/src/tcp_server.cpp\<close>) with the locale \<open>command_host\<close> for what the server relies on in
    its callbacks, \<open>Bridge_Node\<close> (\<open>bridge/src/bridge_node.cpp\<close>) with its interpretation and
    \<open>bridge_step\<close>, the process as a whole, and \<open>Bridge_Props\<close>. \<open>Bridge_Watch\<close>: which
    clients the watchdog shuts down. \<open>Bridge_Main\<close> (\<open>bridge/src/main.cpp\<close>): options, start, and
    the shutdown, which ends and closes everything.
  \<^item> \<open>Command_Path\<close>: the envelope as the robot reads it and the result as the bridge reads it;
    \<open>State_Path\<close>: the state message as the bridge reads it, relays it and acts on it.
  \<^item> \<open>Qt_Interface\<close>: what the console takes from Qt, as parameters, and a small instance.
    \<open>Console_State\<close> (\<open>ui/botcockpit/src/robotstate.cpp\<close>): the property object;
    \<open>Console_View\<close>: no property changes without its signal (\<open>tells\<close>), a state applied twice.
    \<open>Console_Tables\<close> (\<open>faulttablemodel.cpp\<close>, \<open>nodetablemodel.cpp\<close>): the table models and the
    order of the faults. \<open>Console_Worker\<close> (\<open>socketworker.cpp\<close>) and \<open>Console_Connection\<close>
    (\<open>connectioncontroller.cpp\<close>): the two threads, and \<open>console_step\<close>, the process as a whole.
    \<open>Console_Session\<close>: its invariant and the interpretation of \<open>step_system\<close>;
    \<open>Console_Rules\<close>: commands, reconnecting, the watchdog of the link.
  \<^item> \<open>Handshake\<close>: the hello and its answer, across the console and the bridge; \<open>Bridge_Talk\<close>: what a
    console hears of the bridge over a whole run; \<open>Operator_View\<close>: what the operator sees of the
    robot, from its state message to the properties of the console; this theory: the emergency stop and a command, across
    all three programs.
  \<^item> \<open>Command_Source\<close>, \<open>Whole_System\<close>, \<open>System_Demo\<close>: the robot, the bridge and any number
    of consoles as one transition relation (\<open>sys_step\<close>), joined by the topics and by TCP; the
    source of every command over all its runs; and a run of it, to the emergency stop.
  \<^item> \<open>State_Source\<close>, \<open>System_View\<close>, \<open>View_Demo\<close>: the way back in the same system: what a console
    shows of the robot is a state that the robot has published, or that there is none; and the run of
    \<open>System_Demo\<close> continued until the console shows the emergency stop.
  \<^item> \<open>Main_Programs\<close> (\<open>ui/botcockpit/src/main.cpp\<close>, \<open>sim/src/main.cpp\<close> and the destructors): how
    the console and the robot end, and the command that is lost when the console disconnects.

  \<^bold>\<open>Correspondence.\<close> A class is a record with the fields of the class, a method a function on
  it with the source's name where it is free; one definition per callback or loop body, split where
  the source has its comments. A loop or a call that need not return is a partial function, and
  that it returns is a theorem (\<open>astar_returns\<close>, \<open>heading_err_normalised\<close>,
  \<open>robot_never_hangs\<close>). Loops bounded by their data are structural. No fuel is used. Integers
  keep their width where they wrap: lengths, sequence numbers and the readings of the system clock are words.
  Counters that no run can bring near the end of their type are unbounded integers: the number of times the
  robot was stuck, the number of the next task, the attempts to reconnect; and so are the readings of the
  steady clock (nanoseconds in 64 bits).

  \<^bold>\<open>Concurrency.\<close> Every callback of the robot holds the node's mutex, so a callback is one
  step and the executor chooses the order. In the bridge a step is what one thread does between
  two points where another may run: a \<open>recv\<close> with its decoding, one frame of a batch, taking a job,
  one round of the wait for a result, a round of the watchdog, a ROS callback; the scheduler
  chooses the order. Atomic stores of one such piece are not separated further: the test of a client's descriptor and the
  sends of one frame are one step, so the race between them and a close, after which the number of the descriptor
  may belong to another connection, is not modelled; and the answer to a hello, the flag of the session and the
  first state are one step, although each of the two sends takes the lock for itself. In the console a
  step is one slot of one thread; calls to the worker and signals back go through Qt's queues,
  which are lists in the two states, and the scheduler chooses when their heads are delivered.

  \<^bold>\<open>Parameters and assumptions.\<close> The system clock is an arbitrary sequence of 64-bit
  readings, the steady clock an argument of the step that reads it. \<open>sin\<close>, \<open>cos\<close>, \<open>atan2\<close>
  and \<open>hypot\<close> are parameters; the properties that need the ranges of \<open>sin\<close> and \<open>atan2\<close> say so
  (\<open>libm_ok\<close>), and a concrete instance shows that this can hold. The kernel's answer to \<open>send\<close>
  is a parameter: it may take a part of what it is given, or fail. What is proved of a conversation, of one round of
  states and of the answer to a command holds for every such answer, and says that a frame is whole unless a
  call has failed (\<open>send_failed\<close>); the handshake and the rejection of a command in emergency stop assume that every call
  takes some bytes (\<open>sends_progress\<close>), and what the consoles of the whole system show that no frame is cut
  (\<open>sends_whole\<close>). Parameters are also the answers to \<open>socket\<close>, \<open>bind\<close> and \<open>listen\<close>. Conversions out of range and the contraction of floating-point expressions are
  those of x86-64 without fused operations. ROS delivers a message to the node whole or not at
  all; publishing appends to an outbox. Qt is the record \<open>qt\<close> (conversions, text, JSON, clock)
  and \<open>socket_api\<close> (the TCP socket, whose signals are events); the few laws a theorem needs are
  \<open>qt_laws\<close>, \<open>json_writes_hello\<close> and \<open>json_reads_ack\<close> for the two messages of the handshake, \<open>json_reads_state\<close> for
  a state message, \<open>buffers_writes\<close> for the write buffer of a socket, and \<open>sorts\<close>
  for \<open>std::sort\<close>, each with an instance. A \<open>QString\<close> is its UTF-8 bytes. The length field of a frame
  has 16 bits and nothing checks it when a frame is built: \<open>frame_ok\<close>, \<open>short_frames\<close> and \<open>short_reaches\<close>
  exclude payloads that it cannot count.

  \<^bold>\<open>Not modelled.\<close> Log output of the bridge and the robot; the socket options; the name, version and style of the
  console's application, and the names under which its QML reads the objects; the branches for callbacks, publishers
  and pointers that are never absent; destruction of the server while a detached client thread
  still runs. The QML files are declarative and stay out, as do
  the Python and shell tools. The whole system has no other publisher on the topics, no client of the bridge
  but the consoles, and one start of the server.
\<close>

section \<open>The emergency stop, from the socket to the robot and back\<close>

text \<open>An emergency stop that a client has put on the wire stops the robot and is confirmed. The step
  that handles its frame publishes an envelope; whatever payload it carries and whatever state
  the robot is in, the robot reads the envelope as an emergency stop, is in phase ESTOP without
  control when its callback returns, and publishes exactly one result; and that result, read by
  the bridge, takes the flag of the emergency stop down and gives the asynchronous ACK with the
  sequence number of the frame.\<close>

lemma estop_end_to_end:
  assumes "thread_of c s" and "c_batch (client_of s c) = f # fs" and "ftype f = MSG_CMD_ESTOP" and "result_pub r"
  shows "let s1 = bridge_step P s (Frame c) in
    \<exists>env r' js. b_cmds (s_host s1) = b_cmds (s_host s) @ [env] \<and>
      on_cmd E env r = Some r' \<and> estop r' \<and> phase r' = ''ESTOP'' \<and> \<not> control_enabled r' \<and>
      results (outbox r') = results (outbox r) @ [js] \<and>
      on_cmd_result js (s_host s1) =
        ((s_host s1)\<lparr>b_estop_raised := False, b_async_valid := False\<rparr>, Some (fseq f, js))"
proof -
  define env where "env = envelope ''CMD_ESTOP'' (fseq f) (fpayload f)"
  define s1 where "s1 = bridge_step P s (Frame c)"
  have s1: "s1 = client_frame P node_callbacks c s" using assms(1) by (simp add: s1_def bridge_step_def)
  have pub: "b_cmds (s_host s1) = b_cmds (s_host s) @ [env]"
    using bridge_host.frame_publishes [OF assms(2), of P] assms(3) by (simp add: s1 env_def)
  have reads: "extract_string env ''cmd'' = Some ''CMD_ESTOP''" "extract_seq env = fseq f"
    by (simp_all add: env_def envelope_seq) (rule envelope_cmd, simp add: plain_name_def dq_def bs_def)
  have o: "on_cmd E env r = Some (cmd_estop E (fseq f) r)" by (simp add: on_cmd_def reads)
  obtain cmd ok st re tid where
    js: "results (outbox (cmd_estop E (fseq f) r)) = results (outbox r) @ [result_json (fseq f) cmd ok st re tid]"
    using replied_branches(1) [OF assms(4), of "fseq f" E] by (auto simp: replied_def)
  have "b_async_valid (s_host s1)" "b_async_seq (s_host s1) = fseq f"
    using client_frame_effect(1) [OF assms(2), of P node_callbacks] assms(3)
    by (simp_all add: s1 node_callbacks_def urgent_estop_def publish_cmd_envelope_def)
  then have "on_cmd_result (result_json (fseq f) cmd ok st re tid) (s_host s1) =
      ((s_host s1)\<lparr>b_estop_raised := False, b_async_valid := False\<rparr>, Some (fseq f, result_json (fseq f) cmd ok st re tid))"
    by (simp add: on_cmd_result_def result_seq Let_def)
  moreover have "estop (cmd_estop E (fseq f) r)" "phase (cmd_estop E (fseq f) r) = ''ESTOP''"
    "\<not> control_enabled (cmd_estop E (fseq f) r)" by (simp_all add: cmd_estop_def Let_def)
  ultimately show ?thesis using pub o js unfolding s1_def [symmetric] Let_def by blast
qed

definition estop_thread :: "(bridge, wait) server" where
  "estop_thread = demo_bridge [demo_frame MSG_CMD_ESTOP 2]"

lemma estop_end_to_end_witness:
  "\<exists>env r'. b_cmds (s_host (bridge_step demo_platform estop_thread (Frame 0))) = b_cmds (s_host estop_thread) @ [env] \<and>
     on_cmd any_env env ready_robot = Some r' \<and> phase r' = ''ESTOP''"
proof -
  have "thread_of 0 estop_thread" "c_batch (client_of estop_thread 0) = demo_frame MSG_CMD_ESTOP 2 # []"
    "ftype (demo_frame MSG_CMD_ESTOP 2) = MSG_CMD_ESTOP" "result_pub ready_robot"
    by (simp_all add: thread_of_def estop_thread_def demo_bridge_def client_of_def new_client_def demo_frame_def ready_robot_def)
  from estop_end_to_end [OF this, of demo_platform any_env] show ?thesis by (auto simp: Let_def)
qed

section \<open>From the console to the robot\<close>

text \<open>C5: The emergency stop button of the console stops the robot. After any run of the console, in an
  accepted session with a connected socket and no call waiting, the user's click and the worker's
  turn write one frame to the socket, with a number that is not 0 and under which the answer is
  expected. However TCP cuts those bytes, the bridge decodes exactly that frame; and when the
  bridge handles it, whatever state it is in, it publishes a command on which the robot, whatever
  it is doing, goes to ESTOP without control, answering with one result that the bridge takes as
  the answer to that number.\<close>

theorem estop_button_stops_robot:
  assumes "c = console_run Q srt S so es" and "k_hello_ok (cn_ctl c)" and "k_calls (cn_ctl c) = []"
    and "so_state S (w_socket (cn_worker c)) = ConnectedState" and "length (j_compact Q [''reason'' \<mapsto> j_of_string Q reason]) \<le> 65532"
  shows "let w = cn_worker (foldl (console_step Q srt S) c [User (UserEstop reason), DeliverCall]) in
    \<exists>f bs. w_tx w = w_tx (cn_worker c) @ [bs] \<and> fseq f \<noteq> 0 \<and> w_pending_cmd_name w (fseq f) = Some ''CMD_ESTOP'' \<and>
      (\<forall>chunks. concat chunks = bs \<longrightarrow> feed_all decoder_drain [] chunks = ([f], [])) \<and>
      (\<forall>t s fs r. thread_of t s \<and> c_batch (client_of s t) = f # fs \<and> result_pub r \<longrightarrow>
        (\<exists>env r' js. b_cmds (s_host (bridge_step P s (Frame t))) = b_cmds (s_host s) @ [env] \<and>
           on_cmd E env r = Some r' \<and> estop r' \<and> phase r' = ''ESTOP'' \<and> \<not> control_enabled r' \<and>
           results (outbox r') = results (outbox r) @ [js] \<and>
           snd (on_cmd_result js (s_host (bridge_step P s (Frame t)))) = Some (fseq f, js)))"
proof -
  let ?k = "cn_ctl c" let ?w = "cn_worker c"
  have inv: "console_inv c" unfolding assms(1) by (rule console_run_inv)
  then have conn: "v_connected (k_view ?k)" and sq: "w_next_seq ?w \<noteq> 0"
    using assms(2) seq_at_nonzero by (auto simp: console_inv_def session_inv_def numbered_def)
  define f where "f = \<lparr>ftype = MSG_CMD_ESTOP, fflags = or ui_FLAG_URGENT ui_FLAG_NEED_ACK, fseq = w_next_seq ?w,
    fpayload = j_compact Q [''reason'' \<mapsto> j_of_string Q reason]\<rparr>"
  define w where "w = cn_worker (foldl (console_step Q srt S) c [User (UserEstop reason), DeliverCall])"
  have calls: "k_calls (user_step Q (UserEstop reason) ?k) = [WorkerCmdEstop reason]"
    using command_calls(2) [OF call_of.simps(4) conn] assms(3) by simp
  have w: "w = send_cmd_estop Q S reason ?w"
    using calls by (simp add: w_def)
  have tx: "w_tx w = w_tx ?w @ [encode f]" "w_pending_cmd_name w (fseq f) = Some ''CMD_ESTOP''"
    using assms(4) sq by (simp_all add: w send_cmd_estop_def worker_send_def take_seq_def w_write_def note_cmd_def
        f_def encode_def ui_encode_frame_eq ui_MSG_CMD_ESTOP_def MSG_CMD_ESTOP_def Let_def)
  have ok: "frame_ok f" using assms(5) by (simp add: frame_ok_def f_def)
  have nil: "decoder_drain [] = ([], [])" by (subst decoder_drain.simps) (simp add: decoder_next_def)
  have "feed_all decoder_drain [] chunks = ([f], [])" if "concat chunks = encode f" for chunks
    using bridge_codec.feed_all_stream [of "[f]" f "[]" "[]" chunks] ok nil that bridge_codec.enc_nonempty [of f]
    by (simp add: strict_prefix_def)
  moreover have "\<exists>env r' js. b_cmds (s_host (bridge_step P s (Frame t))) = b_cmds (s_host s) @ [env] \<and>
      on_cmd E env r = Some r' \<and> estop r' \<and> phase r' = ''ESTOP'' \<and> \<not> control_enabled r' \<and>
      results (outbox r') = results (outbox r) @ [js] \<and>
      snd (on_cmd_result js (s_host (bridge_step P s (Frame t)))) = Some (fseq f, js)"
    if "thread_of t s" "c_batch (client_of s t) = f # fs" "result_pub r" for t s fs r
    using estop_end_to_end [OF that(1,2) _ that(3), of P E] by (fastforce simp: f_def Let_def)
  ultimately show ?thesis unfolding w_def [symmetric] Let_def
    using tx sq by (intro exI [of _ f] exI [of _ "encode f"]) (auto simp: f_def)
qed

text \<open>A bridge that accepts the handshake in its first answer.\<close>

definition accepting_socket :: "sock_state socket_api" where
  "accepting_socket = plain_socket\<lparr>so_read_all := (\<lambda>so.
     (ui_encode \<lparr>ui_type = ui_MSG_HELLO_ACK, ui_flags = 0, ui_seq = 1, ui_payload = ''ok''\<rparr>, so))\<rparr>"

definition handshake :: "sock_state console_event list" where
  "handshake = [User (UserConnect ''robot'' 8765), DeliverCall, Loop_Event (SockConnected ConnectedState),
     DeliverSignal, Loop_Event (SockReadyRead ConnectedState), DeliverSignal]"

theorem estop_button_stops_robot_witness:
  "let w = cn_worker (foldl (console_step tree_qt insertion_sort accepting_socket)
        (console_run tree_qt insertion_sort accepting_socket UnconnectedState handshake)
        [User (UserEstop ''operator''), DeliverCall]) in
     \<exists>f :: frame. fseq f \<noteq> 0 \<and> w_pending_cmd_name w (fseq f) = Some ''CMD_ESTOP''"
proof -
  let ?c = "console_run tree_qt insertion_sort accepting_socket UnconnectedState handshake"
  let ?f = "\<lparr>ui_type = ui_MSG_HELLO_ACK, ui_flags = 0, ui_seq = 1, ui_payload = ''ok''\<rparr>"
  have "ui_drain [] = ([], [])" by (subst ui_drain.simps) (simp add: ui_decoder_next_def)
  then have d: "ui_drain (ui_encode ?f) = ([?f], [])"
    using ui_codec.drain_frame [of ?f "[]"] by (simp add: ui_frame_ok_def)
  have so: "so_state accepting_socket = (\<lambda>so. so)" "so_connect accepting_socket = (\<lambda>_ _ _. ConnectingState)"
    "so_write accepting_socket = (\<lambda>_ so. so)" "so_read_all accepting_socket = (\<lambda>so. (ui_encode ?f, so))"
    by (simp_all add: accepting_socket_def plain_socket_def)
  have app: "ui_decoder_append [] (Some x) = x" for x by (simp add: ui_decoder_append_def)
  have ack: "to_bool tree_qt (val tree_qt (hello_info tree_qt (j_object tree_qt ''ok'')) ''ok'')"
    by (simp add: hello_info_def val_def jval_def tree_qt_def)
  have v: "v_connected init_view = False" "v_connecting init_view = False" by (simp_all add: init_view_def)
  have c: "k_hello_ok (cn_ctl ?c) \<and> k_calls (cn_ctl ?c) = [] \<and> w_socket (cn_worker ?c) = ConnectedState"
    by (simp add: console_run_def handshake_def init_console_def init_controller_def init_worker_def v so d
        connect_to_server_def on_view_def log_text_def k_emit_def connect_to_host_def now_u64_def current_msecs_def
        on_socket_connected_def w_emit_def worker_send_def take_seq_def w_write_def on_connected_def on_ready_read_def
        ui_decoder_clear_def app worker_frame_def ack on_hello_ack_def Let_def)
  have "length (j_compact tree_qt [''reason'' \<mapsto> j_of_string tree_qt ''operator'']) \<le> 65532" by (simp add: tree_qt_def)
  from estop_button_stops_robot [OF refl conjunct1 [OF c] conjunct1 [OF conjunct2 [OF c]] _ this] conjunct2 [OF conjunct2 [OF c]]
  show ?thesis unfolding Let_def so by blast
qed

section \<open>A command and its answer\<close>

text \<open>C16: The answer to a command is the robot's own, unless it comes too late or an emergency stop is up. A
  command that the worker has taken from the queue and waits for has been published; the robot takes
  the envelope for that command and publishes one result. Whatever happens until the bridge reads that result,
  in a state in which the worker still waits for it and no emergency stop awaits its answer under
  the same number, and whatever happens after that without the number being used again: the
  worker's next turn that finds the wait over ends it and sends the client, under the number of the
  command, the rejection \<open>timeout\<close> when two seconds have passed since the command was
  published, the rejection \<open>estop_active\<close> when the flag of an emergency stop is up, and otherwise
  exactly the robot's result; the frame is whole unless a send takes no byte.\<close>

theorem command_answer_reaches_client:
  assumes "bridge_inv s" and "s_queue s = j # js" and "s_waiting s = None" and "j_cmd j = msg_type_name ty"
    and "s1 = bridge_step P s (Worker t)" and "s_waiting s1 = Some (j, w)"
    and "result_pub r" and "on_cmd E (envelope (j_cmd j) (j_seq j) (j_payload j)) r = Some r'"
    and "results (outbox r') = results (outbox r) @ [res]"
    and "run_steps (\<lambda>s e. Some (bridge_step P s e)) s1 es = Some s2" and "s_waiting s2 = Some (j, w)"
    and "\<not> (b_async_valid (s_host s2) \<and> b_async_seq (s_host s2) = j_seq j)"
    and "run_steps (\<lambda>s e. Some (bridge_step P s e)) (bridge_step P s2 (Cmd_Result res)) es' = Some s3" and "s_waiting s3 = Some (j, w)"
    and "b_pending (s_host s3) (j_seq j) = b_pending (s_host (bridge_step P s2 (Cmd_Result res))) (j_seq j)"
  shows "b_cmds (s_host s1) = b_cmds (s_host s) @ [envelope (j_cmd j) (j_seq j) (j_payload j)] \<and>
    (let ack = (if t + 2000 \<le> t' then rejection (j_seq j) (j_cmd j) ''timeout''
          else if b_estop_raised (s_host s3) then rejection (j_seq j) (j_cmd j) ''estop_active'' else res);
        whole = encode \<lparr>ftype = MSG_CMD_ACK, fflags = 0, fseq = j_seq j, fpayload = ack\<rparr>;
        cl = client_of s3 (j_client j); s4 = bridge_step P s3 (Worker t')
     in s_waiting s4 = None \<and> (\<exists>taken. c_sent (client_of s4 (j_client j)) = c_sent cl @ taken \<and>
       (if c_fd cl \<ge> 0 then prefix taken whole \<and> (taken = whole \<or> send_failed P (s_sends s3) (s_sends s4)) else taken = [])))"
proof -
  obtain k b where h: "handle_command (p_clock P) (s_reads s) t (j_cmd j) (j_seq j) (j_payload j) (s_host s) = (Inr w, k, b)"
    and host: "s_host s1 = b"
    using assms(2,3,6) unfolding assms(5)
    by (auto simp: bridge_step_def worker_step_def worker_take_def node_callbacks_def Let_def split: if_splits prod.splits sum.splits)
  note h = waits_only_if_admitted(3,4) [OF h]
  have c: "extract_string (envelope (j_cmd j) (j_seq j) (j_payload j)) ''cmd'' = Some (j_cmd j)"
    unfolding assms(4) by (rule envelope_cmd) (rule plain_command_names)
  from on_cmd_replied [OF assms(7) c assms(8)] assms(9) obtain cmd ok st re tid where res: "res = result_json (j_seq j) cmd ok st re tid"
    by (auto simp: replied_def envelope_seq)
  have "wait_inv s1" unfolding assms(5) by (rule wait_inv_step [OF wait_inv_start [OF assms(1,3)]])
  then have i2: "wait_inv s2" by (rule wait_run [OF _ assms(10)])
  then have i3: "wait_inv s3" by (rule wait_run [OF wait_inv_step assms(13)])
  have w: "w_seq w = j_seq j" "w_cmd w = j_cmd j" "w_deadline w = t + 2000" using h(1) by (simp_all add: ACK_TIMEOUT_MS_def)
  obtain pc where "b_pending (s_host s2) (j_seq j) = Some pc" using i2 assms(11) by (auto simp: wait_inv_def)
  then have p: "b_pending (s_host s3) (j_seq j) = Some (pc\<lparr>pc_ack_json := res, pc_done := True\<rparr>)"
    using assms(12) unfolding assms(15) by (auto simp: bridge_step_def ros_result_def on_cmd_result_def res result_seq Let_def)
  define ack where "ack = (if t + 2000 \<le> t' then rejection (j_seq j) (j_cmd j) ''timeout''
    else if b_estop_raised (s_host s3) then rejection (j_seq j) (j_cmd j) ''estop_active'' else res)"
  let ?s = "s3\<lparr>s_host := forget (j_seq j) (s_host s3), s_waiting := None\<rparr>"
  have "wait_round t' w (s_host s3) = (Some ack, forget (j_seq j) (s_host s3))"
    using p by (simp add: wait_round_def w ack_def)
  then have s4: "bridge_step P s3 (Worker t') = send_to P (j_client j) MSG_CMD_ACK (j_seq j) ack ?s"
    using assms(14) by (simp add: bridge_step_def worker_step_def worker_poll_def node_callbacks_def)
  have cl: "client_of ?s i = client_of s3 i" "j_client j < length (s_objs ?s)" "s_sends ?s = s_sends s3" for i
    using i3 assms(14) by (simp_all add: client_of_def wait_inv_def)
  have "\<exists>taken. c_sent (client_of (bridge_step P s3 (Worker t')) (j_client j)) = c_sent (client_of s3 (j_client j)) @ taken \<and>
      (if c_fd (client_of s3 (j_client j)) \<ge> 0 then prefix taken (encode_frame MSG_CMD_ACK 0 (j_seq j) ack) \<and>
         (taken = encode_frame MSG_CMD_ACK 0 (j_seq j) ack \<or> send_failed P (s_sends s3) (s_sends (bridge_step P s3 (Worker t'))))
       else taken = [])"
  proof (cases "c_fd (client_of s3 (j_client j)) \<ge> 0")
    case True
    then have fd: "c_fd (client_of ?s (j_client j)) \<ge> 0" using cl(1) by simp
    obtain taken where "client_of (send_to P (j_client j) MSG_CMD_ACK (j_seq j) ack ?s) (j_client j) =
        (client_of s3 (j_client j))\<lparr>c_sent := c_sent (client_of s3 (j_client j)) @ taken\<rparr>"
      "prefix taken (encode_frame MSG_CMD_ACK 0 (j_seq j) ack)"
      "taken = encode_frame MSG_CMD_ACK 0 (j_seq j) ack \<or>
        send_failed P (s_sends s3) (s_sends (send_to P (j_client j) MSG_CMD_ACK (j_seq j) ack ?s))"
      using send_to_part [OF cl(2) fd] unfolding cl(1,3) by blast
    then show ?thesis unfolding s4 using True by (intro exI [of _ taken]) simp
  next
    case False
    then show ?thesis unfolding s4 using send_to_closed [of ?s "j_client j" P] cl(1) by simp
  qed
  note sent = this
  have e: "encode_frame MSG_CMD_ACK 0 (j_seq j) ack = encode \<lparr>ftype = MSG_CMD_ACK, fflags = 0, fseq = j_seq j, fpayload = ack\<rparr>"
    by (simp add: encode_def)
  have "s_waiting (bridge_step P s3 (Worker t')) = None" by (simp add: s4)
  moreover have "b_cmds (s_host s1) = b_cmds (s_host s) @ [envelope (j_cmd j) (j_seq j) (j_payload j)]"
    using h(2) host by (simp add: publish_cmd_envelope_def)
  ultimately show ?thesis unfolding Let_def ack_def [symmetric] using sent unfolding e by blast
qed


text \<open>A reset without confirmation, which the robot refuses.\<close>

definition reset_job :: job where
  "reset_job = \<lparr>j_client = 0, j_seq = 9, j_cmd = ''CMD_RESET'', j_payload = ''{}''\<rparr>"

definition reset_bridge :: "(bridge, wait) server" where
  "reset_bridge = demo_bridge []\<lparr>s_host := init_bridge\<lparr>b_last_state_ms := 99500\<rparr>\<rparr>"

definition refused_reset :: string where
  "refused_reset = result_json 9 ''CMD_RESET'' False ''REJECTED'' ''confirm_required'' []"

theorem command_answer_reaches_client_witness:
  "let s1 = bridge_step demo_platform reset_bridge (Worker 0); s2 = bridge_step demo_platform s1 (Robot_State []);
     s3 = bridge_step demo_platform s2 (Cmd_Result refused_reset); s4 = bridge_step demo_platform s3 (Worker 100)
   in (\<exists>r'. on_cmd any_env (envelope ''CMD_RESET'' 9 ''{}'') ready_robot = Some r' \<and>
        results (outbox r') = results (outbox ready_robot) @ [refused_reset]) \<and>
      c_sent (client_of s4 0) = c_sent (client_of s3 0) @
        encode \<lparr>ftype = MSG_CMD_ACK, fflags = 0, fseq = 9, fpayload = refused_reset\<rparr>"
proof -
  define s1 where "s1 = bridge_step demo_platform reset_bridge (Worker 0)"
  define s2 where "s2 = bridge_step demo_platform s1 (Robot_State [])"
  define s2' where "s2' = bridge_step demo_platform s2 (Cmd_Result refused_reset)"
  define w where "w = \<lparr>w_seq = 9, w_cmd = ''CMD_RESET'', w_deadline = 2000\<rparr>"
  have s: "bridge_inv reset_bridge" "s_queue reset_bridge = reset_job # []" "s_waiting reset_bridge = None"
    "j_cmd reset_job = msg_type_name MSG_CMD_RESET"
    using demo_bridge_inv [of "[]"] by (simp_all add: reset_bridge_def) (simp_all add: demo_bridge_def reset_job_def init_server_def)
  have w1: "s_waiting s1 = Some (reset_job, w)" and h1: "\<not> b_estop_raised (s_host s1)" "\<not> b_async_valid (s_host s1)"
    and c1: "c_fd (client_of s1 0) = 5" "length (s_objs s1) = 1"
    by (simp_all add: s1_def bridge_step_def worker_step_def worker_take_def reset_bridge_def demo_bridge_def reset_job_def w_def Let_def
        init_server_def client_of_def new_client_def node_callbacks_def handle_command_def robot_state_fresh_def init_bridge_def
        demo_platform_def HB_TIMEOUT_MS_def ACK_TIMEOUT_MS_def estop_guarded_def publish_cmd_envelope_def)
  have w2: "s_waiting s2 = Some (reset_job, w)" "s_waiting s2' = Some (reset_job, w)"
    using other_steps_wait [of "Robot_State []" demo_platform s1] other_steps_wait [of "Cmd_Result refused_reset" demo_platform s2] w1
    by (simp_all add: s2_def s2'_def)
  have h2: "\<not> b_estop_raised (s_host s2)" "\<not> b_async_valid (s_host s2)" "s_objs s2 = s_objs s1"
    using h1 by (simp_all add: s2_def bridge_step_def ros_state_def s_now_def on_robot_state_def)
  have "extract_bool (envelope ''CMD_RESET'' 9 ''{}'') ''confirm'' \<noteq> Some True" by code_simp
  moreover have "extract_string (envelope ''CMD_RESET'' 9 ''{}'') ''cmd'' = Some ''CMD_RESET''"
    by (rule envelope_cmd) (simp add: plain_name_def dq_def bs_def)
  ultimately have o: "on_cmd any_env (envelope ''CMD_RESET'' 9 ''{}'') ready_robot =
      Some (reject 9 ''CMD_RESET'' ''confirm_required'' [] ready_robot)"
    by (simp add: on_cmd_def cmd_reset_def envelope_seq)
  have r: "results (outbox (reject 9 ''CMD_RESET'' ''confirm_required'' [] ready_robot)) = results (outbox ready_robot) @ [refused_reset]"
    "result_pub ready_robot"
    by (simp_all add: reject_def publish_cmd_result_def ready_robot_def init_robot_def refused_reset_def)
  have j: "j_cmd reset_job = ''CMD_RESET''" "j_seq reset_job = 9" "j_payload reset_job = ''{}''" "j_client reset_job = 0"
    by (simp_all add: reset_job_def)
  have run: "run_steps (\<lambda>s e. Some (bridge_step demo_platform s e)) s1 [Robot_State []] = Some s2"
    "run_steps (\<lambda>s e. Some (bridge_step demo_platform s e)) s2' [] = Some s2'" by (simp_all add: s2_def)
  have async: "\<not> (b_async_valid (s_host s2) \<and> b_async_seq (s_host s2) = j_seq reset_job)" using h2 by simp
  have h3: "\<not> b_estop_raised (s_host s2') \<and> s_objs s2' = s_objs s1" using h2
    by (auto simp: s2'_def bridge_step_def ros_result_def complete_async_ack_def on_cmd_result_def Let_def split: prod.splits option.splits)
  note a = command_answer_reaches_client [OF s s1_def w1 r(2), unfolded j, OF o r(1) run(1) w2(1) async [unfolded j]
    run(2) [unfolded s2'_def], folded s2'_def, OF w2(2) refl, of 100, unfolded Let_def, THEN conjunct2]
  have never: "\<not> send_failed demo_platform k k'" for k k' by (simp add: send_failed_def demo_platform_def)
  have "c_sent (client_of (bridge_step demo_platform s2' (Worker 100)) 0) = c_sent (client_of s2' 0) @
      encode \<lparr>ftype = MSG_CMD_ACK, fflags = 0, fseq = 9, fpayload = refused_reset\<rparr>"
    using a h3 never c1 by (simp add: client_of_def)
  with o r(1) show ?thesis unfolding Let_def s1_def [symmetric] s2_def [symmetric] s2'_def [symmetric] by blast
qed

end
